(* ===== verification/Prelude.thy ===== *)
theory Prelude
  imports Main
begin

text \<open>
  Shared vocabulary of the development: the machine integers of the C and C++ code as
  mathematical integers with the wrap-around written out, the outcome types, and the generic
  list lemmas that several components use.

  \<^item> \<open>u32\<close>, \<open>u64\<close>: conversion to \<open>unsigned int\<close> and \<open>uint64_t\<close>;
  \<^item> \<open>i32\<close>, \<open>i64\<close>: conversion to \<open>int\<close> and \<open>int64_t\<close> (two's complement; signed overflow is
    given the wrapping reading that the compilers the project uses implement).
\<close>

section \<open>Machine integers\<close>

definition u32 :: "int \<Rightarrow> int" where
  "u32 x = x mod 4294967296"

definition u64 :: "int \<Rightarrow> int" where
  "u64 x = x mod 18446744073709551616"

definition i32 :: "int \<Rightarrow> int" where
  "i32 x = (x + 2147483648) mod 4294967296 - 2147483648"

definition i64 :: "int \<Rightarrow> int" where
  "i64 x = (x + 9223372036854775808) mod 18446744073709551616 - 9223372036854775808"

abbreviation INT64_MAX :: int where
  "INT64_MAX \<equiv> 9223372036854775807"

abbreviation UINT_MAX :: int where
  "UINT_MAX \<equiv> 4294967295"

definition in_i64 :: "int \<Rightarrow> bool" where
  "in_i64 x \<longleftrightarrow> - 9223372036854775808 \<le> x \<and> x \<le> INT64_MAX"

named_theorems machine_int \<open>the definitions of the machine integer conversions\<close>

lemmas [machine_int] = u32_def u64_def i32_def i64_def in_i64_def

lemma i64_id [simp]: "in_i64 x \<Longrightarrow> i64 x = x"
  by (simp add: machine_int)

lemma i64_range [simp]: "in_i64 (i64 x)"
  by (simp add: machine_int)

lemma u64_id [simp]: "0 \<le> x \<Longrightarrow> x < 18446744073709551616 \<Longrightarrow> u64 x = x"
  by (simp add: machine_int)

lemma u32_id [simp]: "0 \<le> x \<Longrightarrow> x \<le> UINT_MAX \<Longrightarrow> u32 x = x"
  by (simp add: machine_int)

lemma u32_range: "0 \<le> u32 x" "u32 x \<le> UINT_MAX"
  by (simp_all add: machine_int)

lemma u64_range: "0 \<le> u64 x" "u64 x < 18446744073709551616"
  by (simp_all add: machine_int)

lemma i64_mod_eq: "i64 x = i64 y \<longleftrightarrow> x mod 18446744073709551616 = y mod 18446744073709551616"
  unfolding i64_def by (simp add: mod_eq_dvd_iff)

lemma i64_mod [simp]: "i64 x mod 18446744073709551616 = x mod 18446744073709551616"
  unfolding i64_def by (simp add: mod_diff_left_eq)

lemma i64_add_left [simp]: "i64 (i64 x + y) = i64 (x + y)"
  using mod_add_left_eq [of "i64 x" 18446744073709551616 y] mod_add_left_eq [of x 18446744073709551616 y]
  by (simp add: i64_mod_eq)

lemma i64_add_right [simp]: "i64 (x + i64 y) = i64 (x + y)"
  using i64_add_left [of y x] by (simp add: add.commute)

lemma i64_diff_left [simp]: "i64 (i64 x - y) = i64 (x - y)"
  using mod_diff_left_eq [of "i64 x" 18446744073709551616 y] mod_diff_left_eq [of x 18446744073709551616 y]
  by (simp add: i64_mod_eq)

lemma i64_diff_right [simp]: "i64 (x - i64 y) = i64 (x - y)"
  using mod_diff_right_eq [of x "i64 y" 18446744073709551616] mod_diff_right_eq [of x y 18446744073709551616]
  by (simp add: i64_mod_eq)

lemma i64_i64 [simp]: "i64 (i64 x) = i64 x"
  by simp

section \<open>Lists\<close>

lemma sorted_wrt_append_iff:
  "sorted_wrt P (xs @ ys) \<longleftrightarrow>
     sorted_wrt P xs \<and> sorted_wrt P ys \<and> (\<forall>x\<in>set xs. \<forall>y\<in>set ys. P x y)"
  by (simp add: sorted_wrt_append)

lemma nth_map2 [simp]:
  "i < length xs \<Longrightarrow> i < length ys \<Longrightarrow> map2 f xs ys ! i = f (xs ! i) (ys ! i)"
  by simp

lemma filter_remove_distinct:
  "distinct xs \<Longrightarrow> filter (\<lambda>y. y \<noteq> x) xs = remove1 x xs"
  by (simp add: distinct_remove1_removeAll removeAll_filter_not_eq eq_commute)

lemma filter_neq_absent: "x \<notin> set xs \<Longrightarrow> filter (\<lambda>y. y \<noteq> x) xs = xs"
  by (induction xs) auto

text \<open>The element after \<open>x\<close> in a list, if any: what \<open>rb_next\<close> computes on the tree.\<close>

fun next_in :: "'a \<Rightarrow> 'a list \<Rightarrow> 'a option" where
  "next_in x [] = None"
| "next_in x (y # ys) =
     (if x = y then (case ys of [] \<Rightarrow> None | z # _ \<Rightarrow> Some z) else next_in x ys)"

lemma next_in_split:
  "x \<notin> set xs \<Longrightarrow> next_in x (xs @ x # ys) = (case ys of [] \<Rightarrow> None | z # _ \<Rightarrow> Some z)"
  by (induction xs) auto

section \<open>Decimal numbers\<close>

text \<open>What \<open>std::ostream\<close> and \<open>to_string\<close> write for an integer.\<close>

definition digit :: "nat \<Rightarrow> char" where
  "digit n = char_of (48 + n)"

fun show_nat :: "nat \<Rightarrow> string" where
  "show_nat n = (if n < 10 then [digit n] else show_nat (n div 10) @ [digit (n mod 10)])"

declare show_nat.simps [simp del]

definition show_int :: "int \<Rightarrow> string" where
  "show_int n = (if n < 0 then CHR ''-'' # show_nat (nat (- n)) else show_nat (nat n))"

definition read_nat :: "string \<Rightarrow> nat" where
  "read_nat s = foldl (\<lambda>a c. 10 * a + (of_char c - 48)) 0 s"

definition read_int :: "string \<Rightarrow> int" where
  "read_int s = (case s of c # cs \<Rightarrow> if c = CHR ''-'' then - int (read_nat cs) else int (read_nat s) | [] \<Rightarrow> 0)"

lemma read_show_nat [simp]: "read_nat (show_nat n) = n"
proof (induction n rule: show_nat.induct)
  case (1 n)
  show ?case
  proof (cases "n < 10")
    case True
    then show ?thesis by (simp add: show_nat.simps read_nat_def digit_def)
  next
    case False
    with 1 show ?thesis by (simp add: show_nat.simps [of n] read_nat_def digit_def)
  qed
qed

lemma digit_neq_minus: "n < 10 \<Longrightarrow> digit n \<noteq> CHR ''-''"
proof
  assume n: "n < 10" and "digit n = CHR ''-''"
  then have "of_char (digit n) = (of_char (CHR ''-'') :: nat)" by simp
  with n show False by (simp add: digit_def)
qed

lemma show_nat_hd: "\<exists>c cs. show_nat n = c # cs \<and> c \<noteq> CHR ''-''"
proof (induction n rule: show_nat.induct)
  case (1 n)
  then show ?case using digit_neq_minus [of n] by (cases "n < 10") (auto simp: show_nat.simps [of n])
qed

lemma read_show_int [simp]: "read_int (show_int n) = n"
proof (cases "n < 0")
  case True
  then show ?thesis by (simp add: read_int_def show_int_def)
next
  case False
  obtain c cs where c: "show_nat (nat n) = c # cs" "c \<noteq> CHR ''-''" using show_nat_hd by blast
  then have "read_nat (c # cs) = nat n" by (metis read_show_nat)
  with c False show ?thesis by (simp add: read_int_def show_int_def)
qed

lemma show_nat_inj [simp]: "show_nat m = show_nat n \<longleftrightarrow> m = n"
  by (metis read_show_nat)

lemma show_int_inj [simp]: "show_int m = show_int n \<longleftrightarrow> m = n"
  by (metis read_show_int)

end
