(* ===== verification/RBTree.thy ===== *)
theory RBTree
  imports Prelude
begin

text \<open>
  The red-black trees of \<open>planner/rbtree.c\<close> and \<open>planner/rbtree_augmented.h\<close>, with the
  augmentation callbacks of \<open>struct rb_augment_callbacks\<close>.

  A tree of embedded \<open>struct rb_node\<close>s is a value of \<open>('k, 'g) rbt\<close>: \<open>'k\<close> is the object the node
  is embedded in, \<open>'g\<close> its augmented field (for example \<open>subtree_min\<close>). The parent pointers are
  the zipper \<open>('k, 'g) crumb list\<close> that leads from a node to the root: the loops of the C code
  that climb through \<open>rb_parent\<close> recurse over that list. All three callbacks (propagate, copy,
  rotate) are determined by the function \<open>cmp\<close> that recomputes the augmented field of a node from
  the fields of its children; the non-augmented entry points are the instance with \<open>'g = unit\<close>.
\<close>

section \<open>Trees and zippers\<close>

datatype rb_color = RB_RED | RB_BLACK

datatype ('k, 'g) rbt =
    RbNil
  | RbNode rb_color "('k, 'g) rbt" 'k 'g "('k, 'g) rbt"

datatype ('k, 'g) crumb =
    InLeft rb_color 'k 'g "('k, 'g) rbt"
  | InRight rb_color "('k, 'g) rbt" 'k 'g

type_synonym ('k, 'g) compute = "'k \<Rightarrow> 'g option \<Rightarrow> 'g option \<Rightarrow> 'g"

fun rb_aug :: "('k, 'g) rbt \<Rightarrow> 'g option" where
  "rb_aug RbNil = None"
| "rb_aug (RbNode c l k g r) = Some g"

fun rb_is_red :: "('k, 'g) rbt \<Rightarrow> bool" where
  "rb_is_red RbNil = False"
| "rb_is_red (RbNode c l k g r) = (c = RB_RED)"

fun rb_set_color :: "rb_color \<Rightarrow> ('k, 'g) rbt \<Rightarrow> ('k, 'g) rbt" where
  "rb_set_color c RbNil = RbNil"
| "rb_set_color c (RbNode _ l k g r) = RbNode c l k g r"

fun crumb_color :: "('k, 'g) crumb \<Rightarrow> rb_color" where
  "crumb_color (InLeft c k g r) = c"
| "crumb_color (InRight c l k g) = c"

fun zip_one :: "('k, 'g) rbt \<Rightarrow> ('k, 'g) crumb \<Rightarrow> ('k, 'g) rbt" where
  "zip_one t (InLeft c k g r) = RbNode c t k g r"
| "zip_one t (InRight c l k g) = RbNode c l k g t"

fun zip_up :: "('k, 'g) rbt \<Rightarrow> ('k, 'g) crumb list \<Rightarrow> ('k, 'g) rbt" where
  "zip_up t [] = t"
| "zip_up t (x # ps) = zip_up (zip_one t x) ps"

fun inorder :: "('k, 'g) rbt \<Rightarrow> 'k list" where
  "inorder RbNil = []"
| "inorder (RbNode c l k g r) = inorder l @ k # inorder r"

fun left_of :: "('k, 'g) crumb list \<Rightarrow> 'k list" where
  "left_of [] = []"
| "left_of (InLeft c k g r # ps) = left_of ps"
| "left_of (InRight c l k g # ps) = left_of ps @ inorder l @ [k]"

fun right_of :: "('k, 'g) crumb list \<Rightarrow> 'k list" where
  "right_of [] = []"
| "right_of (InLeft c k g r # ps) = k # inorder r @ right_of ps"
| "right_of (InRight c l k g # ps) = right_of ps"

text \<open>
  The position of a node: the C code holds a pointer to the embedded node; here the node of
  object \<open>k\<close> is found by walking the tree, and the path back to the root comes with it.
\<close>

fun rb_locate :: "'k \<Rightarrow> ('k, 'g) rbt \<Rightarrow> ('k, 'g) crumb list \<Rightarrow>
    (('k, 'g) rbt \<times> ('k, 'g) crumb list) option" where
  "rb_locate k RbNil ps = None"
| "rb_locate k (RbNode c l x g r) ps =
     (if x = k then Some (RbNode c l x g r, ps)
      else (case rb_locate k l (InLeft c x g r # ps) of
              Some z \<Rightarrow> Some z
            | None \<Rightarrow> rb_locate k r (InRight c l x g # ps)))"

section \<open>Insertion\<close>

text \<open>
  Case 3 of \<open>__rb_insert\<close>: a rotation at the grandparent. \<open>rotate_right cmp gc n pk g t gk u\<close>: the
  parent \<open>pk\<close> with left child \<open>n\<close> and right child \<open>t\<close> takes the place, the colour \<open>gc\<close> and the
  augmented field \<open>g\<close> of its parent \<open>gk\<close> whose right child is \<open>u\<close>. \<open>rotate_left\<close> is the mirror image.
\<close>

definition rotate_right :: "('k, 'g) compute \<Rightarrow> rb_color \<Rightarrow> ('k, 'g) rbt \<Rightarrow> 'k \<Rightarrow> 'g \<Rightarrow>
    ('k, 'g) rbt \<Rightarrow> 'k \<Rightarrow> ('k, 'g) rbt \<Rightarrow> ('k, 'g) rbt" where
  "rotate_right cmp gc n pk g t gk u =
     RbNode gc n pk g
       (RbNode RB_RED (rb_set_color RB_BLACK t) gk (cmp gk (rb_aug t) (rb_aug u)) u)"

definition rotate_left :: "('k, 'g) compute \<Rightarrow> rb_color \<Rightarrow> ('k, 'g) rbt \<Rightarrow> 'k \<Rightarrow> 
    ('k, 'g) rbt \<Rightarrow> 'k \<Rightarrow> 'g \<Rightarrow> ('k, 'g) rbt \<Rightarrow> ('k, 'g) rbt" where
  "rotate_left cmp gc u gk t pk g n =
     RbNode gc
       (RbNode RB_RED u gk (cmp gk (rb_aug u) (rb_aug t)) (rb_set_color RB_BLACK t)) pk g n"

text \<open>
  Case 1: the parent \<open>x\<close> and the uncle turn black, the grandparent \<open>y\<close> red. Cases 2 and 3: with the
  node on the inner side, a rotation at the parent first, then the one at the grandparent. A
  \<open>RbNil\<close> focus does not occur (the focus is the red \<open>node\<close>).
\<close>

fun insert_flip :: "('k, 'g) rbt \<Rightarrow> ('k, 'g) crumb \<Rightarrow> ('k, 'g) crumb \<Rightarrow> ('k, 'g) rbt" where
  "insert_flip t x (InLeft gc gk gg u) =
     RbNode RB_RED (rb_set_color RB_BLACK (zip_one t x)) gk gg (rb_set_color RB_BLACK u)"
| "insert_flip t x (InRight gc u gk gg) =
     RbNode RB_RED (rb_set_color RB_BLACK u) gk gg (rb_set_color RB_BLACK (zip_one t x))"

fun insert_rotate :: "('k, 'g) compute \<Rightarrow> ('k, 'g) rbt \<Rightarrow> ('k, 'g) crumb \<Rightarrow> ('k, 'g) crumb \<Rightarrow> ('k, 'g) rbt" where
  "insert_rotate cmp t (InLeft pc pk pg tmp) (InLeft gc gk gg u) = rotate_right cmp gc t pk gg tmp gk u"
| "insert_rotate cmp (RbNode nc nl nk ng nr) (InRight pc pl pk pg) (InLeft gc gk gg u) =
     rotate_right cmp gc
       (RbNode RB_RED pl pk (cmp pk (rb_aug pl) (rb_aug nl)) (rb_set_color RB_BLACK nl)) nk gg nr gk u"
| "insert_rotate cmp t (InRight pc tmp pk pg) (InRight gc u gk gg) = rotate_left cmp gc u gk tmp pk gg t"
| "insert_rotate cmp (RbNode nc nl nk ng nr) (InLeft pc pk pg pr) (InRight gc u gk gg) =
     rotate_left cmp gc u gk nl nk gg
       (RbNode RB_RED (rb_set_color RB_BLACK nr) pk (cmp pk (rb_aug nr) (rb_aug pr)) pr)"
| "insert_rotate cmp RbNil x y = zip_one (zip_one RbNil x) y"

fun crumb_sibling :: "('k, 'g) crumb \<Rightarrow> ('k, 'g) rbt" where
  "crumb_sibling (InLeft c k g r) = r"
| "crumb_sibling (InRight c l k g) = l"

text \<open>
  \<open>__rb_insert\<close>: the focus is the red \<open>node\<close>, the list its ancestors, nearest first. A red parent
  that is the root cannot happen in a red-black tree (the C code would follow a null
  grandparent); the model leaves such a tree as it is.
\<close>

fun rb_insert_fix :: "('k, 'g) compute \<Rightarrow> ('k, 'g) rbt \<Rightarrow> ('k, 'g) crumb list \<Rightarrow> ('k, 'g) rbt" where
  "rb_insert_fix cmp t [] = rb_set_color RB_BLACK t"
| "rb_insert_fix cmp t [x] = zip_one t x"
| "rb_insert_fix cmp t (x # y # ps) =
     (if crumb_color x = RB_BLACK then zip_up t (x # y # ps)
      else if rb_is_red (crumb_sibling y) then rb_insert_fix cmp (insert_flip t x y) ps
      else zip_up (insert_rotate cmp t x y) ps)"

text \<open>\<open>rb_link_node\<close> followed by \<open>rb_insert_augmented\<close> (or \<open>rb_insert_color\<close>) at the end of a path.\<close>

definition rb_link_node :: "'k \<Rightarrow> 'g \<Rightarrow> ('k, 'g) rbt" where
  "rb_link_node k g = RbNode RB_RED RbNil k g RbNil"

definition rb_insert_augmented :: "('k, 'g) compute \<Rightarrow> 'k \<Rightarrow> 'g \<Rightarrow> ('k, 'g) crumb list \<Rightarrow> ('k, 'g) rbt" where
  "rb_insert_augmented cmp k g ps = rb_insert_fix cmp (rb_link_node k g) ps"

section \<open>Removal\<close>

text \<open>
  The propagate callback: recompute the field of each ancestor, with \<open>a\<close> the field of the child
  just handled, and stop at the first ancestor whose field does not change.
\<close>

fun rb_propagate :: "('k, 'g) compute \<Rightarrow> 'g option \<Rightarrow> ('k, 'g) crumb list \<Rightarrow> ('k, 'g) crumb list" where
  "rb_propagate cmp a [] = []"
| "rb_propagate cmp a (InLeft c k g r # ps) =
     (let g' = cmp k a (rb_aug r)
      in if g = g' then InLeft c k g r # ps
         else InLeft c k g' r # rb_propagate cmp (Some g') ps)"
| "rb_propagate cmp a (InRight c l k g # ps) =
     (let g' = cmp k (rb_aug l) a
      in if g = g' then InRight c l k g # ps
         else InRight c l k g' # rb_propagate cmp (Some g') ps)"

text \<open>The leftmost node below a right child: the descent to the successor in case 3.\<close>

fun leftmost :: "('k, 'g) rbt \<Rightarrow> ('k, 'g) crumb list \<Rightarrow> ('k, 'g) rbt \<times> ('k, 'g) crumb list" where
  "leftmost (RbNode c l k g r) ps =
     (if l = RbNil then (RbNode c l k g r, ps) else leftmost l (InLeft c k g r # ps))"
| "leftmost RbNil ps = (RbNil, ps)"

fun crumb_aug :: "('k, 'g) crumb \<Rightarrow> 'g" where
  "crumb_aug (InLeft c k g r) = g"
| "crumb_aug (InRight c l k g) = g"

text \<open>
  \<open>__rb_erase_augmented\<close> on the node in focus. The result is the subtree that replaces the node,
  the path to it with the fields propagated, and whether the caller has to rebalance there (the
  \<open>rebalance\<close> pointer is the first element of the path).
\<close>

definition erase_node :: "('k, 'g) compute \<Rightarrow> ('k, 'g) rbt \<Rightarrow> ('k, 'g) crumb list \<Rightarrow>
    ('k, 'g) rbt \<times> ('k, 'g) crumb list \<times> bool" where
  "erase_node cmp t ps =
     (case t of
        RbNil \<Rightarrow> (RbNil, ps, False)
      | RbNode c l k g r \<Rightarrow>
          if l = RbNil then
            (let t' = rb_set_color c r
             in (t', rb_propagate cmp (rb_aug t') ps, r = RbNil \<and> c = RB_BLACK))
          else if r = RbNil then
            (let t' = rb_set_color c l
             in (t', rb_propagate cmp (rb_aug t') ps, False))
          else
            (case leftmost r [] of
               (RbNil, _) \<Rightarrow> (t, ps, False)
             | (RbNode sc sl sk sg child2, lp) \<Rightarrow>
                 let t' = rb_set_color RB_BLACK child2;
                     lp' = rb_propagate cmp (rb_aug t') lp;
                     a = (if lp' = [] then rb_aug t' else Some (crumb_aug (last lp')))
                 in (t', lp' @ rb_propagate cmp a (InRight c l sk g # ps),
                     child2 = RbNil \<and> sc = RB_BLACK)))"

text \<open>
  One round of \<open>____rb_erase_color\<close> with a sibling that is not red: the node in focus is the left
  (right) child \<open>t\<close> of the parent \<open>pk\<close>. The flag says whether the loop goes on at the parent.
\<close>

definition fix_black_right :: "('k, 'g) compute \<Rightarrow> ('k, 'g) rbt \<Rightarrow> rb_color \<Rightarrow> 'k \<Rightarrow> 'g \<Rightarrow> ('k, 'g) rbt \<Rightarrow>
    ('k, 'g) rbt \<times> bool" where
  "fix_black_right cmp t pc pk pg sib =
     (case sib of
        RbNil \<Rightarrow> (RbNode pc t pk pg sib, False)
      | RbNode sc sl sk sg sr \<Rightarrow>
          if \<not> rb_is_red sr then
            (case sl of
               RbNode RB_RED a zk zg b \<Rightarrow>
                 (RbNode pc (RbNode RB_BLACK t pk (cmp pk (rb_aug t) (rb_aug a)) a) zk pg
                    (RbNode RB_BLACK (rb_set_color RB_BLACK b) sk (cmp sk (rb_aug b) (rb_aug sr)) sr), False)
             | _ \<Rightarrow> (RbNode RB_BLACK t pk pg (RbNode RB_RED sl sk sg sr), pc = RB_BLACK))
          else
            (RbNode pc (RbNode RB_BLACK t pk (cmp pk (rb_aug t) (rb_aug sl)) sl) sk pg
               (rb_set_color RB_BLACK sr), False))"

definition fix_black_left :: "('k, 'g) compute \<Rightarrow> ('k, 'g) rbt \<Rightarrow> rb_color \<Rightarrow> 'k \<Rightarrow> 'g \<Rightarrow> ('k, 'g) rbt \<Rightarrow>
    ('k, 'g) rbt \<times> bool" where
  "fix_black_left cmp sib pc pk pg t =
     (case sib of
        RbNil \<Rightarrow> (RbNode pc sib pk pg t, False)
      | RbNode sc sl sk sg sr \<Rightarrow>
          if \<not> rb_is_red sl then
            (case sr of
               RbNode RB_RED a zk zg b \<Rightarrow>
                 (RbNode pc (RbNode RB_BLACK sl sk (cmp sk (rb_aug sl) (rb_aug a)) (rb_set_color RB_BLACK a))
                    zk pg (RbNode RB_BLACK b pk (cmp pk (rb_aug b) (rb_aug t)) t), False)
             | _ \<Rightarrow> (RbNode RB_BLACK (RbNode RB_RED sl sk sg sr) pk pg t, pc = RB_BLACK))
          else
            (RbNode pc (rb_set_color RB_BLACK sl) sk pg
               (RbNode RB_BLACK sr pk (cmp pk (rb_aug sr) (rb_aug t)) t), False))"

text \<open>Case 1 (a red sibling) rotates it above the parent first; the parent is red from then on.\<close>

definition fix_right :: "('k, 'g) compute \<Rightarrow> ('k, 'g) rbt \<Rightarrow> rb_color \<Rightarrow> 'k \<Rightarrow> 'g \<Rightarrow> ('k, 'g) rbt \<Rightarrow>
    ('k, 'g) rbt \<times> bool" where
  "fix_right cmp t pc pk pg sib =
     (case sib of
        RbNode RB_RED sl sk sg sr \<Rightarrow>
          (case fix_black_right cmp t RB_RED pk (cmp pk (rb_aug t) (rb_aug sl)) (rb_set_color RB_BLACK sl) of
             (t', more) \<Rightarrow> (RbNode pc t' sk pg sr, more))
      | _ \<Rightarrow> fix_black_right cmp t pc pk pg sib)"

definition fix_left :: "('k, 'g) compute \<Rightarrow> ('k, 'g) rbt \<Rightarrow> rb_color \<Rightarrow> 'k \<Rightarrow> 'g \<Rightarrow> ('k, 'g) rbt \<Rightarrow>
    ('k, 'g) rbt \<times> bool" where
  "fix_left cmp sib pc pk pg t =
     (case sib of
        RbNode RB_RED sl sk sg sr \<Rightarrow>
          (case fix_black_left cmp (rb_set_color RB_BLACK sr) RB_RED pk (cmp pk (rb_aug sr) (rb_aug t)) t of
             (t', more) \<Rightarrow> (RbNode pc sl sk pg t', more))
      | _ \<Rightarrow> fix_black_left cmp sib pc pk pg t)"

fun rb_erase_color :: "('k, 'g) compute \<Rightarrow> ('k, 'g) rbt \<Rightarrow> ('k, 'g) crumb list \<Rightarrow> ('k, 'g) rbt" where
  "rb_erase_color cmp t [] = t"
| "rb_erase_color cmp t (InLeft pc pk pg sib # ps) =
     (case fix_right cmp t pc pk pg sib of
        (t', more) \<Rightarrow> if more then rb_erase_color cmp t' ps else zip_up t' ps)"
| "rb_erase_color cmp t (InRight pc sib pk pg # ps) =
     (case fix_left cmp sib pc pk pg t of
        (t', more) \<Rightarrow> if more then rb_erase_color cmp t' ps else zip_up t' ps)"

definition rb_erase_augmented :: "('k, 'g) compute \<Rightarrow> 'k \<Rightarrow> ('k, 'g) rbt \<Rightarrow> ('k, 'g) rbt" where
  "rb_erase_augmented cmp k t =
     (case rb_locate k t [] of
        None \<Rightarrow> t
      | Some (n, ps) \<Rightarrow>
          (case erase_node cmp n ps of
             (t', ps', rebalance) \<Rightarrow> if rebalance then rb_erase_color cmp t' ps' else zip_up t' ps'))"

section \<open>Iteration\<close>

fun rb_climb :: "('k, 'g) crumb list \<Rightarrow> 'k option" where
  "rb_climb [] = None"
| "rb_climb (InLeft c k g r # ps) = Some k"
| "rb_climb (InRight c l k g # ps) = rb_climb ps"

fun rb_key :: "('k, 'g) rbt \<Rightarrow> 'k option" where
  "rb_key RbNil = None"
| "rb_key (RbNode c l k g r) = Some k"

text \<open>\<open>rb_next\<close>: the leftmost node of the right subtree, or the first ancestor reached from its left.\<close>

definition rb_next :: "'k \<Rightarrow> ('k, 'g) rbt \<Rightarrow> 'k option" where
  "rb_next k t =
     (case rb_locate k t [] of
        Some (RbNode c l x g r, ps) \<Rightarrow> if r \<noteq> RbNil then rb_key (fst (leftmost r [])) else rb_climb ps
      | _ \<Rightarrow> None)"

end
