(* ===== verification/RBTree_Laws.thy ===== *)
theory RBTree_Laws
  imports RBTree
begin

text \<open>
  What the red-black tree operations do to the sequence of objects and to the augmented fields:
  insertion puts the object at the end of the path it was linked at, removal takes exactly the
  located object out, rotations keep the sequence, and every operation leaves each augmented field
  equal to its recomputation. The last fact needs one law of the recomputation function, the
  assumption of the locale \<open>rb_augment\<close>: rotating two nodes does not change the field on top.
\<close>

section \<open>The sequence of objects\<close>

named_theorems rb_simps \<open>how tree operations act on sequences and fields\<close>

lemma rb_aug_set_color [simp]: "rb_aug (rb_set_color c t) = rb_aug t"
  by (cases t) auto

lemma inorder_set_color [simp]: "inorder (rb_set_color c t) = inorder t"
  by (cases t) auto

lemma rb_set_color_Nil [simp]: "rb_set_color c t = RbNil \<longleftrightarrow> t = RbNil"
  by (cases t) auto

lemma inorder_Nil [simp]: "inorder t = [] \<longleftrightarrow> t = RbNil"
  by (cases t) auto

lemma inorder_zip_one [simp]: "inorder (zip_one t x) = left_of [x] @ inorder t @ right_of [x]"
  by (cases x) auto

lemma left_of_append [simp]: "left_of (ps @ qs) = left_of qs @ left_of ps"
  by (induction ps rule: left_of.induct) auto

lemma right_of_append [simp]: "right_of (ps @ qs) = right_of ps @ right_of qs"
  by (induction ps rule: right_of.induct) auto

lemma left_of_Cons: "left_of (x # ps) = left_of ps @ left_of [x]"
  by (cases x) auto

lemma right_of_Cons: "right_of (x # ps) = right_of [x] @ right_of ps"
  by (cases x) auto

lemma inorder_zip_up [simp]: "inorder (zip_up t ps) = left_of ps @ inorder t @ right_of ps"
proof (induction ps arbitrary: t)
  case (Cons x ps)
  then show ?case by (cases x) auto
qed simp

lemma zip_up_append [simp]: "zip_up t (ps @ qs) = zip_up (zip_up t ps) qs"
  by (induction ps arbitrary: t) auto

lemma inorder_rotate [simp]:
  "inorder (rotate_right cmp gc n pk g t gk u) = inorder n @ pk # inorder t @ gk # inorder u"
  "inorder (rotate_left cmp gc u gk t pk g n) = inorder u @ gk # inorder t @ pk # inorder n"
  by (simp_all add: rotate_right_def rotate_left_def)

lemma inorder_insert_flip [simp]: "inorder (insert_flip t x y) = inorder (zip_one (zip_one t x) y)"
  by (cases y) auto

lemma inorder_insert_rotate [simp]:
  "inorder (insert_rotate cmp t x y) = inorder (zip_one (zip_one t x) y)"
  by (cases x; cases y; cases t) auto

lemma inorder_insert_fix:
  "inorder (rb_insert_fix cmp t ps) = left_of ps @ inorder t @ right_of ps"
proof (induction cmp t ps rule: rb_insert_fix.induct)
  case (3 cmp t x y ps)
  then show ?case by (cases x; cases y) auto
qed simp_all

lemma inorder_insert_augmented [simp]:
  "inorder (rb_insert_augmented cmp k g ps) = left_of ps @ k # right_of ps"
  by (simp add: rb_insert_augmented_def rb_link_node_def inorder_insert_fix)

subsection \<open>Locating a node\<close>

lemma rb_locate_None: "rb_locate k t ps = None \<longleftrightarrow> k \<notin> set (inorder t)"
  by (induction k t ps rule: rb_locate.induct) (auto split: option.splits)

lemma rb_locate_absent [simp]: "k \<notin> set (inorder t) \<Longrightarrow> rb_locate k t ps = None"
  by (simp add: rb_locate_None)

lemma rb_locate_Some:
  "rb_locate k t ps = Some (n, qs) \<Longrightarrow> zip_up n qs = zip_up t ps \<and> rb_key n = Some k"
  by (induction k t ps rule: rb_locate.induct) (auto split: if_splits option.splits)

lemma rb_key_Some: "rb_key t = Some k \<longleftrightarrow> (\<exists>c l g r. t = RbNode c l k g r)"
  by (cases t) auto

lemma rb_locate_cases:
  assumes "k \<in> set (inorder t)"
  obtains c l g r ps where "rb_locate k t [] = Some (RbNode c l k g r, ps)"
    and "zip_up (RbNode c l k g r) ps = t"
proof -
  from assms obtain n ps where "rb_locate k t [] = Some (n, ps)"
    by (metis rb_locate_None not_None_eq surj_pair)
  with that show thesis
    using rb_locate_Some [of k t "[]" n ps] by (auto simp: rb_key_Some)
qed

subsection \<open>Removal\<close>

lemma left_of_propagate [simp]: "left_of (rb_propagate cmp a ps) = left_of ps"
  by (induction cmp a ps rule: rb_propagate.induct) (auto simp: Let_def)

lemma right_of_propagate [simp]: "right_of (rb_propagate cmp a ps) = right_of ps"
  by (induction cmp a ps rule: rb_propagate.induct) (auto simp: Let_def)

lemma leftmost_zip: "leftmost t ps = (n, qs) \<Longrightarrow> zip_up n qs = zip_up t ps"
  by (induction t ps rule: leftmost.induct) (auto split: if_splits)

lemma leftmost_path:
  "leftmost t ps = (n, qs) \<Longrightarrow> t \<noteq> RbNil \<Longrightarrow>
     \<exists>lp c k g r. qs = lp @ ps \<and> left_of lp = [] \<and> n = RbNode c RbNil k g r"
proof (induction t ps arbitrary: qs rule: leftmost.induct)
  case (1 c l k g r ps)
  show ?case
  proof (cases "l = RbNil")
    case True
    with 1 show ?thesis by auto
  next
    case False
    with 1 obtain lp c' k' g' r' where "qs = lp @ InLeft c k g r # ps" "left_of lp = []"
        "n = RbNode c' RbNil k' g' r'"
      by fastforce
    then have "qs = (lp @ [InLeft c k g r]) @ ps \<and> left_of (lp @ [InLeft c k g r]) = [] \<and>
        n = RbNode c' RbNil k' g' r'"
      by simp
    then show ?thesis by blast
  qed
qed simp

lemma leftmost_Nil_cases:
  assumes "t \<noteq> RbNil"
  obtains lp c k g r where "leftmost t [] = (RbNode c RbNil k g r, lp)" and "left_of lp = []"
    and "zip_up (RbNode c RbNil k g r) lp = t" and "inorder t = k # inorder r @ right_of lp"
proof -
  obtain n lp where 1: "leftmost t [] = (n, lp)" by fastforce
  with leftmost_path [OF 1 assms] obtain c k g r where 2: "left_of lp = []" "n = RbNode c RbNil k g r"
    by auto
  from leftmost_zip [OF 1] have z: "zip_up n lp = t" by simp
  then have "inorder t = inorder (zip_up n lp)" by simp
  with 2 have "inorder t = k # inorder r @ right_of lp" by simp
  with that 1 2 z show thesis by auto
qed

lemma inorder_fix_black:
  "inorder (fst (fix_black_right cmp t pc pk pg sib)) = inorder t @ pk # inorder sib"
  "inorder (fst (fix_black_left cmp sib pc pk pg t)) = inorder sib @ pk # inorder t"
  by (auto simp: fix_black_right_def fix_black_left_def split: rbt.splits rb_color.splits)

lemma inorder_fix [simp]:
  "inorder (fst (fix_right cmp t pc pk pg sib)) = inorder t @ pk # inorder sib"
  "inorder (fst (fix_left cmp sib pc pk pg t)) = inorder sib @ pk # inorder t"
  by (simp_all add: fix_right_def fix_left_def inorder_fix_black case_prod_unfold
      split: rbt.split rb_color.split)

lemma inorder_erase_color:
  "inorder (rb_erase_color cmp t ps) = left_of ps @ inorder t @ right_of ps"
proof (induction cmp t ps rule: rb_erase_color.induct)
  case (2 cmp t pc pk pg sib ps)
  obtain t' more where f: "fix_right cmp t pc pk pg sib = (t', more)" by fastforce
  with inorder_fix(1) [of cmp t pc pk pg sib] 2 show ?case by simp
next
  case (3 cmp t pc sib pk pg ps)
  obtain t' more where f: "fix_left cmp sib pc pk pg t = (t', more)" by fastforce
  with inorder_fix(2) [of cmp sib pc pk pg t] 3 show ?case by simp
qed simp

lemma erase_node_sequence:
  assumes "erase_node cmp (RbNode c l k g r) ps = (t', ps', more)"
  shows "left_of ps' @ inorder t' @ right_of ps' = left_of ps @ inorder l @ inorder r @ right_of ps"
proof (cases "l = RbNil \<or> r = RbNil")
  case True
  with assms show ?thesis
    by (auto simp: erase_node_def Let_def split: if_splits)
next
  case False
  then have "r \<noteq> RbNil" by simp
  then obtain lp c' k' g' r' where "leftmost r [] = (RbNode c' RbNil k' g' r', lp)"
      "left_of lp = []" "inorder r = k' # inorder r' @ right_of lp"
    by (rule leftmost_Nil_cases)
  with False assms show ?thesis
    by (auto simp: erase_node_def Let_def simp del: rb_propagate.simps)
qed

lemma inorder_erase_split:
  assumes "k \<in> set (inorder t)"
  obtains xs ys where "inorder t = xs @ k # ys" and "inorder (rb_erase_augmented cmp k t) = xs @ ys"
proof -
  from assms obtain c l g r ps where loc: "rb_locate k t [] = Some (RbNode c l k g r, ps)"
    and z: "zip_up (RbNode c l k g r) ps = t"
    by (rule rb_locate_cases)
  obtain t' ps' more where e: "erase_node cmp (RbNode c l k g r) ps = (t', ps', more)"
    by (metis prod_cases3)
  have "inorder (rb_erase_augmented cmp k t) = left_of ps' @ inorder t' @ right_of ps'"
    using loc e by (simp add: rb_erase_augmented_def inorder_erase_color)
  also have "\<dots> = (left_of ps @ inorder l) @ inorder r @ right_of ps"
    using erase_node_sequence [OF e] by simp
  finally have "inorder (rb_erase_augmented cmp k t) = (left_of ps @ inorder l) @ inorder r @ right_of ps" .
  moreover have "inorder t = (left_of ps @ inorder l) @ k # inorder r @ right_of ps"
    using arg_cong [OF z, of inorder] by simp
  ultimately show thesis by (metis that)
qed

lemma inorder_erase [simp]:
  assumes "distinct (inorder t)"
  shows "inorder (rb_erase_augmented cmp k t) = filter (\<lambda>y. y \<noteq> k) (inorder t)"
proof (cases "k \<in> set (inorder t)")
  case True
  then obtain xs ys where s: "inorder t = xs @ k # ys" "inorder (rb_erase_augmented cmp k t) = xs @ ys"
    by (rule inorder_erase_split)
  with assms have "k \<notin> set xs" "k \<notin> set ys" by auto
  with s show ?thesis by (simp add: filter_neq_absent)
next
  case False
  then show ?thesis
    by (simp add: rb_erase_augmented_def filter_neq_absent)
qed

lemma length_erase:
  "k \<in> set (inorder t) \<Longrightarrow> length (inorder (rb_erase_augmented cmp k t)) < length (inorder t)"
  by (rule inorder_erase_split [of k t cmp]) auto

section \<open>The successor of a node\<close>

lemma rb_climb_right_of: "rb_climb ps = (case right_of ps of [] \<Rightarrow> None | k # _ \<Rightarrow> Some k)"
  by (induction ps rule: rb_climb.induct) auto

lemma rb_next_next_in:
  assumes "distinct (inorder t)"
  shows "rb_next k t = next_in k (inorder t)"
proof (cases "k \<in> set (inorder t)")
  case True
  then obtain c l g r ps where loc: "rb_locate k t [] = Some (RbNode c l k g r, ps)"
    and z: "zip_up (RbNode c l k g r) ps = t"
    by (rule rb_locate_cases)
  have i: "inorder t = (left_of ps @ inorder l) @ k # (inorder r @ right_of ps)"
    using arg_cong [OF z, of inorder] by simp
  with assms have "k \<notin> set (left_of ps @ inorder l)" by auto
  then have n: "next_in k (inorder t) = (case inorder r @ right_of ps of [] \<Rightarrow> None | z # _ \<Rightarrow> Some z)"
    unfolding i by (rule next_in_split)
  show ?thesis
  proof (cases "r = RbNil")
    case True
    with n loc show ?thesis by (simp add: rb_next_def rb_climb_right_of)
  next
    case False
    then obtain lp c' k' g' r' where "leftmost r [] = (RbNode c' RbNil k' g' r', lp)"
        "inorder r = k' # inorder r' @ right_of lp"
      by (rule leftmost_Nil_cases)
    with False n loc show ?thesis by (simp add: rb_next_def)
  qed
next
  case False
  have "next_in k xs = None" if "k \<notin> set xs" for xs :: "'a list"
    using that by (induction xs) auto
  with False show ?thesis by (simp add: rb_next_def)
qed

section \<open>The augmented fields\<close>

fun aug_ok :: "('k, 'g) compute \<Rightarrow> ('k, 'g) rbt \<Rightarrow> bool" where
  "aug_ok cmp RbNil = True"
| "aug_ok cmp (RbNode c l k g r) =
     (aug_ok cmp l \<and> aug_ok cmp r \<and> g = cmp k (rb_aug l) (rb_aug r))"

fun path_aug :: "('k, 'g) compute \<Rightarrow> 'g option \<Rightarrow> ('k, 'g) crumb list \<Rightarrow> bool" where
  "path_aug cmp a [] = True"
| "path_aug cmp a (InLeft c k g r # ps) =
     (aug_ok cmp r \<and> g = cmp k a (rb_aug r) \<and> path_aug cmp (Some g) ps)"
| "path_aug cmp a (InRight c l k g # ps) =
     (aug_ok cmp l \<and> g = cmp k (rb_aug l) a \<and> path_aug cmp (Some g) ps)"

text \<open>The path of a node whose own field is not known to be right any more.\<close>

definition path_aug_any :: "('k, 'g) compute \<Rightarrow> ('k, 'g) crumb list \<Rightarrow> bool" where
  "path_aug_any cmp ps \<longleftrightarrow> (\<exists>a. path_aug cmp a ps)"

lemma aug_ok_set_color [simp]: "aug_ok cmp (rb_set_color c t) = aug_ok cmp t"
  by (cases t) auto

lemma aug_ok_zip_up: "aug_ok cmp (zip_up t ps) \<longleftrightarrow> aug_ok cmp t \<and> path_aug cmp (rb_aug t) ps"
proof (induction ps arbitrary: t)
  case (Cons x ps)
  then show ?case by (cases x) auto
qed simp

lemma path_aug_append:
  "path_aug cmp a (ps @ qs) \<longleftrightarrow>
     path_aug cmp a ps \<and> path_aug cmp (if ps = [] then a else Some (crumb_aug (last ps))) qs"
  by (induction cmp a ps rule: path_aug.induct) auto

lemma path_aug_propagate:
  "path_aug cmp a0 ps \<Longrightarrow> path_aug cmp a (rb_propagate cmp a ps)"
proof (induction cmp a ps arbitrary: a0 rule: rb_propagate.induct)
  case (2 cmp a c k g r ps)
  then show ?case by (auto simp: Let_def)
next
  case (3 cmp a c l k g ps)
  then show ?case by (auto simp: Let_def)
qed simp

locale rb_augment =
  fixes cmp :: "('k, 'g) compute"
  assumes cmp_rotate: "cmp p a (Some (cmp g b c)) = cmp g (Some (cmp p a b)) c"
begin

lemma aug_ok_rotate:
  assumes "aug_ok cmp u" and "aug_ok cmp t" and "aug_ok cmp n"
  shows "g = cmp gk (Some (cmp pk (rb_aug n) (rb_aug t))) (rb_aug u) \<Longrightarrow>
      aug_ok cmp (rotate_right cmp gc n pk g t gk u)"
    and "g = cmp gk (rb_aug u) (Some (cmp pk (rb_aug t) (rb_aug n))) \<Longrightarrow>
      aug_ok cmp (rotate_left cmp gc u gk t pk g n)"
  using assms by (simp_all add: rotate_right_def rotate_left_def cmp_rotate)

lemma rb_aug_rotate [simp]:
  "rb_aug (rotate_right cmp gc n pk g t gk u) = Some g"
  "rb_aug (rotate_left cmp gc u gk t pk g n) = Some g"
  by (simp_all add: rotate_right_def rotate_left_def)

lemma aug_ok_insert_flip:
  "aug_ok cmp (zip_one (zip_one t x) y) \<Longrightarrow>
     aug_ok cmp (insert_flip t x y) \<and> rb_aug (insert_flip t x y) = rb_aug (zip_one (zip_one t x) y)"
  by (cases y) auto

lemma aug_ok_insert_rotate:
  "aug_ok cmp (zip_one (zip_one t x) y) \<Longrightarrow>
     aug_ok cmp (insert_rotate cmp t x y) \<and>
     rb_aug (insert_rotate cmp t x y) = rb_aug (zip_one (zip_one t x) y)"
  by (cases x; cases y; cases t) (auto simp: cmp_rotate intro!: aug_ok_rotate)

lemma aug_ok_insert_fix:
  "aug_ok cmp (zip_up t ps) \<Longrightarrow> aug_ok cmp (rb_insert_fix cmp t ps)"
proof (induction ps arbitrary: t rule: induct_list012)
  case (3 x y ps)
  have "aug_ok cmp (zip_up s ps)" if "aug_ok cmp s" "rb_aug s = rb_aug (zip_one (zip_one t x) y)" for s
    using that 3(3) by (auto simp: aug_ok_zip_up)
  moreover have "aug_ok cmp (zip_one (zip_one t x) y)"
    using 3(3) by (simp add: aug_ok_zip_up)
  ultimately show ?case
    using 3 aug_ok_insert_flip aug_ok_insert_rotate by simp
qed simp_all

lemma aug_ok_fix_black:
  assumes "aug_ok cmp t" and "aug_ok cmp sib"
  shows "pg = cmp pk (rb_aug t) (rb_aug sib) \<Longrightarrow>
      aug_ok cmp (fst (fix_black_right cmp t pc pk pg sib)) \<and>
      rb_aug (fst (fix_black_right cmp t pc pk pg sib)) = Some pg"
    and "pg = cmp pk (rb_aug sib) (rb_aug t) \<Longrightarrow>
      aug_ok cmp (fst (fix_black_left cmp sib pc pk pg t)) \<and>
      rb_aug (fst (fix_black_left cmp sib pc pk pg t)) = Some pg"
  using assms
  by (auto simp: fix_black_right_def fix_black_left_def cmp_rotate split: rbt.splits rb_color.splits)

lemma aug_ok_fix:
  assumes "aug_ok cmp t" and "aug_ok cmp sib"
  shows "pg = cmp pk (rb_aug t) (rb_aug sib) \<Longrightarrow>
      aug_ok cmp (fst (fix_right cmp t pc pk pg sib)) \<and>
      rb_aug (fst (fix_right cmp t pc pk pg sib)) = Some pg"
    and "pg = cmp pk (rb_aug sib) (rb_aug t) \<Longrightarrow>
      aug_ok cmp (fst (fix_left cmp sib pc pk pg t)) \<and>
      rb_aug (fst (fix_left cmp sib pc pk pg t)) = Some pg"
  using assms
  by (auto simp: fix_right_def fix_left_def case_prod_unfold aug_ok_fix_black cmp_rotate
      split: rbt.split rb_color.split)

lemma aug_ok_erase_color:
  "aug_ok cmp (zip_up t ps) \<Longrightarrow> aug_ok cmp (rb_erase_color cmp t ps)"
proof (induction ps arbitrary: t)
  case (Cons x ps)
  show ?case
  proof (cases x)
    case (InLeft c k g r)
    obtain t' more where f: "fix_right cmp t c k g r = (t', more)" by fastforce
    with Cons InLeft aug_ok_fix(1) [of t r g k c] show ?thesis
      by (auto simp: aug_ok_zip_up)
  next
    case (InRight c l k g)
    obtain t' more where f: "fix_left cmp l c k g t = (t', more)" by fastforce
    with Cons InRight aug_ok_fix(2) [of t l g k c] show ?thesis
      by (auto simp: aug_ok_zip_up)
  qed
qed simp

lemma aug_ok_erase_node:
  assumes "aug_ok cmp (zip_up (RbNode c l k g r) ps)"
    and "erase_node cmp (RbNode c l k g r) ps = (t', ps', more)"
  shows "aug_ok cmp (zip_up t' ps')"
proof (cases "l = RbNil \<or> r = RbNil")
  case True
  with assms show ?thesis
    by (auto simp: erase_node_def Let_def aug_ok_zip_up intro: path_aug_propagate split: if_splits)
next
  case False
  then have "r \<noteq> RbNil" by simp
  then obtain lp c' k' g' r' where lm: "leftmost r [] = (RbNode c' RbNil k' g' r', lp)"
    and z: "zip_up (RbNode c' RbNil k' g' r') lp = r"
    by (rule leftmost_Nil_cases)
  define u where "u = rb_set_color RB_BLACK r'"
  define lp' where "lp' = rb_propagate cmp (rb_aug u) lp"
  define a where "a = (if lp' = [] then rb_aug u else Some (crumb_aug (last lp')))"
  from assms(1) have ok: "aug_ok cmp l" "aug_ok cmp r" "path_aug cmp (Some g) ps"
      "g = cmp k (rb_aug l) (rb_aug r)"
    by (auto simp: aug_ok_zip_up)
  from ok(2) z have "aug_ok cmp r'" "path_aug cmp (Some g') lp"
    by (metis aug_ok_zip_up aug_ok.simps(2) rb_aug.simps(2))+
  then have u: "aug_ok cmp u" and lp: "path_aug cmp (rb_aug u) lp'"
    unfolding u_def lp'_def by (auto intro: path_aug_propagate)
  have "path_aug cmp a (rb_propagate cmp a (InRight c l k' g # ps))"
    using ok by (auto simp: Let_def intro: path_aug_propagate)
  with lp have "path_aug cmp (rb_aug u) (lp' @ rb_propagate cmp a (InRight c l k' g # ps))"
    by (simp add: path_aug_append a_def)
  moreover from assms(2) False lm
  have "t' = u" "ps' = lp' @ rb_propagate cmp a (InRight c l k' g # ps)"
    by (auto simp: erase_node_def Let_def u_def lp'_def a_def simp del: rb_propagate.simps)
  ultimately show ?thesis
    using u by (simp add: aug_ok_zip_up del: rb_propagate.simps zip_up_append)
qed

lemma aug_ok_erase [simp]: "aug_ok cmp t \<Longrightarrow> aug_ok cmp (rb_erase_augmented cmp k t)"
proof (cases "k \<in> set (inorder t)")
  case True
  assume t: "aug_ok cmp t"
  from True obtain c l g r ps where loc: "rb_locate k t [] = Some (RbNode c l k g r, ps)"
    and z: "zip_up (RbNode c l k g r) ps = t"
    by (rule rb_locate_cases)
  obtain t' ps' more where e: "erase_node cmp (RbNode c l k g r) ps = (t', ps', more)"
    by (metis prod_cases3)
  with t z have "aug_ok cmp (zip_up t' ps')" by (blast intro: aug_ok_erase_node)
  with loc e show ?thesis by (simp add: rb_erase_augmented_def aug_ok_erase_color)
qed (simp add: rb_erase_augmented_def)

end

end
