(* ===== verification/RBTree_Balance.thy ===== *)
theory RBTree_Balance
  imports RBTree_Laws
begin

text \<open>
  The five red-black properties listed at the top of \<open>planner/rbtree.c\<close>: insertion and removal
  keep them, so the cases the model leaves open (a red root above a red node, a missing sibling)
  never arise, and the height of a tree is logarithmic in the number of its nodes.
\<close>

section \<open>The properties\<close>

fun invc :: "('k, 'g) rbt \<Rightarrow> bool" where
  "invc RbNil = True"
| "invc (RbNode c l k g r) =
     (invc l \<and> invc r \<and> (c = RB_RED \<longrightarrow> \<not> rb_is_red l \<and> \<not> rb_is_red r))"

fun bh :: "('k, 'g) rbt \<Rightarrow> nat" where
  "bh RbNil = 0"
| "bh (RbNode c l k g r) = (if c = RB_BLACK then Suc (bh l) else bh l)"

fun invh :: "('k, 'g) rbt \<Rightarrow> bool" where
  "invh RbNil = True"
| "invh (RbNode c l k g r) = (invh l \<and> invh r \<and> bh l = bh r)"

definition rb_tree :: "('k, 'g) rbt \<Rightarrow> bool" where
  "rb_tree t \<longleftrightarrow> invc t \<and> invh t \<and> \<not> rb_is_red t"

text \<open>\<open>ctx_ok h red ps\<close>: a subtree of black height \<open>h\<close>, red or not, completes \<open>ps\<close> to a red-black tree.\<close>

fun ctx_ok :: "nat \<Rightarrow> bool \<Rightarrow> ('k, 'g) crumb list \<Rightarrow> bool" where
  "ctx_ok h red [] = (\<not> red)"
| "ctx_ok h red (InLeft c k g r # ps) =
     (invc r \<and> invh r \<and> bh r = h \<and> (c = RB_RED \<longrightarrow> \<not> red \<and> \<not> rb_is_red r) \<and>
      ctx_ok (if c = RB_BLACK then Suc h else h) (c = RB_RED) ps)"
| "ctx_ok h red (InRight c l k g # ps) =
     (invc l \<and> invh l \<and> bh l = h \<and> (c = RB_RED \<longrightarrow> \<not> red \<and> \<not> rb_is_red l) \<and>
      ctx_ok (if c = RB_BLACK then Suc h else h) (c = RB_RED) ps)"

lemma rb_tree_zip_up:
  "rb_tree (zip_up t ps) \<longleftrightarrow> invc t \<and> invh t \<and> ctx_ok (bh t) (rb_is_red t) ps"
proof (induction ps arbitrary: t)
  case Nil
  then show ?case by (simp add: rb_tree_def)
next
  case (Cons x ps)
  then show ?case by (cases x) auto
qed

lemma neq_RED [simp]: "c \<noteq> RB_RED \<longleftrightarrow> c = RB_BLACK" "c \<noteq> RB_BLACK \<longleftrightarrow> c = RB_RED"
  by (cases c; simp)+

lemma ctx_ok_black: "ctx_ok h True ps \<Longrightarrow> ctx_ok h False ps"
proof (cases ps)
  case (Cons x qs)
  then show "ctx_ok h True ps \<Longrightarrow> ctx_ok h False ps" by (cases x) auto
qed simp

lemma rb_is_red_set_black [simp]: "\<not> rb_is_red (rb_set_color RB_BLACK t)"
  by (cases t) auto

lemma invc_set_black [simp]: "invc t \<Longrightarrow> invc (rb_set_color RB_BLACK t)"
  by (cases t) auto

lemma invh_set_color [simp]: "invh (rb_set_color c t) = invh t"
  by (cases t) auto

lemma bh_set_black: "bh (rb_set_color RB_BLACK t) = (if rb_is_red t then Suc (bh t) else bh t)"
  by (cases t) auto

lemma set_black_id: "\<not> rb_is_red t \<Longrightarrow> rb_set_color RB_BLACK t = t"
  by (cases t) auto

lemma bh_0_black: "bh t = 0 \<Longrightarrow> \<not> rb_is_red t \<Longrightarrow> t = RbNil"
  by (cases t) (auto split: if_splits)

section \<open>Insertion\<close>

lemma rb_tree_set_black: "invc t \<Longrightarrow> invh t \<Longrightarrow> rb_tree (rb_set_color RB_BLACK t)"
  by (simp add: rb_tree_def)

lemma insert_flip_ok:
  assumes "invc t" "invh t" "ctx_ok (bh t) False (x # y # ps)" "crumb_color x = RB_RED"
    "rb_is_red (crumb_sibling y)"
  shows "invc (insert_flip t x y) \<and> invh (insert_flip t x y) \<and> rb_is_red (insert_flip t x y) \<and>
    ctx_ok (bh (insert_flip t x y)) False ps"
  using assms by (cases x; cases y) (auto simp: bh_set_black)

lemma insert_rotate_ok:
  assumes "invc t" "invh t" "rb_is_red t" "ctx_ok (bh t) False (x # y # ps)" "crumb_color x = RB_RED"
    "\<not> rb_is_red (crumb_sibling y)"
  shows "rb_tree (zip_up (insert_rotate cmp t x y) ps)"
  using assms
  by (cases x; cases y; cases t)
    (auto simp: rb_tree_zip_up rotate_right_def rotate_left_def set_black_id)

lemma rb_tree_insert_fix:
  "invc t \<Longrightarrow> invh t \<Longrightarrow> rb_is_red t \<Longrightarrow> ctx_ok (bh t) False ps \<Longrightarrow>
     rb_tree (rb_insert_fix cmp t ps)"
proof (induction cmp t ps rule: rb_insert_fix.induct)
  case (1 cmp t)
  then show ?case by (simp add: rb_tree_set_black)
next
  case (2 cmp t x)
  then show ?case by (cases x) (auto simp: rb_tree_def split: if_splits)
next
  case (3 cmp t x y ps)
  show ?case
  proof (cases "crumb_color x = RB_BLACK")
    case True
    have "ctx_ok (bh t) True (x # y # ps)"
      using 3(5) True by (cases x) auto
    with 3 True show ?thesis
      by (simp add: rb_tree_zip_up [of t "x # y # ps", simplified])
  next
    case False
    with 3 show ?thesis
      using insert_flip_ok [of t x y ps] insert_rotate_ok [of t x y ps cmp] by auto
  qed
qed

section \<open>Removal\<close>

text \<open>What one round of the rebalancing loop leaves behind.\<close>

definition fixed_ok :: "rb_color \<Rightarrow> nat \<Rightarrow> ('k, 'g) rbt \<times> bool \<Rightarrow> bool" where
  "fixed_ok pc h res \<longleftrightarrow>
     (case res of (t, more) \<Rightarrow>
        invc t \<and> invh t \<and>
        (if more then pc = RB_BLACK \<and> \<not> rb_is_red t \<and> bh t = h
         else bh t = (if pc = RB_BLACK then Suc h else h) \<and> (rb_is_red t \<longrightarrow> pc = RB_RED)))"

lemma fix_black_ok:
  assumes "invc t" "invh t" "\<not> rb_is_red t" "invc sib" "invh sib" "bh sib = Suc (bh t)" "\<not> rb_is_red sib"
  shows "fixed_ok pc (bh sib) (fix_black_right cmp t pc pk pg sib)"
    and "fixed_ok pc (bh sib) (fix_black_left cmp sib pc pk pg t)"
  using assms
  by (auto simp: fixed_ok_def fix_black_right_def fix_black_left_def bh_set_black
      split: rbt.splits rb_color.splits)

lemma fix_ok:
  assumes "invc t" "invh t" "\<not> rb_is_red t" "invc sib" "invh sib" "bh sib = Suc (bh t)"
    "pc = RB_RED \<longrightarrow> \<not> rb_is_red sib"
  shows "fixed_ok pc (bh sib) (fix_right cmp t pc pk pg sib)"
    and "fixed_ok pc (bh sib) (fix_left cmp sib pc pk pg t)"
proof -
  show "fixed_ok pc (bh sib) (fix_right cmp t pc pk pg sib)"
  proof (cases "rb_is_red sib")
    case True
    then obtain sl sk sg sr where s: "sib = RbNode RB_RED sl sk sg sr"
      by (cases sib) auto
    with assms fix_black_ok(1) [of t sl RB_RED cmp pk "cmp pk (rb_aug t) (rb_aug sl)"] show ?thesis
      by (auto simp: fix_right_def fixed_ok_def set_black_id split: prod.splits if_splits)
  next
    case False
    with assms fix_black_ok(1) [of t sib pc cmp pk pg] show ?thesis
      by (auto simp: fix_right_def split: rbt.splits rb_color.splits)
  qed
  show "fixed_ok pc (bh sib) (fix_left cmp sib pc pk pg t)"
  proof (cases "rb_is_red sib")
    case True
    then obtain sl sk sg sr where s: "sib = RbNode RB_RED sl sk sg sr"
      by (cases sib) auto
    with assms fix_black_ok(2) [of t sr RB_RED cmp pk "cmp pk (rb_aug sr) (rb_aug t)"] show ?thesis
      by (auto simp: fix_left_def fixed_ok_def set_black_id split: prod.splits if_splits)
  next
    case False
    with assms fix_black_ok(2) [of t sib pc cmp pk pg] show ?thesis
      by (auto simp: fix_left_def split: rbt.splits rb_color.splits)
  qed
qed

lemma rb_tree_erase_color:
  "invc t \<Longrightarrow> invh t \<Longrightarrow> \<not> rb_is_red t \<Longrightarrow> ctx_ok (Suc (bh t)) False ps \<Longrightarrow>
     rb_tree (rb_erase_color cmp t ps)"
proof (induction ps arbitrary: t)
  case Nil
  then show ?case by (simp add: rb_tree_def)
next
  case (Cons x ps)
  have step: "rb_tree (if more then rb_erase_color cmp t' ps else zip_up t' ps)"
    if "fixed_ok c (Suc (bh t)) (t', more)"
      and "ctx_ok (if c = RB_BLACK then Suc (Suc (bh t)) else Suc (bh t)) (c = RB_RED) ps" for c t' more
    using that Cons.IH [of t']
    by (cases c; cases more; cases "rb_is_red t'")
      (auto simp: fixed_ok_def rb_tree_zip_up intro: ctx_ok_black)
  show ?case
  proof (cases x)
    case (InLeft c k g r)
    obtain t' more where f: "fix_right cmp t c k g r = (t', more)" by fastforce
    with Cons.prems InLeft fix_ok(1) [of t r c cmp k g] step [of c t' more] show ?thesis by simp
  next
    case (InRight c l k g)
    obtain t' more where f: "fix_left cmp l c k g t = (t', more)" by fastforce
    with Cons.prems InRight fix_ok(2) [of t l c cmp k g] step [of c t' more] show ?thesis by simp
  qed
qed

lemma ctx_ok_propagate [simp]: "ctx_ok h red (rb_propagate cmp a ps) = ctx_ok h red ps"
  by (induction cmp a ps arbitrary: h red rule: rb_propagate.induct) (auto simp: Let_def)

lemma ctx_ok_append_cong:
  "(\<And>h red. ctx_ok h red qs = ctx_ok h red qs') \<Longrightarrow> ctx_ok h red (ps @ qs) = ctx_ok h red (ps @ qs')"
  by (induction h red ps rule: ctx_ok.induct) auto

lemma ctx_ok_propagate_append [simp]:
  "ctx_ok h red (rb_propagate cmp a lp @ qs) = ctx_ok h red (lp @ qs)"
  by (induction cmp a lp arbitrary: h red rule: rb_propagate.induct) (auto simp: Let_def)

text \<open>A node with at most one child: the replacement, and when it is one black node short.\<close>

lemma replace_ok:
  assumes "invc (RbNode c l k g r)" "invh (RbNode c l k g r)" "ctx_ok (bh (RbNode c l k g r)) (c = RB_RED) ps"
    and "l = RbNil" "t' = rb_set_color c' r" "r \<noteq> RbNil \<longrightarrow> c' = RB_BLACK"
  shows "rb_tree (if r = RbNil \<and> c = RB_BLACK then rb_erase_color cmp t' ps else zip_up t' ps)"
proof (cases "r = RbNil")
  case True
  with assms show ?thesis
    using rb_tree_erase_color [of t' ps cmp]
    by (cases c) (auto simp: rb_tree_zip_up intro: ctx_ok_black)
next
  case False
  from assms have "bh r = 0" by simp
  with False have "rb_is_red r" using bh_0_black by blast
  with assms have "c = RB_BLACK" by (cases c) auto
  with False assms \<open>rb_is_red r\<close> show ?thesis
    by (simp add: rb_tree_zip_up bh_set_black)
qed

lemma erase_node_ok:
  assumes "rb_tree (zip_up (RbNode c l k g r) ps)"
    and e: "erase_node cmp (RbNode c l k g r) ps = (t', ps', more)"
  shows "rb_tree (if more then rb_erase_color cmp t' ps' else zip_up t' ps')"
proof -
  from assms(1) have node: "invc (RbNode c l k g r)" "invh (RbNode c l k g r)"
      "ctx_ok (bh (RbNode c l k g r)) (c = RB_RED) ps"
    by (simp_all add: rb_tree_zip_up)
  show ?thesis
  proof (cases "l = RbNil")
    case True
    from node True have "r \<noteq> RbNil \<longrightarrow> c = RB_BLACK"
      using bh_0_black [of r] by (cases c) auto
    with node True e
      replace_ok [of c l k g r "rb_propagate cmp (rb_aug r) ps" t' c cmp] show ?thesis
      by (auto simp: erase_node_def Let_def)
  next
    case l: False
    show ?thesis
    proof (cases "r = RbNil")
      case True
      from node True have "bh l = 0" by simp
      with l have "rb_is_red l" using bh_0_black by blast
      with node have "c = RB_BLACK" by (cases c) auto
      with node True l e \<open>rb_is_red l\<close> show ?thesis
        by (auto simp: erase_node_def Let_def rb_tree_zip_up bh_set_black)
    next
      case False
      then obtain lp sc sk sg child2 where lm: "leftmost r [] = (RbNode sc RbNil sk sg child2, lp)"
        and z: "zip_up (RbNode sc RbNil sk sg child2) lp = r"
        by (rule leftmost_Nil_cases)
      define u where "u = rb_set_color RB_BLACK child2"
      define a where "a = (if rb_propagate cmp (rb_aug u) lp = [] then rb_aug u
        else Some (crumb_aug (last (rb_propagate cmp (rb_aug u) lp))))"
      define qs where "qs = rb_propagate cmp (rb_aug u) lp @ rb_propagate cmp a (InRight c l sk g # ps)"
      from assms(1) z have "rb_tree (zip_up (RbNode sc RbNil sk sg child2) (lp @ InRight c l k g # ps))"
        by simp
      then have s: "invc (RbNode sc RbNil sk sg child2)" "invh (RbNode sc RbNil sk sg child2)"
        "ctx_ok (bh (RbNode sc RbNil sk sg child2)) (sc = RB_RED) (lp @ InRight c l k g # ps)"
        unfolding rb_tree_zip_up by simp_all
      have "ctx_ok h red qs = ctx_ok h red (lp @ InRight c l k g # ps)" for h red
        unfolding qs_def ctx_ok_propagate_append
        by (rule ctx_ok_append_cong) (simp del: rb_propagate.simps)
      with s have "ctx_ok (bh (RbNode sc RbNil sk sg child2)) (sc = RB_RED) qs" by simp
      from replace_ok [OF s(1,2) this refl u_def] have
        "rb_tree (if child2 = RbNil \<and> sc = RB_BLACK then rb_erase_color cmp u qs else zip_up u qs)"
        by simp
      moreover from e l False lm
      have "t' = u" "ps' = qs" "more = (child2 = RbNil \<and> sc = RB_BLACK)"
        by (auto simp: erase_node_def Let_def u_def a_def qs_def simp del: rb_propagate.simps)
      ultimately show ?thesis by (simp only:)
    qed
  qed
qed

lemma rb_tree_erase [simp]: "rb_tree t \<Longrightarrow> rb_tree (rb_erase_augmented cmp k t)"
proof (cases "k \<in> set (inorder t)")
  case True
  assume t: "rb_tree t"
  from True obtain c l g r ps where loc: "rb_locate k t [] = Some (RbNode c l k g r, ps)"
    and z: "zip_up (RbNode c l k g r) ps = t"
    by (rule rb_locate_cases)
  obtain t' ps' more where e: "erase_node cmp (RbNode c l k g r) ps = (t', ps', more)"
    by (metis prod_cases3)
  from erase_node_ok [OF _ e] t z loc e show ?thesis
    by (simp add: rb_erase_augmented_def)
qed (simp add: rb_erase_augmented_def)

text \<open>Linking a new node at any leaf of a red-black tree and rebalancing.\<close>

lemma rb_tree_insert_augmented:
  assumes "rb_tree (zip_up RbNil ps)"
  shows "rb_tree (rb_insert_augmented cmp k g ps)"
proof -
  from assms have "ctx_ok 0 False ps" by (simp add: rb_tree_zip_up)
  then show ?thesis
    by (simp add: rb_insert_augmented_def rb_link_node_def rb_tree_insert_fix)
qed

section \<open>Height\<close>

fun rb_height :: "('k, 'g) rbt \<Rightarrow> nat" where
  "rb_height RbNil = 0"
| "rb_height (RbNode c l k g r) = Suc (max (rb_height l) (rb_height r))"

lemma rb_height_bh:
  "invc t \<Longrightarrow> invh t \<Longrightarrow> rb_height t \<le> 2 * bh t + (if rb_is_red t then 1 else 0)"
proof (induction t)
  case (RbNode c l k g r)
  then show ?case by (cases c) (auto split: if_splits)
qed simp

lemma bh_size: "invh t \<Longrightarrow> 2 ^ bh t \<le> Suc (length (inorder t))"
proof (induction t)
  case (RbNode c l k g r)
  then show ?case by auto
qed simp

lemma rb_height_log:
  assumes "rb_tree t"
  shows "2 ^ rb_height t \<le> (Suc (length (inorder t)))\<^sup>2"
proof -
  have "rb_height t \<le> 2 * bh t"
    using assms rb_height_bh [of t] by (simp add: rb_tree_def)
  then have "(2::nat) ^ rb_height t \<le> 2 ^ (2 * bh t)" by (simp add: power_increasing)
  also have "\<dots> = (2 ^ bh t)\<^sup>2" by (simp add: power_mult mult.commute)
  also have "\<dots> \<le> (Suc (length (inorder t)))\<^sup>2"
    using assms bh_size [of t] by (simp add: rb_tree_def power_mono)
  finally show ?thesis .
qed

end
