(* ===== verification/Planner_Points.thy ===== *)
theory Planner_Points
  imports RBTree_Balance
begin

text \<open>
  The two search trees of \<open>planner/planner.c\<close> over scheduled points: the scheduled-point tree
  (ordered by time) and the min-time resource tree (ordered by remaining resources, augmented with
  the least time of each subtree).

  A \<open>scheduled_point_t *\<close> is a number that indexes the store \<open>sp_heap\<close>, which holds every point ever
  allocated (freed points stay in it; the invariant of \<open>Planner_Invariant\<close> shows that the trees and the
  spans refer to live points only); the two \<open>rb_node\<close>s embedded
  in a point are its occurrences in the two trees. \<open>subtree_min\<close> is the augmented field of the second
  tree and so lives in the tree.
\<close>

section \<open>Scheduled points\<close>

type_synonym resource_array = "int list"

abbreviation PLANNER_NUM_TYPES :: nat where
  "PLANNER_NUM_TYPES \<equiv> 5"

record scheduled_point =
  sp_at :: int
  in_mt_resource_tree :: bool
  new_point :: bool
  ref_count :: int
  scheduled :: resource_array
  remaining :: resource_array

type_synonym sp_ptr = nat
type_synonym sp_heap = "scheduled_point list"
type_synonym sp_tree = "(sp_ptr, unit) rbt"
type_synonym mt_tree = "(sp_ptr, int) rbt"

definition deref :: "sp_heap \<Rightarrow> sp_ptr \<Rightarrow> scheduled_point" where
  "deref h p = h ! p"

definition upd_point :: "sp_ptr \<Rightarrow> (scheduled_point \<Rightarrow> scheduled_point) \<Rightarrow> sp_heap \<Rightarrow> sp_heap" where
  "upd_point p f h = h[p := f (h ! p)]"

definition at_of :: "sp_heap \<Rightarrow> sp_ptr \<Rightarrow> int" where
  "at_of h p = sp_at (deref h p)"

definition remaining_of :: "sp_heap \<Rightarrow> sp_ptr \<Rightarrow> resource_array" where
  "remaining_of h p = remaining (deref h p)"

section \<open>The scheduled-point tree\<close>

definition dummy_callbacks :: "(sp_ptr, unit) compute" where
  "dummy_callbacks k a b = ()"

fun scheduled_point_search :: "sp_heap \<Rightarrow> int \<Rightarrow> (sp_ptr, 'g) rbt \<Rightarrow> sp_ptr option" where
  "scheduled_point_search h t RbNil = None"
| "scheduled_point_search h t (RbNode c l this_data g r) =
     (let result = i64 (t - at_of h this_data)
      in if result < 0 then scheduled_point_search h t l
         else if result > 0 then scheduled_point_search h t r
         else Some this_data)"

definition recent_state :: "sp_heap \<Rightarrow> sp_ptr \<Rightarrow> sp_ptr option \<Rightarrow> sp_ptr option" where
  "recent_state h new_data old_data =
     (case old_data of
        None \<Rightarrow> Some new_data
      | Some old \<Rightarrow> if at_of h new_data > at_of h old then Some new_data else Some old)"

fun scheduled_point_state_from :: "sp_heap \<Rightarrow> int \<Rightarrow> (sp_ptr, 'g) rbt \<Rightarrow> sp_ptr option \<Rightarrow> sp_ptr option" where
  "scheduled_point_state_from h t RbNil last_state = last_state"
| "scheduled_point_state_from h t (RbNode c l this_data g r) last_state =
     (let result = i64 (t - at_of h this_data)
      in if result < 0 then scheduled_point_state_from h t l last_state
         else if result > 0 then scheduled_point_state_from h t r (recent_state h this_data last_state)
         else Some this_data)"

definition scheduled_point_state :: "sp_heap \<Rightarrow> int \<Rightarrow> sp_tree \<Rightarrow> sp_ptr option" where
  "scheduled_point_state h t root = scheduled_point_state_from h t root None"

fun scheduled_point_link :: "sp_heap \<Rightarrow> int \<Rightarrow> (sp_ptr, 'g) rbt \<Rightarrow> (sp_ptr, 'g) crumb list \<Rightarrow>
    (sp_ptr, 'g) crumb list option" where
  "scheduled_point_link h t RbNil ps = Some ps"
| "scheduled_point_link h t (RbNode c l this_data g r) ps =
     (let result = i64 (t - at_of h this_data)
      in if result < 0 then scheduled_point_link h t l (InLeft c this_data g r # ps)
         else if result > 0 then scheduled_point_link h t r (InRight c l this_data g # ps)
         else None)"

text \<open>\<open>None\<close> is the return value \<open>-1\<close>: a point of that time is in the tree already.\<close>

definition scheduled_point_insert :: "sp_heap \<Rightarrow> sp_ptr \<Rightarrow> sp_tree \<Rightarrow> sp_tree option" where
  "scheduled_point_insert h new_data root =
     map_option (rb_insert_augmented dummy_callbacks new_data ())
       (scheduled_point_link h (at_of h new_data) root [])"

definition scheduled_point_remove :: "sp_heap \<Rightarrow> sp_ptr \<Rightarrow> sp_tree \<Rightarrow> sp_tree option" where
  "scheduled_point_remove h data root =
     map_option (\<lambda>n. rb_erase_augmented dummy_callbacks n root)
       (scheduled_point_search h (at_of h data) root)"

text \<open>
  The loops \<open>while (point) { ... point = rb_next (point); }\<close> of the planner run over this list. The
  first argument bounds the number of steps; the number of nodes is enough (\<open>rb_walk_eq\<close>).
\<close>

fun rb_walk :: "nat \<Rightarrow> sp_ptr option \<Rightarrow> sp_tree \<Rightarrow> sp_ptr list" where
  "rb_walk (Suc n) (Some p) t = p # rb_walk n (rb_next p t) t"
| "rb_walk _ _ t = []"

definition points_from :: "sp_ptr option \<Rightarrow> sp_tree \<Rightarrow> sp_ptr list" where
  "points_from p t = rb_walk (length (inorder t)) p t"

section \<open>The min-time resource tree\<close>

definition mintime_resource_subtree_min :: "sp_heap \<Rightarrow> (sp_ptr, int) compute" where
  "mintime_resource_subtree_min h point left right =
     (let m = at_of h point;
          m = (case left of Some a \<Rightarrow> if m > a then a else m | None \<Rightarrow> m)
      in (case right of Some a \<Rightarrow> if m > a then a else m | None \<Rightarrow> m))"

text \<open>\<open>rescmp\<close>: \<open>less\<close> is an \<open>int\<close>, so each addition is cut to 32 bits.\<close>

fun rescmp_loop :: "(int \<times> int) list \<Rightarrow> int \<Rightarrow> int" where
  "rescmp_loop [] acc = acc"
| "rescmp_loop ((a, b) # rest) acc =
     (let r = i64 (a - b) in if r > 0 then r else rescmp_loop rest (i32 (acc + r)))"

definition rescmp :: "resource_array \<Rightarrow> resource_array \<Rightarrow> nat \<Rightarrow> int" where
  "rescmp s1 s2 len = rescmp_loop (zip (take len s1) (take len s2)) 0"

fun mintime_resource_link :: "sp_heap \<Rightarrow> nat \<Rightarrow> sp_ptr \<Rightarrow> mt_tree \<Rightarrow> (sp_ptr, int) crumb list \<Rightarrow>
    (sp_ptr, int) crumb list" where
  "mintime_resource_link h len new_data RbNil ps = ps"
| "mintime_resource_link h len new_data (RbNode c l this_data subtree_min r) ps =
     (let m = (if subtree_min > at_of h new_data then at_of h new_data else subtree_min)
      in if rescmp (remaining_of h new_data) (remaining_of h this_data) len < 0
         then mintime_resource_link h len new_data l (InLeft c this_data m r # ps)
         else mintime_resource_link h len new_data r (InRight c l this_data m # ps))"

definition mintime_resource_insert :: "nat \<Rightarrow> sp_ptr \<Rightarrow> sp_heap \<times> mt_tree \<Rightarrow> sp_heap \<times> mt_tree" where
  "mintime_resource_insert len new_data hm =
     (case hm of (h, root) \<Rightarrow>
        (upd_point new_data (\<lambda>s. s\<lparr>in_mt_resource_tree := True\<rparr>) h,
         rb_insert_augmented (mintime_resource_subtree_min h) new_data (at_of h new_data)
           (mintime_resource_link h len new_data root [])))"

definition mintime_resource_remove :: "sp_ptr \<Rightarrow> sp_heap \<times> mt_tree \<Rightarrow> sp_heap \<times> mt_tree" where
  "mintime_resource_remove data hm =
     (case hm of (h, root) \<Rightarrow>
        (upd_point data (\<lambda>s. s\<lparr>in_mt_resource_tree := False\<rparr>) h,
         rb_erase_augmented (mintime_resource_subtree_min h) data root))"

definition right_branch_mintime :: "sp_heap \<Rightarrow> sp_ptr \<Rightarrow> mt_tree \<Rightarrow> int" where
  "right_branch_mintime h this_data right =
     (let min_time = (case rb_aug right of Some m \<Rightarrow> m | None \<Rightarrow> INT64_MAX)
      in if at_of h this_data < min_time then at_of h this_data else min_time)"

fun find_mintime_right :: "sp_heap \<Rightarrow> int \<Rightarrow> mt_tree \<Rightarrow> sp_ptr option" where
  "find_mintime_right h min_time RbNil = None"
| "find_mintime_right h min_time (RbNode c l this_data g r) =
     (if at_of h this_data = min_time then Some this_data
      else if rb_aug l = Some min_time then find_mintime_right h min_time l
      else find_mintime_right h min_time r)"

text \<open>The anchor is the subtree rooted at the anchor node; \<open>RbNil\<close> is the null pointer.\<close>

definition find_mintime_point :: "sp_heap \<Rightarrow> mt_tree \<Rightarrow> int \<Rightarrow> sp_ptr option" where
  "find_mintime_point h anchor min_time =
     (case anchor of
        RbNil \<Rightarrow> None
      | RbNode c l this_data g r \<Rightarrow>
          if at_of h this_data = min_time then Some this_data else find_mintime_right h min_time r)"

fun find_mintime_anchor :: "sp_heap \<Rightarrow> resource_array \<Rightarrow> nat \<Rightarrow> mt_tree \<Rightarrow> int \<times> mt_tree \<Rightarrow> int \<times> mt_tree" where
  "find_mintime_anchor h ra len RbNil (min_time, anchor) = (min_time, anchor)"
| "find_mintime_anchor h ra len (RbNode c l this_data g r) (min_time, anchor) =
     (if rescmp ra (remaining_of h this_data) len \<le> 0 then
        (let right_min_time = right_branch_mintime h this_data r
         in find_mintime_anchor h ra len l
              (if right_min_time < min_time then (right_min_time, RbNode c l this_data g r)
               else (min_time, anchor)))
      else find_mintime_anchor h ra len r (min_time, anchor))"

definition mintime_resource_mintime :: "sp_heap \<Rightarrow> resource_array \<Rightarrow> nat \<Rightarrow> mt_tree \<Rightarrow> sp_ptr option" where
  "mintime_resource_mintime h ra len mtrt =
     (case find_mintime_anchor h ra len mtrt (INT64_MAX, RbNil) of
        (min_time, anchor) \<Rightarrow> find_mintime_point h anchor min_time)"

end
