(* ===== verification/Planner.thy ===== *)
theory Planner
  imports Planner_Points
begin

text \<open>
  The planner of \<open>planner/planner.c\<close>: its context (\<open>struct planner\<close>), the internal scheduled-point and
  resource updates, and the public API.

  A call returns the C return value and the \<open>errno\<close> it sets (\<open>None\<close> when it sets none), together with
  the new context where it changes the context. Where the C code follows a pointer that can be null,
  the whole call is an option and \<open>None\<close> is the null dereference. Null arguments are ruled out by the
  types. The order in which CZMQ's \<open>zhash_keys\<close> lists the keys of a table is not documented and is the
  parameter \<open>zkeys\<close>.
\<close>

section \<open>The context\<close>

datatype errno = EINVAL | ERANGE

record request =
  on_or_after :: int
  req_duration :: int
  req_resources :: resource_array
  req_dimension :: nat

record span =
  span_start :: int
  span_last :: int
  span_id :: int
  planned :: resource_array
  span_dimension :: nat
  in_system :: bool
  start_p :: "sp_ptr option"
  last_p :: "sp_ptr option"

record planner =
  total_resources :: resource_array
  resource_types :: "string list"
  dimension :: nat
  plan_start :: int
  plan_end :: int
  sched_point_tree :: sp_tree
  mt_resource_tree :: mt_tree
  p0 :: sp_ptr
  span_lookup :: "(int \<times> span) list"
  avail_time_iter :: "(int \<times> sp_ptr) list"
  current_request :: request
  avail_time_iter_set :: bool
  span_counter :: int
  sp_store :: sp_heap

text \<open>
  The span table is CZMQ's \<open>zhashx\<close>, here an association list.
  Table keys are decimal strings of the id (\<open>%jd\<close> of an \<open>int64_t\<close> on insertion, \<open>%ju\<close> on lookup); the
  decimal string is represented by the number it denotes.
\<close>

definition span_key :: "int \<Rightarrow> int" where
  "span_key sid = u64 sid"

section \<open>Scheduled point and resource updates\<close>

definition with_mt :: "(sp_heap \<times> mt_tree \<Rightarrow> sp_heap \<times> mt_tree) \<Rightarrow> planner \<Rightarrow> planner" where
  "with_mt f ctx =
     (case f (sp_store ctx, mt_resource_tree ctx) of
        (h, t) \<Rightarrow> ctx\<lparr>sp_store := h, mt_resource_tree := t\<rparr>)"

text \<open>\<open>zhash_insert\<close> leaves the table alone when the key is present.\<close>

definition track_points :: "sp_ptr \<Rightarrow> planner \<Rightarrow> planner" where
  "track_points point ctx =
     (let key = at_of (sp_store ctx) point
      in if key \<in> fst ` set (avail_time_iter ctx) then ctx
         else ctx\<lparr>avail_time_iter := avail_time_iter ctx @ [(key, point)]\<rparr>)"

definition restore_track_point :: "int \<Rightarrow> planner \<Rightarrow> planner" where
  "restore_track_point k ctx =
     (case map_of (avail_time_iter ctx) k of
        None \<Rightarrow> ctx
      | Some point \<Rightarrow>
          (with_mt (mintime_resource_insert (dimension ctx) point) ctx)
            \<lparr>avail_time_iter := filter (\<lambda>kv. fst kv \<noteq> k) (avail_time_iter ctx)\<rparr>)"

definition restore_track_points :: "(int list \<Rightarrow> int list) \<Rightarrow> planner \<Rightarrow> planner" where
  "restore_track_points zkeys ctx = fold restore_track_point (zkeys (map fst (avail_time_iter ctx))) ctx"

definition update_mintime_point :: "sp_ptr \<Rightarrow> planner \<Rightarrow> planner" where
  "update_mintime_point point ctx =
     (let ctx = (if in_mt_resource_tree (deref (sp_store ctx) point)
                 then with_mt (mintime_resource_remove point) ctx else ctx)
      in if ref_count (deref (sp_store ctx) point) \<noteq> 0 \<and> \<not> in_mt_resource_tree (deref (sp_store ctx) point)
         then with_mt (mintime_resource_insert (dimension ctx) point) ctx else ctx)"

definition update_mintime_resource_tree :: "sp_ptr list \<Rightarrow> planner \<Rightarrow> planner" where
  "update_mintime_resource_tree points ctx = fold update_mintime_point points ctx"

definition copy_req :: "int \<Rightarrow> int \<Rightarrow> resource_array \<Rightarrow> nat \<Rightarrow> request" where
  "copy_req on_or_aft duration resource_counts len =
     \<lparr>on_or_after = on_or_aft, req_duration = duration,
      req_resources = map i64 (take len resource_counts), req_dimension = len\<rparr>"

text \<open>\<open>None\<close>: no state at or before that time, where the C code copies from a null pointer.\<close>

definition get_or_new_point :: "int \<Rightarrow> planner \<Rightarrow> (planner \<times> sp_ptr) option" where
  "get_or_new_point t ctx =
     (case scheduled_point_search (sp_store ctx) t (sched_point_tree ctx) of
        Some point \<Rightarrow> Some (ctx, point)
      | None \<Rightarrow>
          (case scheduled_point_state (sp_store ctx) t (sched_point_tree ctx) of
             None \<Rightarrow> None
           | Some state \<Rightarrow>
               let point = length (sp_store ctx);
                   h = sp_store ctx @ [
                     \<lparr>sp_at = t, in_mt_resource_tree = False, new_point = True, ref_count = 0,
                      scheduled = scheduled (deref (sp_store ctx) state),
                      remaining = remaining (deref (sp_store ctx) state)\<rparr>];
                   spt = (case scheduled_point_insert h point (sched_point_tree ctx) of
                            Some spt \<Rightarrow> spt | None \<Rightarrow> sched_point_tree ctx);
                   ctx = ctx\<lparr>sp_store := h, sched_point_tree := spt\<rparr>
               in Some (with_mt (mintime_resource_insert (dimension ctx) point) ctx, point)))"

fun fetch_overlap_loop :: "sp_heap \<Rightarrow> int \<Rightarrow> int \<Rightarrow> sp_ptr list \<Rightarrow> sp_ptr list" where
  "fetch_overlap_loop h t stop [] = []"
| "fetch_overlap_loop h t stop (point # rest) =
     (if at_of h point \<ge> stop then []
      else if at_of h point \<ge> t then point # fetch_overlap_loop h t stop rest
      else fetch_overlap_loop h t stop rest)"

definition fetch_overlap_points :: "int \<Rightarrow> int \<Rightarrow> planner \<Rightarrow> sp_ptr list" where
  "fetch_overlap_points t duration ctx =
     fetch_overlap_loop (sp_store ctx) t (i64 (t + i64 duration))
       (points_from (scheduled_point_state (sp_store ctx) t (sched_point_tree ctx)) (sched_point_tree ctx))"

text \<open>The first \<open>dim\<close> entries of an array changed by those of another.\<close>

definition array_upd :: "(int \<Rightarrow> int \<Rightarrow> int) \<Rightarrow> nat \<Rightarrow> resource_array \<Rightarrow> resource_array \<Rightarrow> resource_array" where
  "array_upd f dim xs ys = map2 (\<lambda>i x. if i < dim then i64 (f x (ys ! i)) else x) [0..<length xs] xs"

definition add_to_point :: "span \<Rightarrow> scheduled_point \<Rightarrow> scheduled_point" where
  "add_to_point s point = point\<lparr>
     scheduled := array_upd (+) (span_dimension s) (scheduled point) (planned s),
     remaining := array_upd (-) (span_dimension s) (remaining point) (planned s)\<rparr>"

definition subtract_from_point :: "span \<Rightarrow> scheduled_point \<Rightarrow> scheduled_point" where
  "subtract_from_point s point = point\<lparr>
     scheduled := array_upd (-) (span_dimension s) (scheduled point) (planned s),
     remaining := array_upd (+) (span_dimension s) (remaining point) (planned s)\<rparr>"

text \<open>
  The update loops. Their return value is ignored by both callers; the \<open>errno\<close> they set when a count
  leaves its range is kept (second component).
\<close>

definition point_over :: "planner \<Rightarrow> span \<Rightarrow> scheduled_point \<Rightarrow> bool" where
  "point_over ctx s point \<longleftrightarrow>
     (\<exists>i<span_dimension s. scheduled point ! i > total_resources ctx ! i \<or> remaining point ! i < 0)"

definition point_under :: "planner \<Rightarrow> span \<Rightarrow> scheduled_point \<Rightarrow> bool" where
  "point_under ctx s point \<longleftrightarrow>
     (\<exists>i<span_dimension s. scheduled point ! i < 0 \<or> remaining point ! i > total_resources ctx ! i)"

definition update_points_add_span :: "sp_ptr list \<Rightarrow> span \<Rightarrow> planner \<Rightarrow> planner \<times> errno option" where
  "update_points_add_span points s ctx =
     (let h = fold (\<lambda>p. upd_point p (add_to_point s)) points (sp_store ctx)
      in (ctx\<lparr>sp_store := h\<rparr>,
          if \<exists>p\<in>set points. point_over ctx s (deref h p) then Some ERANGE else None))"

definition update_points_subtract_span :: "sp_ptr list \<Rightarrow> span \<Rightarrow> planner \<Rightarrow> planner \<times> errno option" where
  "update_points_subtract_span points s ctx =
     (let h = fold (\<lambda>p. upd_point p (subtract_from_point s)) points (sp_store ctx)
      in (ctx\<lparr>sp_store := h\<rparr>,
          if \<exists>p\<in>set points. point_under ctx s (deref h p) then Some ERANGE else None))"

section \<open>Availability\<close>

text \<open>
  \<open>(at + duration) > plan_end\<close> mixes \<open>int64_t\<close> and \<open>uint64_t\<close>: both sides are compared as unsigned
  64-bit numbers.
\<close>

definition past_plan_end :: "planner \<Rightarrow> int \<Rightarrow> int \<Rightarrow> bool" where
  "past_plan_end ctx t duration \<longleftrightarrow> u64 (t + duration) > u64 (plan_end ctx)"

fun fits_during :: "sp_heap \<Rightarrow> int \<Rightarrow> resource_array \<Rightarrow> nat \<Rightarrow> sp_ptr list \<Rightarrow> bool" where
  "fits_during h stop resource_counts len [] = True"
| "fits_during h stop resource_counts len (point # rest) =
     (if at_of h point \<ge> stop then True
      else if rescmp resource_counts (remaining_of h point) len > 0 then False
      else fits_during h stop resource_counts len rest)"

text \<open>
  \<open>span_ok\<close>: on failure the start point is taken out of the min-time tree and tracked. The loop itself
  is the one of \<open>avail_during\<close>, from the start point.
\<close>

definition untrack_start :: "sp_ptr \<Rightarrow> planner \<Rightarrow> planner" where
  "untrack_start start_point ctx = track_points start_point (with_mt (mintime_resource_remove start_point) ctx)"

definition span_ok :: "sp_ptr \<Rightarrow> int \<Rightarrow> resource_array \<Rightarrow> nat \<Rightarrow> planner \<Rightarrow> planner \<times> bool" where
  "span_ok start_point duration resource_counts len ctx =
     (if fits_during (sp_store ctx) (i64 (at_of (sp_store ctx) start_point + i64 duration)) resource_counts len
           (points_from (Some start_point) (sched_point_tree ctx))
      then (ctx, True)
      else (untrack_start start_point ctx, False))"

text \<open>
  \<open>avail_at\<close>. The variable \<open>at\<close> survives from one round to the next; every round takes a point out of the
  min-time tree, so the number of points bounds the rounds (\<open>avail_at_fuel\<close> in \<open>Planner_Queries\<close>).
\<close>

fun avail_at_loop :: "nat \<Rightarrow> int \<Rightarrow> int \<Rightarrow> resource_array \<Rightarrow> nat \<Rightarrow> int \<Rightarrow> planner \<Rightarrow> planner \<times> int" where
  "avail_at_loop 0 on_or_aft duration resource_counts len t ctx = (ctx, t)"
| "avail_at_loop (Suc fuel) on_or_aft duration resource_counts len t ctx =
     (case mintime_resource_mintime (sp_store ctx) resource_counts len (mt_resource_tree ctx) of
        None \<Rightarrow> (ctx, t)
      | Some start_point \<Rightarrow>
          let t = at_of (sp_store ctx) start_point
          in if t < on_or_aft then
               avail_at_loop fuel on_or_aft duration resource_counts len (-1) (untrack_start start_point ctx)
             else (case span_ok start_point duration resource_counts len ctx of
                 (ctx, True) \<Rightarrow>
                   (untrack_start start_point ctx, if past_plan_end ctx t duration then -1 else t)
               | (ctx, False) \<Rightarrow> avail_at_loop fuel on_or_aft duration resource_counts len t ctx))"

definition avail_at :: "int \<Rightarrow> int \<Rightarrow> resource_array \<Rightarrow> nat \<Rightarrow> planner \<Rightarrow> planner \<times> int" where
  "avail_at on_or_aft duration resource_counts len ctx =
     avail_at_loop (Suc (length (inorder (mt_resource_tree ctx)))) on_or_aft duration resource_counts len (-1) ctx"

text \<open>
  \<open>avail_during\<close> is declared \<open>bool\<close>, so its \<open>return -1\<close> for a window past the end of the plan is
  \<open>true\<close>.
\<close>

definition avail_during :: "int \<Rightarrow> int \<Rightarrow> resource_array \<Rightarrow> nat \<Rightarrow> planner \<Rightarrow> bool \<times> errno option" where
  "avail_during t duration resource_counts len ctx =
     (if past_plan_end ctx t duration then (True, Some ERANGE)
      else (fits_during (sp_store ctx) (i64 (t + i64 duration)) resource_counts len
              (points_from (scheduled_point_state (sp_store ctx) t (sched_point_tree ctx))
                 (sched_point_tree ctx)), None))"

fun min_point_during :: "sp_heap \<Rightarrow> int \<Rightarrow> sp_ptr option \<Rightarrow> sp_ptr list \<Rightarrow> sp_ptr option" where
  "min_point_during h stop m [] = m"
| "min_point_during h stop m (point # rest) =
     (if at_of h point \<ge> stop then m
      else (case m of
          Some q \<Rightarrow> min_point_during h stop
            (if rescmp (remaining_of h q) (remaining_of h point) PLANNER_NUM_TYPES > 0 then Some point else m) rest
        | None \<Rightarrow> min_point_during h stop m rest))"

definition avail_resources_during :: "int \<Rightarrow> int \<Rightarrow> planner \<Rightarrow> sp_ptr option" where
  "avail_resources_during t duration ctx =
     (if past_plan_end ctx t duration then None
      else (let point = scheduled_point_state (sp_store ctx) t (sched_point_tree ctx)
            in min_point_during (sp_store ctx) (i64 (t + i64 duration)) point
                 (points_from point (sched_point_tree ctx))))"

end
