(* ===== verification/Planner_API.thy ===== *)
theory Planner_API
  imports Planner
begin

text \<open>
  The public interface of \<open>planner/planner.c\<close> (declared in \<open>planner/planner.h\<close>), on the internal
  operations of \<open>Planner\<close>.
\<close>

section \<open>Construction\<close>

definition zero_array :: resource_array where
  "zero_array = replicate PLANNER_NUM_TYPES 0"

definition padded :: "nat \<Rightarrow> resource_array \<Rightarrow> resource_array" where
  "padded len xs = take len xs @ replicate (PLANNER_NUM_TYPES - len) 0"

definition initialize :: "int \<Rightarrow> int \<Rightarrow> planner \<Rightarrow> planner" where
  "initialize base_time duration ctx =
     (let point = 0;
          h = [\<lparr>sp_at = base_time, in_mt_resource_tree = False, new_point = False, ref_count = 1,
                scheduled = zero_array,
                remaining = padded (dimension ctx) (total_resources ctx)\<rparr>];
          spt = (case scheduled_point_insert h point RbNil of Some spt \<Rightarrow> spt | None \<Rightarrow> RbNil);
          ctx = ctx\<lparr>plan_start := base_time, plan_end := i64 (base_time + i64 duration),
                    p0 := point, sp_store := h,
                    sched_point_tree := spt, mt_resource_tree := RbNil\<rparr>;
          ctx = with_mt (mintime_resource_insert (dimension ctx) point) ctx
      in ctx\<lparr>span_lookup := [], avail_time_iter := [],
             current_request := \<lparr>on_or_after = 0, req_duration = 0, req_resources = zero_array, req_dimension = 0\<rparr>,
             avail_time_iter_set := False, span_counter := 0\<rparr>)"

definition blank_planner :: "resource_array \<Rightarrow> string list \<Rightarrow> nat \<Rightarrow> planner" where
  "blank_planner totals types len =
     \<lparr>total_resources = totals, resource_types = types, dimension = len, plan_start = 0, plan_end = 0,
      sched_point_tree = RbNil, mt_resource_tree = RbNil, p0 = 0, span_lookup = [], avail_time_iter = [],
      current_request = \<lparr>on_or_after = 0, req_duration = 0, req_resources = zero_array, req_dimension = 0\<rparr>,
      avail_time_iter_set = False, span_counter = 0, sp_store = []\<rparr>"

definition planner_new :: "int \<Rightarrow> int \<Rightarrow> resource_array \<Rightarrow> string list \<Rightarrow> nat \<Rightarrow> errno + planner" where
  "planner_new base_time duration totals types len =
     (if duration < 1 \<or> len > PLANNER_NUM_TYPES then Inl EINVAL
      else if \<exists>x\<in>set (take len totals). x > INT64_MAX then Inl ERANGE
      else Inr (initialize base_time duration (blank_planner (padded len totals) (take len types) len)))"

text \<open>\<open>erase\<close> frees every point and span; \<open>initialize\<close> then starts from an empty store.\<close>

definition planner_reset :: "int \<Rightarrow> int \<Rightarrow> planner \<Rightarrow> planner \<times> int \<times> errno option" where
  "planner_reset base_time duration ctx =
     (if duration < 1 then (ctx, -1, Some EINVAL)
      else (initialize base_time duration ctx, 0, None))"

section \<open>Getters\<close>

definition planner_base_time :: "planner \<Rightarrow> int" where
  "planner_base_time ctx = plan_start ctx"

definition planner_duration :: "planner \<Rightarrow> int" where
  "planner_duration ctx = i64 (plan_end ctx - plan_start ctx)"

definition planner_resources_len :: "planner \<Rightarrow> nat" where
  "planner_resources_len ctx = dimension ctx"

definition planner_resource_total_at :: "planner \<Rightarrow> nat \<Rightarrow> int \<times> errno option" where
  "planner_resource_total_at ctx i =
     (if i \<ge> dimension ctx then (-1, Some EINVAL) else (total_resources ctx ! i, None))"

fun index_of_type_loop :: "string \<Rightarrow> string list \<Rightarrow> nat \<Rightarrow> nat" where
  "index_of_type_loop resource_type [] i = i"
| "index_of_type_loop resource_type (x # xs) i =
     (if x = resource_type then i else index_of_type_loop resource_type xs (Suc i))"

definition planner_resource_index_of_type :: "planner \<Rightarrow> string \<Rightarrow> nat option" where
  "planner_resource_index_of_type ctx resource_type =
     (let i = index_of_type_loop resource_type (take (dimension ctx) (resource_types ctx)) 0
      in if i < dimension ctx then Some i else None)"

definition planner_resource_total_by_type :: "planner \<Rightarrow> string \<Rightarrow> int" where
  "planner_resource_total_by_type ctx resource_type =
     (case planner_resource_index_of_type ctx resource_type of
        Some i \<Rightarrow> total_resources ctx ! i | None \<Rightarrow> -1)"

definition planner_resource_type_at :: "planner \<Rightarrow> nat \<Rightarrow> errno + string" where
  "planner_resource_type_at ctx i =
     (if i \<ge> dimension ctx then Inl EINVAL else Inr (resource_types ctx ! i))"

section \<open>Finding a time\<close>

definition planner_avail_time_first :: "(int list \<Rightarrow> int list) \<Rightarrow> int \<Rightarrow> int \<Rightarrow> resource_array \<Rightarrow> nat \<Rightarrow>
    planner \<Rightarrow> planner \<times> int \<times> errno option" where
  "planner_avail_time_first zkeys on_or_aft duration resource_counts len ctx =
     (if on_or_aft < plan_start ctx \<or> on_or_aft \<ge> plan_end ctx \<or> duration < 1 \<or> len > dimension ctx
      then (ctx, -1, Some EINVAL)
      else if rescmp (map i64 resource_counts) (total_resources ctx) len > 0
      then (ctx, -1, Some ERANGE)
      else (let ctx = (restore_track_points zkeys ctx)
              \<lparr>avail_time_iter_set := True,
               current_request := copy_req on_or_aft duration resource_counts len\<rparr>
            in (case avail_at on_or_aft duration (map i64 resource_counts) len ctx of
                  (ctx, t) \<Rightarrow> (ctx, t, None))))"

definition planner_avail_time_next :: "planner \<Rightarrow> planner \<times> int \<times> errno option" where
  "planner_avail_time_next ctx =
     (let req = current_request ctx
      in if \<not> avail_time_iter_set ctx then (ctx, -1, Some EINVAL)
         else if rescmp (req_resources req) (total_resources ctx) (req_dimension req) > 0
         then (ctx, -1, Some ERANGE)
         else (case avail_at (on_or_after req) (req_duration req) (req_resources req) (req_dimension req) ctx of
                 (ctx, t) \<Rightarrow> (ctx, t, None)))"

section \<open>Testing a window\<close>

definition planner_avail_during :: "planner \<Rightarrow> int \<Rightarrow> int \<Rightarrow> resource_array \<Rightarrow> nat \<Rightarrow> int \<times> errno option" where
  "planner_avail_during ctx start_time duration resource_counts len =
     (if duration < 1 \<or> len > dimension ctx then (-1, Some EINVAL)
      else if rescmp (map i64 resource_counts) (total_resources ctx) len > 0 then (-1, Some ERANGE)
      else (case avail_during start_time duration (map i64 resource_counts) len ctx of
              (ok, e) \<Rightarrow> (if ok then 0 else -1, e)))"

definition planner_avail_resources_during :: "planner \<Rightarrow> int \<Rightarrow> int \<Rightarrow> nat \<Rightarrow> (int \<times> errno option) option" where
  "planner_avail_resources_during ctx t duration i =
     (if t > plan_end ctx \<or> duration < 1 \<or> i \<ge> PLANNER_NUM_TYPES then Some (-1, Some EINVAL)
      else map_option (\<lambda>p. (remaining_of (sp_store ctx) p ! i, None)) (avail_resources_during t duration ctx))"

definition planner_avail_resources_during_by_type ::
    "planner \<Rightarrow> int \<Rightarrow> int \<Rightarrow> string \<Rightarrow> (int \<times> errno option) option" where
  "planner_avail_resources_during_by_type ctx t duration resource_type =
     (if t > plan_end ctx \<or> duration < 1 then Some (-1, Some EINVAL)
      else (case planner_resource_index_of_type ctx resource_type of
              None \<Rightarrow> Some (-1, Some EINVAL)
            | Some i \<Rightarrow>
                map_option (\<lambda>p. (remaining_of (sp_store ctx) p ! i, None))
                  (avail_resources_during t duration ctx)))"

definition planner_avail_resources_array_during ::
    "planner \<Rightarrow> int \<Rightarrow> int \<Rightarrow> nat \<Rightarrow> (errno + resource_array) option" where
  "planner_avail_resources_array_during ctx t duration len =
     (if t > plan_end ctx \<or> duration < 1 \<or> len \<ge> PLANNER_NUM_TYPES then Some (Inl EINVAL)
      else map_option (\<lambda>p. Inr (take len (remaining_of (sp_store ctx) p))) (avail_resources_during t duration ctx))"

definition planner_avail_resources_at :: "planner \<Rightarrow> int \<Rightarrow> nat \<Rightarrow> (int \<times> errno option) option" where
  "planner_avail_resources_at ctx t i =
     (if t > plan_end ctx \<or> i \<ge> PLANNER_NUM_TYPES then Some (-1, Some EINVAL)
      else map_option (\<lambda>p. (remaining_of (sp_store ctx) p ! i, None))
             (scheduled_point_state (sp_store ctx) t (sched_point_tree ctx)))"

definition planner_avail_resources_at_by_type :: "planner \<Rightarrow> int \<Rightarrow> string \<Rightarrow> (int \<times> errno option) option" where
  "planner_avail_resources_at_by_type ctx t resource_type =
     (if t > plan_end ctx then Some (-1, Some EINVAL)
      else (case planner_resource_index_of_type ctx resource_type of
              None \<Rightarrow> Some (-1, Some EINVAL)
            | Some i \<Rightarrow>
                map_option (\<lambda>p. (remaining_of (sp_store ctx) p ! i, None))
                  (scheduled_point_state (sp_store ctx) t (sched_point_tree ctx))))"

definition planner_avail_resources_array_at :: "planner \<Rightarrow> int \<Rightarrow> nat \<Rightarrow> (errno + resource_array) option" where
  "planner_avail_resources_array_at ctx t len =
     (if t > plan_end ctx \<or> len > dimension ctx then Some (Inl EINVAL)
      else map_option (\<lambda>p. Inr (take len (remaining_of (sp_store ctx) p)))
             (scheduled_point_state (sp_store ctx) t (sched_point_tree ctx)))"

section \<open>Spans\<close>

text \<open>Unsigned comparison again: the duration is a \<open>uint64_t\<close>.\<close>

definition not_feasable :: "planner \<Rightarrow> int \<Rightarrow> int \<Rightarrow> nat \<Rightarrow> bool" where
  "not_feasable ctx start_time duration len \<longleftrightarrow>
     start_time < plan_start ctx \<or> duration < 1 \<or>
     u64 (start_time + duration - 1) > u64 (plan_end ctx) \<or> len > PLANNER_NUM_TYPES"

fun check_counts :: "(int \<times> int) list \<Rightarrow> int \<Rightarrow> bool" where
  "check_counts [] acc = (acc > 0)"
| "check_counts ((count, tot) # rest) acc =
     (if count > tot then False else check_counts rest (i64 (acc + count)))"

definition span_input_check :: "planner \<Rightarrow> int \<Rightarrow> int \<Rightarrow> resource_array \<Rightarrow> nat \<Rightarrow> errno option" where
  "span_input_check ctx start_time duration resource_counts len =
     (if not_feasable ctx start_time duration len then Some EINVAL
      else if check_counts (zip (take len resource_counts) (take len (total_resources ctx))) 0 then None
      else Some ERANGE)"

definition zhashx_insert :: "int \<Rightarrow> span \<Rightarrow> (int \<times> span) list \<Rightarrow> (int \<times> span) list" where
  "zhashx_insert key s table = (if key \<in> fst ` set table then table else (key, s) # table)"

definition zhashx_modify :: "int \<Rightarrow> (span \<Rightarrow> span) \<Rightarrow> (int \<times> span) list \<Rightarrow> (int \<times> span) list" where
  "zhashx_modify key f table = map (\<lambda>(k, s). (k, if k = key then f s else s)) table"

definition zhashx_delete :: "int \<Rightarrow> (int \<times> span) list \<Rightarrow> (int \<times> span) list" where
  "zhashx_delete key table = filter (\<lambda>ks. fst ks \<noteq> key) table"

definition span_new :: "int \<Rightarrow> int \<Rightarrow> resource_array \<Rightarrow> nat \<Rightarrow> planner \<Rightarrow> errno + (planner \<times> span)" where
  "span_new start_time duration resource_counts len ctx =
     (case span_input_check ctx start_time duration (map i64 resource_counts) len of
        Some e \<Rightarrow> Inl e
      | None \<Rightarrow>
          let counter = u64 (span_counter ctx + 1);
              s = \<lparr>span_start = start_time, span_last = i64 (start_time + duration), span_id = i64 counter,
                   planned = padded len (map i64 resource_counts), span_dimension = len, in_system = False,
                   start_p = None, last_p = None\<rparr>
          in Inr (ctx\<lparr>span_counter := counter, span_lookup := zhashx_insert (span_id s) s (span_lookup ctx)\<rparr>, s))"

definition incr_ref :: "int \<Rightarrow> sp_ptr \<Rightarrow> planner \<Rightarrow> planner" where
  "incr_ref d p ctx = ctx\<lparr>sp_store := upd_point p (\<lambda>s. s\<lparr>ref_count := ref_count s + d\<rparr>) (sp_store ctx)\<rparr>"

definition clear_new :: "sp_ptr \<Rightarrow> planner \<Rightarrow> planner" where
  "clear_new p ctx = ctx\<lparr>sp_store := upd_point p (\<lambda>s. s\<lparr>new_point := False\<rparr>) (sp_store ctx)\<rparr>"

text \<open>The part of \<open>planner_add_span\<close> after \<open>span_new\<close> has returned a span.\<close>

definition insert_span :: "(int list \<Rightarrow> int list) \<Rightarrow> span \<Rightarrow> int \<Rightarrow> planner \<Rightarrow> (planner \<times> errno option) option" where
  "insert_span zkeys s duration ctx =
     (let ctx = restore_track_points zkeys ctx
      in (case get_or_new_point (span_start s) ctx of
            None \<Rightarrow> None
          | Some (ctx, start_point) \<Rightarrow>
              let ctx = incr_ref 1 start_point ctx
              in (case get_or_new_point (span_last s) ctx of
                    None \<Rightarrow> None
                  | Some (ctx, last_point) \<Rightarrow>
                      let ctx = incr_ref 1 last_point ctx;
                          points = fetch_overlap_points (span_start s) duration ctx
                      in (case update_points_add_span points s ctx of
                            (ctx, e) \<Rightarrow>
                              let ctx = clear_new last_point (clear_new start_point ctx);
                                  ctx = update_mintime_resource_tree points ctx
                              in Some (ctx\<lparr>span_lookup := zhashx_modify (span_id s)
                                            (\<lambda>s. s\<lparr>start_p := Some start_point, last_p := Some last_point,
                                                  in_system := True\<rparr>) (span_lookup ctx),
                                          avail_time_iter_set := False\<rparr>, e)))))"

definition planner_add_span :: "(int list \<Rightarrow> int list) \<Rightarrow> int \<Rightarrow> int \<Rightarrow> resource_array \<Rightarrow> nat \<Rightarrow> planner \<Rightarrow>
    (planner \<times> int \<times> errno option) option" where
  "planner_add_span zkeys start_time duration resource_counts len ctx =
     (if \<not> fst (avail_during start_time duration (map i64 resource_counts) len ctx)
      then Some (ctx, -1, Some EINVAL)
      else (case span_new start_time duration resource_counts len ctx of
              Inl e \<Rightarrow> Some (ctx, -1, Some e)
            | Inr (ctx, s) \<Rightarrow>
                (case insert_span zkeys s duration ctx of
                   None \<Rightarrow> None
                 | Some (ctx, e) \<Rightarrow> Some (ctx, span_id s, e))))"

text \<open>One of the two end points of a removed span: freed when no span ends there any more.\<close>

definition release_point :: "sp_ptr \<Rightarrow> planner \<Rightarrow> planner" where
  "release_point p ctx =
     (if ref_count (deref (sp_store ctx) p) = 0 then
        (let spt = (case scheduled_point_remove (sp_store ctx) p (sched_point_tree ctx) of
                      Some spt \<Rightarrow> spt | None \<Rightarrow> sched_point_tree ctx);
             ctx = ctx\<lparr>sched_point_tree := spt\<rparr>
         in if in_mt_resource_tree (deref (sp_store ctx) p)
            then with_mt (mintime_resource_remove p) ctx else ctx)
      else ctx)"

definition planner_rem_span :: "(int list \<Rightarrow> int list) \<Rightarrow> int \<Rightarrow> planner \<Rightarrow>
    (planner \<times> int \<times> errno option) option" where
  "planner_rem_span zkeys sid ctx =
     (case map_of (span_lookup ctx) (span_key sid) of
        None \<Rightarrow> Some (ctx, -1, Some EINVAL)
      | Some s \<Rightarrow>
          (case (start_p s, last_p s) of
             (Some sp, Some lp) \<Rightarrow>
               let ctx = restore_track_points zkeys ctx;
                   duration = u64 (span_last s - span_start s);
                   ctx = incr_ref (-1) lp (incr_ref (-1) sp ctx);
                   points = fetch_overlap_points (span_start s) duration ctx
               in (case update_points_subtract_span points s ctx of
                     (ctx, e) \<Rightarrow>
                       let ctx = update_mintime_resource_tree points ctx;
                           ctx = release_point lp (release_point sp ctx)
                       in Some (ctx\<lparr>span_lookup := zhashx_delete (span_key sid) (span_lookup ctx),
                                   avail_time_iter_set := False\<rparr>, 0, e))
           | _ \<Rightarrow> None))"

definition planner_span_size :: "planner \<Rightarrow> nat" where
  "planner_span_size ctx = length (span_lookup ctx)"

definition planner_is_active_span :: "planner \<Rightarrow> int \<Rightarrow> bool \<times> errno option" where
  "planner_is_active_span ctx sid =
     (case map_of (span_lookup ctx) (span_key sid) of
        None \<Rightarrow> (False, Some EINVAL) | Some s \<Rightarrow> (in_system s, None))"

definition span_field :: "(span \<Rightarrow> int) \<Rightarrow> planner \<Rightarrow> int \<Rightarrow> int \<times> errno option" where
  "span_field f ctx sid =
     (case map_of (span_lookup ctx) (span_key sid) of
        None \<Rightarrow> (-1, Some EINVAL) | Some s \<Rightarrow> (f s, None))"

definition planner_span_start_time :: "planner \<Rightarrow> int \<Rightarrow> int \<times> errno option" where
  "planner_span_start_time = span_field span_start"

definition planner_span_duration :: "planner \<Rightarrow> int \<Rightarrow> int \<times> errno option" where
  "planner_span_duration = span_field (\<lambda>s. i64 (span_last s - span_start s))"

definition planner_span_resource_count_at :: "planner \<Rightarrow> int \<Rightarrow> nat \<Rightarrow> int \<times> errno option" where
  "planner_span_resource_count_at ctx sid i = span_field (\<lambda>s. planned s ! i) ctx sid"

text \<open>\<open>None\<close>: an unknown type gives the index \<open>-1\<close>, and \<open>planned\<close> is read outside its bounds.\<close>

definition planner_span_resource_count_by_type :: "planner \<Rightarrow> int \<Rightarrow> string \<Rightarrow> (int \<times> errno option) option" where
  "planner_span_resource_count_by_type ctx sid resource_type =
     (case map_of (span_lookup ctx) (span_key sid) of
        None \<Rightarrow> Some (-1, Some EINVAL)
      | Some s \<Rightarrow>
          (case planner_resource_index_of_type ctx resource_type of
             None \<Rightarrow> None | Some i \<Rightarrow> Some (planned s ! i, None)))"

text \<open>
  Iteration over the spans. The order of a \<open>zhashx\<close> table is not documented: the parameter \<open>zorder\<close>
  lists its keys. The cursor inside the table is the list of keys still to come, returned with the id.
\<close>

fun planner_span_next :: "planner \<Rightarrow> int list \<Rightarrow> int list \<times> int \<times> errno option" where
  "planner_span_next ctx [] = ([], -1, Some EINVAL)"
| "planner_span_next ctx (k # ks) =
     (case map_of (span_lookup ctx) k of
        None \<Rightarrow> (ks, -1, Some EINVAL) | Some s \<Rightarrow> (ks, span_id s, None))"

definition planner_span_first :: "(int list \<Rightarrow> int list) \<Rightarrow> planner \<Rightarrow> int list \<times> int \<times> errno option" where
  "planner_span_first zorder ctx = planner_span_next ctx (zorder (map fst (span_lookup ctx)))"

end
