(* ===== verification/Planner_Points_Laws.thy ===== *)
theory Planner_Points_Laws
  imports Planner_API "HOL-Library.Multiset"
begin

text \<open>
  What the tree operations of \<open>Planner_Points\<close> compute, as facts about the time-ordered list of the
  scheduled points and about the set of points in the min-time tree.
\<close>

section \<open>The store\<close>

lemma length_upd_point [simp]: "length (upd_point p f h) = length h"
  by (simp add: upd_point_def)

lemma deref_upd_point:
  "deref (upd_point p f h) q = (if p = q \<and> p < length h then f (deref h q) else deref h q)"
  by (cases "p < length h") (auto simp: deref_def upd_point_def nth_list_update list_update_beyond)

section \<open>Walking the scheduled points\<close>

lemma dropWhile_neq_next:
  "distinct xs \<Longrightarrow> p \<in> set xs \<Longrightarrow>
     dropWhile (\<lambda>q. q \<noteq> p) xs = p # (case next_in p xs of None \<Rightarrow> [] | Some q \<Rightarrow> dropWhile (\<lambda>r. r \<noteq> q) xs)"
proof (induction xs)
  case (Cons x xs)
  show ?case
  proof (cases "x = p")
    case True
    with Cons.prems show ?thesis by (cases xs) auto
  next
    case False
    with Cons have IH: "dropWhile (\<lambda>q. q \<noteq> p) xs =
        p # (case next_in p xs of None \<Rightarrow> [] | Some q \<Rightarrow> dropWhile (\<lambda>r. r \<noteq> q) xs)" by simp
    have "next_in p xs = Some q \<Longrightarrow> q \<in> set xs" for q
      by (induction xs) (auto split: if_splits list.splits)
    with Cons.prems False IH show ?thesis by (auto split: option.splits)
  qed
qed simp

lemma next_in_mem: "next_in p xs = Some q \<Longrightarrow> q \<in> set xs"
  by (induction xs) (auto split: if_splits list.splits)

lemma rb_walk_eq:
  assumes "distinct (inorder t)"
  shows "p \<in> set (inorder t) \<Longrightarrow> length (dropWhile (\<lambda>q. q \<noteq> p) (inorder t)) \<le> n \<Longrightarrow>
    rb_walk n (Some p) t = dropWhile (\<lambda>q. q \<noteq> p) (inorder t)"
proof (induction n arbitrary: p)
  case 0
  then show ?case using dropWhile_eq_Nil_conv [of "\<lambda>q. q \<noteq> p" "inorder t"] by auto
next
  case (Suc n)
  note eq = dropWhile_neq_next [OF assms Suc.prems(1)]
  show ?case
  proof (cases "next_in p (inorder t)")
    case None
    with eq show ?thesis using assms by (cases n) (simp_all add: rb_next_next_in)
  next
    case (Some q)
    then have "q \<in> set (inorder t)" by (rule next_in_mem)
    moreover from Suc.prems(2) eq Some have "length (dropWhile (\<lambda>r. r \<noteq> q) (inorder t)) \<le> n" by simp
    ultimately have "rb_walk n (Some q) t = dropWhile (\<lambda>r. r \<noteq> q) (inorder t)" by (rule Suc.IH)
    with eq Some assms show ?thesis by (simp add: rb_next_next_in)
  qed
qed

lemma points_from_eq:
  assumes "distinct (inorder t)" and "p \<in> set (inorder t)"
  shows "points_from (Some p) t = dropWhile (\<lambda>q. q \<noteq> p) (inorder t)"
  using assms by (simp add: points_from_def rb_walk_eq length_dropWhile_le)

lemma points_from_None [simp]: "points_from None t = []"
  by (simp add: points_from_def)

section \<open>The scheduled-point tree\<close>

definition time_ok :: "int \<Rightarrow> bool" where
  "time_ok t \<longleftrightarrow> 0 \<le> t \<and> t \<le> INT64_MAX"

definition sp_sorted :: "sp_heap \<Rightarrow> sp_ptr list \<Rightarrow> bool" where
  "sp_sorted h ps \<longleftrightarrow>
     sorted_wrt (\<lambda>p q. at_of h p < at_of h q) ps \<and> (\<forall>p\<in>set ps. time_ok (at_of h p))"

lemma time_diff [simp]: "time_ok s \<Longrightarrow> time_ok t \<Longrightarrow> i64 (s - t) = s - t"
  by (rule i64_id) (simp add: time_ok_def in_i64_def)

lemma sp_sorted_append [simp]:
  "sp_sorted h (ps @ qs) \<longleftrightarrow>
     sp_sorted h ps \<and> sp_sorted h qs \<and> (\<forall>p\<in>set ps. \<forall>q\<in>set qs. at_of h p < at_of h q)"
  by (auto simp: sp_sorted_def sorted_wrt_append)

lemma sp_sorted_Cons [simp]:
  "sp_sorted h (p # ps) \<longleftrightarrow>
     time_ok (at_of h p) \<and> (\<forall>q\<in>set ps. at_of h p < at_of h q) \<and> sp_sorted h ps"
  by (auto simp: sp_sorted_def)

lemma sp_sorted_Nil [simp]: "sp_sorted h []"
  by (simp add: sp_sorted_def)

lemma sp_sorted_filter [simp]: "sp_sorted h ps \<Longrightarrow> sp_sorted h (filter P ps)"
  by (auto simp: sp_sorted_def sorted_wrt_filter)

lemma sp_sorted_distinct: "sp_sorted h ps \<Longrightarrow> distinct ps"
  by (induction ps) auto

lemma sp_sorted_inj:
  "sp_sorted h ps \<Longrightarrow> p \<in> set ps \<Longrightarrow> q \<in> set ps \<Longrightarrow> at_of h p = at_of h q \<Longrightarrow> p = q"
  by (induction ps) auto

lemma sp_sorted_cong:
  "(\<And>p. p \<in> set ps \<Longrightarrow> at_of h p = at_of h' p) \<Longrightarrow> sp_sorted h ps = sp_sorted h' ps"
  by (induction ps) auto

lemma i64_0 [simp]: "i64 0 = 0"
  by (simp add: i64_def)

lemma find_append: "find P (xs @ ys) = (case find P xs of Some y \<Rightarrow> Some y | None \<Rightarrow> find P ys)"
  by (induction xs) auto

lemma find_Some: "find P xs = Some x \<Longrightarrow> x \<in> set xs \<and> P x"
  by (induction xs) (auto split: if_splits)

lemma find_None: "find P xs = None \<longleftrightarrow> (\<forall>x\<in>set xs. \<not> P x)"
  by (auto simp: find_None_iff)

lemma scheduled_point_search_eq:
  "sp_sorted h (inorder t) \<Longrightarrow> time_ok x \<Longrightarrow>
     scheduled_point_search h x t = find (\<lambda>p. at_of h p = x) (inorder t)"
proof (induction t)
  case (RbNode c l p g r)
  have none: "find (\<lambda>p. at_of h p = x) (inorder l) = None" if "x \<ge> at_of h p"
    using RbNode.prems that by (fastforce simp: find_None)
  have none_r: "find (\<lambda>p. at_of h p = x) (inorder r) = None" if "x \<le> at_of h p"
    using RbNode.prems that by (fastforce simp: find_None)
  have p: "time_ok (at_of h p)" "sp_sorted h (inorder l)" "sp_sorted h (inorder r)"
    using RbNode.prems by auto
  consider "x < at_of h p" | "x = at_of h p" | "at_of h p < x" by linarith
  then show ?case
    using RbNode.IH RbNode.prems(2) p none none_r
    by cases (simp_all add: Let_def find_append split: option.splits)
qed simp

lemma scheduled_point_search_Some:
  assumes "sp_sorted h (inorder t)" and "time_ok x"
  shows "scheduled_point_search h x t = Some p \<longleftrightarrow> p \<in> set (inorder t) \<and> at_of h p = x"
proof (cases "scheduled_point_search h x t")
  case None
  with assms have "\<forall>p\<in>set (inorder t). at_of h p \<noteq> x"
    by (simp add: scheduled_point_search_eq find_None)
  with None show ?thesis by auto
next
  case (Some q)
  with assms have q: "q \<in> set (inorder t)" "at_of h q = x"
    by (auto simp: scheduled_point_search_eq dest: find_Some)
  with Some show ?thesis using sp_sorted_inj [OF assms(1), of p q] by auto
qed

lemma scheduled_point_search_None:
  assumes "sp_sorted h (inorder t)" and "time_ok x"
  shows "scheduled_point_search h x t = None \<longleftrightarrow> (\<forall>p\<in>set (inorder t). at_of h p \<noteq> x)"
  using assms by (simp add: scheduled_point_search_eq find_None)

text \<open>The state at a time is the last point at or before it.\<close>

definition latest :: "sp_heap \<Rightarrow> int \<Rightarrow> sp_ptr list \<Rightarrow> sp_ptr option" where
  "latest h x ps = (let qs = filter (\<lambda>p. at_of h p \<le> x) ps in if qs = [] then None else Some (last qs))"

lemma scheduled_point_state_from_eq:
  "sp_sorted h (inorder t) \<Longrightarrow> time_ok x \<Longrightarrow>
   (\<forall>q. acc = Some q \<longrightarrow> (\<forall>p\<in>set (inorder t). at_of h q < at_of h p)) \<Longrightarrow>
     scheduled_point_state_from h x t acc =
       (case latest h x (inorder t) of None \<Rightarrow> acc | Some p \<Rightarrow> Some p)"
proof (induction t arbitrary: acc)
  case (RbNode c l p g r)
  have r_none: "filter (\<lambda>p. at_of h p \<le> x) (inorder r) = []" if "x \<le> at_of h p"
    using RbNode.prems that by (force simp: filter_empty_conv)
  have "recent_state h p acc = Some p"
    using RbNode.prems by (auto simp: recent_state_def split: option.splits)
  then show ?case
    using RbNode r_none by (auto simp: Let_def latest_def)
qed (simp add: latest_def)

lemma scheduled_point_state_eq:
  "sp_sorted h (inorder t) \<Longrightarrow> time_ok x \<Longrightarrow> scheduled_point_state h x t = latest h x (inorder t)"
  by (simp add: scheduled_point_state_def scheduled_point_state_from_eq split: option.split)

lemma latest_None: "latest h x ps = None \<longleftrightarrow> (\<forall>p\<in>set ps. x < at_of h p)"
  by (auto simp: latest_def Let_def filter_empty_conv not_le)

lemma latest_Some:
  assumes "sp_sorted h ps" and "latest h x ps = Some p"
  shows "p \<in> set ps" and "at_of h p \<le> x" and "q \<in> set ps \<Longrightarrow> at_of h q \<le> x \<Longrightarrow> at_of h q \<le> at_of h p"
proof -
  let ?qs = "filter (\<lambda>p. at_of h p \<le> x) ps"
  from assms(2) have qs: "?qs \<noteq> []" "p = last ?qs" by (auto simp: latest_def Let_def split: if_splits)
  then have "p \<in> set ?qs" using last_in_set by blast
  then show "p \<in> set ps" "at_of h p \<le> x" by auto
  have split: "?qs = butlast ?qs @ [p]" using qs by (simp add: append_butlast_last_id)
  have "sp_sorted h (butlast ?qs @ [p])" using assms(1) split by (metis sp_sorted_filter)
  then have lt: "\<forall>r\<in>set (butlast ?qs). at_of h r < at_of h p" by simp
  assume "q \<in> set ps" "at_of h q \<le> x"
  then have "q \<in> set ?qs" by simp
  then have "q \<in> set (butlast ?qs @ [p])" using split by metis
  with lt show "at_of h q \<le> at_of h p" by auto
qed

lemma scheduled_point_link_None:
  "sp_sorted h (inorder t) \<Longrightarrow> time_ok x \<Longrightarrow> p \<in> set (inorder t) \<Longrightarrow> at_of h p = x \<Longrightarrow>
     scheduled_point_link h x t ps = None"
  by (induction t arbitrary: ps) (auto simp: Let_def)

lemma scheduled_point_link_Some:
  "sp_sorted h (inorder t) \<Longrightarrow> time_ok x \<Longrightarrow> \<forall>p\<in>set (inorder t). at_of h p \<noteq> x \<Longrightarrow>
     \<exists>qs. scheduled_point_link h x t ps = Some qs \<and> zip_up RbNil qs = zip_up t ps \<and>
       left_of qs = left_of ps @ filter (\<lambda>p. at_of h p < x) (inorder t) \<and>
       right_of qs = filter (\<lambda>p. x < at_of h p) (inorder t) @ right_of ps"
proof (induction t arbitrary: ps)
  case (RbNode c l p g r)
  have l: "filter (\<lambda>p. at_of h p < x) (inorder l) = inorder l" "filter (\<lambda>p. x < at_of h p) (inorder l) = []"
    if "at_of h p < x"
    using RbNode.prems that by (force simp: filter_id_conv filter_empty_conv)+
  have r: "filter (\<lambda>p. at_of h p < x) (inorder r) = []" "filter (\<lambda>p. x < at_of h p) (inorder r) = inorder r"
    if "x < at_of h p"
    using RbNode.prems that by (force simp: filter_id_conv filter_empty_conv)+
  show ?case
  proof (cases "at_of h p < x")
    case True
    with RbNode.IH(2) [of "InRight c l p g # ps"] RbNode.prems l show ?thesis by (auto simp: Let_def)
  next
    case False
    with RbNode.prems have "x < at_of h p" by auto
    with RbNode.IH(1) [of "InLeft c p g r # ps"] RbNode.prems r show ?thesis by (auto simp: Let_def)
  qed
qed simp

interpretation sp: rb_augment dummy_callbacks
  by unfold_locales (simp add: dummy_callbacks_def)

lemma scheduled_point_insert_new:
  assumes "sp_sorted h (inorder t)" and "time_ok (at_of h p)" and "\<forall>q\<in>set (inorder t). at_of h q \<noteq> at_of h p"
    and "rb_tree t"
  obtains t' where "scheduled_point_insert h p t = Some t'" and "rb_tree t'"
    and "inorder t' = filter (\<lambda>q. at_of h q < at_of h p) (inorder t) @ p # filter (\<lambda>q. at_of h p < at_of h q) (inorder t)"
proof -
  obtain qs where qs: "scheduled_point_link h (at_of h p) t [] = Some qs" "zip_up RbNil qs = t"
      "left_of qs = filter (\<lambda>q. at_of h q < at_of h p) (inorder t)"
      "right_of qs = filter (\<lambda>q. at_of h p < at_of h q) (inorder t)"
    using scheduled_point_link_Some [OF assms(1-3), of "[]"] by auto
  with that assms(4) rb_tree_insert_augmented [of qs dummy_callbacks p "()"] show thesis
    by (simp add: scheduled_point_insert_def)
qed

lemma scheduled_point_remove_eq:
  assumes "sp_sorted h (inorder t)" and "p \<in> set (inorder t)"
  shows "scheduled_point_remove h p t = Some (rb_erase_augmented dummy_callbacks p t)"
proof -
  have "time_ok (at_of h p)" using assms by (auto simp: sp_sorted_def)
  with assms scheduled_point_search_Some [OF assms(1), of "at_of h p" p] show ?thesis
    by (simp add: scheduled_point_remove_def)
qed

section \<open>Loops over the points\<close>

lemma takeWhile_sorted:
  "sp_sorted h ps \<Longrightarrow> takeWhile (\<lambda>p. at_of h p < stop) ps = filter (\<lambda>p. at_of h p < stop) ps"
proof (induction ps)
  case (Cons p ps)
  then show ?case by (auto intro!: filter_False [symmetric])
qed simp

lemma dropWhile_sorted:
  "sp_sorted h ps \<Longrightarrow> p \<in> set ps \<Longrightarrow> dropWhile (\<lambda>q. q \<noteq> p) ps = filter (\<lambda>q. at_of h p \<le> at_of h q) ps"
proof (induction ps)
  case (Cons q ps)
  show ?case
  proof (cases "q = p")
    case True
    with Cons.prems show ?thesis by (auto intro!: filter_True [symmetric] less_imp_le)
  next
    case False
    with Cons show ?thesis by auto
  qed
qed simp

lemma points_from_sorted:
  assumes "sp_sorted h (inorder t)" and "p \<in> set (inorder t)"
  shows "points_from (Some p) t = filter (\<lambda>q. at_of h p \<le> at_of h q) (inorder t)"
  using assms by (simp add: points_from_eq dropWhile_sorted sp_sorted_distinct)

lemma fits_during_iff:
  "sp_sorted h ps \<Longrightarrow> fits_during h stop cnt len ps \<longleftrightarrow>
     (\<forall>p\<in>set ps. at_of h p < stop \<longrightarrow> rescmp cnt (remaining_of h p) len \<le> 0)"
  proof (induction ps)
  case (Cons p ps)
  then show ?case by (cases "at_of h p < stop") (auto simp: not_less)
qed simp

lemma fetch_overlap_loop_eq:
  "sp_sorted h ps \<Longrightarrow> fetch_overlap_loop h t stop ps = filter (\<lambda>p. t \<le> at_of h p \<and> at_of h p < stop) ps"
proof (induction ps)
  case (Cons p ps)
  then show ?case by (auto intro!: filter_False [symmetric])
qed simp

section \<open>The min-time resource tree\<close>

interpretation mt: rb_augment "mintime_resource_subtree_min h" for h
proof
  fix p q a b c
  show "mintime_resource_subtree_min h p a (Some (mintime_resource_subtree_min h q b c)) =
    mintime_resource_subtree_min h q (Some (mintime_resource_subtree_min h p a b)) c"
    by (cases a; cases b; cases c)
      (auto simp: mintime_resource_subtree_min_def Let_def split: if_splits)
qed

abbreviation mt_aug_ok :: "sp_heap \<Rightarrow> mt_tree \<Rightarrow> bool" where
  "mt_aug_ok h \<equiv> aug_ok (mintime_resource_subtree_min h)"

lemma mt_aug_ok_cong:
  "(\<And>p. p \<in> set (inorder t) \<Longrightarrow> at_of h p = at_of h' p) \<Longrightarrow> mt_aug_ok h t = mt_aug_ok h' t"
  by (induction t) (auto simp: mintime_resource_subtree_min_def)

text \<open>The augmented field of a subtree is the least time of its points.\<close>

lemma rb_aug_None [simp]: "rb_aug t = None \<longleftrightarrow> t = RbNil"
  by (cases t) auto

lemma rb_aug_least:
  "mt_aug_ok h t \<Longrightarrow> rb_aug t = Some m \<Longrightarrow>
     (\<exists>p\<in>set (inorder t). at_of h p = m) \<and> (\<forall>p\<in>set (inorder t). m \<le> at_of h p)"
proof (induction t arbitrary: m)
  case (RbNode c l p g r)
  have m: "m = mintime_resource_subtree_min h p (rb_aug l) (rb_aug r)" using RbNode.prems by simp
  have l: "l = RbNil \<or> (\<exists>a. rb_aug l = Some a \<and> (\<exists>q\<in>set (inorder l). at_of h q = a) \<and>
      (\<forall>q\<in>set (inorder l). a \<le> at_of h q))"
    using RbNode.IH(1) RbNode.prems by (cases "rb_aug l") auto
  have r: "r = RbNil \<or> (\<exists>a. rb_aug r = Some a \<and> (\<exists>q\<in>set (inorder r). at_of h q = a) \<and>
      (\<forall>q\<in>set (inorder r). a \<le> at_of h q))"
    using RbNode.IH(2) RbNode.prems by (cases "rb_aug r") auto
  from l r show ?case unfolding m
    by (elim disjE exE conjE) (auto simp: mintime_resource_subtree_min_def Let_def)
qed simp

lemma mintime_resource_link_inorder:
  "left_of (mintime_resource_link h len p t ps) @ right_of (mintime_resource_link h len p t ps) =
     left_of ps @ inorder t @ right_of ps"
  by (induction h len p t ps rule: mintime_resource_link.induct) (auto simp: Let_def)

lemma mintime_resource_link_ctx:
  "rb_tree (zip_up t ps) \<Longrightarrow> rb_tree (zip_up RbNil (mintime_resource_link h len p t ps))"
proof (induction h len p t ps rule: mintime_resource_link.induct)
  case (2 h len p c l q m r ps)
  have "rb_tree (zip_up l (InLeft c q g r # ps))" "rb_tree (zip_up r (InRight c l q g # ps))" for g
    using "2.prems" by (auto simp: rb_tree_zip_up)
  with "2.IH" show ?case by (auto simp: Let_def)
qed simp

lemma mintime_resource_link_aug:
  "mt_aug_ok h t \<Longrightarrow>
   path_aug (mintime_resource_subtree_min h)
     (Some (case rb_aug t of None \<Rightarrow> at_of h p | Some m \<Rightarrow> min m (at_of h p))) ps \<Longrightarrow>
     path_aug (mintime_resource_subtree_min h) (Some (at_of h p)) (mintime_resource_link h len p t ps)"
proof (induction h len p t ps rule: mintime_resource_link.induct)
  case (2 h len p c l q m r ps)
  let ?m = "if m > at_of h p then at_of h p else m"
  let ?a = "\<lambda>t. Some (case rb_aug t of None \<Rightarrow> at_of h p | Some m \<Rightarrow> min m (at_of h p))"
  have m: "m = mintime_resource_subtree_min h q (rb_aug l) (rb_aug r)"
    using "2.prems"(1) by simp
  have e: "mintime_resource_subtree_min h q (?a l) (rb_aug r) = ?m"
      "mintime_resource_subtree_min h q (rb_aug l) (?a r) = ?m"
    unfolding m by (cases "rb_aug l"; cases "rb_aug r"; auto simp: mintime_resource_subtree_min_def Let_def)+
  have "path_aug (mintime_resource_subtree_min h) (Some ?m) ps"
    using "2.prems"(2) by (auto simp: min_def split: if_splits)
  with e "2.prems"(1) "2.IH" show ?case by (auto simp: Let_def)
qed simp

lemma mintime_resource_insert_ok:
  assumes "mintime_resource_insert len p (h, t) = (h', t')"
    and "mt_aug_ok h t" and "rb_tree t"
  shows "mt_aug_ok h t'" and "rb_tree t'" and "mset (inorder t') = add_mset p (mset (inorder t))"
    and "h' = upd_point p (\<lambda>s. s\<lparr>in_mt_resource_tree := True\<rparr>) h"
proof -
  let ?qs = "mintime_resource_link h len p t []"
  from assms(1) have t': "t' = rb_insert_augmented (mintime_resource_subtree_min h) p (at_of h p) ?qs"
    and h': "h' = upd_point p (\<lambda>s. s\<lparr>in_mt_resource_tree := True\<rparr>) h"
    by (auto simp: mintime_resource_insert_def)
  show "h' = upd_point p (\<lambda>s. s\<lparr>in_mt_resource_tree := True\<rparr>) h" by (fact h')
  have "path_aug (mintime_resource_subtree_min h) (Some (at_of h p)) ?qs"
    using assms(2) by (rule mintime_resource_link_aug) simp
  then have "mt_aug_ok h (zip_up (rb_link_node p (at_of h p)) ?qs)"
    by (simp add: aug_ok_zip_up rb_link_node_def mintime_resource_subtree_min_def)
  then show "mt_aug_ok h t'" unfolding t' rb_insert_augmented_def by (rule mt.aug_ok_insert_fix)
  show "rb_tree t'" unfolding t'
    by (rule rb_tree_insert_augmented) (rule mintime_resource_link_ctx, simp add: assms(3))
  have "mset (left_of ?qs) + mset (right_of ?qs) = mset (inorder t)"
    using mintime_resource_link_inorder [of h len p t "[]"] by (simp flip: mset_append)
  then show "mset (inorder t') = add_mset p (mset (inorder t))" unfolding t' by simp
qed

lemma mintime_resource_remove_ok:
  assumes "mintime_resource_remove p (h, t) = (h', t')"
    and "mt_aug_ok h t" and "rb_tree t" and "distinct (inorder t)"
  shows "mt_aug_ok h t'" and "rb_tree t'" and "inorder t' = filter (\<lambda>q. q \<noteq> p) (inorder t)"
    and "h' = upd_point p (\<lambda>s. s\<lparr>in_mt_resource_tree := False\<rparr>) h"
  using assms by (auto simp: mintime_resource_remove_def)

text \<open>
  The search for the point of least time that holds a request. It is exact when the tree is ordered so
  that every point after one that holds the request holds it too.
\<close>

definition holds :: "sp_heap \<Rightarrow> resource_array \<Rightarrow> nat \<Rightarrow> sp_ptr \<Rightarrow> bool" where
  "holds h ra len p \<longleftrightarrow> rescmp ra (remaining_of h p) len \<le> 0"

abbreviation mt_ordered :: "sp_heap \<Rightarrow> resource_array \<Rightarrow> nat \<Rightarrow> sp_ptr list \<Rightarrow> bool" where
  "mt_ordered h ra len \<equiv> sorted_wrt (\<lambda>p q. holds h ra len p \<longrightarrow> holds h ra len q)"

lemma find_mintime_right_Some:
  "mt_aug_ok h t \<Longrightarrow> \<exists>p\<in>set (inorder t). at_of h p = m \<Longrightarrow> \<forall>p\<in>set (inorder t). m \<le> at_of h p \<Longrightarrow>
     \<exists>p\<in>set (inorder t). find_mintime_right h m t = Some p \<and> at_of h p = m"
proof (induction t)
  case (RbNode c l q g r)
  show ?case
  proof (cases "at_of h q = m \<or> rb_aug l = Some m")
    case True
    then show ?thesis using RbNode.IH(1) RbNode.prems rb_aug_least [of h l m] by auto
  next
    case False
    have "p \<notin> set (inorder l)" if "at_of h p = m" for p
    proof
      assume p: "p \<in> set (inorder l)"
      then obtain a where a: "rb_aug l = Some a" by (cases "rb_aug l") auto
      then obtain p' where "p' \<in> set (inorder l)" "at_of h p' = a" "a \<le> at_of h p"
        using rb_aug_least [of h l a] RbNode.prems p by auto
      moreover have "m \<le> at_of h p'" using \<open>p' \<in> set (inorder l)\<close> RbNode.prems(3) by simp
      ultimately show False using False a that by simp
    qed
    with False RbNode show ?thesis by auto
  qed
qed simp

lemma find_mintime_right_mem: "find_mintime_right h m t = Some p \<Longrightarrow> p \<in> set (inorder t)"
  by (induction t) (auto split: if_splits)

lemma find_mintime_anchor_sub:
  "find_mintime_anchor h ra len t (m0, a0) = (m, a) \<Longrightarrow>
     a = a0 \<or> set (inorder a) \<subseteq> set (inorder t)"
proof (induction t arbitrary: m0 a0)
  case (RbNode c l q g r)
  show ?case
    using RbNode.IH(1) [of "right_branch_mintime h q r" "RbNode c l q g r"] RbNode.IH [of m0 a0] RbNode.prems
    by (auto simp: Let_def split: if_splits)
qed simp

lemma mintime_resource_mintime_mem:
  "mintime_resource_mintime h ra len t = Some p \<Longrightarrow> p \<in> set (inorder t)"
proof -
  assume s: "mintime_resource_mintime h ra len t = Some p"
  obtain m a where ma: "find_mintime_anchor h ra len t (INT64_MAX, RbNil) = (m, a)" by fastforce
  have "p \<in> set (inorder a)" if "find_mintime_point h a m = Some p"
    using that find_mintime_right_mem
    by (auto simp: find_mintime_point_def split: rbt.splits if_splits)
  with s ma find_mintime_anchor_sub [OF ma] show ?thesis
    by (auto simp: mintime_resource_mintime_def)
qed

lemma right_branch_mintime_least:
  assumes "mt_aug_ok h r" and "\<forall>p\<in>set (inorder r). at_of h p < INT64_MAX" and "at_of h q < INT64_MAX"
  shows "(\<exists>p\<in>insert q (set (inorder r)). at_of h p = right_branch_mintime h q r) \<and>
    (\<forall>p\<in>insert q (set (inorder r)). right_branch_mintime h q r \<le> at_of h p)"
proof (cases "rb_aug r")
  case None
  with assms show ?thesis by (simp add: right_branch_mintime_def)
next
  case (Some m)
  with rb_aug_least [OF assms(1) Some] show ?thesis
    by (cases "at_of h q < m") (auto simp: right_branch_mintime_def)
qed

definition anchor_ok :: "sp_heap \<Rightarrow> resource_array \<Rightarrow> nat \<Rightarrow> sp_ptr set \<Rightarrow> int \<times> mt_tree \<Rightarrow> bool" where
  "anchor_ok h ra len ps ma \<longleftrightarrow>
     (case ma of (m, a) \<Rightarrow>
        (m = INT64_MAX \<and> a = RbNil \<and> (\<forall>p\<in>ps. \<not> holds h ra len p)) \<or>
        (\<exists>c l q g r. a = RbNode c l q g r \<and> mt_aug_ok h a \<and> insert q (set (inorder r)) \<subseteq> ps \<and>
           (\<forall>p\<in>insert q (set (inorder r)). holds h ra len p) \<and>
           (\<exists>p\<in>insert q (set (inorder r)). at_of h p = m)) \<and>
        (\<forall>p\<in>ps. holds h ra len p \<longrightarrow> m \<le> at_of h p))"

lemma find_mintime_anchor_ok:
  "mt_aug_ok h t \<Longrightarrow> mt_ordered h ra len (inorder t) \<Longrightarrow> \<forall>p\<in>set (inorder t). at_of h p < INT64_MAX \<Longrightarrow>
   anchor_ok h ra len ps (m, a) \<Longrightarrow>
     anchor_ok h ra len (ps \<union> set (inorder t)) (find_mintime_anchor h ra len t (m, a))"
proof (induction t arbitrary: m a ps)
  case (RbNode c l q g r)
  show ?case
  proof (cases "holds h ra len q")
    case True
    have r: "\<forall>p\<in>set (inorder r). holds h ra len p"
      using True RbNode.prems(2) by (auto simp: sorted_wrt_append)
    let ?m = "right_branch_mintime h q r"
    have least: "(\<exists>p\<in>insert q (set (inorder r)). at_of h p = ?m) \<and>
        (\<forall>p\<in>insert q (set (inorder r)). ?m \<le> at_of h p)"
      using RbNode.prems by (intro right_branch_mintime_least) auto
    obtain m' a' where ma: "(if ?m < m then (?m, RbNode c l q g r) else (m, a)) = (m', a')"
      by (rule prod.exhaust)
    have lt: "?m < INT64_MAX" using least RbNode.prems(3) by (auto simp: order.strict_trans1)
    have "anchor_ok h ra len (ps \<union> insert q (set (inorder r)))
        (if ?m < m then (?m, RbNode c l q g r) else (m, a))"
    proof (cases "?m < m")
      case True
      with RbNode.prems(1,4) least r \<open>holds h ra len q\<close> show ?thesis
        unfolding anchor_ok_def by (auto simp: order.strict_trans1)
    next
      case False
      with RbNode.prems(4) least lt show ?thesis unfolding anchor_ok_def by force
    qed
    then have ok: "anchor_ok h ra len (ps \<union> insert q (set (inorder r))) (m', a')" unfolding ma .
    have l: "mt_aug_ok h l" "mt_ordered h ra len (inorder l)" "\<forall>p\<in>set (inorder l). at_of h p < INT64_MAX"
      using RbNode.prems(1,3) by simp_all (use RbNode.prems(2) in \<open>simp only: inorder.simps sorted_wrt_append\<close>)
    from RbNode.IH(1) [OF l ok]
    have "anchor_ok h ra len (ps \<union> insert q (set (inorder r)) \<union> set (inorder l))
        (find_mintime_anchor h ra len l (m', a'))" .
    moreover have "ps \<union> insert q (set (inorder r)) \<union> set (inorder l) = ps \<union> set (inorder (RbNode c l q g r))"
      by auto
    ultimately show ?thesis using True ma by (simp add: holds_def Let_def)
  next
    case False
    have l: "\<forall>p\<in>set (inorder l). \<not> holds h ra len p"
      using False RbNode.prems(2) by (auto simp: sorted_wrt_append)
    have ok: "anchor_ok h ra len (ps \<union> insert q (set (inorder l))) (m, a)"
      using RbNode.prems(4) l False unfolding anchor_ok_def by auto
    have r: "mt_aug_ok h r" "mt_ordered h ra len (inorder r)" "\<forall>p\<in>set (inorder r). at_of h p < INT64_MAX"
      using RbNode.prems(1,3) by simp_all
        (use RbNode.prems(2) in \<open>simp only: inorder.simps sorted_wrt_append sorted_wrt.simps\<close>)
    from RbNode.IH(2) [OF r ok]
    have "anchor_ok h ra len (ps \<union> insert q (set (inorder l)) \<union> set (inorder r))
        (find_mintime_anchor h ra len r (m, a))" .
    moreover have "ps \<union> insert q (set (inorder l)) \<union> set (inorder r) = ps \<union> set (inorder (RbNode c l q g r))"
      by auto
    ultimately show ?thesis using False by (simp add: holds_def Let_def)
  qed
qed simp

lemma find_mintime_point_Some:
  assumes "anchor_ok h ra len ps (m, a)" and "a \<noteq> RbNil"
  obtains p where "find_mintime_point h a m = Some p" and "p \<in> ps" and "holds h ra len p" and "at_of h p = m"
proof -
  from assms have "\<exists>c l q g r. a = RbNode c l q g r \<and> mt_aug_ok h r \<and> insert q (set (inorder r)) \<subseteq> ps \<and>
      (\<forall>p\<in>insert q (set (inorder r)). holds h ra len p) \<and>
      (\<exists>p\<in>insert q (set (inorder r)). at_of h p = m) \<and> (\<forall>p\<in>ps. holds h ra len p \<longrightarrow> m \<le> at_of h p)"
    unfolding anchor_ok_def by fastforce
  then obtain c l q g r where a: "a = RbNode c l q g r" and aug: "mt_aug_ok h r"
    and sub: "insert q (set (inorder r)) \<subseteq> ps" and h: "\<forall>p\<in>insert q (set (inorder r)). holds h ra len p"
    and ex: "\<exists>p\<in>insert q (set (inorder r)). at_of h p = m"
    and least: "\<forall>p\<in>ps. holds h ra len p \<longrightarrow> m \<le> at_of h p"
    by blast
  show thesis
  proof (cases "at_of h q = m")
    case True
    with that a sub h show ?thesis by (simp add: find_mintime_point_def)
  next
    case False
    with ex have "\<exists>p\<in>set (inorder r). at_of h p = m" by auto
    moreover have "\<forall>p\<in>set (inorder r). m \<le> at_of h p" using least h sub by auto
    ultimately obtain p where "p \<in> set (inorder r)" "find_mintime_right h m r = Some p" "at_of h p = m"
      using find_mintime_right_Some [OF aug] by blast
    with that [of p] a sub h False show ?thesis by (auto simp: find_mintime_point_def)
  qed
qed

lemma mintime_resource_mintime_spec:
  assumes "mt_aug_ok h t" and "mt_ordered h ra len (inorder t)"
    and "\<forall>p\<in>set (inorder t). at_of h p < INT64_MAX"
  shows "(mintime_resource_mintime h ra len t = None \<and> (\<forall>p\<in>set (inorder t). \<not> holds h ra len p)) \<or>
    (\<exists>p\<in>set (inorder t). mintime_resource_mintime h ra len t = Some p \<and> holds h ra len p \<and>
      (\<forall>q\<in>set (inorder t). holds h ra len q \<longrightarrow> at_of h p \<le> at_of h q))"
proof -
  obtain m a where ma: "find_mintime_anchor h ra len t (INT64_MAX, RbNil) = (m, a)" by fastforce
  have "anchor_ok h ra len {} (INT64_MAX, RbNil)" by (simp add: anchor_ok_def)
  from find_mintime_anchor_ok [OF assms this] ma have ok: "anchor_ok h ra len (set (inorder t)) (m, a)" by simp
  show ?thesis
  proof (cases "a = RbNil")
    case True
    with ok ma show ?thesis
      by (auto simp: anchor_ok_def mintime_resource_mintime_def find_mintime_point_def)
  next
    case False
    with ok obtain p where "find_mintime_point h a m = Some p" "p \<in> set (inorder t)" "holds h ra len p" "at_of h p = m"
      by (rule find_mintime_point_Some)
    moreover have "\<forall>q\<in>set (inorder t). holds h ra len q \<longrightarrow> m \<le> at_of h q"
      using ok False by (auto simp: anchor_ok_def)
    ultimately show ?thesis using ma by (auto simp: mintime_resource_mintime_def)
  qed
qed

section \<open>Comparing resource arrays\<close>

text \<open>
  With non-negative counts whose sum fits in an \<open>int\<close>, \<open>rescmp\<close> decides the component-wise order. (Outside
  these bounds the accumulator wraps; see \<open>rescmp_wraps\<close> in \<open>Planner_Findings\<close>.)
\<close>

definition counts_fit :: "nat \<Rightarrow> resource_array \<Rightarrow> bool" where
  "counts_fit len ys \<longleftrightarrow> len \<le> length ys \<and> (\<forall>y\<in>set (take len ys). 0 \<le> y) \<and> sum_list (take len ys) \<le> 2147483647"

definition request_ok :: "nat \<Rightarrow> resource_array \<Rightarrow> bool" where
  "request_ok len xs \<longleftrightarrow> len \<le> length xs \<and> (\<forall>x\<in>set (take len xs). 0 \<le> x \<and> x \<le> INT64_MAX)"

lemma i32_id [simp]: "- 2147483648 \<le> x \<Longrightarrow> x \<le> 2147483647 \<Longrightarrow> i32 x = x"
  by (simp add: machine_int)

lemma rescmp_loop_le_0:
  "length as = length bs \<Longrightarrow> \<forall>a\<in>set as. 0 \<le> a \<and> a \<le> INT64_MAX \<Longrightarrow> \<forall>b\<in>set bs. 0 \<le> b \<Longrightarrow>
   acc \<le> 0 \<Longrightarrow> sum_list bs - acc \<le> 2147483647 \<Longrightarrow>
     rescmp_loop (zip as bs) acc \<le> 0 \<longleftrightarrow> list_all2 (\<le>) as bs"
proof (induction as bs arbitrary: acc rule: list_induct2)
  case (Cons a as b bs)
  have b: "0 \<le> sum_list bs" using Cons.prems(2) by (intro sum_list_nonneg) auto
  have d: "i64 (a - b) = a - b" using Cons.prems b by (intro i64_id) (auto simp: in_i64_def)
  show ?case
  proof (cases "a \<le> b")
    case True
    have "i32 (acc + (a - b)) = acc + (a - b)" using True Cons.prems b by (intro i32_id) auto
    moreover have "rescmp_loop (zip as bs) (acc + (a - b)) \<le> 0 \<longleftrightarrow> list_all2 (\<le>) as bs"
      using True Cons.prems by (intro Cons.IH) auto
    ultimately show ?thesis using True d by simp
  next
    case False
    with d show ?thesis by simp
  qed
qed simp

lemma rescmp_le_0:
  assumes "request_ok len xs" and "counts_fit len ys"
  shows "rescmp xs ys len \<le> 0 \<longleftrightarrow> (\<forall>i<len. xs ! i \<le> ys ! i)"
proof -
  have "rescmp xs ys len \<le> 0 \<longleftrightarrow> list_all2 (\<le>) (take len xs) (take len ys)"
    unfolding rescmp_def using assms
    by (intro rescmp_loop_le_0) (auto simp: request_ok_def counts_fit_def)
  also have "\<dots> \<longleftrightarrow> (\<forall>i<len. xs ! i \<le> ys ! i)"
    using assms by (auto simp: list_all2_conv_all_nth request_ok_def counts_fit_def)
  finally show ?thesis .
qed

end
