(* ===== verification/Planner_Invariant.thy ===== *)
theory Planner_Invariant
  imports Planner_Points_Laws
begin

text \<open>
  The invariant of a planner and the lemmas that each internal operation of \<open>Planner\<close> keeps its parts.

  The specification of a planner is its list of spans: \<open>usage ss i t\<close> is what the spans of \<open>ss\<close> take of
  resource \<open>i\<close> at time \<open>t\<close>. The invariant ties the concrete state to it: the scheduled points carry the
  usage at their time, every span starts and ends at a point, the reference counts count the spans'
  ends (the planner itself holds one on \<open>p0\<close>), and the min-time tree holds the points that are not
  tracked by the iteration.
\<close>

section \<open>Usage\<close>

definition active_at :: "int \<Rightarrow> span \<Rightarrow> bool" where
  "active_at t s \<longleftrightarrow> span_start s \<le> t \<and> t < span_last s"

definition usage :: "span list \<Rightarrow> nat \<Rightarrow> int \<Rightarrow> int" where
  "usage ss i t = (\<Sum>s\<leftarrow>ss. if active_at t s then planned s ! i else 0)"

lemma usage_Nil [simp]: "usage [] i t = 0"
  by (simp add: usage_def)

lemma usage_Cons [simp]:
  "usage (s # ss) i t = (if active_at t s then planned s ! i else 0) + usage ss i t"
  by (simp add: usage_def)

lemma usage_append [simp]: "usage (ss @ ss') i t = usage ss i t + usage ss' i t"
  by (simp add: usage_def)

lemma usage_cong:
  "(\<And>s. s \<in> set ss \<Longrightarrow> active_at t s = active_at t' s) \<Longrightarrow> usage ss i t = usage ss i t'"
  by (induction ss) auto

section \<open>The parts of the invariant\<close>

definition point_ok :: "resource_array \<Rightarrow> span list \<Rightarrow> scheduled_point \<Rightarrow> bool" where
  "point_ok tot ss pt \<longleftrightarrow>
     length (scheduled pt) = PLANNER_NUM_TYPES \<and> length (remaining pt) = PLANNER_NUM_TYPES \<and>
     (\<forall>i<PLANNER_NUM_TYPES. scheduled pt ! i = i64 (usage ss i (sp_at pt)) \<and>
        remaining pt ! i = i64 (tot ! i - usage ss i (sp_at pt)))"

definition span_shape :: "span \<Rightarrow> bool" where
  "span_shape s \<longleftrightarrow>
     span_start s < span_last s \<and> time_ok (span_start s) \<and> time_ok (span_last s) \<and>
     length (planned s) = PLANNER_NUM_TYPES \<and>
     span_dimension s \<le> PLANNER_NUM_TYPES \<and>
     (\<forall>i<PLANNER_NUM_TYPES. span_dimension s \<le> i \<longrightarrow> planned s ! i = 0)"

definition span_placed :: "sp_heap \<Rightarrow> sp_ptr list \<Rightarrow> span \<Rightarrow> bool" where
  "span_placed h ps s \<longleftrightarrow>
     span_shape s \<and>
     (\<exists>p q. start_p s = Some p \<and> last_p s = Some q \<and> p \<in> set ps \<and> q \<in> set ps \<and>
        at_of h p = span_start s \<and> at_of h q = span_last s)"

definition refs :: "sp_ptr \<Rightarrow> span list \<Rightarrow> sp_ptr \<Rightarrow> int" where
  "refs base ss p =
     (if p = base then 1 else 0) +
     (\<Sum>s\<leftarrow>ss. (if start_p s = Some p then 1 else 0) + (if last_p s = Some p then 1 else 0))"

definition sched_inv :: "resource_array \<Rightarrow> span list \<Rightarrow> (sp_ptr \<Rightarrow> int) \<Rightarrow> sp_heap \<Rightarrow> sp_tree \<Rightarrow> sp_ptr \<Rightarrow> int \<Rightarrow> bool" where
  "sched_inv tot ss rc h spt base start \<longleftrightarrow>
     rb_tree spt \<and> sp_sorted h (inorder spt) \<and>
     (\<exists>ps. inorder spt = base # ps) \<and> at_of h base = start \<and>
     (\<forall>p\<in>set (inorder spt). p < length h \<and> point_ok tot ss (deref h p) \<and> ref_count (deref h p) = rc p) \<and>
     (\<forall>s\<in>set ss. span_placed h (inorder spt) s)"

definition mt_state :: "sp_heap \<Rightarrow> mt_tree \<Rightarrow> sp_ptr set \<Rightarrow> bool" where
  "mt_state h mt M \<longleftrightarrow>
     distinct (inorder mt) \<and> set (inorder mt) = M \<and> rb_tree mt \<and> mt_aug_ok h mt \<and>
     M \<subseteq> {..<length h} \<and> (\<forall>p<length h. in_mt_resource_tree (deref h p) \<longleftrightarrow> p \<in> M)"

definition iter_ok :: "sp_heap \<Rightarrow> sp_ptr list \<Rightarrow> (int \<times> sp_ptr) list \<Rightarrow> bool" where
  "iter_ok h ps it \<longleftrightarrow> distinct (map fst it) \<and> (\<forall>(k, p)\<in>set it. p \<in> set ps \<and> k = at_of h p)"

definition table_ok :: "(int \<times> span) list \<Rightarrow> int \<Rightarrow> bool" where
  "table_ok table counter \<longleftrightarrow>
     distinct (map fst table) \<and> 0 \<le> counter \<and> counter \<le> INT64_MAX \<and>
     (\<forall>(k, s)\<in>set table. k = span_id s \<and> in_system s \<and> 1 \<le> k \<and> k \<le> counter)"

definition ctx_sched :: "span list \<Rightarrow> (sp_ptr \<Rightarrow> int) \<Rightarrow> planner \<Rightarrow> bool" where
  "ctx_sched ss rc ctx \<longleftrightarrow>
     sched_inv (total_resources ctx) ss rc (sp_store ctx) (sched_point_tree ctx) (p0 ctx) (plan_start ctx)"

definition ctx_mt :: "sp_ptr set \<Rightarrow> planner \<Rightarrow> bool" where
  "ctx_mt M ctx \<longleftrightarrow> mt_state (sp_store ctx) (mt_resource_tree ctx) M"

abbreviation points_of :: "planner \<Rightarrow> sp_ptr list" where
  "points_of ctx \<equiv> inorder (sched_point_tree ctx)"

abbreviation spans_of :: "planner \<Rightarrow> span list" where
  "spans_of ctx \<equiv> map snd (span_lookup ctx)"

abbreviation tracked :: "planner \<Rightarrow> sp_ptr set" where
  "tracked ctx \<equiv> snd ` set (avail_time_iter ctx)"

definition planner_inv :: "planner \<Rightarrow> bool" where
  "planner_inv ctx \<longleftrightarrow>
     ctx_sched (spans_of ctx) (refs (p0 ctx) (spans_of ctx)) ctx \<and>
     (\<forall>p\<in>set (points_of ctx). refs (p0 ctx) (spans_of ctx) p \<noteq> 0) \<and>
     ctx_mt (set (points_of ctx) - tracked ctx) ctx \<and>
     iter_ok (sp_store ctx) (points_of ctx) (avail_time_iter ctx) \<and>
     table_ok (span_lookup ctx) (span_counter ctx) \<and>
     length (total_resources ctx) = PLANNER_NUM_TYPES \<and> dimension ctx \<le> PLANNER_NUM_TYPES \<and>
     (\<forall>x\<in>set (total_resources ctx). 0 \<le> x \<and> x \<le> INT64_MAX) \<and>
     (\<forall>i<PLANNER_NUM_TYPES. dimension ctx \<le> i \<longrightarrow> total_resources ctx ! i = 0) \<and>
     time_ok (plan_start ctx) \<and> time_ok (plan_end ctx)"

section \<open>What the parts depend on\<close>

text \<open>The data of the points without, and with only, the membership flag of the min-time tree.\<close>

definition data_of :: "sp_heap \<Rightarrow> scheduled_point list" where
  "data_of h = map (\<lambda>s. s\<lparr>in_mt_resource_tree := False, new_point := False\<rparr>) h"

definition keys_of :: "sp_heap \<Rightarrow> (int \<times> bool) list" where
  "keys_of h = map (\<lambda>s. (sp_at s, in_mt_resource_tree s)) h"

lemma data_of_length: "data_of h = data_of h' \<Longrightarrow> length h = length h'"
  unfolding data_of_def by (metis length_map)

lemma map_upd_point: "(\<And>s. f (g s) = f s) \<Longrightarrow> map f (upd_point p g h) = map f h"
proof (rule nth_equalityI)
  fix i
  assume "\<And>s. f (g s) = f s" and "i < length (map f (upd_point p g h))"
  then show "map f (upd_point p g h) ! i = map f h ! i"
    by (cases "i = p") (simp_all add: upd_point_def)
qed simp

lemma data_of_upd_flag [simp]:
  "data_of (upd_point p (\<lambda>s. s\<lparr>in_mt_resource_tree := b\<rparr>) h) = data_of h"
  unfolding data_of_def by (rule map_upd_point) simp

lemma data_of_upd_new [simp]: "data_of (upd_point p (\<lambda>s. s\<lparr>new_point := b\<rparr>) h) = data_of h"
  unfolding data_of_def by (rule map_upd_point) simp

lemma data_of_deref:
  assumes "data_of h = data_of h'" and "p < length h"
  shows "sp_at (deref h p) = sp_at (deref h' p)" and "scheduled (deref h p) = scheduled (deref h' p)"
    and "remaining (deref h p) = remaining (deref h' p)" and "ref_count (deref h p) = ref_count (deref h' p)"
proof -
  have "data_of h ! p = data_of h' ! p" using assms by simp
  then have "(deref h p)\<lparr>in_mt_resource_tree := False, new_point := False\<rparr> =
      (deref h' p)\<lparr>in_mt_resource_tree := False, new_point := False\<rparr>"
    using assms data_of_length [OF assms(1)] by (simp add: data_of_def deref_def)
  note this [THEN arg_cong, of sp_at] this [THEN arg_cong, of scheduled]
    this [THEN arg_cong, of remaining] this [THEN arg_cong, of ref_count]
  then show "sp_at (deref h p) = sp_at (deref h' p)" "scheduled (deref h p) = scheduled (deref h' p)"
    "remaining (deref h p) = remaining (deref h' p)" "ref_count (deref h p) = ref_count (deref h' p)"
    by simp_all
qed

lemma point_ok_cong:
  "sp_at a = sp_at b \<Longrightarrow> scheduled a = scheduled b \<Longrightarrow> remaining a = remaining b \<Longrightarrow>
     point_ok tot ss a = point_ok tot ss b"
  by (simp add: point_ok_def)

lemma span_placed_cong:
  "(\<And>p. p \<in> set ps \<Longrightarrow> at_of h p = at_of h' p) \<Longrightarrow> span_placed h ps s = span_placed h' ps s"
  by (auto simp: span_placed_def)

lemma sched_inv_data:
  assumes "data_of h = data_of h'" and "sched_inv tot ss rc h spt base start"
  shows "sched_inv tot ss rc h' spt base start"
proof -
  let ?ps = "inorder spt"
  from assms(2) have lt: "\<forall>p\<in>set ?ps. p < length h" and b: "base \<in> set ?ps"
    by (auto simp: sched_inv_def)
  have eq: "at_of h p = at_of h' p" "point_ok tot ss (deref h p) = point_ok tot ss (deref h' p)"
      "ref_count (deref h p) = ref_count (deref h' p)" if "p \<in> set ?ps" for p
    using data_of_deref [OF assms(1), of p] lt that by (simp_all add: at_of_def point_ok_def)
  have "sp_sorted h ?ps = sp_sorted h' ?ps" using eq by (intro sp_sorted_cong)
  moreover have "span_placed h ?ps s = span_placed h' ?ps s" for s using eq by (intro span_placed_cong)
  ultimately show ?thesis
    using assms(2) data_of_length [OF assms(1)] eq b by (auto simp: sched_inv_def)
qed

lemma mt_state_keys:
  assumes "keys_of h = keys_of h'" and "mt_state h mt M"
  shows "mt_state h' mt M"
proof -
  have len: "length h = length h'" using assms(1) unfolding keys_of_def by (metis length_map)
  have eq: "at_of h p = at_of h' p \<and> in_mt_resource_tree (deref h p) = in_mt_resource_tree (deref h' p)"
    if "p < length h" for p
  proof -
    have "keys_of h ! p = keys_of h' ! p" using assms(1) by simp
    then show ?thesis using that len by (simp add: keys_of_def at_of_def deref_def)
  qed
  have "mt_aug_ok h mt = mt_aug_ok h' mt"
    using assms(2) eq by (intro mt_aug_ok_cong) (auto simp: mt_state_def)
  then show ?thesis using assms(2) eq len by (auto simp: mt_state_def)
qed

section \<open>Operations on the min-time tree\<close>

lemma with_mt_fields [simp]:
  "total_resources (with_mt f ctx) = total_resources ctx" "resource_types (with_mt f ctx) = resource_types ctx"
  "dimension (with_mt f ctx) = dimension ctx" "plan_start (with_mt f ctx) = plan_start ctx"
  "plan_end (with_mt f ctx) = plan_end ctx" "sched_point_tree (with_mt f ctx) = sched_point_tree ctx"
  "p0 (with_mt f ctx) = p0 ctx" "span_lookup (with_mt f ctx) = span_lookup ctx"
  "avail_time_iter (with_mt f ctx) = avail_time_iter ctx" "current_request (with_mt f ctx) = current_request ctx"
  "avail_time_iter_set (with_mt f ctx) = avail_time_iter_set ctx" "span_counter (with_mt f ctx) = span_counter ctx"
  by (simp_all add: with_mt_def split: prod.split)

definition frame_of :: "planner \<Rightarrow> planner" where
  "frame_of ctx = ctx\<lparr>sp_store := [], sched_point_tree := RbNil, mt_resource_tree := RbNil, avail_time_iter := []\<rparr>"

lemma frame_fields:
  assumes "frame_of a = frame_of b"
  shows "total_resources a = total_resources b" "resource_types a = resource_types b"
    "dimension a = dimension b" "plan_start a = plan_start b" "plan_end a = plan_end b" "p0 a = p0 b"
    "span_lookup a = span_lookup b" "current_request a = current_request b"
    "avail_time_iter_set a = avail_time_iter_set b" "span_counter a = span_counter b"
  using assms [THEN arg_cong, of total_resources] assms [THEN arg_cong, of resource_types]
    assms [THEN arg_cong, of dimension] assms [THEN arg_cong, of plan_start] assms [THEN arg_cong, of plan_end]
    assms [THEN arg_cong, of p0] assms [THEN arg_cong, of span_lookup] assms [THEN arg_cong, of current_request]
    assms [THEN arg_cong, of avail_time_iter_set] assms [THEN arg_cong, of span_counter]
  by (simp_all add: frame_of_def)

lemma frame_with_mt [simp]: "frame_of (with_mt f ctx) = frame_of ctx"
  by (simp add: with_mt_def frame_of_def split: prod.split)

text \<open>\<open>same_points\<close>: the calls in question leave the scheduled points and the spans alone.\<close>

definition same_points :: "planner \<Rightarrow> planner \<Rightarrow> bool" where
  "same_points ctx ctx' \<longleftrightarrow>
     frame_of ctx' = frame_of ctx \<and> sched_point_tree ctx' = sched_point_tree ctx \<and>
     data_of (sp_store ctx') = data_of (sp_store ctx)"

lemma same_points_refl [simp]: "same_points ctx ctx"
  by (simp add: same_points_def)

lemma same_points_trans: "same_points a b \<Longrightarrow> same_points b c \<Longrightarrow> same_points a c"
  by (simp add: same_points_def)

lemma same_points_sched: "same_points ctx ctx' \<Longrightarrow> ctx_sched ss rc ctx \<Longrightarrow> ctx_sched ss rc ctx'"
  unfolding same_points_def ctx_sched_def
  by (metis frame_fields(1,4,6) sched_inv_data)

lemma same_points_length: "same_points ctx ctx' \<Longrightarrow> length (sp_store ctx') = length (sp_store ctx)"
  unfolding same_points_def by (blast intro: data_of_length)

lemma same_points_deref:
  assumes "same_points ctx ctx'"
  shows "p < length (sp_store ctx) \<Longrightarrow> at_of (sp_store ctx') p = at_of (sp_store ctx) p"
    and "p < length (sp_store ctx) \<Longrightarrow> remaining_of (sp_store ctx') p = remaining_of (sp_store ctx) p"
    and "p < length (sp_store ctx) \<Longrightarrow> ref_count (deref (sp_store ctx') p) = ref_count (deref (sp_store ctx) p)"
  using assms data_of_deref [of "sp_store ctx" "sp_store ctx'" p]
  by (simp_all add: same_points_def at_of_def remaining_of_def)

lemma with_mt_insert:
  assumes "ctx_mt M ctx" and "p < length (sp_store ctx)" and "p \<notin> M"
  shows "ctx_mt (insert p M) (with_mt (mintime_resource_insert n p) ctx)"
    and "same_points ctx (with_mt (mintime_resource_insert n p) ctx)"
proof -
  obtain h t where ht: "mintime_resource_insert n p (sp_store ctx, mt_resource_tree ctx) = (h, t)" by fastforce
  from assms(1) have m: "mt_aug_ok (sp_store ctx) (mt_resource_tree ctx)" "rb_tree (mt_resource_tree ctx)"
      "distinct (inorder (mt_resource_tree ctx))" "set (inorder (mt_resource_tree ctx)) = M"
      "M \<subseteq> {..<length (sp_store ctx)}"
      "\<forall>p<length (sp_store ctx). in_mt_resource_tree (deref (sp_store ctx) p) \<longleftrightarrow> p \<in> M"
    by (auto simp: ctx_mt_def mt_state_def)
  note ok = mintime_resource_insert_ok [OF ht m(1,2)]
  have at: "at_of h q = at_of (sp_store ctx) q" for q
    by (simp add: ok(4) at_of_def deref_upd_point)
  have "distinct (inorder t) \<and> set (inorder t) = insert p M"
    using ok(3) m(3,4) assms(3) by (metis mset_eq_setD set_mset_add_mset_insert set_mset_mset distinct.simps(2) mset.simps(2) mset_eq_imp_distinct_iff)
  moreover have "mt_aug_ok h t" using ok(1) at by (subst mt_aug_ok_cong [of _ h "sp_store ctx"]) auto
  ultimately show "ctx_mt (insert p M) (with_mt (mintime_resource_insert n p) ctx)"
    using ok(2,4) m(5,6) assms(2)
    by (auto simp: ctx_mt_def mt_state_def with_mt_def ht deref_upd_point)
  show "same_points ctx (with_mt (mintime_resource_insert n p) ctx)"
    by (simp add: same_points_def) (simp add: with_mt_def ht ok(4))
qed

lemma with_mt_remove:
  assumes "ctx_mt M ctx"
  shows "ctx_mt (M - {p}) (with_mt (mintime_resource_remove p) ctx)"
    and "same_points ctx (with_mt (mintime_resource_remove p) ctx)"
proof -
  obtain h t where ht: "mintime_resource_remove p (sp_store ctx, mt_resource_tree ctx) = (h, t)" by fastforce
  from assms(1) have m: "mt_aug_ok (sp_store ctx) (mt_resource_tree ctx)" "rb_tree (mt_resource_tree ctx)"
      "distinct (inorder (mt_resource_tree ctx))" "set (inorder (mt_resource_tree ctx)) = M"
      "M \<subseteq> {..<length (sp_store ctx)}"
      "\<forall>p<length (sp_store ctx). in_mt_resource_tree (deref (sp_store ctx) p) \<longleftrightarrow> p \<in> M"
    by (auto simp: ctx_mt_def mt_state_def)
  note ok = mintime_resource_remove_ok [OF ht m(1-3)]
  have at: "at_of h q = at_of (sp_store ctx) q" for q
    by (simp add: ok(4) at_of_def deref_upd_point)
  have "mt_aug_ok h t" using ok(1) at by (subst mt_aug_ok_cong [of _ h "sp_store ctx"]) auto
  then show "ctx_mt (M - {p}) (with_mt (mintime_resource_remove p) ctx)"
    using ok(2,3,4) m(3-6)
    by (auto simp: ctx_mt_def mt_state_def with_mt_def ht deref_upd_point)
  show "same_points ctx (with_mt (mintime_resource_remove p) ctx)"
    by (simp add: same_points_def) (simp add: with_mt_def ht ok(4))
qed

lemma ctx_mt_less: "ctx_mt M ctx \<Longrightarrow> p \<in> M \<Longrightarrow> p < length (sp_store ctx)"
  by (auto simp: ctx_mt_def mt_state_def)

lemma ctx_mt_flag: "ctx_mt M ctx \<Longrightarrow> p < length (sp_store ctx) \<Longrightarrow> in_mt_resource_tree (deref (sp_store ctx) p) \<longleftrightarrow> p \<in> M"
  by (auto simp: ctx_mt_def mt_state_def)

lemma update_mintime_point_ok:
  assumes "ctx_mt M ctx" and "p < length (sp_store ctx)"
  shows "ctx_mt (if ref_count (deref (sp_store ctx) p) = 0 then M - {p} else insert p M)
      (update_mintime_point p ctx)"
    and "same_points ctx (update_mintime_point p ctx)"
    and "avail_time_iter (update_mintime_point p ctx) = avail_time_iter ctx"
proof -
  define ctx1 where "ctx1 = (if p \<in> M then with_mt (mintime_resource_remove p) ctx else ctx)"
  have c1: "ctx_mt (M - {p}) ctx1" "same_points ctx ctx1"
    using with_mt_remove [OF assms(1), of p] assms(1) by (auto simp: ctx1_def)
  have lt: "p < length (sp_store ctx1)" using c1(2) assms(2) by (simp add: same_points_length)
  have rc: "ref_count (deref (sp_store ctx1) p) = ref_count (deref (sp_store ctx) p)"
    using c1(2) assms(2) by (simp add: same_points_deref)
  have flag: "\<not> in_mt_resource_tree (deref (sp_store ctx1) p)" using ctx_mt_flag [OF c1(1) lt] by simp
  have eq: "update_mintime_point p ctx =
      (if ref_count (deref (sp_store ctx) p) = 0 then ctx1 else with_mt (mintime_resource_insert (dimension ctx) p) ctx1)"
    using flag rc ctx_mt_flag [OF assms]
    by (simp add: update_mintime_point_def Let_def ctx1_def)
  have ins: "insert p (M - {p}) = insert p M" by auto
  show "ctx_mt (if ref_count (deref (sp_store ctx) p) = 0 then M - {p} else insert p M) (update_mintime_point p ctx)"
    using c1 with_mt_insert(1) [OF c1(1) lt] by (auto simp: eq ins)
  show "same_points ctx (update_mintime_point p ctx)"
    using c1(2) with_mt_insert(2) [OF c1(1) lt] by (auto simp: eq intro: same_points_trans)
  show "avail_time_iter (update_mintime_point p ctx) = avail_time_iter ctx"
    by (simp add: eq ctx1_def)
qed

lemma update_mintime_resource_tree_ok:
  "ctx_mt M ctx \<Longrightarrow> \<forall>p\<in>set ps. p < length (sp_store ctx) \<Longrightarrow>
     ctx_mt ((M - {p\<in>set ps. ref_count (deref (sp_store ctx) p) = 0}) \<union>
              {p\<in>set ps. ref_count (deref (sp_store ctx) p) \<noteq> 0}) (update_mintime_resource_tree ps ctx) \<and>
     same_points ctx (update_mintime_resource_tree ps ctx) \<and>
     avail_time_iter (update_mintime_resource_tree ps ctx) = avail_time_iter ctx"
proof (induction ps arbitrary: ctx M)
  case (Cons p ps)
  let ?M = "if ref_count (deref (sp_store ctx) p) = 0 then M - {p} else insert p M"
  let ?ctx = "update_mintime_point p ctx"
  note step = update_mintime_point_ok [OF Cons.prems(1), of p]
  have lt: "\<forall>q\<in>set (p # ps). q < length (sp_store ctx)" using Cons.prems(2) .
  have s: "ctx_mt ?M ?ctx" "same_points ctx ?ctx" "avail_time_iter ?ctx = avail_time_iter ctx"
    using step lt by auto
  have rc: "ref_count (deref (sp_store ?ctx) q) = ref_count (deref (sp_store ctx) q)" if "q \<in> set ps" for q
    using s(2) lt that by (auto intro: same_points_deref)
  have IH: "ctx_mt ((?M - {q\<in>set ps. ref_count (deref (sp_store ?ctx) q) = 0}) \<union>
              {q\<in>set ps. ref_count (deref (sp_store ?ctx) q) \<noteq> 0}) (update_mintime_resource_tree ps ?ctx) \<and>
     same_points ?ctx (update_mintime_resource_tree ps ?ctx) \<and>
     avail_time_iter (update_mintime_resource_tree ps ?ctx) = avail_time_iter ?ctx"
    using s lt by (intro Cons.IH) (simp_all add: same_points_length)
  have "(?M - {q\<in>set ps. ref_count (deref (sp_store ?ctx) q) = 0}) \<union> {q\<in>set ps. ref_count (deref (sp_store ?ctx) q) \<noteq> 0} =
      (M - {q\<in>set (p # ps). ref_count (deref (sp_store ctx) q) = 0}) \<union> {q\<in>set (p # ps). ref_count (deref (sp_store ctx) q) \<noteq> 0}"
    using rc by auto
  with IH s show ?case
    by (simp only: update_mintime_resource_tree_def fold.simps o_apply) (auto intro: same_points_trans)
qed (simp add: update_mintime_resource_tree_def)

section \<open>Tracking\<close>

definition zkeys_ok :: "(int list \<Rightarrow> int list) \<Rightarrow> bool" where
  "zkeys_ok zkeys \<longleftrightarrow> (\<forall>ks. set (zkeys ks) = set ks)"

definition iter_inv :: "planner \<Rightarrow> bool" where
  "iter_inv ctx \<longleftrightarrow>
     ctx_mt (set (points_of ctx) - tracked ctx) ctx \<and>
     iter_ok (sp_store ctx) (points_of ctx) (avail_time_iter ctx) \<and>
     inj_on (at_of (sp_store ctx)) (set (points_of ctx)) \<and>
     (\<forall>p\<in>set (points_of ctx). p < length (sp_store ctx))"

lemma iter_inv_same_points:
  assumes "same_points ctx ctx'" and "avail_time_iter ctx' = avail_time_iter ctx" and "iter_inv ctx"
    and "ctx_mt (set (points_of ctx') - tracked ctx') ctx'"
  shows "iter_inv ctx'"
proof -
  have "points_of ctx' = points_of ctx" using assms(1) by (simp add: same_points_def)
  moreover have "at_of (sp_store ctx') p = at_of (sp_store ctx) p" if "p \<in> set (points_of ctx)" for p
    using same_points_deref(1) [OF assms(1)] assms(3) that by (auto simp: iter_inv_def)
  ultimately show ?thesis
    using assms by (auto simp: iter_inv_def iter_ok_def same_points_length inj_on_def)
qed

lemma iter_key_tracked:
  assumes "iter_inv ctx" and "p \<in> set (points_of ctx)"
  shows "at_of (sp_store ctx) p \<in> fst ` set (avail_time_iter ctx) \<longleftrightarrow> p \<in> tracked ctx"
proof
  assume "at_of (sp_store ctx) p \<in> fst ` set (avail_time_iter ctx)"
  then obtain q where q: "(at_of (sp_store ctx) p, q) \<in> set (avail_time_iter ctx)" by auto
  with assms have "q \<in> set (points_of ctx)" "at_of (sp_store ctx) p = at_of (sp_store ctx) q"
    by (auto simp: iter_inv_def iter_ok_def)
  with assms have "p = q" by (auto simp: iter_inv_def inj_on_def)
  with q show "p \<in> tracked ctx" by force
next
  assume "p \<in> tracked ctx"
  with assms show "at_of (sp_store ctx) p \<in> fst ` set (avail_time_iter ctx)"
    by (force simp: iter_inv_def iter_ok_def)
qed

lemma same_points_iter [simp]: "same_points ctx (ctx'\<lparr>avail_time_iter := it\<rparr>) = same_points ctx ctx'"
  by (simp add: same_points_def frame_of_def)

lemma ctx_mt_iter [simp]: "ctx_mt M (ctx\<lparr>avail_time_iter := it\<rparr>) = ctx_mt M ctx"
  by (simp add: ctx_mt_def)

lemma untrack_start_ok:
  assumes "iter_inv ctx" and "p \<in> set (points_of ctx)" and "p \<notin> tracked ctx"
  shows "iter_inv (untrack_start p ctx)" and "same_points ctx (untrack_start p ctx)"
    and "tracked (untrack_start p ctx) = insert p (tracked ctx)"
proof -
  let ?r = "with_mt (mintime_resource_remove p) ctx"
  have lt: "\<forall>q\<in>set (points_of ctx). q < length (sp_store ctx)" using assms(1) by (simp add: iter_inv_def)
  have mt: "ctx_mt (set (points_of ctx) - tracked ctx) ctx" using assms(1) by (simp add: iter_inv_def)
  note r = with_mt_remove [OF mt, of p]
  have at: "at_of (sp_store ?r) q = at_of (sp_store ctx) q" if "q \<in> set (points_of ctx)" for q
    using same_points_deref(1) [OF r(2)] lt that by simp
  have key: "at_of (sp_store ctx) p \<notin> fst ` set (avail_time_iter ctx)"
    using iter_key_tracked [OF assms(1,2)] assms(3) by simp
  then have u: "untrack_start p ctx =
      ?r\<lparr>avail_time_iter := avail_time_iter ctx @ [(at_of (sp_store ctx) p, p)]\<rparr>"
    using at [OF assms(2)] by (simp add: untrack_start_def track_points_def Let_def)
  show "same_points ctx (untrack_start p ctx)" using r(2) by (simp add: u)
  show tr: "tracked (untrack_start p ctx) = insert p (tracked ctx)" by (auto simp: u)
  have e: "set (points_of ctx) - tracked ctx - {p} = set (points_of ctx) - insert p (tracked ctx)" by auto
  have "iter_ok (sp_store ?r) (points_of ctx) (avail_time_iter ctx @ [(at_of (sp_store ctx) p, p)])"
    using assms(1,2) key at by (auto simp: iter_inv_def iter_ok_def)
  moreover have "inj_on (at_of (sp_store ?r)) (set (points_of ctx))"
    using assms(1) at by (auto simp: iter_inv_def inj_on_def)
  ultimately show "iter_inv (untrack_start p ctx)"
    using r lt tr unfolding iter_inv_def by (auto simp: u e same_points_length)
qed

lemma restore_track_point_ok:
  assumes "iter_inv ctx"
  shows "iter_inv (restore_track_point k ctx)" and "same_points ctx (restore_track_point k ctx)"
    and "avail_time_iter (restore_track_point k ctx) = filter (\<lambda>kv. fst kv \<noteq> k) (avail_time_iter ctx)"
proof -
  let ?it = "avail_time_iter ctx"
  have *: "iter_inv (restore_track_point k ctx) \<and> same_points ctx (restore_track_point k ctx) \<and>
      avail_time_iter (restore_track_point k ctx) = filter (\<lambda>kv. fst kv \<noteq> k) ?it"
  proof (cases "map_of ?it k")
    case None
    then have "filter (\<lambda>kv. fst kv \<noteq> k) ?it = ?it" by (auto simp: map_of_eq_None_iff filter_id_conv)
    with None assms show ?thesis by (simp add: restore_track_point_def)
  next
    case (Some p)
    let ?r = "with_mt (mintime_resource_insert (dimension ctx) p) ctx"
    let ?it' = "filter (\<lambda>kv. fst kv \<noteq> k) ?it"
    have p: "(k, p) \<in> set ?it" using Some by (rule map_of_SomeD)
    have it: "distinct (map fst ?it)" "\<And>j q. (j, q) \<in> set ?it \<Longrightarrow> q \<in> set (points_of ctx) \<and> j = at_of (sp_store ctx) q"
      using assms by (auto simp: iter_inv_def iter_ok_def)
    have lt: "\<forall>q\<in>set (points_of ctx). q < length (sp_store ctx)" using assms by (simp add: iter_inv_def)
    have uniq: "j = k \<longleftrightarrow> q = p" if "(j, q) \<in> set ?it" for j q
    proof
      assume "j = k"
      with map_of_is_SomeI [OF it(1) that] Some show "q = p" by simp
    next
      assume "q = p"
      with it(2) [OF that] it(2) [OF p] show "j = k" by simp
    qed
    have "snd ` set ?it' = tracked ctx - {p}" using uniq by force
    then have tr: "tracked ctx = insert p (snd ` set ?it')" and pn: "p \<notin> snd ` set ?it'"
      using p by force+
    have mt: "ctx_mt (set (points_of ctx) - tracked ctx) ctx" using assms by (simp add: iter_inv_def)
    have pin: "p \<in> set (points_of ctx)" using it(2) [OF p] by simp
    note r = with_mt_insert [OF mt, of p "dimension ctx"]
    have at: "at_of (sp_store ?r) q = at_of (sp_store ctx) q" if "q \<in> set (points_of ctx)" for q
      using same_points_deref(1) [OF r(2)] lt pin tr that by simp
    have e: "insert p (set (points_of ctx) - insert p (snd ` set ?it')) = set (points_of ctx) - snd ` set ?it'"
      using pin pn by auto
    have "ctx_mt (insert p (set (points_of ctx) - tracked ctx)) ?r"
      by (rule r(1)) (use lt pin tr in auto)
    then have "ctx_mt (set (points_of ctx) - snd ` set ?it') ?r" by (simp only: tr e)
    moreover have "same_points ctx ?r" using r(2) lt pin tr by simp
    moreover have "iter_ok (sp_store ?r) (points_of ctx) ?it'"
      using it at by (auto simp: iter_ok_def distinct_map_filter)
    moreover have "inj_on (at_of (sp_store ?r)) (set (points_of ctx))"
      using assms at by (auto simp: iter_inv_def inj_on_def)
    ultimately show ?thesis
      using lt Some by (simp add: iter_inv_def restore_track_point_def same_points_length)
  qed
  then show "iter_inv (restore_track_point k ctx)" "same_points ctx (restore_track_point k ctx)"
    "avail_time_iter (restore_track_point k ctx) = filter (\<lambda>kv. fst kv \<noteq> k) ?it" by auto
qed

lemma restore_fold_ok:
  "iter_inv ctx \<Longrightarrow>
     iter_inv (fold restore_track_point ks ctx) \<and> same_points ctx (fold restore_track_point ks ctx) \<and>
     avail_time_iter (fold restore_track_point ks ctx) = filter (\<lambda>kv. fst kv \<notin> set ks) (avail_time_iter ctx)"
proof (induction ks arbitrary: ctx)
  case (Cons k ks)
  note step = restore_track_point_ok [OF Cons.prems, of k]
  from Cons.IH [OF step(1)] step(2,3) show ?case
    by (auto intro: same_points_trans filter_cong)
qed (simp add: filter_id_conv)

lemma restore_track_points_ok:
  assumes "iter_inv ctx" and "zkeys_ok zkeys"
  shows "iter_inv (restore_track_points zkeys ctx)" and "same_points ctx (restore_track_points zkeys ctx)"
    and "avail_time_iter (restore_track_points zkeys ctx) = []"
  using restore_fold_ok [OF assms(1), of "zkeys (map fst (avail_time_iter ctx))"] assms(2)
  by (auto simp: restore_track_points_def zkeys_ok_def filter_empty_conv)

section \<open>Availability keeps the spans\<close>

lemma span_ok_cases:
  "span_ok p duration ra len ctx = (ctx, True) \<or> span_ok p duration ra len ctx = (untrack_start p ctx, False)"
  by (simp add: span_ok_def)

lemma avail_at_loop_ok:
  "iter_inv ctx \<Longrightarrow>
     iter_inv (fst (avail_at_loop n on_or_aft duration ra len t ctx)) \<and>
     same_points ctx (fst (avail_at_loop n on_or_aft duration ra len t ctx))"
proof (induction n arbitrary: t ctx)
  case (Suc n)
  show ?case
  proof (cases "mintime_resource_mintime (sp_store ctx) ra len (mt_resource_tree ctx)")
    case None
    with Suc.prems show ?thesis by simp
  next
    case (Some p)
    then have "p \<in> set (points_of ctx) - tracked ctx"
      using mintime_resource_mintime_mem [OF Some] Suc.prems by (auto simp: iter_inv_def ctx_mt_def mt_state_def)
    with untrack_start_ok [OF Suc.prems, of p]
    have u: "iter_inv (untrack_start p ctx)" "same_points ctx (untrack_start p ctx)" by auto
    from Suc.IH [OF u(1)] u(2)
    have IH: "iter_inv (fst (avail_at_loop n on_or_aft duration ra len t' (untrack_start p ctx))) \<and>
        same_points ctx (fst (avail_at_loop n on_or_aft duration ra len t' (untrack_start p ctx)))" for t'
      by (blast intro: same_points_trans)
    show ?thesis
      using Some IH u span_ok_cases [of p duration ra len ctx] by (auto simp: Let_def)
  qed
qed simp

lemma avail_at_ok:
  assumes "iter_inv ctx"
  shows "iter_inv (fst (avail_at on_or_aft duration ra len ctx))"
    and "same_points ctx (fst (avail_at on_or_aft duration ra len ctx))"
  using avail_at_loop_ok [OF assms] unfolding avail_at_def by blast+

end
