(* ===== verification/Planner_Spans.thy ===== *)
theory Planner_Spans
  imports Planner_Invariant
begin

text \<open>
  How the operations that place and remove a span change the scheduled points: new points, reference
  counts, the resource arrays of the points that a span covers.
\<close>

section \<open>Reading the invariant\<close>

lemma ctx_schedD:
  assumes "ctx_sched ss rc ctx"
  shows "rb_tree (sched_point_tree ctx)" and "sp_sorted (sp_store ctx) (points_of ctx)"
    and "p0 ctx \<in> set (points_of ctx)" and "at_of (sp_store ctx) (p0 ctx) = plan_start ctx"
    and "p \<in> set (points_of ctx) \<Longrightarrow> p < length (sp_store ctx)"
    and "p \<in> set (points_of ctx) \<Longrightarrow> point_ok (total_resources ctx) ss (deref (sp_store ctx) p)"
    and "p \<in> set (points_of ctx) \<Longrightarrow> ref_count (deref (sp_store ctx) p) = rc p"
    and "s \<in> set ss \<Longrightarrow> span_placed (sp_store ctx) (points_of ctx) s"
    and "p \<in> set (points_of ctx) \<Longrightarrow> plan_start ctx \<le> at_of (sp_store ctx) p"
    and "p \<in> set (points_of ctx) \<Longrightarrow> time_ok (at_of (sp_store ctx) p)"
  using assms by (auto simp: ctx_sched_def sched_inv_def sp_sorted_def less_imp_le)

lemma ctx_sched_inj: "ctx_sched ss rc ctx \<Longrightarrow> inj_on (at_of (sp_store ctx)) (set (points_of ctx))"
  by (meson ctx_schedD(2) inj_onI sp_sorted_inj)

text \<open>Every start and end of a span is the time of a point, so usage is constant between points.\<close>

lemma usage_between:
  assumes "ctx_sched ss rc ctx" and "t \<le> t'"
    and "\<forall>p\<in>set (points_of ctx). at_of (sp_store ctx) p \<le> t \<or> t' < at_of (sp_store ctx) p"
  shows "usage ss i t = usage ss i t'"
proof (rule usage_cong)
  fix s
  assume "s \<in> set ss"
  from ctx_schedD(8) [OF assms(1) this] obtain p q where "p \<in> set (points_of ctx)" "q \<in> set (points_of ctx)"
    "at_of (sp_store ctx) p = span_start s" "at_of (sp_store ctx) q = span_last s"
    by (auto simp: span_placed_def)
  then have "span_start s \<le> t \<or> t' < span_start s" "span_last s \<le> t \<or> t' < span_last s"
    using assms(3) by metis+
  with assms(2) show "active_at t s = active_at t' s" by (auto simp: active_at_def)
qed

lemma state_at:
  assumes "ctx_sched ss rc ctx" and "time_ok t" and "plan_start ctx \<le> t"
  obtains p where "scheduled_point_state (sp_store ctx) t (sched_point_tree ctx) = Some p"
    and "p \<in> set (points_of ctx)" and "at_of (sp_store ctx) p \<le> t"
    and "\<And>q. q \<in> set (points_of ctx) \<Longrightarrow> at_of (sp_store ctx) q \<le> t \<Longrightarrow> at_of (sp_store ctx) q \<le> at_of (sp_store ctx) p"
    and "\<And>i. usage ss i (at_of (sp_store ctx) p) = usage ss i t"
proof -
  note sorted = ctx_schedD(2) [OF assms(1)]
  have eq: "scheduled_point_state (sp_store ctx) t (sched_point_tree ctx) = latest (sp_store ctx) t (points_of ctx)"
    using sorted assms(2) by (rule scheduled_point_state_eq)
  have "latest (sp_store ctx) t (points_of ctx) \<noteq> None"
    using ctx_schedD(3,4) [OF assms(1)] assms(3) unfolding latest_None by (auto simp: not_less intro!: bexI [of _ "p0 ctx"])
  then obtain p where p: "latest (sp_store ctx) t (points_of ctx) = Some p" by auto
  note l = latest_Some [OF sorted p]
  have "usage ss i (at_of (sp_store ctx) p) = usage ss i t" for i
    using l by (intro usage_between [OF assms(1)]) (auto simp: not_le [symmetric])
  with that eq p l show thesis by simp
qed

lemma fetch_overlap_points_eq:
  assumes "ctx_sched ss rc ctx" and "time_ok t" and "plan_start ctx \<le> t" and "0 \<le> duration" and "time_ok (t + duration)"
  shows "fetch_overlap_points t duration ctx =
    filter (\<lambda>p. t \<le> at_of (sp_store ctx) p \<and> at_of (sp_store ctx) p < t + duration) (points_of ctx)"
proof -
  note sorted = ctx_schedD(2) [OF assms(1)]
  obtain p where p: "scheduled_point_state (sp_store ctx) t (sched_point_tree ctx) = Some p"
      "p \<in> set (points_of ctx)" "at_of (sp_store ctx) p \<le> t"
    using state_at [OF assms(1-3)] by metis
  have stop: "i64 (t + duration) = t + duration"
    using assms(2,4,5) by (simp add: time_ok_def in_i64_def)
  have "points_from (Some p) (sched_point_tree ctx) =
      filter (\<lambda>q. at_of (sp_store ctx) p \<le> at_of (sp_store ctx) q) (points_of ctx)"
    using sorted p(2) by (rule points_from_sorted)
  then have "fetch_overlap_points t duration ctx =
      filter (\<lambda>p. t \<le> at_of (sp_store ctx) p \<and> at_of (sp_store ctx) p < t + duration)
        (filter (\<lambda>q. at_of (sp_store ctx) p \<le> at_of (sp_store ctx) q) (points_of ctx))"
    using sorted by (simp add: fetch_overlap_points_def p(1) stop fetch_overlap_loop_eq)
  also have "\<dots> = filter (\<lambda>p. t \<le> at_of (sp_store ctx) p \<and> at_of (sp_store ctx) p < t + duration) (points_of ctx)"
    using p(3) by (auto simp: filter_filter intro: filter_cong)
  finally show ?thesis .
qed

section \<open>A point for a time\<close>

lemma span_placed_mono:
  assumes "span_placed h ps s" and "\<And>p. p \<in> set ps \<Longrightarrow> p \<in> set ps' \<and> at_of h' p = at_of h p"
  shows "span_placed h' ps' s"
proof -
  from assms(1) obtain p q where "span_shape s" "start_p s = Some p" "last_p s = Some q" "p \<in> set ps" "q \<in> set ps"
    "at_of h p = span_start s" "at_of h q = span_last s" by (auto simp: span_placed_def)
  with assms(2) show ?thesis unfolding span_placed_def by auto
qed

lemma deref_append [simp]:
  "p < length h \<Longrightarrow> deref (h @ h') p = deref h p" "deref (h @ [x]) (length h) = x"
  by (simp_all add: deref_def nth_append)

lemma at_of_append [simp]: "p < length h \<Longrightarrow> at_of (h @ h') p = at_of h p"
  by (simp add: at_of_def)

lemma get_or_new_point_ok:
  assumes "ctx_sched ss rc ctx" and "iter_inv ctx" and "avail_time_iter ctx = []"
    and "time_ok t" and "plan_start ctx \<le> t" and "\<forall>p\<ge>length (sp_store ctx). rc p = 0"
  obtains ctx' p where "get_or_new_point t ctx = Some (ctx', p)" and "ctx_sched ss rc ctx'" and "iter_inv ctx'"
    and "avail_time_iter ctx' = []" and "frame_of ctx' = frame_of ctx"
    and "p \<in> set (points_of ctx')" and "at_of (sp_store ctx') p = t"
    and "length (sp_store ctx) \<le> length (sp_store ctx')"
    and "\<And>q. q \<in> set (points_of ctx) \<Longrightarrow> q \<in> set (points_of ctx') \<and> at_of (sp_store ctx') q = at_of (sp_store ctx) q"
    and "\<And>q. q \<in> set (points_of ctx') \<Longrightarrow> at_of (sp_store ctx') q \<noteq> t \<Longrightarrow> q \<in> set (points_of ctx)"
proof (cases "scheduled_point_search (sp_store ctx) t (sched_point_tree ctx)")
  case (Some p)
  then have "p \<in> set (points_of ctx)" "at_of (sp_store ctx) p = t"
    using scheduled_point_search_Some [OF ctx_schedD(2) [OF assms(1)] assms(4)] by auto
  with that [of ctx p] assms Some show thesis by (simp add: get_or_new_point_def)
next
  case None
  let ?h = "sp_store ctx" and ?n = "length (sp_store ctx)" and ?spt = "sched_point_tree ctx"
  note sorted = ctx_schedD(2) [OF assms(1)]
  have new: "\<forall>p\<in>set (points_of ctx). at_of ?h p \<noteq> t"
    using None sorted assms(4) by (simp add: scheduled_point_search_None)
  obtain q where q: "scheduled_point_state ?h t ?spt = Some q" "q \<in> set (points_of ctx)"
      and us: "\<And>i. usage ss i (at_of ?h q) = usage ss i t"
    using state_at [OF assms(1,4,5)] by metis
  define pt where "pt = \<lparr>sp_at = t, in_mt_resource_tree = False, new_point = True, ref_count = 0,
      scheduled = scheduled (deref ?h q), remaining = remaining (deref ?h q)\<rparr>"
  define h where "h = ?h @ [pt]"
  have lt: "p < ?n" if "p \<in> set (points_of ctx)" for p using ctx_schedD(5) [OF assms(1) that] .
  have at: "at_of h p = at_of ?h p" if "p \<in> set (points_of ctx)" for p using lt [OF that] by (simp add: h_def)
  have at_n: "at_of h ?n = t" by (simp add: h_def at_of_def pt_def)
  have hs: "sp_sorted h (points_of ctx)" using sorted at by (subst sp_sorted_cong [of _ h ?h]) auto
  obtain spt where spt: "scheduled_point_insert h ?n ?spt = Some spt" "rb_tree spt"
      "inorder spt = filter (\<lambda>q. at_of h q < t) (points_of ctx) @ ?n # filter (\<lambda>q. t < at_of h q) (points_of ctx)"
  proof (rule scheduled_point_insert_new [OF hs, of ?n])
    show "\<forall>q\<in>set (points_of ctx). at_of h q \<noteq> at_of h ?n" using at at_n new by simp
  qed (use at_n assms(4) ctx_schedD(1) [OF assms(1)] that in simp_all)
  define ctx1 where "ctx1 = ctx\<lparr>sp_store := h, sched_point_tree := spt\<rparr>"
  have set1: "set (inorder spt) = insert ?n (set (points_of ctx))"
    using new at by (force simp: spt(3))
  have ok: "point_ok (total_resources ctx) ss pt"
    using ctx_schedD(6) [OF assms(1) q(2)] us by (simp add: point_ok_def pt_def at_of_def [symmetric])
  obtain ps where ps: "points_of ctx = p0 ctx # ps" using assms(1) by (auto simp: ctx_sched_def sched_inv_def)
  have p0: "at_of h (p0 ctx) < t"
    using assms(5) new ctx_schedD(3,4) [OF assms(1)] at [of "p0 ctx"] by force
  have "sp_sorted h (inorder spt)"
    using hs at_n assms(4) by (auto simp: spt(3))
  moreover have "\<exists>ps. inorder spt = p0 ctx # ps" using p0 by (simp add: spt(3) ps)
  moreover have "span_placed h (inorder spt) s" if "s \<in> set ss" for s
    using ctx_schedD(8) [OF assms(1) that] at by (auto simp: set1 intro: span_placed_mono)
  ultimately have s1: "ctx_sched ss rc ctx1"
    using spt(2) ok at lt ctx_schedD(3,4,6,7) [OF assms(1)] assms(6)
    by (auto simp: ctx_sched_def sched_inv_def ctx1_def set1 h_def pt_def less_SucI)
  have mt1: "ctx_mt (set (points_of ctx)) ctx1"
  proof -
    have m: "mt_state ?h (mt_resource_tree ctx) (set (points_of ctx))"
      using assms(2,3) by (simp add: iter_inv_def ctx_mt_def)
    then have "mt_aug_ok h (mt_resource_tree ctx)"
      using at by (subst mt_aug_ok_cong [of _ h ?h]) (auto simp: mt_state_def)
    with m show ?thesis
      using lt by (auto simp: ctx_mt_def mt_state_def ctx1_def h_def pt_def less_Suc_eq)
  qed
  let ?ctx' = "with_mt (mintime_resource_insert (dimension ctx) ?n) ctx1"
  have n: "?n < length (sp_store ctx1)" "?n \<notin> set (points_of ctx)"
    using lt by (auto simp: ctx1_def h_def)
  note r = with_mt_insert [OF mt1 n, of "dimension ctx"]
  have s2: "ctx_sched ss rc ?ctx'" using r(2) s1 by (rule same_points_sched)
  have at2: "at_of (sp_store ?ctx') p = at_of h p" if "p < length h" for p
    using same_points_deref(1) [OF r(2)] that by (simp add: ctx1_def)
  have it: "iter_inv ?ctx'"
    using r(1) s2 ctx_schedD(5) [OF s2] ctx_sched_inj [OF s2] assms(3)
    by (simp add: iter_inv_def iter_ok_def set1 ctx1_def)
  show thesis
  proof (rule that)
    show "get_or_new_point t ctx = Some (?ctx', ?n)"
      using None q(1) spt(1) by (simp add: get_or_new_point_def Let_def ctx1_def h_def pt_def)
    show "iter_inv ?ctx'" "ctx_sched ss rc ?ctx'" by (fact it, fact s2)
    show "?n \<in> set (points_of ?ctx')" by (simp add: ctx1_def set1)
    show "at_of (sp_store ?ctx') ?n = t" using at2 at_n by (simp add: h_def)
    show "?n \<le> length (sp_store ?ctx')" using same_points_length [OF r(2)] by (simp add: ctx1_def h_def)
  qed (use assms(3) at at2 lt at_n in \<open>auto simp: ctx1_def frame_of_def set1 h_def less_SucI\<close>)
qed

section \<open>Changing the points in place\<close>

lemma keys_of_upd: "(\<And>s. sp_at (f s) = sp_at s \<and> in_mt_resource_tree (f s) = in_mt_resource_tree s) \<Longrightarrow>
    keys_of (upd_point p f h) = keys_of h"
  unfolding keys_of_def by (rule map_upd_point) simp

lemma keys_of_fold: "(\<And>s. sp_at (f s) = sp_at s \<and> in_mt_resource_tree (f s) = in_mt_resource_tree s) \<Longrightarrow>
    keys_of (fold (\<lambda>p. upd_point p f) ps h) = keys_of h"
  by (induction ps arbitrary: h) (simp_all add: keys_of_upd)

lemma length_fold_upd [simp]: "length (fold (\<lambda>p. upd_point p f) ps h) = length h"
  by (induction ps arbitrary: h) simp_all

lemma deref_fold_upd:
  "distinct ps \<Longrightarrow> q < length h \<Longrightarrow>
     deref (fold (\<lambda>p. upd_point p f) ps h) q = (if q \<in> set ps then f (deref h q) else deref h q)"
  by (induction ps arbitrary: h) (auto simp: deref_upd_point)

lemma keys_of_deref:
  assumes "keys_of h = keys_of h'" and "p < length h"
  shows "at_of h p = at_of h' p"
proof -
  have "length h = length h'" using assms(1) unfolding keys_of_def by (metis length_map)
  moreover have "keys_of h ! p = keys_of h' ! p" using assms(1) by simp
  ultimately show ?thesis using assms(2) by (simp add: keys_of_def at_of_def deref_def)
qed

lemma iter_inv_keys:
  assumes "keys_of h = keys_of (sp_store ctx)" and "iter_inv ctx"
  shows "iter_inv (ctx\<lparr>sp_store := h\<rparr>)"
proof -
  have len: "length h = length (sp_store ctx)" using assms(1) unfolding keys_of_def by (metis length_map)
  have at: "at_of h p = at_of (sp_store ctx) p" if "p \<in> set (points_of ctx)" for p
    using keys_of_deref [OF assms(1)] len assms(2) that by (simp add: iter_inv_def)
  have "mt_state h (mt_resource_tree ctx) (set (points_of ctx) - tracked ctx)"
    using assms by (intro mt_state_keys [of "sp_store ctx" h]) (auto simp: iter_inv_def ctx_mt_def)
  with assms(2) at len show ?thesis by (auto simp: iter_inv_def ctx_mt_def iter_ok_def inj_on_def)
qed

text \<open>An update of the points of \<open>ps\<close> by \<open>f\<close> that keeps their times.\<close>

lemma ctx_sched_update:
  assumes "ctx_sched ss rc ctx" and "keys_of h = keys_of (sp_store ctx)"
    and "\<And>p. p \<in> set (points_of ctx) \<Longrightarrow> point_ok (total_resources ctx) ss' (deref h p) \<and> ref_count (deref h p) = rc' p"
    and "\<And>s. s \<in> set ss' \<Longrightarrow> span_placed (sp_store ctx) (points_of ctx) s"
  shows "ctx_sched ss' rc' (ctx\<lparr>sp_store := h\<rparr>)"
proof -
  have len: "length h = length (sp_store ctx)" using assms(2) unfolding keys_of_def by (metis length_map)
  have at: "at_of h p = at_of (sp_store ctx) p" if "p \<in> set (points_of ctx)" for p
    using keys_of_deref [OF assms(2)] len ctx_schedD(5) [OF assms(1) that] by simp
  have "sp_sorted h (points_of ctx)" using ctx_schedD(2) [OF assms(1)] at by (subst sp_sorted_cong [of _ h]) auto
  moreover have "span_placed h (points_of ctx) s" if "s \<in> set ss'" for s
    using assms(4) [OF that] at by (auto intro: span_placed_mono)
  ultimately show ?thesis
    using assms(1,3) at ctx_schedD(3,4) [OF assms(1)] len by (auto simp: ctx_sched_def sched_inv_def)
qed

lemma incr_ref_ok:
  assumes "ctx_sched ss rc ctx" and "iter_inv ctx" and "p \<in> set (points_of ctx)"
  shows "ctx_sched ss (rc(p := rc p + d)) (incr_ref d p ctx)" and "iter_inv (incr_ref d p ctx)"
proof -
  let ?h = "upd_point p (\<lambda>s. s\<lparr>ref_count := ref_count s + d\<rparr>) (sp_store ctx)"
  have k: "keys_of ?h = keys_of (sp_store ctx)" by (rule keys_of_upd) simp
  show "iter_inv (incr_ref d p ctx)" unfolding incr_ref_def using k assms(2) by (rule iter_inv_keys)
  show "ctx_sched ss (rc(p := rc p + d)) (incr_ref d p ctx)"
    unfolding incr_ref_def
    by (rule ctx_sched_update [OF assms(1) k])
      (use ctx_schedD(5-8) [OF assms(1)] in \<open>auto simp: deref_upd_point point_ok_def\<close>)
qed

lemma incr_ref_fields [simp]:
  "sched_point_tree (incr_ref d p ctx) = sched_point_tree ctx" "frame_of (incr_ref d p ctx) = frame_of ctx"
  "avail_time_iter (incr_ref d p ctx) = avail_time_iter ctx"
  "length (sp_store (incr_ref d p ctx)) = length (sp_store ctx)"
  "at_of (sp_store (incr_ref d p ctx)) q = at_of (sp_store ctx) q"
  by (simp_all add: incr_ref_def frame_of_def at_of_def deref_upd_point)

lemma clear_new_ok:
  assumes "iter_inv ctx"
  shows "same_points ctx (clear_new p ctx)" and "iter_inv (clear_new p ctx)"
proof -
  show "same_points ctx (clear_new p ctx)"
    by (simp add: same_points_def clear_new_def frame_of_def)
  show "iter_inv (clear_new p ctx)"
    unfolding clear_new_def by (rule iter_inv_keys [OF _ assms]) (rule keys_of_upd, simp)
qed

lemma clear_new_fields [simp]: "avail_time_iter (clear_new p ctx) = avail_time_iter ctx"
  by (simp add: clear_new_def)

lemma length_array_upd [simp]: "length (array_upd f dim xs ys) = length xs"
  by (simp add: array_upd_def)

lemma nth_array_upd [simp]:
  "i < length xs \<Longrightarrow> array_upd f dim xs ys ! i = (if i < dim then i64 (f (xs ! i) (ys ! i)) else xs ! i)"
  by (simp add: array_upd_def)

lemma ref_count_change [simp]:
  "ref_count (add_to_point s pt) = ref_count pt" "ref_count (subtract_from_point s pt) = ref_count pt"
  by (simp_all add: add_to_point_def subtract_from_point_def)

lemma add_to_point_ok:
  assumes "point_ok tot ss pt" and "span_shape s"
  shows "active_at (sp_at pt) s \<Longrightarrow> point_ok tot (s # ss) (add_to_point s pt)"
    and "\<not> active_at (sp_at pt) s \<Longrightarrow> point_ok tot (s # ss) pt"
  using assms by (auto simp: point_ok_def add_to_point_def span_shape_def algebra_simps not_less)

lemma subtract_from_point_ok:
  assumes "point_ok tot (s # ss) pt" and "span_shape s"
  shows "active_at (sp_at pt) s \<Longrightarrow> point_ok tot ss (subtract_from_point s pt)"
    and "\<not> active_at (sp_at pt) s \<Longrightarrow> point_ok tot ss pt"
  using assms by (auto simp: point_ok_def subtract_from_point_def span_shape_def algebra_simps not_less)

lemma update_points_add_ok:
  assumes "ctx_sched ss rc ctx" and "iter_inv ctx" and "span_placed (sp_store ctx) (points_of ctx) s"
    and "ps = filter (\<lambda>p. active_at (at_of (sp_store ctx) p) s) (points_of ctx)"
  shows "ctx_sched (s # ss) rc (fst (update_points_add_span ps s ctx))"
    and "iter_inv (fst (update_points_add_span ps s ctx))"
proof -
  let ?h = "fold (\<lambda>p. upd_point p (add_to_point s)) ps (sp_store ctx)"
  have k: "keys_of ?h = keys_of (sp_store ctx)" by (rule keys_of_fold) (simp add: add_to_point_def)
  have d: "distinct ps" using sp_sorted_distinct [OF ctx_schedD(2) [OF assms(1)]] by (simp add: assms(4))
  have shape: "span_shape s" using assms(3) by (simp add: span_placed_def)
  show "iter_inv (fst (update_points_add_span ps s ctx))"
    using iter_inv_keys [OF k assms(2)] by (simp add: update_points_add_span_def Let_def)
  have "ctx_sched (s # ss) rc (ctx\<lparr>sp_store := ?h\<rparr>)"
  proof (rule ctx_sched_update [OF assms(1) k])
    fix p
    assume p: "p \<in> set (points_of ctx)"
    with add_to_point_ok [OF ctx_schedD(6) [OF assms(1) p] shape] ctx_schedD(5,7) [OF assms(1) p]
    show "point_ok (total_resources ctx) (s # ss) (deref ?h p) \<and> ref_count (deref ?h p) = rc p"
      by (simp add: deref_fold_upd [OF d]) (auto simp: assms(4) at_of_def)
  qed (use assms(3) ctx_schedD(8) [OF assms(1)] in auto)
  then show "ctx_sched (s # ss) rc (fst (update_points_add_span ps s ctx))"
    by (simp add: update_points_add_span_def Let_def)
qed

lemma update_points_subtract_ok:
  assumes "ctx_sched (s # ss) rc ctx" and "iter_inv ctx"
    and "ps = filter (\<lambda>p. active_at (at_of (sp_store ctx) p) s) (points_of ctx)"
  shows "ctx_sched ss rc (fst (update_points_subtract_span ps s ctx))"
    and "iter_inv (fst (update_points_subtract_span ps s ctx))"
proof -
  let ?h = "fold (\<lambda>p. upd_point p (subtract_from_point s)) ps (sp_store ctx)"
  have k: "keys_of ?h = keys_of (sp_store ctx)" by (rule keys_of_fold) (simp add: subtract_from_point_def)
  have d: "distinct ps" using sp_sorted_distinct [OF ctx_schedD(2) [OF assms(1)]] by (simp add: assms(3))
  have shape: "span_shape s" using ctx_schedD(8) [OF assms(1), of s] by (simp add: span_placed_def)
  show "iter_inv (fst (update_points_subtract_span ps s ctx))"
    using iter_inv_keys [OF k assms(2)] by (simp add: update_points_subtract_span_def Let_def)
  have "ctx_sched ss rc (ctx\<lparr>sp_store := ?h\<rparr>)"
  proof (rule ctx_sched_update [OF assms(1) k])
    fix p
    assume p: "p \<in> set (points_of ctx)"
    with subtract_from_point_ok [OF ctx_schedD(6) [OF assms(1) p] shape] ctx_schedD(5,7) [OF assms(1) p]
    show "point_ok (total_resources ctx) ss (deref ?h p) \<and> ref_count (deref ?h p) = rc p"
      by (simp add: deref_fold_upd [OF d]) (auto simp: assms(3) at_of_def)
  qed (use ctx_schedD(8) [OF assms(1)] in auto)
  then show "ctx_sched ss rc (fst (update_points_subtract_span ps s ctx))"
    by (simp add: update_points_subtract_span_def Let_def)
qed

lemma update_points_fields [simp]:
  "sched_point_tree (fst (update_points_add_span ps s ctx)) = sched_point_tree ctx"
  "frame_of (fst (update_points_add_span ps s ctx)) = frame_of ctx"
  "avail_time_iter (fst (update_points_add_span ps s ctx)) = avail_time_iter ctx"
  "length (sp_store (fst (update_points_add_span ps s ctx))) = length (sp_store ctx)"
  "sched_point_tree (fst (update_points_subtract_span ps s ctx)) = sched_point_tree ctx"
  "frame_of (fst (update_points_subtract_span ps s ctx)) = frame_of ctx"
  "avail_time_iter (fst (update_points_subtract_span ps s ctx)) = avail_time_iter ctx"
  "length (sp_store (fst (update_points_subtract_span ps s ctx))) = length (sp_store ctx)"
  by (simp_all add: update_points_add_span_def update_points_subtract_span_def Let_def frame_of_def)

section \<open>Reference counts\<close>

lemma refs_Nil [simp]: "refs base [] p = (if p = base then 1 else 0)"
  by (simp add: refs_def)

lemma refs_Cons:
  "refs base (s # ss) p =
     (if start_p s = Some p then 1 else 0) + (if last_p s = Some p then 1 else 0) + refs base ss p"
  by (simp add: refs_def)

lemma refs_nonneg [simp]: "0 \<le> refs base ss p"
  by (induction ss) (auto simp: refs_Cons)

lemma refs_0:
  "refs base ss p = 0 \<longleftrightarrow> p \<noteq> base \<and> (\<forall>s\<in>set ss. start_p s \<noteq> Some p \<and> last_p s \<noteq> Some p)"
proof (induction ss)
  case (Cons s ss)
  have "refs base (s # ss) p = 0 \<longleftrightarrow> start_p s \<noteq> Some p \<and> last_p s \<noteq> Some p \<and> refs base ss p = 0"
    using refs_nonneg [of base ss p] unfolding refs_Cons by (smt (verit))
  with Cons show ?case by auto
qed simp

lemma refs_fresh:
  assumes "ctx_sched ss rc ctx" and "length (sp_store ctx) \<le> p"
  shows "refs (p0 ctx) ss p = 0"
proof -
  have "q \<noteq> p" if "q \<in> set (points_of ctx)" for q
    using ctx_schedD(5) [OF assms(1) that] assms(2) by simp
  moreover have "\<exists>a b. start_p s = Some a \<and> last_p s = Some b \<and> a \<in> set (points_of ctx) \<and> b \<in> set (points_of ctx)"
    if "s \<in> set ss" for s
    using ctx_schedD(8) [OF assms(1) that] by (auto simp: span_placed_def)
  ultimately show ?thesis
    using ctx_schedD(3) [OF assms(1)] by (fastforce simp: refs_0)
qed

text \<open>Spans are kept in a table: their order does not matter.\<close>

lemma sum_list_mset:
  fixes f :: "'a \<Rightarrow> int"
  assumes "mset xs = mset ys"
  shows "(\<Sum>x\<leftarrow>xs. f x) = (\<Sum>x\<leftarrow>ys. f x)"
proof -
  have "mset (map f xs) = mset (map f ys)" using assms by simp
  then show ?thesis by (simp only: sum_mset_sum_list [symmetric])
qed

lemma usage_mset: "mset ss = mset ss' \<Longrightarrow> usage ss i t = usage ss' i t"
  unfolding usage_def by (rule sum_list_mset)

lemma refs_mset:
  assumes "mset ss = mset ss'"
  shows "refs base ss p = refs base ss' p"
  unfolding refs_def by (simp only: sum_list_mset [OF assms])

lemma ctx_sched_mset:
  assumes "mset ss = mset ss'" and "ctx_sched ss rc ctx"
  shows "ctx_sched ss' rc ctx"
  using assms(2) usage_mset [OF assms(1)] mset_eq_setD [OF assms(1)]
  by (simp add: ctx_sched_def sched_inv_def point_ok_def)

lemma ctx_sched_refs_cong:
  "ctx_sched ss rc ctx \<Longrightarrow> (\<And>p. p \<in> set (points_of ctx) \<Longrightarrow> rc p = rc' p) \<Longrightarrow> ctx_sched ss rc' ctx"
  by (auto simp: ctx_sched_def sched_inv_def)

section \<open>Releasing a point\<close>

lemma release_point_ok:
  assumes "ctx_sched ss (refs (p0 ctx) ss) ctx" and "ctx_mt M ctx" and "p \<in> set (points_of ctx)"
  defines "ctx' \<equiv> release_point p ctx"
  shows "ctx_sched ss (refs (p0 ctx') ss) ctx'"
    and "ctx_mt (if refs (p0 ctx) ss p = 0 then M - {p} else M) ctx'"
    and "points_of ctx' = (if refs (p0 ctx) ss p = 0 then filter (\<lambda>q. q \<noteq> p) (points_of ctx) else points_of ctx)"
    and "frame_of ctx' = frame_of ctx" and "avail_time_iter ctx' = avail_time_iter ctx"
    and "data_of (sp_store ctx') = data_of (sp_store ctx)"
proof -
  let ?rc = "refs (p0 ctx) ss" and ?h = "sp_store ctx"
  have rc: "ref_count (deref ?h p) = ?rc p" using ctx_schedD(7) [OF assms(1,3)] .
  have "ctx_sched ss (refs (p0 ctx') ss) ctx' \<and> ctx_mt (if ?rc p = 0 then M - {p} else M) ctx' \<and>
    points_of ctx' = (if ?rc p = 0 then filter (\<lambda>q. q \<noteq> p) (points_of ctx) else points_of ctx) \<and>
    frame_of ctx' = frame_of ctx \<and> avail_time_iter ctx' = avail_time_iter ctx \<and>
    data_of (sp_store ctx') = data_of ?h"
  proof (cases "?rc p = 0")
    case False
    with assms rc show ?thesis by (simp add: release_point_def)
  next
    case True
    let ?t = "rb_erase_augmented dummy_callbacks p (sched_point_tree ctx)"
    let ?c = "ctx\<lparr>sched_point_tree := ?t\<rparr>"
    note sorted = ctx_schedD(2) [OF assms(1)]
    have rem: "scheduled_point_remove ?h p (sched_point_tree ctx) = Some ?t"
      using sorted assms(3) by (rule scheduled_point_remove_eq)
    have pts: "inorder ?t = filter (\<lambda>q. q \<noteq> p) (points_of ctx)"
      using sp_sorted_distinct [OF sorted] by simp
    have mt: "ctx_mt M ?c" using assms(2) by (simp add: ctx_mt_def)
    have flag: "in_mt_resource_tree (deref ?h p) \<longleftrightarrow> p \<in> M"
      using ctx_mt_flag [OF assms(2)] ctx_schedD(5) [OF assms(1,3)] by simp
    have eq: "ctx' = (if p \<in> M then with_mt (mintime_resource_remove p) ?c else ?c)"
      using True rc flag by (simp add: ctx'_def release_point_def rem Let_def)
    have sp: "same_points ?c ctx'" and m: "ctx_mt (M - {p}) ctx'"
      using with_mt_remove [OF mt, of p] mt by (auto simp: eq)
    have np: "p \<noteq> p0 ctx" and ns: "\<And>s. s \<in> set ss \<Longrightarrow> start_p s \<noteq> Some p \<and> last_p s \<noteq> Some p"
      using True by (auto simp: refs_0)
    obtain ps where "points_of ctx = p0 ctx # ps" using assms(1) by (auto simp: ctx_sched_def sched_inv_def)
    then have hd: "\<exists>ps. inorder ?t = p0 ctx # ps" using np by (simp add: pts)
    have placed: "span_placed ?h (inorder ?t) s" if "s \<in> set ss" for s
      using ctx_schedD(8) [OF assms(1) that] ns [OF that] by (auto simp: span_placed_def pts)
    have "ctx_sched ss ?rc ?c"
      using assms(1) hd placed sorted ctx_schedD(1) [OF assms(1)]
      by (auto simp: ctx_sched_def sched_inv_def pts)
    then have "ctx_sched ss ?rc ctx'" using sp by (rule same_points_sched [rotated])
    moreover have "p0 ctx' = p0 ctx" using sp by (auto simp: same_points_def dest: frame_fields)
    ultimately show ?thesis
      using True m sp by (simp add: same_points_def pts) (simp add: eq frame_of_def)
  qed
  then show "ctx_sched ss (refs (p0 ctx') ss) ctx'" "ctx_mt (if refs (p0 ctx) ss p = 0 then M - {p} else M) ctx'"
    "points_of ctx' = (if refs (p0 ctx) ss p = 0 then filter (\<lambda>q. q \<noteq> p) (points_of ctx) else points_of ctx)"
    "frame_of ctx' = frame_of ctx" "avail_time_iter ctx' = avail_time_iter ctx"
    "data_of (sp_store ctx') = data_of ?h" by auto
qed

end
