(* ===== verification/Planner_Refinement.thy ===== *)
theory Planner_Refinement
  imports Planner_Spans
begin

text \<open>
  Every public operation of the planner keeps the invariant, and what it does to the table of spans: the
  planner refines a finite map from span ids to (start, end, planned resources).
\<close>

section \<open>Placing a span\<close>

lemma frame_p0: "frame_of a = frame_of b \<Longrightarrow> p0 a = p0 b"
  by (rule frame_fields)

text \<open>\<open>live\<close>: every point of the tree is held by the planner or by a span.\<close>

definition live :: "span list \<Rightarrow> planner \<Rightarrow> bool" where
  "live ss ctx \<longleftrightarrow> (\<forall>p\<in>set (points_of ctx). refs (p0 ctx) ss p \<noteq> 0)"

definition placed_at :: "sp_ptr \<Rightarrow> sp_ptr \<Rightarrow> span \<Rightarrow> span" where
  "placed_at a b s = s\<lparr>start_p := Some a, last_p := Some b, in_system := True\<rparr>"

lemma placed_at_simps [simp]:
  "span_start (placed_at a b s) = span_start s" "span_last (placed_at a b s) = span_last s"
  "planned (placed_at a b s) = planned s" "span_dimension (placed_at a b s) = span_dimension s"
  "start_p (placed_at a b s) = Some a" "last_p (placed_at a b s) = Some b" "span_id (placed_at a b s) = span_id s"
  "in_system (placed_at a b s)"
  "span_shape (placed_at a b s) = span_shape s" "active_at t (placed_at a b s) = active_at t s"
  by (simp_all add: placed_at_def span_shape_def active_at_def)

text \<open>The points of the two ends of a span, with a reference to each.\<close>

lemma place_ends:
  assumes s1: "ctx_sched ss (refs (p0 c1) ss) c1" and live: "live ss c1"
    and it: "iter_inv c1" "avail_time_iter c1 = []"
    and shape: "span_shape s" and start: "plan_start c1 \<le> span_start s"
  obtains c2 a c4 b where "get_or_new_point (span_start s) c1 = Some (c2, a)"
    and "get_or_new_point (span_last s) (incr_ref 1 a c2) = Some (c4, b)"
    and "ctx_sched ss (refs (p0 (incr_ref 1 b c4)) (placed_at a b s # ss)) (incr_ref 1 b c4)"
    and "live (placed_at a b s # ss) (incr_ref 1 b c4)"
    and "iter_inv (incr_ref 1 b c4)" and "avail_time_iter (incr_ref 1 b c4) = []"
    and "frame_of (incr_ref 1 b c4) = frame_of c1"
    and "span_placed (sp_store (incr_ref 1 b c4)) (points_of (incr_ref 1 b c4)) (placed_at a b s)"
proof -
  let ?rc = "refs (p0 c1) ss"
  from shape have tm: "time_ok (span_start s)" "time_ok (span_last s)" "span_start s < span_last s"
    by (auto simp: span_shape_def)
  have fresh1: "\<forall>p\<ge>length (sp_store c1). ?rc p = 0" using refs_fresh [OF s1] by simp
  obtain c2 a where g2: "get_or_new_point (span_start s) c1 = Some (c2, a)" "ctx_sched ss ?rc c2" "iter_inv c2"
      "avail_time_iter c2 = []" "frame_of c2 = frame_of c1" "a \<in> set (points_of c2)" "at_of (sp_store c2) a = span_start s"
      "length (sp_store c1) \<le> length (sp_store c2)"
      "\<And>q. q \<in> set (points_of c2) \<Longrightarrow> at_of (sp_store c2) q \<noteq> span_start s \<Longrightarrow> q \<in> set (points_of c1)"
    by (rule get_or_new_point_ok [OF s1 it tm(1) start fresh1]) blast
  let ?c3 = "incr_ref 1 a c2"
  note r3 = incr_ref_ok [OF g2(2,3,6), of 1]
  have p3: "plan_start ?c3 = plan_start c1" "p0 ?c3 = p0 c1"
    using g2(5) by (auto intro: frame_fields)
  have fresh3: "\<forall>p\<ge>length (sp_store ?c3). (?rc(a := ?rc a + 1)) p = 0"
    using fresh1 g2(8) ctx_schedD(5) [OF g2(2,6)] by auto
  have start3: "plan_start ?c3 \<le> span_last s" and it3: "avail_time_iter ?c3 = []"
    using start p3 tm(3) g2(4) by simp_all
  obtain c4 b where g4: "get_or_new_point (span_last s) ?c3 = Some (c4, b)" "ctx_sched ss (?rc(a := ?rc a + 1)) c4" "iter_inv c4"
      "avail_time_iter c4 = []" "frame_of c4 = frame_of ?c3" "b \<in> set (points_of c4)" "at_of (sp_store c4) b = span_last s"
      "\<And>q. q \<in> set (points_of ?c3) \<Longrightarrow> q \<in> set (points_of c4) \<and> at_of (sp_store c4) q = at_of (sp_store ?c3) q"
      "\<And>q. q \<in> set (points_of c4) \<Longrightarrow> at_of (sp_store c4) q \<noteq> span_last s \<Longrightarrow> q \<in> set (points_of ?c3)"
    by (rule get_or_new_point_ok [OF r3 it3 tm(2) start3 fresh3]) blast
  let ?c5 = "incr_ref 1 b c4"
  note r5 = incr_ref_ok [OF g4(2,3,6), of 1]
  have f5: "frame_of ?c5 = frame_of c1" "points_of ?c5 = points_of c4" using g4(5) g2(5) by simp_all
  have p5: "p0 ?c5 = p0 c1" using f5(1) by (rule frame_p0)
  have a4: "a \<in> set (points_of c4)" "at_of (sp_store c4) a = span_start s"
    using g4(8) [of a] g2(6,7) by simp_all
  have rc: "((?rc(a := ?rc a + 1))(b := (?rc(a := ?rc a + 1)) b + 1)) = refs (p0 ?c5) (placed_at a b s # ss)"
    using a4(2) g4(7) tm(3) by (auto simp: refs_Cons p5 fun_eq_iff)
  have "p = a \<or> p = b \<or> p \<in> set (points_of c1)" if p: "p \<in> set (points_of c4)" for p
  proof (cases "at_of (sp_store c4) p = span_last s \<or> at_of (sp_store c4) p = span_start s")
    case True
    with sp_sorted_inj [OF ctx_schedD(2) [OF g4(2)] p] a4 g4(6,7) show ?thesis by metis
  next
    case False
    with g4(8,9) [of p] g2(9) [of p] p show ?thesis by simp
  qed
  then have live5: "live (placed_at a b s # ss) ?c5"
    using live by (auto simp: live_def refs_0 p5 f5)
  show thesis
    by (rule that [OF g2(1) g4(1)])
      (use r5 rc live5 f5(1) g4(4,6,7) a4 shape in \<open>auto simp: span_placed_def\<close>)
qed

text \<open>The resources of the span taken from its points, and the min-time tree brought up to date.\<close>

lemma update_mintime_all:
  assumes "iter_inv ctx" and "avail_time_iter ctx = []" and "ctx_sched ss rc ctx" and "set ps \<subseteq> set (points_of ctx)"
  defines "ctx' \<equiv> update_mintime_resource_tree ps ctx"
  shows "ctx_mt (set (points_of ctx) - {p\<in>set ps. rc p = 0}) ctx'" and "same_points ctx ctx'"
    and "avail_time_iter ctx' = []"
proof -
  have mt: "ctx_mt (set (points_of ctx)) ctx" using assms(1,2) by (simp add: iter_inv_def)
  have lt: "\<forall>p\<in>set ps. p < length (sp_store ctx)" using ctx_schedD(5) [OF assms(3)] assms(4) by blast
  have rc: "ref_count (deref (sp_store ctx) p) = rc p" if "p \<in> set ps" for p
    using ctx_schedD(7) [OF assms(3)] assms(4) that by blast
  have "(set (points_of ctx) - {p\<in>set ps. ref_count (deref (sp_store ctx) p) = 0}) \<union>
      {p\<in>set ps. ref_count (deref (sp_store ctx) p) \<noteq> 0} = set (points_of ctx) - {p\<in>set ps. rc p = 0}"
    using rc assms(4) by auto
  with update_mintime_resource_tree_ok [OF mt lt]
  show "ctx_mt (set (points_of ctx) - {p\<in>set ps. rc p = 0}) ctx'" "same_points ctx ctx'" "avail_time_iter ctx' = []"
    using assms(2) by (simp_all add: ctx'_def)
qed

lemma charge_points:
  fixes a b :: sp_ptr
  assumes sched: "ctx_sched ss (refs (p0 c5) (s # ss)) c5" and live: "live (s # ss) c5"
    and it: "iter_inv c5" "avail_time_iter c5 = []" and placed: "span_placed (sp_store c5) (points_of c5) s"
    and ps: "ps = filter (\<lambda>p. active_at (at_of (sp_store c5) p) s) (points_of c5)"
  defines "c8 \<equiv> update_mintime_resource_tree ps (clear_new b (clear_new a (fst (update_points_add_span ps s c5))))"
  shows "ctx_sched (s # ss) (refs (p0 c8) (s # ss)) c8" and "live (s # ss) c8" and "iter_inv c8"
    and "avail_time_iter c8 = []" and "frame_of c8 = frame_of c5"
proof -
  let ?rc = "refs (p0 c5) (s # ss)"
  define c6 where "c6 = fst (update_points_add_span ps s c5)"
  note r6 = update_points_add_ok [OF sched it(1) placed ps, folded c6_def]
  define c7 where "c7 = clear_new b (clear_new a c6)"
  note k = clear_new_ok [OF r6(2), of a] clear_new_ok [OF clear_new_ok(2) [OF r6(2), of a], of b]
  have sp7: "same_points c6 c7" and it7: "iter_inv c7" using k by (auto simp: c7_def intro: same_points_trans)
  have s7: "ctx_sched (s # ss) ?rc c7" using sp7 r6(1) by (rule same_points_sched)
  have p7: "points_of c7 = points_of c5" "frame_of c7 = frame_of c5" "avail_time_iter c7 = []"
    using sp7 it(2) by (simp_all add: same_points_def c7_def c6_def)
  have c8: "c8 = update_mintime_resource_tree ps c7" by (simp add: c8_def c7_def c6_def)
  note r8 = update_mintime_all [OF it7 p7(3) s7, of ps, folded c8]
  have sub: "set ps \<subseteq> set (points_of c7)" using p7(1) by (auto simp: ps)
  have none: "{p\<in>set ps. ?rc p = 0} = {}" using live by (auto simp: live_def ps)
  from r8 [OF sub] have m8: "ctx_mt (set (points_of c7)) c8" and sp8: "same_points c7 c8" and "avail_time_iter c8 = []"
    unfolding none by auto
  then show "avail_time_iter c8 = []" by simp
  have p8: "points_of c8 = points_of c7" using sp8 by (simp add: same_points_def)
  show f8: "frame_of c8 = frame_of c5" using sp8 p7(2) by (simp add: same_points_def)
  show "iter_inv c8" using iter_inv_same_points [OF sp8 _ it7] m8 p8 p7(3) \<open>avail_time_iter c8 = []\<close> by simp
  show "ctx_sched (s # ss) (refs (p0 c8) (s # ss)) c8"
    using same_points_sched [OF sp8 s7] frame_p0 [OF f8] by simp
  show "live (s # ss) c8" using live p8 p7(1) frame_p0 [OF f8] by (simp add: live_def)
qed

lemma insert_span_ok:
  assumes sched: "ctx_sched ss (refs (p0 ctx) ss) ctx" and live: "live ss ctx"
    and it: "iter_inv ctx" and z: "zkeys_ok zkeys"
    and shape: "span_shape s" and start: "plan_start ctx \<le> span_start s" and last: "span_last s = span_start s + duration"
  obtains ctx' e a b where "insert_span zkeys s duration ctx = Some (ctx', e)"
    and "ctx_sched (placed_at a b s # ss) (refs (p0 ctx') (placed_at a b s # ss)) ctx'"
    and "live (placed_at a b s # ss) ctx'" and "iter_inv ctx'" and "avail_time_iter ctx' = []"
    and "frame_of ctx' = (frame_of ctx)\<lparr>avail_time_iter_set := False,
           span_lookup := zhashx_modify (span_id s) (placed_at a b) (span_lookup ctx)\<rparr>"
proof -
  define c1 where "c1 = restore_track_points zkeys ctx"
  note r1 = restore_track_points_ok [OF it z, folded c1_def]
  have f1: "frame_of c1 = frame_of ctx" "points_of c1 = points_of ctx" using r1(2) by (simp_all add: same_points_def)
  have p1: "plan_start c1 = plan_start ctx" "p0 c1 = p0 ctx" using f1(1) by (blast intro: frame_fields)+
  have s1: "ctx_sched ss (refs (p0 c1) ss) c1" using same_points_sched [OF r1(2) sched] by (simp add: p1)
  have l1: "live ss c1" using live by (simp add: live_def f1 p1)
  obtain c2 a c4 b where g: "get_or_new_point (span_start s) c1 = Some (c2, a)"
      "get_or_new_point (span_last s) (incr_ref 1 a c2) = Some (c4, b)"
      "ctx_sched ss (refs (p0 (incr_ref 1 b c4)) (placed_at a b s # ss)) (incr_ref 1 b c4)"
      "live (placed_at a b s # ss) (incr_ref 1 b c4)"
      "iter_inv (incr_ref 1 b c4)" "avail_time_iter (incr_ref 1 b c4) = []"
      "frame_of (incr_ref 1 b c4) = frame_of c1"
      "span_placed (sp_store (incr_ref 1 b c4)) (points_of (incr_ref 1 b c4)) (placed_at a b s)"
    by (rule place_ends [OF s1 l1 r1(1,3) shape]) (use start p1 in auto)
  define c5 where "c5 = incr_ref 1 b c4"
  let ?s' = "placed_at a b s"
  from shape last have tm: "time_ok (span_start s)" "time_ok (span_last s)" "0 \<le> duration"
    by (auto simp: span_shape_def)
  have p5: "plan_start c5 \<le> span_start s"
    using frame_fields(4) [OF g(7)] p1 start by (simp add: c5_def)
  define ps where "ps = fetch_overlap_points (span_start s) duration c5"
  have ps: "ps = filter (\<lambda>p. active_at (at_of (sp_store c5) p) ?s') (points_of c5)"
    using fetch_overlap_points_eq [OF g(3) [folded c5_def] tm(1) p5 tm(3)] tm last
    by (simp add: ps_def active_at_def)
  obtain c6 e where c6: "update_points_add_span ps s c5 = (c6, e)" by fastforce
  have c6': "c6 = fst (update_points_add_span ps ?s' c5)"
    using c6 by (simp add: update_points_add_span_def add_to_point_def [abs_def] Let_def)
  define c8 where "c8 = update_mintime_resource_tree ps (clear_new b (clear_new a c6))"
  note r8 = charge_points [OF g(3-6,8) [folded c5_def] ps, where a = a and b = b, folded c6', folded c8_def]
  have f8: "frame_of c8 = frame_of ctx" using r8(5) g(7) f1(1) by (simp add: c5_def)
  define c9 where "c9 = c8\<lparr>span_lookup := zhashx_modify (span_id s) (placed_at a b) (span_lookup c8),
      avail_time_iter_set := False\<rparr>"
  have eq: "insert_span zkeys s duration ctx = Some (c9, e)"
    by (simp add: insert_span_def Let_def c1_def [symmetric] g(1,2) c5_def [symmetric]
        ps_def [symmetric] c6 c8_def [symmetric] c9_def placed_at_def [abs_def])
  show thesis
  proof (rule that [OF eq, of a b])
    have "frame_of c9 = (frame_of c8)\<lparr>span_lookup := zhashx_modify (span_id s) (placed_at a b) (span_lookup c8),
        avail_time_iter_set := False\<rparr>"
      by (simp add: c9_def frame_of_def)
    then show "frame_of c9 = (frame_of ctx)\<lparr>avail_time_iter_set := False,
        span_lookup := zhashx_modify (span_id s) (placed_at a b) (span_lookup ctx)\<rparr>"
      using f8 frame_fields(7) [OF f8] by simp
  qed (use r8 in \<open>simp_all add: c9_def ctx_sched_def iter_inv_def ctx_mt_def live_def\<close>)
qed

section \<open>The public operations\<close>

lemma planner_invD:
  assumes "planner_inv ctx"
  shows "ctx_sched (spans_of ctx) (refs (p0 ctx) (spans_of ctx)) ctx" and "live (spans_of ctx) ctx"
    and "iter_inv ctx" and "table_ok (span_lookup ctx) (span_counter ctx)"
    and "length (total_resources ctx) = PLANNER_NUM_TYPES" and "dimension ctx \<le> PLANNER_NUM_TYPES"
    and "time_ok (plan_start ctx)" and "time_ok (plan_end ctx)"
    and "\<forall>x\<in>set (total_resources ctx). 0 \<le> x \<and> x \<le> INT64_MAX"
    and "\<forall>i<PLANNER_NUM_TYPES. dimension ctx \<le> i \<longrightarrow> total_resources ctx ! i = 0"
proof -
  show s: "ctx_sched (spans_of ctx) (refs (p0 ctx) (spans_of ctx)) ctx"
    using assms by (simp add: planner_inv_def)
  show "iter_inv ctx"
    using assms ctx_schedD(5) [OF s] ctx_sched_inj [OF s] by (simp add: planner_inv_def iter_inv_def)
qed (use assms in \<open>simp_all add: planner_inv_def live_def\<close>)

lemma planner_invI:
  assumes "ctx_sched ss (refs (p0 ctx) ss) ctx" and "mset ss = mset (spans_of ctx)" and "live ss ctx" and "iter_inv ctx"
    and "table_ok (span_lookup ctx) (span_counter ctx)"
    and "length (total_resources ctx) = PLANNER_NUM_TYPES" and "dimension ctx \<le> PLANNER_NUM_TYPES"
    and "time_ok (plan_start ctx)" and "time_ok (plan_end ctx)"
    and "\<forall>x\<in>set (total_resources ctx). 0 \<le> x \<and> x \<le> INT64_MAX"
    and "\<forall>i<PLANNER_NUM_TYPES. dimension ctx \<le> i \<longrightarrow> total_resources ctx ! i = 0"
  shows "planner_inv ctx"
proof -
  have r: "refs (p0 ctx) ss = refs (p0 ctx) (spans_of ctx)"
    using refs_mset [OF assms(2)] by (simp add: fun_eq_iff)
  have "ctx_sched (spans_of ctx) (refs (p0 ctx) (spans_of ctx)) ctx"
    using ctx_sched_mset [OF assms(2,1)] by (simp add: r)
  with assms(3-) show ?thesis
    by (auto simp: planner_inv_def live_def iter_inv_def r)
qed

text \<open>The abstract state: a finite map from span ids to start, end and planned resources.\<close>

definition span_view :: "span \<Rightarrow> int \<times> int \<times> resource_array" where
  "span_view s = (span_start s, span_last s, planned s)"

definition span_table :: "planner \<Rightarrow> int \<rightharpoonup> int \<times> int \<times> resource_array" where
  "span_table ctx k = map_option span_view (map_of (span_lookup ctx) k)"

lemma span_view_placed [simp]: "span_view (placed_at a b s) = span_view s"
  by (simp add: span_view_def)

definition add_args_ok :: "int \<Rightarrow> int \<Rightarrow> resource_array \<Rightarrow> nat \<Rightarrow> bool" where
  "add_args_ok start_time duration counts len \<longleftrightarrow>
     0 \<le> duration \<and> start_time + duration \<le> INT64_MAX \<and> len \<le> length counts"

lemma padded_length [simp]: "len \<le> PLANNER_NUM_TYPES \<Longrightarrow> len \<le> length xs \<Longrightarrow> length (padded len xs) = PLANNER_NUM_TYPES"
  by (simp add: padded_def)

lemma nth_padded:
  "len \<le> length xs \<Longrightarrow> i < PLANNER_NUM_TYPES \<Longrightarrow> padded len xs ! i = (if i < len then xs ! i else 0)"
  by (simp add: padded_def nth_append)

definition new_span :: "int \<Rightarrow> int \<Rightarrow> resource_array \<Rightarrow> nat \<Rightarrow> int \<Rightarrow> span" where
  "new_span start_time duration counts len sid =
     \<lparr>span_start = start_time, span_last = start_time + duration, span_id = sid,
      planned = padded len (map i64 counts), span_dimension = len, in_system = False, start_p = None, last_p = None\<rparr>"

lemma span_input_check_None:
  "span_input_check ctx start_time duration counts len = None \<Longrightarrow>
     plan_start ctx \<le> start_time \<and> 1 \<le> duration \<and> len \<le> PLANNER_NUM_TYPES"
  by (auto simp: span_input_check_def not_feasable_def split: if_splits)

lemma table_ok_fresh:
  assumes "table_ok table n" and "n < INT64_MAX"
  shows "n + 1 \<notin> fst ` set table"
  using assms by (auto simp: table_ok_def)

lemma span_new_ok:
  assumes inv: "planner_inv ctx" and args: "add_args_ok start_time duration counts len"
    and n: "span_counter ctx < INT64_MAX"
    and ok: "span_input_check ctx start_time duration (map i64 counts) len = None"
  defines "s \<equiv> new_span start_time duration counts len (span_counter ctx + 1)"
  shows "span_new start_time duration counts len ctx =
      Inr (ctx\<lparr>span_counter := span_counter ctx + 1, span_lookup := (span_counter ctx + 1, s) # span_lookup ctx\<rparr>, s)"
    and "span_shape s"
proof -
  note t = planner_invD(4) [OF inv] and c = span_input_check_None [OF ok]
  have st: "time_ok start_time" using planner_invD(7) [OF inv] c args by (auto simp: time_ok_def add_args_ok_def)
  have i: "i64 (start_time + duration) = start_time + duration" "0 \<le> span_counter ctx"
    using st c args t by (auto simp: time_ok_def add_args_ok_def in_i64_def table_ok_def)
  then show "span_new start_time duration counts len ctx =
      Inr (ctx\<lparr>span_counter := span_counter ctx + 1, span_lookup := (span_counter ctx + 1, s) # span_lookup ctx\<rparr>, s)"
    using n table_ok_fresh [OF t n]
    by (simp add: span_new_def ok Let_def s_def new_span_def zhashx_insert_def in_i64_def)
  show "span_shape s"
    using st c args by (auto simp: s_def new_span_def span_shape_def add_args_ok_def time_ok_def nth_padded)
qed

lemma zhashx_modify_new:
  "k \<notin> fst ` set table \<Longrightarrow> zhashx_modify k f ((k, s) # table) = (k, f s) # table"
  by (force simp: zhashx_modify_def intro!: map_idI)

lemma planner_add_span_ok:
  assumes inv: "planner_inv ctx" and z: "zkeys_ok zkeys" and args: "add_args_ok start_time duration counts len"
    and n: "span_counter ctx < INT64_MAX"
    and avail: "fst (avail_during start_time duration (map i64 counts) len ctx)"
    and ok: "span_input_check ctx start_time duration (map i64 counts) len = None"
  obtains ctx' e a b where "planner_add_span zkeys start_time duration counts len ctx = Some (ctx', span_counter ctx + 1, e)"
    and "planner_inv ctx'"
    and "frame_of ctx' = (frame_of ctx)\<lparr>avail_time_iter_set := False, span_counter := span_counter ctx + 1,
       span_lookup := (span_counter ctx + 1,
          placed_at a b (new_span start_time duration counts len (span_counter ctx + 1))) # span_lookup ctx\<rparr>"
proof -
  let ?n = "span_counter ctx + 1"
  define s where "s = new_span start_time duration counts len ?n"
  define c0 where "c0 = ctx\<lparr>span_counter := ?n, span_lookup := (?n, s) # span_lookup ctx\<rparr>"
  note new = span_new_ok [OF inv args n ok, folded s_def, folded c0_def]
  note I = planner_invD [OF inv]
  have c0: "ctx_sched (spans_of ctx) (refs (p0 c0) (spans_of ctx)) c0" "live (spans_of ctx) c0" "iter_inv c0"
    using I(1-3) by (simp_all add: c0_def ctx_sched_def live_def iter_inv_def ctx_mt_def)
  have st: "plan_start c0 \<le> span_start s" "span_last s = span_start s + duration" "span_id s = ?n"
    using span_input_check_None [OF ok] by (simp_all add: c0_def s_def new_span_def)
  obtain c1 e a b where r: "insert_span zkeys s duration c0 = Some (c1, e)"
      "ctx_sched (placed_at a b s # spans_of ctx) (refs (p0 c1) (placed_at a b s # spans_of ctx)) c1"
      "live (placed_at a b s # spans_of ctx) c1" "iter_inv c1" "avail_time_iter c1 = []"
      "frame_of c1 = (frame_of c0)\<lparr>avail_time_iter_set := False,
           span_lookup := zhashx_modify (span_id s) (placed_at a b) (span_lookup c0)\<rparr>"
    by (rule insert_span_ok [OF c0 z new(2) st(1,2)])
  have lk: "zhashx_modify (span_id s) (placed_at a b) (span_lookup c0) = (?n, placed_at a b s) # span_lookup ctx"
    using table_ok_fresh [OF I(4) n] zhashx_modify_new by (simp add: c0_def st(3))
  have f: "frame_of c1 = (frame_of ctx)\<lparr>avail_time_iter_set := False, span_counter := ?n,
       span_lookup := (?n, placed_at a b s) # span_lookup ctx\<rparr>"
    unfolding r(6) lk by (simp add: c0_def frame_of_def)
  have fs: "span_lookup c1 = (?n, placed_at a b s) # span_lookup ctx" "span_counter c1 = ?n"
      "total_resources c1 = total_resources ctx" "dimension c1 = dimension ctx"
      "plan_start c1 = plan_start ctx" "plan_end c1 = plan_end ctx"
    using f [THEN arg_cong, of span_lookup] f [THEN arg_cong, of span_counter] f [THEN arg_cong, of total_resources]
      f [THEN arg_cong, of dimension] f [THEN arg_cong, of plan_start] f [THEN arg_cong, of plan_end]
    by (simp_all add: frame_of_def)
  have "table_ok (span_lookup c1) (span_counter c1)"
    using I(4) n st(3) table_ok_fresh [OF I(4) n] by (fastforce simp: fs table_ok_def)
  then have "planner_inv c1"
    by (intro planner_invI [OF r(2) _ r(3,4)]) (use I(5-) in \<open>simp_all add: fs\<close>)
  moreover have "planner_add_span zkeys start_time duration counts len ctx = Some (c1, ?n, e)"
    using avail new(1) r(1) st(3) by (simp add: planner_add_span_def)
  ultimately show thesis using that [of c1 e a b] f by (simp add: s_def)
qed

lemma span_table_frame: "frame_of a = frame_of b \<Longrightarrow> span_table a = span_table b"
  using frame_fields(7) [of a b] by (simp add: span_table_def fun_eq_iff)

section \<open>Removing a span\<close>

lemma zhashx_delete_absent: "k \<notin> fst ` set table \<Longrightarrow> zhashx_delete k table = table"
  by (force simp: zhashx_delete_def filter_id_conv)

lemma mset_delete_key:
  "distinct (map fst table) \<Longrightarrow> map_of table k = Some s \<Longrightarrow>
     mset (map snd table) = mset (s # map snd (zhashx_delete k table))"
proof (induction table)
  case (Cons x table)
  show ?case
  proof (cases "fst x = k")
    case True
    then have "k \<notin> fst ` set table" using Cons.prems(1) by auto
    then have "zhashx_delete k table = table" by (rule zhashx_delete_absent)
    with True Cons.prems show ?thesis by (cases x) (auto simp: zhashx_delete_def)
  next
    case False
    with Cons show ?thesis by (cases x) (auto simp: zhashx_delete_def)
  qed
qed simp

lemma map_of_delete: "map_of (zhashx_delete k table) = (map_of table)(k := None)"
  by (induction table) (auto simp: zhashx_delete_def fun_eq_iff)

lemma table_ok_delete: "table_ok table n \<Longrightarrow> table_ok (zhashx_delete k table) n"
  by (auto simp: table_ok_def zhashx_delete_def distinct_map_filter)

text \<open>The references of the span given back, its resources returned to its points.\<close>

lemma discharge_points:
  assumes sched: "ctx_sched (s # ss) (refs (p0 c1) (s # ss)) c1" and live: "live (s # ss) c1"
    and it: "iter_inv c1" "avail_time_iter c1 = []"
    and s: "start_p s = Some a" "last_p s = Some b"
  defines "c2 \<equiv> incr_ref (-1) b (incr_ref (-1) a c1)"
  defines "ps \<equiv> fetch_overlap_points (span_start s) (u64 (span_last s - span_start s)) c2"
  defines "c4 \<equiv> update_mintime_resource_tree ps (fst (update_points_subtract_span ps s c2))"
  shows "ctx_sched ss (refs (p0 c4) ss) c4" and "avail_time_iter c4 = []" and "frame_of c4 = frame_of c1"
    and "a \<in> set (points_of c4)" and "b \<in> set (points_of c4)" and "a \<noteq> b"
    and "\<forall>p\<in>set (points_of c4). refs (p0 c4) ss p = 0 \<longrightarrow> p = a \<or> p = b"
    and "ctx_mt (set (points_of c4) - (if refs (p0 c4) ss a = 0 then {a} else {})) c4"
proof -
  let ?rc = "refs (p0 c1) (s # ss)"
  have placed: "span_placed (sp_store c1) (points_of c1) s" using ctx_schedD(8) [OF sched] by simp
  with s have ab: "a \<in> set (points_of c1)" "b \<in> set (points_of c1)"
      "at_of (sp_store c1) a = span_start s" "at_of (sp_store c1) b = span_last s" and shape: "span_shape s"
    by (auto simp: span_placed_def)
  from shape have tm: "time_ok (span_start s)" "time_ok (span_last s)" "span_start s < span_last s"
    by (auto simp: span_shape_def)
  show ne: "a \<noteq> b" using ab tm by auto
  note r1 = incr_ref_ok [OF sched it(1) ab(1), of "-1"]
  have b1: "b \<in> set (points_of (incr_ref (-1) a c1))" using ab(2) by simp
  note r2 = incr_ref_ok [OF r1 b1, of "-1", folded c2_def]
  have f2: "frame_of c2 = frame_of c1" "points_of c2 = points_of c1" "avail_time_iter c2 = []"
      "\<And>p. at_of (sp_store c2) p = at_of (sp_store c1) p"
    using it(2) by (simp_all add: c2_def)
  have p2: "plan_start c2 = plan_start c1" "p0 c2 = p0 c1" using f2(1) by (blast intro: frame_fields)+
  have rc: "(?rc(a := ?rc a + -1))(b := (?rc(a := ?rc a + -1)) b + -1) = refs (p0 c2) ss"
    using ne by (auto simp: refs_Cons s p2 fun_eq_iff)
  note s2 = r2(1) [unfolded rc]
  have "plan_start c2 \<le> span_start s" using ctx_schedD(9) [OF sched ab(1)] ab(3) p2 by simp
  moreover have "u64 (span_last s - span_start s) = span_last s - span_start s"
    using tm by (simp add: time_ok_def)
  ultimately have ps: "ps = filter (\<lambda>p. active_at (at_of (sp_store c2) p) s) (points_of c2)"
    using fetch_overlap_points_eq [OF s2 tm(1), of "span_last s - span_start s"] tm
    by (simp add: ps_def active_at_def)
  note r3 = update_points_subtract_ok [OF s2 r2(2) ps]
  let ?c3 = "fst (update_points_subtract_span ps s c2)"
  have it3: "avail_time_iter ?c3 = []" and sub: "set ps \<subseteq> set (points_of ?c3)"
    using f2(3) by (auto simp: ps)
  note r4 = update_mintime_all [OF r3(2) it3 r3(1) sub, folded c4_def]
  show "avail_time_iter c4 = []" using r4(3) .
  show f4: "frame_of c4 = frame_of c1" using r4(2) f2(1) by (simp add: same_points_def)
  have p4: "points_of c4 = points_of c1" using r4(2) f2(2) by (simp add: same_points_def)
  have q4: "p0 c4 = p0 c1" using f4 by (rule frame_p0)
  show "ctx_sched ss (refs (p0 c4) ss) c4"
    using same_points_sched [OF r4(2) r3(1)] p2(2) q4 by simp
  show "a \<in> set (points_of c4)" "b \<in> set (points_of c4)" using ab p4 by simp_all
  show dead: "\<forall>p\<in>set (points_of c4). refs (p0 c4) ss p = 0 \<longrightarrow> p = a \<or> p = b"
    using live by (auto simp: live_def p4 q4 refs_0 s)
  have "b \<notin> set ps" using f2(4) ab(4) by (simp add: ps active_at_def)
  moreover have "a \<in> set ps" using f2(2,4) ab(1,3) tm(3) by (simp add: ps active_at_def)
  ultimately have "{p\<in>set ps. refs (p0 c2) ss p = 0} = (if refs (p0 c4) ss a = 0 then {a} else {})"
    using dead sub p4 p2 q4 f2(2) by auto
  with r4(1) p4 f2(2) show "ctx_mt (set (points_of c4) - (if refs (p0 c4) ss a = 0 then {a} else {})) c4" by simp
qed

lemma release_ends:
  assumes sched: "ctx_sched ss (refs (p0 c4) ss) c4" and it: "avail_time_iter c4 = []"
    and ab: "a \<in> set (points_of c4)" "b \<in> set (points_of c4)" "a \<noteq> b"
    and dead: "\<forall>p\<in>set (points_of c4). refs (p0 c4) ss p = 0 \<longrightarrow> p = a \<or> p = b"
    and mt: "ctx_mt (set (points_of c4) - (if refs (p0 c4) ss a = 0 then {a} else {})) c4"
  defines "c6 \<equiv> release_point b (release_point a c4)"
  shows "ctx_sched ss (refs (p0 c6) ss) c6" and "live ss c6" and "iter_inv c6"
    and "avail_time_iter c6 = []" and "frame_of c6 = frame_of c4"
proof -
  let ?c5 = "release_point a c4"
  note r5 = release_point_ok [OF sched mt ab(1)]
  have b5: "b \<in> set (points_of ?c5)" using ab by (simp add: r5(3))
  note r6 = release_point_ok [OF r5(1,2) b5, folded c6_def]
  have q5: "p0 ?c5 = p0 c4" and q6: "p0 c6 = p0 c4" using r5(4) r6(4) by (auto intro: frame_p0)
  show s6: "ctx_sched ss (refs (p0 c6) ss) c6" by (fact r6(1))
  show "frame_of c6 = frame_of c4" "avail_time_iter c6 = []" using r6(4,5) r5(4,5) it by simp_all
  then have it6: "avail_time_iter c6 = []" by simp
  show "live ss c6" using dead by (auto simp: live_def r6(3) r5(3) q5 q6)
  have "ctx_mt (set (points_of c6)) c6"
    using r6(2) by (rule back_subst [of "\<lambda>M. ctx_mt M c6"]) (auto simp: r6(3) r5(3) q5)
  then show "iter_inv c6"
    using ctx_schedD(5) [OF s6] ctx_sched_inj [OF s6] it6 by (simp add: iter_inv_def iter_ok_def)
qed

lemma planner_rem_span_ok:
  assumes inv: "planner_inv ctx" and z: "zkeys_ok zkeys" and found: "map_of (span_lookup ctx) (span_key sid) = Some s"
  obtains ctx' e where "planner_rem_span zkeys sid ctx = Some (ctx', 0, e)" and "planner_inv ctx'"
    and "frame_of ctx' = (frame_of ctx)\<lparr>avail_time_iter_set := False,
           span_lookup := zhashx_delete (span_key sid) (span_lookup ctx)\<rparr>"
proof -
  note I = planner_invD [OF inv]
  let ?tab = "zhashx_delete (span_key sid) (span_lookup ctx)"
  let ?ss = "map snd ?tab"
  have ms: "mset (spans_of ctx) = mset (s # ?ss)" using I(4) found by (intro mset_delete_key) (auto simp: table_ok_def)
  define c1 where "c1 = restore_track_points zkeys ctx"
  note r1 = restore_track_points_ok [OF I(3) z, folded c1_def]
  have f1: "frame_of c1 = frame_of ctx" "points_of c1 = points_of ctx" using r1(2) by (simp_all add: same_points_def)
  have p1: "p0 c1 = p0 ctx" using f1(1) by (rule frame_p0)
  have rs: "refs (p0 ctx) (spans_of ctx) = refs (p0 c1) (s # ?ss)" using refs_mset [OF ms] p1 by (simp add: fun_eq_iff)
  have s1: "ctx_sched (s # ?ss) (refs (p0 c1) (s # ?ss)) c1"
    using ctx_sched_mset [OF ms same_points_sched [OF r1(2) I(1)]] by (simp add: rs)
  have l1: "live (s # ?ss) c1" using I(2) by (simp add: live_def f1 rs)
  obtain a b where ab: "start_p s = Some a" "last_p s = Some b"
    using ctx_schedD(8) [OF s1, of s] by (auto simp: span_placed_def)
  define c2 where "c2 = incr_ref (-1) b (incr_ref (-1) a c1)"
  define ps where "ps = fetch_overlap_points (span_start s) (u64 (span_last s - span_start s)) c2"
  obtain c3 e where c3: "update_points_subtract_span ps s c2 = (c3, e)" by fastforce
  define c4 where "c4 = update_mintime_resource_tree ps c3"
  have "c4 = update_mintime_resource_tree ps (fst (update_points_subtract_span ps s c2))" by (simp add: c4_def c3)
  note r4 = discharge_points [OF s1 l1 r1(1,3) ab, folded c2_def, folded ps_def, folded this]
  define c6 where "c6 = release_point b (release_point a c4)"
  note r6 = release_ends [OF r4(1,2,4-8), folded c6_def]
  have f6: "frame_of c6 = frame_of ctx" using r6(5) r4(3) f1(1) by simp
  note ff = frame_fields [OF f6]
  define c7 where "c7 = c6\<lparr>span_lookup := ?tab, avail_time_iter_set := False\<rparr>"
  have eq: "planner_rem_span zkeys sid ctx = Some (c7, 0, e)"
    by (simp add: planner_rem_span_def found ab Let_def c1_def [symmetric] c2_def [symmetric] ps_def [symmetric]
        c3 c4_def [symmetric] c6_def [symmetric] c7_def ff(7))
  have "planner_inv c7"
    by (rule planner_invI [of ?ss])
      (use r6 I ff table_ok_delete [OF I(4)] in
        \<open>simp_all add: c7_def ctx_sched_def live_def iter_inv_def ctx_mt_def\<close>)
  moreover have "frame_of c7 = (frame_of c6)\<lparr>avail_time_iter_set := False, span_lookup := ?tab\<rparr>"
    by (simp add: c7_def frame_of_def)
  ultimately show thesis using that [OF eq] f6 by simp
qed

end
