(* ===== verification/Planner_Queries.thy ===== *)
theory Planner_Queries
  imports Planner_Refinement
begin

text \<open>
  Construction, the read-only queries and the searches of the planner, against the specification by
  usage: what remains of a resource at a time is its total less what the spans use then.
\<close>

section \<open>Construction\<close>

definition totals_ok :: "nat \<Rightarrow> resource_array \<Rightarrow> bool" where
  "totals_ok dim tot \<longleftrightarrow>
     length tot = PLANNER_NUM_TYPES \<and> dim \<le> PLANNER_NUM_TYPES \<and>
     (\<forall>x\<in>set tot. 0 \<le> x \<and> x \<le> INT64_MAX) \<and> (\<forall>i<PLANNER_NUM_TYPES. dim \<le> i \<longrightarrow> tot ! i = 0)"

lemma padded_id: "totals_ok dim tot \<Longrightarrow> padded dim tot = tot"
  by (rule nth_equalityI) (auto simp: totals_ok_def nth_padded)

lemma nth_zero_array [simp]: "i < PLANNER_NUM_TYPES \<Longrightarrow> zero_array ! i = 0"
  by (simp add: zero_array_def del: replicate.simps)

lemma initialize_inv:
  assumes "totals_ok (dimension ctx) (total_resources ctx)" and "1 \<le> duration" and "0 \<le> base_time"
    and "base_time + duration \<le> INT64_MAX"
  shows "planner_inv (initialize base_time duration ctx)"
proof -
  note t = assms(1) [unfolded totals_ok_def]
  define pt where "pt = \<lparr>sp_at = base_time, in_mt_resource_tree = False, new_point = False, ref_count = 1,
      scheduled = zero_array, remaining = padded (dimension ctx) (total_resources ctx)\<rparr>"
  define spt :: sp_tree where "spt = RbNode RB_BLACK RbNil 0 () RbNil"
  have ins: "scheduled_point_insert [pt] 0 RbNil = Some spt"
    by (simp add: scheduled_point_insert_def rb_insert_augmented_def rb_link_node_def spt_def)
  define c where "c = ctx\<lparr>plan_start := base_time, plan_end := base_time + duration, p0 := 0, sp_store := [pt],
      sched_point_tree := spt, mt_resource_tree := RbNil\<rparr>"
  have e: "i64 (base_time + duration) = base_time + duration" using assms by (simp add: in_i64_def)
  define d where "d = with_mt (mintime_resource_insert (dimension ctx) 0) c"
  have init: "initialize base_time duration ctx = d\<lparr>span_lookup := [], avail_time_iter := [],
      current_request := \<lparr>on_or_after = 0, req_duration = 0, req_resources = zero_array, req_dimension = 0\<rparr>,
      avail_time_iter_set := False, span_counter := 0\<rparr>"
    using ins e by (simp add: initialize_def Let_def d_def c_def pt_def)
  have mt: "ctx_mt {} c" by (simp add: ctx_mt_def mt_state_def c_def deref_def pt_def rb_tree_def)
  note r = with_mt_insert [OF mt, of 0 "dimension ctx", folded d_def]
  have lt: "0 < length (sp_store c)" by (simp add: c_def)
  have nth: "total_resources ctx ! i = i64 (total_resources ctx ! i)" if "i < PLANNER_NUM_TYPES" for i
  proof -
    have "total_resources ctx ! i \<in> set (total_resources ctx)" using t that by simp
    then show ?thesis using t by (auto simp: in_i64_def)
  qed
  have sorted: "sp_sorted [pt] [0]" using assms by (simp add: at_of_def deref_def pt_def time_ok_def)
  have "point_ok (total_resources ctx) [] pt"
    using t nth by (simp add: point_ok_def pt_def padded_id [OF assms(1)] zero_array_def nth_zero_array [unfolded zero_array_def])
  then have "ctx_sched [] (refs 0 []) c"
    using sorted by (simp add: ctx_sched_def sched_inv_def c_def spt_def deref_def at_of_def rb_tree_def pt_def)
  then have sd: "ctx_sched [] (refs 0 []) d" using r(2) [OF lt] by (auto intro: same_points_sched)
  have p: "points_of d = [0]" "p0 d = 0" by (simp_all add: d_def c_def spt_def)
  have lz: "live [] d" using p by (simp add: live_def)
  have lenD: "length (sp_store d) = 1" using same_points_length [OF r(2) [OF lt]] by (simp add: c_def)
  let ?i = "initialize base_time duration ctx"
  show ?thesis
  proof (rule planner_invI [of "[]"])
    show "ctx_sched [] (refs (p0 ?i) []) ?i" using sd p by (simp add: init ctx_sched_def)
    show "live [] ?i" using lz by (simp add: init live_def)
    show "iter_inv ?i" using r(1) [OF lt] p lenD by (simp add: init iter_inv_def ctx_mt_def iter_ok_def)
  qed (use t assms in \<open>simp_all add: init table_ok_def d_def c_def time_ok_def\<close>)
qed

lemma initialize_table: "span_table (initialize base_time duration ctx) = Map.empty"
  by (simp add: span_table_def initialize_def Let_def fun_eq_iff)

lemma totals_ok_padded:
  assumes "len \<le> PLANNER_NUM_TYPES" and "length totals = len" and "\<forall>x\<in>set totals. 0 \<le> x \<and> x \<le> INT64_MAX"
  shows "totals_ok len (padded len totals)"
  using assms by (auto simp: totals_ok_def nth_padded) (auto simp: padded_def)

section \<open>Bounded states\<close>

text \<open>
  In a bounded state the counts of the spans are non-negative, no resource is planned beyond its total
  at any time, and the totals add up to an \<open>int\<close>; then nothing wraps.
\<close>

definition bounded :: "planner \<Rightarrow> bool" where
  "bounded ctx \<longleftrightarrow>
     (\<forall>s\<in>set (spans_of ctx). \<forall>x\<in>set (planned s). 0 \<le> x) \<and>
     (\<forall>t i. i < PLANNER_NUM_TYPES \<longrightarrow> usage (spans_of ctx) i t \<le> total_resources ctx ! i) \<and>
     sum_list (total_resources ctx) \<le> 2147483647"

definition free_at :: "planner \<Rightarrow> nat \<Rightarrow> int \<Rightarrow> int" where
  "free_at ctx i t = total_resources ctx ! i - usage (spans_of ctx) i t"

lemma usage_nonneg:
  assumes "\<forall>s\<in>set ss. span_shape s \<and> (\<forall>x\<in>set (planned s). 0 \<le> x)" and "i < PLANNER_NUM_TYPES"
  shows "0 \<le> usage ss i t"
  using assms(1)
proof (induction ss)
  case (Cons s ss)
  then have "0 \<le> planned s ! i" using assms(2) by (auto simp: span_shape_def)
  with Cons show ?case by simp
qed simp

lemma free_bounds:
  assumes "planner_inv ctx" and "bounded ctx" and "i < PLANNER_NUM_TYPES"
  shows "0 \<le> free_at ctx i t" and "free_at ctx i t \<le> total_resources ctx ! i"
    and "total_resources ctx ! i \<le> INT64_MAX" and "0 \<le> total_resources ctx ! i"
proof -
  note I = planner_invD [OF assms(1)]
  have "\<forall>s\<in>set (spans_of ctx). span_shape s \<and> (\<forall>x\<in>set (planned s). 0 \<le> x)"
    using ctx_schedD(8) [OF I(1)] assms(2) by (auto simp: span_placed_def bounded_def)
  from usage_nonneg [OF this assms(3)] have "0 \<le> usage (spans_of ctx) i t" .
  then show "free_at ctx i t \<le> total_resources ctx ! i" by (simp add: free_at_def)
  show "0 \<le> free_at ctx i t" using assms(2,3) by (simp add: bounded_def free_at_def)
  have "total_resources ctx ! i \<in> set (total_resources ctx)" using I(5) assms(3) by simp
  then show "total_resources ctx ! i \<le> INT64_MAX" "0 \<le> total_resources ctx ! i" using I(9) by auto
qed

lemma remaining_at_point:
  assumes "planner_inv ctx" and "bounded ctx" and "p \<in> set (points_of ctx)" and "i < PLANNER_NUM_TYPES"
  shows "remaining_of (sp_store ctx) p ! i = free_at ctx i (at_of (sp_store ctx) p)"
proof -
  note I = planner_invD [OF assms(1)]
  have "remaining_of (sp_store ctx) p ! i = i64 (free_at ctx i (at_of (sp_store ctx) p))"
    using ctx_schedD(6) [OF I(1) assms(3)] assms(4)
    by (simp add: point_ok_def remaining_of_def at_of_def free_at_def)
  then show ?thesis using free_bounds [OF assms(1,2,4)] by (smt (verit) i64_id in_i64_def)
qed

lemma remaining_counts_fit:
  assumes "planner_inv ctx" and "bounded ctx" and "p \<in> set (points_of ctx)" and "len \<le> PLANNER_NUM_TYPES"
  shows "counts_fit len (remaining_of (sp_store ctx) p)"
proof -
  note I = planner_invD [OF assms(1)]
  let ?r = "remaining_of (sp_store ctx) p" and ?t = "total_resources ctx"
  have len: "length ?r = PLANNER_NUM_TYPES" using ctx_schedD(6) [OF I(1) assms(3)] by (simp add: point_ok_def remaining_of_def)
  have nn: "0 \<le> ?r ! i \<and> ?r ! i \<le> ?t ! i" if "i < PLANNER_NUM_TYPES" for i
    using remaining_at_point [OF assms(1-3) that] free_bounds [OF assms(1,2) that] by simp
  have "sum_list (take len ?r) \<le> sum_list (take len ?t)"
    using nn assms(4) len I(5) by (intro sum_list_mono2) auto
  also have "\<dots> \<le> sum_list (take len ?t) + sum_list (drop len ?t)"
    using I(9) by (auto intro!: sum_list_nonneg dest: in_set_dropD)
  also have "\<dots> = sum_list ?t" by (metis append_take_drop_id sum_list_append)
  also have "\<dots> \<le> 2147483647" using assms(2) by (simp add: bounded_def)
  finally show ?thesis using nn len assms(4) by (auto simp: counts_fit_def in_set_conv_nth)
qed

lemma holds_iff:
  assumes "planner_inv ctx" and "bounded ctx" and "p \<in> set (points_of ctx)" and "len \<le> PLANNER_NUM_TYPES"
    and "request_ok len ra"
  shows "holds (sp_store ctx) ra len p \<longleftrightarrow> (\<forall>i<len. ra ! i \<le> free_at ctx i (at_of (sp_store ctx) p))"
  unfolding holds_def using rescmp_le_0 [OF assms(5) remaining_counts_fit [OF assms(1-4)]]
    remaining_at_point [OF assms(1-3)] assms(4) by auto

text \<open>A window in which the request fits at every time; the points inside it decide.\<close>

definition fits_window :: "planner \<Rightarrow> int \<Rightarrow> int \<Rightarrow> resource_array \<Rightarrow> nat \<Rightarrow> bool" where
  "fits_window ctx t duration ra len \<longleftrightarrow>
     (\<forall>u i. t \<le> u \<and> u < t + duration \<and> i < len \<longrightarrow> ra ! i \<le> free_at ctx i u)"

lemma fits_window_points:
  assumes "planner_inv ctx" and "time_ok t" and "plan_start ctx \<le> t" and "1 \<le> duration" and "time_ok (t + duration)"
    and p: "p \<in> set (points_of ctx)" "at_of (sp_store ctx) p \<le> t"
    and last: "\<And>q. q \<in> set (points_of ctx) \<Longrightarrow> at_of (sp_store ctx) q \<le> t \<Longrightarrow> at_of (sp_store ctx) q \<le> at_of (sp_store ctx) p"
  shows "fits_window ctx t duration ra len \<longleftrightarrow>
    (\<forall>q\<in>set (points_of ctx). at_of (sp_store ctx) p \<le> at_of (sp_store ctx) q \<and> at_of (sp_store ctx) q < t + duration \<longrightarrow>
       (\<forall>i<len. ra ! i \<le> free_at ctx i (at_of (sp_store ctx) q)))" (is "_ = ?R")
proof
  note s = planner_invD(1) [OF assms(1)]
  assume f: "fits_window ctx t duration ra len"
  show ?R
  proof (intro ballI impI allI)
    fix q i
    let ?u = "max t (at_of (sp_store ctx) q)"
    assume q: "q \<in> set (points_of ctx)" "at_of (sp_store ctx) p \<le> at_of (sp_store ctx) q \<and> at_of (sp_store ctx) q < t + duration"
      and "i < len"
    then have "ra ! i \<le> free_at ctx i ?u" using f assms(4) by (auto simp: fits_window_def)
    moreover have "usage (spans_of ctx) i (at_of (sp_store ctx) q) = usage (spans_of ctx) i ?u"
    proof (rule usage_between [OF s])
      show "\<forall>r\<in>set (points_of ctx). at_of (sp_store ctx) r \<le> at_of (sp_store ctx) q \<or> ?u < at_of (sp_store ctx) r"
      proof
        fix r
        assume "r \<in> set (points_of ctx)"
        with last [of r] q(2) show "at_of (sp_store ctx) r \<le> at_of (sp_store ctx) q \<or> ?u < at_of (sp_store ctx) r"
          by linarith
      qed
    qed simp
    ultimately show "ra ! i \<le> free_at ctx i (at_of (sp_store ctx) q)" by (simp add: free_at_def)
  qed
next
  note s = planner_invD(1) [OF assms(1)]
  assume R: ?R
  show "fits_window ctx t duration ra len"
    unfolding fits_window_def
  proof (intro allI impI)
    fix u i
    assume u: "t \<le> u \<and> u < t + duration \<and> i < len"
    then have "time_ok u" "plan_start ctx \<le> u" using assms by (auto simp: time_ok_def)
    then obtain q where q: "q \<in> set (points_of ctx)" "at_of (sp_store ctx) q \<le> u"
        "\<And>r. r \<in> set (points_of ctx) \<Longrightarrow> at_of (sp_store ctx) r \<le> u \<Longrightarrow> at_of (sp_store ctx) r \<le> at_of (sp_store ctx) q"
        "\<And>i. usage (spans_of ctx) i (at_of (sp_store ctx) q) = usage (spans_of ctx) i u"
      using state_at [OF s] by metis
    have "at_of (sp_store ctx) p \<le> at_of (sp_store ctx) q" using q(3) [OF p(1)] p(2) u by simp
    with R q(1,2) u have "ra ! i \<le> free_at ctx i (at_of (sp_store ctx) q)" by auto
    with q(4) [of i] show "ra ! i \<le> free_at ctx i u" by (simp add: free_at_def)
  qed
qed

lemma avail_during_iff:
  assumes "planner_inv ctx" and "bounded ctx" and "request_ok len ra" and "len \<le> PLANNER_NUM_TYPES"
    and "plan_start ctx \<le> t" and "1 \<le> duration" and "t + duration \<le> plan_end ctx"
  shows "avail_during t duration ra len ctx = (fits_window ctx t duration ra len, None)"
proof -
  note I = planner_invD [OF assms(1)]
  have t: "time_ok t" "time_ok (t + duration)" using I(7,8) assms(5-7) by (auto simp: time_ok_def)
  obtain p where p: "scheduled_point_state (sp_store ctx) t (sched_point_tree ctx) = Some p"
      "p \<in> set (points_of ctx)" "at_of (sp_store ctx) p \<le> t"
      "\<And>q. q \<in> set (points_of ctx) \<Longrightarrow> at_of (sp_store ctx) q \<le> t \<Longrightarrow> at_of (sp_store ctx) q \<le> at_of (sp_store ctx) p"
    using state_at [OF I(1) t(1) assms(5)] by metis
  note sorted = ctx_schedD(2) [OF I(1)]
  have stop: "i64 (t + duration) = t + duration" and ppe: "\<not> past_plan_end ctx t duration"
    using t I(8) assms(7) by (auto simp: time_ok_def in_i64_def past_plan_end_def)
  have "fits_during (sp_store ctx) (t + duration) ra len (points_from (Some p) (sched_point_tree ctx)) \<longleftrightarrow>
      (\<forall>q\<in>set (points_of ctx). at_of (sp_store ctx) p \<le> at_of (sp_store ctx) q \<and> at_of (sp_store ctx) q < t + duration \<longrightarrow>
        holds (sp_store ctx) ra len q)"
    using sorted p(2) by (auto simp: fits_during_iff points_from_sorted holds_def)
  also have "\<dots> \<longleftrightarrow> fits_window ctx t duration ra len"
    using fits_window_points [OF assms(1) t(1) assms(5,6) t(2) p(2-4)] holds_iff [OF assms(1,2) _ assms(4,3)] by auto
  finally show ?thesis using p(1) stop ppe by (simp add: avail_during_def)
qed

lemma planner_avail_resources_at_eq:
  assumes "planner_inv ctx" and "plan_start ctx \<le> t" and "t \<le> plan_end ctx" and "i < PLANNER_NUM_TYPES"
  shows "planner_avail_resources_at ctx t i = Some (i64 (free_at ctx i t), None)"
proof -
  note I = planner_invD [OF assms(1)]
  have t: "time_ok t" using I(7,8) assms(2,3) by (simp add: time_ok_def)
  obtain p where p: "scheduled_point_state (sp_store ctx) t (sched_point_tree ctx) = Some p"
      "p \<in> set (points_of ctx)" "\<And>i. usage (spans_of ctx) i (at_of (sp_store ctx) p) = usage (spans_of ctx) i t"
    using state_at [OF I(1) t assms(2)] by metis
  with ctx_schedD(6) [OF I(1) p(2)] assms(3,4) show ?thesis
    by (simp add: planner_avail_resources_at_def point_ok_def remaining_of_def free_at_def at_of_def)
qed

section \<open>The search for a time\<close>

lemma untrack_start_length:
  assumes "iter_inv ctx" and "p \<in> set (inorder (mt_resource_tree ctx))"
  shows "length (inorder (mt_resource_tree (untrack_start p ctx))) < length (inorder (mt_resource_tree ctx))"
proof -
  have "distinct (inorder (mt_resource_tree ctx))" using assms(1) by (simp add: iter_inv_def ctx_mt_def mt_state_def)
  then have "inorder (mt_resource_tree (untrack_start p ctx)) = filter (\<lambda>q. q \<noteq> p) (inorder (mt_resource_tree ctx))"
    by (simp add: untrack_start_def track_points_def Let_def with_mt_def mintime_resource_remove_def)
  then show ?thesis using assms(2) by (simp add: length_filter_less)
qed

lemma mt_points:
  "iter_inv ctx \<Longrightarrow> set (inorder (mt_resource_tree ctx)) = set (points_of ctx) - tracked ctx"
  by (simp add: iter_inv_def ctx_mt_def mt_state_def)

text \<open>Every round takes a point out of the tree, so more rounds than points change nothing.\<close>

lemma avail_at_loop_fuel:
  "iter_inv ctx \<Longrightarrow> length (inorder (mt_resource_tree ctx)) < n \<Longrightarrow> length (inorder (mt_resource_tree ctx)) < m \<Longrightarrow>
     avail_at_loop n on_or_aft duration ra len t ctx = avail_at_loop m on_or_aft duration ra len t ctx"
proof (induction n arbitrary: m t ctx)
  case (Suc n)
  from Suc.prems(3) obtain m' where m: "m = Suc m'" by (cases m) auto
  show ?case
  proof (cases "mintime_resource_mintime (sp_store ctx) ra len (mt_resource_tree ctx)")
    case None
    then show ?thesis by (simp add: m)
  next
    case (Some p)
    from mintime_resource_mintime_mem [OF Some] have p: "p \<in> set (inorder (mt_resource_tree ctx))" .
    with mt_points [OF Suc.prems(1)] have "p \<in> set (points_of ctx)" "p \<notin> tracked ctx" by auto
    then have "iter_inv (untrack_start p ctx)" using untrack_start_ok [OF Suc.prems(1)] by simp
    moreover have "length (inorder (mt_resource_tree (untrack_start p ctx))) < n"
        "length (inorder (mt_resource_tree (untrack_start p ctx))) < m'"
      using untrack_start_length [OF Suc.prems(1) p] Suc.prems(2,3) m by auto
    ultimately have "avail_at_loop n on_or_aft duration ra len t' (untrack_start p ctx) =
        avail_at_loop m' on_or_aft duration ra len t' (untrack_start p ctx)" for t'
      by (rule Suc.IH)
    with Some span_ok_cases [of p duration ra len ctx] show ?thesis by (auto simp: m Let_def)
  qed
qed simp

lemma avail_at_fuel:
  "iter_inv ctx \<Longrightarrow> length (inorder (mt_resource_tree ctx)) < n \<Longrightarrow>
     avail_at_loop n on_or_aft duration ra len (-1) ctx = avail_at on_or_aft duration ra len ctx"
  unfolding avail_at_def by (rule avail_at_loop_fuel) simp_all

text \<open>A start point is good when the request holds at every point in its window.\<close>

definition good_start :: "planner \<Rightarrow> int \<Rightarrow> int \<Rightarrow> resource_array \<Rightarrow> nat \<Rightarrow> sp_ptr \<Rightarrow> bool" where
  "good_start ctx on_or_aft duration ra len p \<longleftrightarrow>
     on_or_aft \<le> at_of (sp_store ctx) p \<and>
     (\<forall>q\<in>set (points_of ctx). at_of (sp_store ctx) p \<le> at_of (sp_store ctx) q \<and>
        at_of (sp_store ctx) q < at_of (sp_store ctx) p + duration \<longrightarrow> holds (sp_store ctx) ra len q)"

lemma same_points_holds:
  assumes "same_points ctx ctx'" and "\<forall>q\<in>set (points_of ctx). q < length (sp_store ctx)" and "p \<in> set (points_of ctx)"
  shows "at_of (sp_store ctx') p = at_of (sp_store ctx) p"
    and "holds (sp_store ctx') ra len p = holds (sp_store ctx) ra len p"
  using same_points_deref [OF assms(1)] assms(2,3) by (simp_all add: holds_def)

lemma same_points_good:
  assumes "same_points ctx ctx'" and "\<forall>q\<in>set (points_of ctx). q < length (sp_store ctx)" and "p \<in> set (points_of ctx)"
  shows "good_start ctx' on_or_aft duration ra len p = good_start ctx on_or_aft duration ra len p"
proof -
  have "points_of ctx' = points_of ctx" using assms(1) by (simp add: same_points_def)
  then show ?thesis using same_points_holds [OF assms(1,2)] assms(3) by (simp add: good_start_def)
qed

text \<open>What the loop needs of the state: time-ordered points, an ordered min-time tree, no overflow.\<close>

definition search_ok :: "int \<Rightarrow> resource_array \<Rightarrow> nat \<Rightarrow> planner \<Rightarrow> bool" where
  "search_ok duration ra len ctx \<longleftrightarrow>
     iter_inv ctx \<and> sp_sorted (sp_store ctx) (points_of ctx) \<and> 1 \<le> duration \<and>
     (\<forall>p\<in>set (points_of ctx). at_of (sp_store ctx) p + duration \<le> INT64_MAX) \<and>
     mt_ordered (sp_store ctx) ra len (inorder (mt_resource_tree ctx))"

lemma search_ok_less: "search_ok duration ra len ctx \<Longrightarrow> p \<in> set (points_of ctx) \<Longrightarrow> p < length (sp_store ctx)"
  by (simp add: search_ok_def iter_inv_def)

lemma search_ok_untrack:
  assumes "search_ok duration ra len ctx" and "p \<in> set (points_of ctx)" and "p \<notin> tracked ctx"
  shows "search_ok duration ra len (untrack_start p ctx)"
proof -
  let ?c = "untrack_start p ctx"
  have it: "iter_inv ctx" using assms(1) by (simp add: search_ok_def)
  note u = untrack_start_ok [OF it assms(2,3)]
  have lt: "\<forall>q\<in>set (points_of ctx). q < length (sp_store ctx)" using it by (simp add: iter_inv_def)
  have pts: "points_of ?c = points_of ctx" using u(2) by (simp add: same_points_def)
  note same = same_points_holds [OF u(2) lt]
  have "distinct (inorder (mt_resource_tree ctx))" using it by (simp add: iter_inv_def ctx_mt_def mt_state_def)
  then have tree: "inorder (mt_resource_tree ?c) = filter (\<lambda>q. q \<noteq> p) (inorder (mt_resource_tree ctx))"
    by (simp add: untrack_start_def track_points_def Let_def with_mt_def mintime_resource_remove_def)
  have sub: "set (inorder (mt_resource_tree ctx)) \<subseteq> set (points_of ctx)" using mt_points [OF it] by auto
  have "mt_ordered (sp_store ctx) ra len (inorder (mt_resource_tree ?c))"
    using assms(1) unfolding tree search_ok_def by (blast intro: sorted_wrt_filter)
  then have "mt_ordered (sp_store ?c) ra len (inorder (mt_resource_tree ?c))"
    by (rule sorted_wrt_mono_rel [rotated]) (use same sub in \<open>auto simp: tree\<close>)
  moreover have "sp_sorted (sp_store ?c) (points_of ctx)"
    using assms(1) same by (subst sp_sorted_cong [of _ _ "sp_store ctx"]) (auto simp: search_ok_def)
  ultimately show ?thesis using assms(1) u(1) pts same by (simp add: search_ok_def)
qed

lemma span_ok_good:
  assumes "search_ok duration ra len ctx" and "p \<in> set (points_of ctx)" and "on_or_aft \<le> at_of (sp_store ctx) p"
  shows "span_ok p duration ra len ctx =
    (if good_start ctx on_or_aft duration ra len p then (ctx, True) else (untrack_start p ctx, False))"
proof -
  have s: "sp_sorted (sp_store ctx) (points_of ctx)" using assms(1) by (simp add: search_ok_def)
  then have "time_ok (at_of (sp_store ctx) p)" using assms(2) by (simp add: sp_sorted_def)
  then have "i64 (at_of (sp_store ctx) p + duration) = at_of (sp_store ctx) p + duration"
    using assms(1,2) by (intro i64_id) (auto simp: search_ok_def time_ok_def in_i64_def)
  then show ?thesis
    using s assms(2,3)
    by (auto simp: span_ok_def points_from_sorted fits_during_iff good_start_def holds_def)
qed

definition best_start :: "sp_ptr set \<Rightarrow> (sp_ptr \<Rightarrow> bool) \<Rightarrow> (sp_ptr \<Rightarrow> int) \<Rightarrow> (int \<Rightarrow> int) \<Rightarrow> int \<Rightarrow> int \<Rightarrow> int \<Rightarrow> bool" where
  "best_start M good time final on_or_aft t r \<longleftrightarrow>
     (\<exists>p\<in>M. good p \<and> (\<forall>q\<in>M. good q \<longrightarrow> time p \<le> time q) \<and> r = final (time p)) \<or>
     ((\<forall>p\<in>M. \<not> good p) \<and> (r = t \<or> r = -1 \<or> (\<exists>p\<in>M. on_or_aft \<le> time p \<and> r = time p)))"

lemma best_start_cong:
  assumes "\<And>p. p \<in> M \<Longrightarrow> good p = good' p" and "\<And>p. p \<in> M \<Longrightarrow> time p = time' p"
  shows "best_start M good time final on_or_aft t r = best_start M good' time' final on_or_aft t r"
  using assms by (simp add: best_start_def cong: bex_cong ball_cong conj_cong)

lemma best_start_remove:
  assumes "best_start (M - {p}) good time final on_or_aft t' r" and "p \<in> M" and "\<not> good p"
    and "t' = -1 \<or> (on_or_aft \<le> time p \<and> t' = time p)"
  shows "best_start M good time final on_or_aft t r"
  using assms unfolding best_start_def by auto

definition search_result :: "planner \<Rightarrow> int \<Rightarrow> int \<Rightarrow> resource_array \<Rightarrow> nat \<Rightarrow> int \<Rightarrow> int \<Rightarrow> bool" where
  "search_result ctx on_or_aft duration ra len =
     best_start (set (inorder (mt_resource_tree ctx))) (good_start ctx on_or_aft duration ra len)
       (at_of (sp_store ctx)) (\<lambda>x. if past_plan_end ctx x duration then -1 else x) on_or_aft"

lemma search_result_untrack:
  assumes "search_ok duration ra len ctx" and p: "p \<in> set (inorder (mt_resource_tree ctx))"
    and bad: "\<not> good_start ctx on_or_aft duration ra len p"
    and t: "t' = -1 \<or> (on_or_aft \<le> at_of (sp_store ctx) p \<and> t' = at_of (sp_store ctx) p)"
    and r: "search_result (untrack_start p ctx) on_or_aft duration ra len t' r"
  shows "search_result ctx on_or_aft duration ra len t r"
proof -
  let ?c = "untrack_start p ctx" and ?M = "set (inorder (mt_resource_tree ctx))"
  have it: "iter_inv ctx" using assms(1) by (simp add: search_ok_def)
  have lt: "\<forall>q\<in>set (points_of ctx). q < length (sp_store ctx)" using it by (simp add: iter_inv_def)
  have pp: "p \<in> set (points_of ctx)" "p \<notin> tracked ctx" using p mt_points [OF it] by auto
  note u = untrack_start_ok [OF it pp]
  have M: "set (inorder (mt_resource_tree ?c)) = ?M - {p}"
    using mt_points [OF it] mt_points [OF u(1)] u(3) u(2) by (auto simp: same_points_def)
  have sub: "q \<in> set (points_of ctx)" if "q \<in> ?M - {p}" for q using that mt_points [OF it] by auto
  have "frame_of ?c = frame_of ctx" using u(2) by (simp add: same_points_def)
  then have "plan_end ?c = plan_end ctx" by (rule frame_fields)
  then have ppe: "past_plan_end ?c x duration = past_plan_end ctx x duration" for x by (simp add: past_plan_end_def)
  have "best_start (?M - {p}) (good_start ctx on_or_aft duration ra len)
       (at_of (sp_store ctx)) (\<lambda>x. if past_plan_end ctx x duration then -1 else x) on_or_aft t' r"
    using r unfolding search_result_def M ppe
    by (subst best_start_cong [of _ _ "good_start ?c on_or_aft duration ra len" _ "at_of (sp_store ?c)"])
      (simp_all only: same_points_good [OF u(2) lt sub] same_points_holds(1) [OF u(2) lt sub])
  then show ?thesis unfolding search_result_def using p bad t by (rule best_start_remove)
qed

lemma avail_at_loop_spec:
  "search_ok duration ra len ctx \<Longrightarrow> length (inorder (mt_resource_tree ctx)) < n \<Longrightarrow>
     search_result ctx on_or_aft duration ra len t (snd (avail_at_loop n on_or_aft duration ra len t ctx))"
proof (induction n arbitrary: t ctx)
  case (Suc n)
  let ?M = "set (inorder (mt_resource_tree ctx))" and ?h = "sp_store ctx"
  let ?good = "good_start ctx on_or_aft duration ra len"
  have it: "iter_inv ctx" using Suc.prems(1) by (simp add: search_ok_def)
  have sub: "q \<in> set (points_of ctx)" "q \<notin> tracked ctx" if "q \<in> ?M" for q using that mt_points [OF it] by auto
  have lt: "\<forall>p\<in>?M. at_of ?h p < INT64_MAX" using Suc.prems(1) sub by (force simp: search_ok_def)
  have hold: "holds ?h ra len q" if "q \<in> ?M" "?good q" for q
    using that sub(1) Suc.prems(1) by (simp add: good_start_def search_ok_def)
  have IH: "search_result ctx on_or_aft duration ra len t (snd (avail_at_loop n on_or_aft duration ra len t' (untrack_start p ctx)))"
    if "p \<in> ?M" "\<not> ?good p" "t' = -1 \<or> (on_or_aft \<le> at_of ?h p \<and> t' = at_of ?h p)" for p t'
    using Suc.IH [OF search_ok_untrack [OF Suc.prems(1) sub [OF that(1)]]] untrack_start_length [OF it that(1)] Suc.prems(2)
    by (intro search_result_untrack [OF Suc.prems(1) that]) simp
  have "mt_aug_ok ?h (mt_resource_tree ctx)" "mt_ordered ?h ra len (inorder (mt_resource_tree ctx))"
    using it Suc.prems(1) by (auto simp: iter_inv_def ctx_mt_def mt_state_def search_ok_def)
  from mintime_resource_mintime_spec [OF this lt] consider
      "mintime_resource_mintime ?h ra len (mt_resource_tree ctx) = None" "\<forall>p\<in>?M. \<not> holds ?h ra len p"
    | p where "p \<in> ?M" "mintime_resource_mintime ?h ra len (mt_resource_tree ctx) = Some p"
        "\<forall>q\<in>?M. holds ?h ra len q \<longrightarrow> at_of ?h p \<le> at_of ?h q"
    by (elim disjE bexE conjE)
  then show ?case
  proof cases
    case 1
    then show ?thesis using hold by (auto simp: search_result_def best_start_def)
  next
    case (2 p)
    show ?thesis
    proof (cases "at_of ?h p < on_or_aft")
      case True
      then show ?thesis using 2 IH [of p "-1"] by (simp add: good_start_def)
    next
      case False
      note so = span_ok_good [OF Suc.prems(1) sub(1) [OF 2(1)], of on_or_aft]
      show ?thesis
      proof (cases "?good p")
        case True
        with 2 hold have "\<forall>q\<in>?M. ?good q \<longrightarrow> at_of ?h p \<le> at_of ?h q" by blast
        with True False 2 so show ?thesis by (auto simp: search_result_def best_start_def)
      next
        case bad: False
        with False 2 so IH [OF 2(1) bad, of "at_of ?h p"] show ?thesis by simp
      qed
    qed
  qed
qed simp

lemma avail_at_spec:
  "search_ok duration ra len ctx \<Longrightarrow>
     search_result ctx on_or_aft duration ra len (-1) (snd (avail_at on_or_aft duration ra len ctx))"
  unfolding avail_at_def by (rule avail_at_loop_spec, assumption, simp)

section \<open>The public searches\<close>

lemma planner_inv_same_points:
  assumes "planner_inv ctx" and "same_points ctx ctx'" and "iter_inv ctx'"
  shows "planner_inv ctx'"
proof -
  note I = planner_invD [OF assms(1)]
  have f: "frame_of ctx' = frame_of ctx" and pts: "points_of ctx' = points_of ctx"
    using assms(2) by (simp_all add: same_points_def)
  note ff = frame_fields [OF f]
  show ?thesis
    by (rule planner_invI [of "spans_of ctx"])
      (use same_points_sched [OF assms(2) I(1)] I(2-) assms(3) in \<open>simp_all add: ff live_def pts\<close>)
qed

lemma planner_inv_request [simp]:
  "planner_inv (ctx\<lparr>avail_time_iter_set := b, current_request := r\<rparr>) = planner_inv ctx"
  by (simp add: planner_inv_def ctx_sched_def ctx_mt_def)

lemma iter_inv_request [simp]:
  "iter_inv (ctx\<lparr>avail_time_iter_set := b, current_request := r\<rparr>) = iter_inv ctx"
  by (simp add: iter_inv_def ctx_mt_def)

lemma planner_avail_time_first_inv:
  assumes "planner_inv ctx" and "zkeys_ok zkeys"
  shows "planner_inv (fst (planner_avail_time_first zkeys on_or_aft duration counts len ctx))"
    and "span_table (fst (planner_avail_time_first zkeys on_or_aft duration counts len ctx)) = span_table ctx"
proof -
  note I = planner_invD [OF assms(1)]
  note r = restore_track_points_ok [OF I(3) assms(2)]
  define c where "c = (restore_track_points zkeys ctx)\<lparr>avail_time_iter_set := True,
      current_request := copy_req on_or_aft duration counts len\<rparr>"
  have it: "iter_inv c" using r(1) by (simp add: c_def)
  have pc: "planner_inv c" using planner_inv_same_points [OF assms(1) r(2,1)] by (simp add: c_def)
  note a = avail_at_ok [OF it, of on_or_aft duration "map i64 counts" len]
  have inv: "planner_inv (fst (avail_at on_or_aft duration (map i64 counts) len c))"
    using planner_inv_same_points [OF pc a(2,1)] .
  have "frame_of (restore_track_points zkeys ctx) = frame_of ctx" using r(2) by (simp add: same_points_def)
  then have "span_table (restore_track_points zkeys ctx) = span_table ctx" by (rule span_table_frame)
  then have st: "span_table c = span_table ctx" by (simp add: c_def span_table_def fun_eq_iff)
  have "frame_of (fst (avail_at on_or_aft duration (map i64 counts) len c)) = frame_of c"
    using a(2) by (simp add: same_points_def)
  then have tab: "span_table (fst (avail_at on_or_aft duration (map i64 counts) len c)) = span_table ctx"
    unfolding st [symmetric] by (rule span_table_frame)
  show "planner_inv (fst (planner_avail_time_first zkeys on_or_aft duration counts len ctx))"
    "span_table (fst (planner_avail_time_first zkeys on_or_aft duration counts len ctx)) = span_table ctx"
    using assms(1) inv tab
    by (auto simp: planner_avail_time_first_def Let_def c_def [symmetric] split: prod.split)
qed

lemma planner_avail_time_next_inv:
  assumes "planner_inv ctx"
  shows "planner_inv (fst (planner_avail_time_next ctx))"
    and "span_table (fst (planner_avail_time_next ctx)) = span_table ctx"
proof -
  let ?r = "current_request ctx"
  note a = avail_at_ok [OF planner_invD(3) [OF assms], of "on_or_after ?r" "req_duration ?r" "req_resources ?r" "req_dimension ?r"]
  note inv = planner_inv_same_points [OF assms a(2,1)]
  have "frame_of (fst (avail_at (on_or_after ?r) (req_duration ?r) (req_resources ?r) (req_dimension ?r) ctx)) = frame_of ctx"
    using a(2) by (simp add: same_points_def)
  then have tab: "span_table (fst (avail_at (on_or_after ?r) (req_duration ?r) (req_resources ?r) (req_dimension ?r) ctx)) = span_table ctx"
    by (rule span_table_frame)
  show "planner_inv (fst (planner_avail_time_next ctx))"
    "span_table (fst (planner_avail_time_next ctx)) = span_table ctx"
    using assms inv tab by (auto simp: planner_avail_time_next_def Let_def split: prod.split)
qed

text \<open>After the last point nothing is planned, so a request within the totals fits there.\<close>

lemma last_point:
  assumes "planner_inv ctx"
  obtains q where "q \<in> set (points_of ctx)"
    and "\<And>p. p \<in> set (points_of ctx) \<Longrightarrow> at_of (sp_store ctx) p \<le> at_of (sp_store ctx) q"
    and "\<And>t i. at_of (sp_store ctx) q \<le> t \<Longrightarrow> usage (spans_of ctx) i t = 0"
proof -
  note I = planner_invD [OF assms]
  let ?A = "at_of (sp_store ctx) ` set (points_of ctx)"
  have "finite ?A" "?A \<noteq> {}" using ctx_schedD(3) [OF I(1)] by auto
  from Max_in [OF this] obtain q where q: "q \<in> set (points_of ctx)" "at_of (sp_store ctx) q = Max ?A" by auto
  have le: "at_of (sp_store ctx) p \<le> at_of (sp_store ctx) q" if "p \<in> set (points_of ctx)" for p
    using that q(2) by simp
  have "usage (spans_of ctx) i t = 0" if t: "at_of (sp_store ctx) q \<le> t" for t i
  proof -
    have "\<not> active_at t s" if s: "s \<in> set (spans_of ctx)" for s
    proof -
      from ctx_schedD(8) [OF I(1) s] obtain p where "p \<in> set (points_of ctx)" "at_of (sp_store ctx) p = span_last s"
        by (auto simp: span_placed_def)
      with le [of p] t show ?thesis by (simp add: active_at_def)
    qed
    moreover have "\<forall>s\<in>set ss. \<not> active_at t s \<Longrightarrow> usage ss i t = 0" for ss by (induction ss) auto
    ultimately show ?thesis by blast
  qed
  with that q le show thesis by blast
qed

lemma good_start_iff:
  assumes "planner_inv ctx" and "bounded ctx" and "request_ok len ra" and "len \<le> PLANNER_NUM_TYPES" and "1 \<le> duration"
    and "p \<in> set (points_of ctx)" and "at_of (sp_store ctx) p + duration \<le> INT64_MAX"
  shows "good_start ctx on_or_aft duration ra len p \<longleftrightarrow>
    on_or_aft \<le> at_of (sp_store ctx) p \<and> fits_window ctx (at_of (sp_store ctx) p) duration ra len"
proof -
  note I = planner_invD [OF assms(1)]
  note t = ctx_schedD(9,10) [OF I(1) assms(6)]
  have "time_ok (at_of (sp_store ctx) p + duration)" using t assms(5,7) by (simp add: time_ok_def)
  from fits_window_points [OF assms(1) t(2,1) assms(5) this assms(6)]
  have "fits_window ctx (at_of (sp_store ctx) p) duration ra len \<longleftrightarrow>
    (\<forall>q\<in>set (points_of ctx). at_of (sp_store ctx) p \<le> at_of (sp_store ctx) q \<and>
       at_of (sp_store ctx) q < at_of (sp_store ctx) p + duration \<longrightarrow>
       (\<forall>i<len. ra ! i \<le> free_at ctx i (at_of (sp_store ctx) q)))" by simp
  then show ?thesis
    using holds_iff [OF assms(1,2) _ assms(4,3)] by (auto simp: good_start_def)
qed

lemma map_i64_request: "request_ok len counts \<Longrightarrow> len = length counts \<Longrightarrow> map i64 counts = counts"
  by (rule map_idI) (auto simp: request_ok_def in_i64_def)

lemma same_points_bounded: "same_points ctx ctx' \<Longrightarrow> bounded ctx \<Longrightarrow> bounded ctx'"
proof -
  assume sp: "same_points ctx ctx'" and b: "bounded ctx"
  have f: "frame_of ctx' = frame_of ctx" using sp by (simp add: same_points_def)
  show "bounded ctx'" using b frame_fields(1,7) [OF f] by (simp add: bounded_def)
qed

lemma search_result_earliest:
  assumes inv: "planner_inv c" and b: "bounded c" and "avail_time_iter c = []"
    and req: "request_ok len ra" and len: "len \<le> PLANNER_NUM_TYPES" and fit: "\<forall>i<len. ra ! i \<le> total_resources c ! i"
    and d: "1 \<le> duration" and over: "\<forall>p\<in>set (points_of c). at_of (sp_store c) p + duration \<le> INT64_MAX"
    and r: "search_result c on_or_aft duration ra len (-1) t"
  defines "start_times \<equiv> {at_of (sp_store c) p | p. p \<in> set (points_of c) \<and> on_or_aft \<le> at_of (sp_store c) p \<and>
      fits_window c (at_of (sp_store c) p) duration ra len}"
  shows "(t \<in> start_times \<and> t + duration \<le> plan_end c \<and> (\<forall>u\<in>start_times. t \<le> u)) \<or>
    (t = -1 \<and> (\<forall>u\<in>start_times. plan_end c < u + duration))"
proof -
  note I = planner_invD [OF inv]
  have M: "set (inorder (mt_resource_tree c)) = set (points_of c)" using mt_points [OF I(3)] assms(3) by simp
  have good: "good_start c on_or_aft duration ra len p \<longleftrightarrow>
      on_or_aft \<le> at_of (sp_store c) p \<and> fits_window c (at_of (sp_store c) p) duration ra len"
    if "p \<in> set (points_of c)" for p
    using good_start_iff [OF inv b req len d that] over that by simp
  have ppe: "past_plan_end c (at_of (sp_store c) p) duration \<longleftrightarrow> plan_end c < at_of (sp_store c) p + duration"
    if p: "p \<in> set (points_of c)" for p
  proof -
    have "0 \<le> at_of (sp_store c) p" using ctx_schedD(10) [OF I(1) p] by (simp add: time_ok_def)
    moreover have "at_of (sp_store c) p + duration \<le> INT64_MAX" using over p by simp
    ultimately show ?thesis using I(8) d by (simp add: past_plan_end_def time_ok_def)
  qed
  consider p where "p \<in> set (points_of c)" "good_start c on_or_aft duration ra len p"
      "\<forall>q\<in>set (points_of c). good_start c on_or_aft duration ra len q \<longrightarrow> at_of (sp_store c) p \<le> at_of (sp_store c) q"
      "t = (if past_plan_end c (at_of (sp_store c) p) duration then -1 else at_of (sp_store c) p)"
    | "\<forall>p\<in>set (points_of c). \<not> good_start c on_or_aft duration ra len p"
      "t = -1 \<or> (\<exists>p\<in>set (points_of c). on_or_aft \<le> at_of (sp_store c) p)"
    using r unfolding search_result_def best_start_def M by blast
  then show ?thesis
  proof cases
    case (1 p)
    have st: "at_of (sp_store c) p \<in> start_times" using 1(1,2) good [OF 1(1)] by (auto simp: start_times_def)
    have least: "at_of (sp_store c) p \<le> u" if "u \<in> start_times" for u
      using that 1(3) good by (auto simp: start_times_def)
    show ?thesis
    proof (cases "past_plan_end c (at_of (sp_store c) p) duration")
      case True
      have "plan_end c < u + duration" if "u \<in> start_times" for u
        using least [OF that] True ppe [OF 1(1)] by simp
      then show ?thesis using True 1(4) by simp
    next
      case False
      then show ?thesis using ppe [OF 1(1)] st least 1(4) by simp
    qed
  next
    case 2
    obtain q where q: "q \<in> set (points_of c)"
        "\<And>p. p \<in> set (points_of c) \<Longrightarrow> at_of (sp_store c) p \<le> at_of (sp_store c) q"
        "\<And>t i. at_of (sp_store c) q \<le> t \<Longrightarrow> usage (spans_of c) i t = 0"
      using last_point [OF inv] by metis
    have "fits_window c (at_of (sp_store c) q) duration ra len"
      using q(3) fit by (simp add: fits_window_def free_at_def)
    then have "at_of (sp_store c) q < on_or_aft" using 2(1) good [OF q(1)] q(1) by auto
    then have none: "\<not> on_or_aft \<le> at_of (sp_store c) p" if "p \<in> set (points_of c)" for p using q(2) [OF that] by simp
    then have "start_times = {}" by (auto simp: start_times_def)
    then show ?thesis using 2(2) none by auto
  qed
qed

end
