(* ===== verification/Planner_Properties.thy ===== *)
theory Planner_Properties
  imports Planner_Queries
begin

text \<open>
  The properties of the planner, each at the top level over the model's definitions, with the witnesses
  that show their hypotheses hold together on concrete planners.
\<close>

section \<open>Sample planners\<close>

definition sample_planner :: planner where
  "sample_planner = initialize 0 100 (blank_planner [10, 0, 0, 0, 0] [''core''] 1)"

definition sample_busy :: planner where
  "sample_busy = fst (the (planner_add_span id 2 3 [4] 1 sample_planner))"

lemma zkeys_id [simp]: "zkeys_ok id"
  by (simp add: zkeys_ok_def)

lemma sample_inv [simp]: "planner_inv sample_planner"
  unfolding sample_planner_def
  by (rule initialize_inv) (auto simp: totals_ok_def blank_planner_def less_Suc_eq numeral_eq_Suc)

lemma sample_spans [simp]: "span_lookup sample_planner = []" "span_counter sample_planner = 0"
  by (simp_all add: sample_planner_def initialize_def Let_def)

lemma sample_totals [simp]: "total_resources sample_planner = [10, 0, 0, 0, 0]" "plan_start sample_planner = 0"
  "plan_end sample_planner = 100" "dimension sample_planner = 1"
  by (simp_all add: sample_planner_def initialize_def Let_def blank_planner_def i64_def)

lemma sample_bounded [simp]: "bounded sample_planner"
  by (auto simp: bounded_def less_Suc_eq numeral_eq_Suc)

lemma sample_add_ok:
  "planner_add_span id 2 3 [4] 1 sample_planner = Some (sample_busy, 1, None)"
  by code_simp

lemma sample_busy_inv [simp]: "planner_inv sample_busy"
proof -
  have "fst (avail_during 2 3 (map i64 [4]) 1 sample_planner)"
      "span_input_check sample_planner 2 3 (map i64 [4]) 1 = None" by code_simp+
  from planner_add_span_ok [OF sample_inv zkeys_id _ _ this] show ?thesis
    using sample_add_ok by (auto simp: add_args_ok_def)
qed

section \<open>Lemmas shared by the properties\<close>

lemma request_ok_i64:
  assumes "request_ok len counts"
  shows "request_ok len (map i64 counts)" and "i < len \<Longrightarrow> map i64 counts ! i = counts ! i"
    and "padded len (map i64 counts) = padded len counts"
proof -
  have "take len (map i64 counts) = take len counts"
    using assms by (auto simp: request_ok_def take_map in_i64_def intro!: map_idI)
  then show "request_ok len (map i64 counts)" "padded len (map i64 counts) = padded len counts"
    using assms by (auto simp: request_ok_def padded_def)
  show "map i64 counts ! i = counts ! i" if "i < len"
    using \<open>take len (map i64 counts) = take len counts\<close> that assms by (metis nth_take)
qed

lemma within_totals:
  assumes "planner_inv ctx" and "bounded ctx" and "request_ok len counts" and "len \<le> PLANNER_NUM_TYPES"
    and "\<forall>i<len. counts ! i \<le> total_resources ctx ! i"
  shows "\<not> rescmp (map i64 counts) (total_resources ctx) len > 0"
proof -
  note I = planner_invD [OF assms(1)] and r = request_ok_i64 [OF assms(3)]
  have "0 \<le> sum_list (drop len (total_resources ctx))"
    using I(9) by (auto intro!: sum_list_nonneg dest: in_set_dropD)
  then have "sum_list (take len (total_resources ctx)) \<le> sum_list (total_resources ctx)"
    by (metis append_take_drop_id sum_list_append le_add_same_cancel1)
  then have "counts_fit len (total_resources ctx)"
    using I(5,9) assms(2,4) by (auto simp: counts_fit_def bounded_def dest: in_set_takeD)
  then show ?thesis using rescmp_le_0 [OF r(1)] r(2) assms(5) by (auto simp: not_less)
qed

lemma usage_placed [simp]: "usage (placed_at a b s # ss) = usage (s # ss)"
  by (simp add: fun_eq_iff)

lemma bounded_add:
  assumes "bounded ctx" and "spans_of ctx' = placed_at a b s # spans_of ctx"
    and "total_resources ctx' = total_resources ctx" and "\<forall>x\<in>set (planned s). 0 \<le> x"
    and "\<And>t i. i < PLANNER_NUM_TYPES \<Longrightarrow> active_at t s \<Longrightarrow> planned s ! i \<le> free_at ctx i t"
  shows "bounded ctx'"
proof -
  have "usage (s # spans_of ctx) i t \<le> total_resources ctx ! i" if "i < PLANNER_NUM_TYPES" for t i
    using assms(1,5) that by (force simp: bounded_def free_at_def)
  then show ?thesis using assms(1-4) by (simp add: bounded_def)
qed

lemma planner_add_span_rejected:
  assumes "\<not> (fst (avail_during start_time duration (map i64 counts) len ctx) \<and>
      span_input_check ctx start_time duration (map i64 counts) len = None)"
  shows "\<exists>e. planner_add_span zkeys start_time duration counts len ctx = Some (ctx, -1, e)"
  using assms by (auto simp: planner_add_span_def span_new_def split: option.splits)


lemma map_of_table_key: "table_ok table n \<Longrightarrow> map_of table k = Some s \<Longrightarrow> span_id s = k \<and> 1 \<le> k \<and> k \<le> n"
  unfolding table_ok_def by (fastforce dest: map_of_SomeD)

section \<open>The invariant and the span table\<close>

text \<open>
  A new planner (counts, base time and end within \<open>int64_t\<close>) satisfies the planner invariant and
  holds no span.
\<close>

theorem planner_new_ok:
  assumes "1 \<le> duration" and "len \<le> PLANNER_NUM_TYPES" and "length totals = len"
    and "\<forall>x\<in>set totals. 0 \<le> x \<and> x \<le> INT64_MAX" and "0 \<le> base_time" and "base_time + duration \<le> INT64_MAX"
  shows "\<exists>ctx. planner_new base_time duration totals types len = Inr ctx \<and> planner_inv ctx \<and>
    span_table ctx = Map.empty \<and> plan_start ctx = base_time \<and> plan_end ctx = base_time + duration"
proof -
  let ?b = "blank_planner (padded len totals) (take len types) len"
  have "totals_ok (dimension ?b) (total_resources ?b)"
    using totals_ok_padded [OF assms(2-4)] by (simp add: blank_planner_def)
  from initialize_inv [OF this assms(1,5,6)]
  have "planner_inv (initialize base_time duration ?b)" .
  moreover have "planner_new base_time duration totals types len = Inr (initialize base_time duration ?b)"
    using assms(1-4) by (auto simp: planner_new_def)
  moreover have "i64 (base_time + duration) = base_time + duration" using assms by (simp add: in_i64_def)
  ultimately show ?thesis
    by (simp add: initialize_table) (simp add: initialize_def Let_def)
qed

theorem planner_new_ok_witness:
  "\<exists>ctx. planner_new 0 100 [10, 4] [''core'', ''gpu''] 2 = Inr ctx \<and> planner_inv ctx \<and>
    span_table ctx = Map.empty \<and> plan_start ctx = 0 \<and> plan_end ctx = 0 + 100"
  by (rule planner_new_ok) auto

text \<open>
  C1. \<open>planner_add_span\<close> never follows a null pointer, keeps the invariant, and refines the update of
  a finite map: an accepted span is added under the next id with its start, end and planned
  resources; a rejected one changes nothing and returns \<open>-1\<close>.
\<close>

theorem planner_add_span_refines:
  assumes "planner_inv ctx" and "zkeys_ok zkeys" and "add_args_ok start_time duration counts len"
    and "span_counter ctx < INT64_MAX"
  shows "\<exists>ctx' r e. planner_add_span zkeys start_time duration counts len ctx = Some (ctx', r, e) \<and> planner_inv ctx' \<and>
    (if fst (avail_during start_time duration (map i64 counts) len ctx) \<and>
        span_input_check ctx start_time duration (map i64 counts) len = None
     then r = span_counter ctx + 1 \<and> span_counter ctx' = r \<and>
          span_table ctx' = (span_table ctx)(r \<mapsto> (start_time, start_time + duration, padded len (map i64 counts)))
     else r = -1 \<and> ctx' = ctx)"
proof (cases "fst (avail_during start_time duration (map i64 counts) len ctx) \<and>
    span_input_check ctx start_time duration (map i64 counts) len = None")
  case True
  then obtain ctx' e a b where r: "planner_add_span zkeys start_time duration counts len ctx = Some (ctx', span_counter ctx + 1, e)"
      "planner_inv ctx'"
      "frame_of ctx' = (frame_of ctx)\<lparr>avail_time_iter_set := False, span_counter := span_counter ctx + 1,
       span_lookup := (span_counter ctx + 1,
          placed_at a b (new_span start_time duration counts len (span_counter ctx + 1))) # span_lookup ctx\<rparr>"
    using planner_add_span_ok [OF assms] by blast
  have "span_lookup ctx' = (span_counter ctx + 1,
      placed_at a b (new_span start_time duration counts len (span_counter ctx + 1))) # span_lookup ctx"
    "span_counter ctx' = span_counter ctx + 1"
    using r(3) [THEN arg_cong, of span_lookup] r(3) [THEN arg_cong, of span_counter] by (simp_all add: frame_of_def)
  then show ?thesis
    using True r(1,2) by (simp add: span_table_def span_view_def new_span_def fun_eq_iff)
next
  case False
  with planner_add_span_rejected [OF False] assms(1) show ?thesis by auto
qed

theorem planner_add_span_refines_witness:
  "\<exists>ctx' r e. planner_add_span id 2 3 [4] 1 sample_planner = Some (ctx', r, e) \<and> planner_inv ctx' \<and>
    (if fst (avail_during 2 3 (map i64 [4]) 1 sample_planner) \<and>
        span_input_check sample_planner 2 3 (map i64 [4]) 1 = None
     then r = span_counter sample_planner + 1 \<and> span_counter ctx' = r \<and>
          span_table ctx' = (span_table sample_planner)(r \<mapsto> (2, 2 + 3, padded 1 (map i64 [4])))
     else r = -1 \<and> ctx' = sample_planner)"
  by (rule planner_add_span_refines) (simp_all add: add_args_ok_def)

text \<open>
  C2. \<open>planner_rem_span\<close> keeps the invariant and refines the deletion from the map: the id of a span
  in the planner is removed and \<open>0\<close> returned, any other id changes nothing and gives \<open>EINVAL\<close>.
\<close>

theorem planner_rem_span_refines:
  assumes "planner_inv ctx" and "zkeys_ok zkeys" and "0 \<le> sid" and "sid \<le> INT64_MAX"
  shows "\<exists>ctx' r e. planner_rem_span zkeys sid ctx = Some (ctx', r, e) \<and> planner_inv ctx' \<and>
    (if sid \<in> dom (span_table ctx) then r = 0 \<and> span_table ctx' = (span_table ctx)(sid := None)
     else r = -1 \<and> e = Some EINVAL \<and> ctx' = ctx)"
proof (cases "map_of (span_lookup ctx) sid")
  case None
  then show ?thesis using assms by (simp add: planner_rem_span_def span_key_def span_table_def dom_def)
next
  case (Some s)
  then have found: "map_of (span_lookup ctx) (span_key sid) = Some s" using assms by (simp add: span_key_def)
  obtain ctx' e where r: "planner_rem_span zkeys sid ctx = Some (ctx', 0, e)" "planner_inv ctx'"
      "frame_of ctx' = (frame_of ctx)\<lparr>avail_time_iter_set := False,
           span_lookup := zhashx_delete (span_key sid) (span_lookup ctx)\<rparr>"
    by (rule planner_rem_span_ok [OF assms(1,2) found])
  have "span_lookup ctx' = zhashx_delete sid (span_lookup ctx)"
    using r(3) [THEN arg_cong, of span_lookup] assms by (simp add: frame_of_def span_key_def)
  then have "span_table ctx' = (span_table ctx)(sid := None)"
    by (simp add: span_table_def map_of_delete fun_eq_iff)
  then show ?thesis using r(1,2) Some by (simp add: span_table_def dom_def)
qed

theorem planner_rem_span_refines_witness:
  "\<exists>ctx' r e. planner_rem_span id 1 sample_busy = Some (ctx', r, e) \<and> planner_inv ctx' \<and>
    (if 1 \<in> dom (span_table sample_busy) then r = 0 \<and> span_table ctx' = (span_table sample_busy)(1 := None)
     else r = -1 \<and> e = Some EINVAL \<and> ctx' = sample_busy)"
  by (rule planner_rem_span_refines) simp_all

text \<open>
  C3. The two searches for a time keep the invariant and the spans: they only move points between the
  min-time tree and the table of tracked points.
\<close>

theorem planner_searches_keep_spans:
  assumes "planner_inv ctx" and "zkeys_ok zkeys"
  shows "planner_inv (fst (planner_avail_time_first zkeys on_or_aft duration counts len ctx)) \<and>
    span_table (fst (planner_avail_time_first zkeys on_or_aft duration counts len ctx)) = span_table ctx \<and>
    planner_inv (fst (planner_avail_time_next ctx)) \<and> span_table (fst (planner_avail_time_next ctx)) = span_table ctx"
  using planner_avail_time_first_inv [OF assms] planner_avail_time_next_inv [OF assms(1)] by blast

theorem planner_searches_keep_spans_witness:
  "planner_inv (fst (planner_avail_time_first id 0 2 [8] 1 sample_busy)) \<and>
    span_table (fst (planner_avail_time_first id 0 2 [8] 1 sample_busy)) = span_table sample_busy \<and>
    planner_inv (fst (planner_avail_time_next sample_busy)) \<and>
    span_table (fst (planner_avail_time_next sample_busy)) = span_table sample_busy"
  by (rule planner_searches_keep_spans) simp_all

section \<open>Availability\<close>

lemma sample_busy_spans [simp]:
  "span_lookup sample_busy = [(1, \<lparr>span_start = 2, span_last = 5, span_id = 1, planned = [4, 0, 0, 0, 0],
     span_dimension = 1, in_system = True, start_p = Some 1, last_p = Some 2\<rparr>)]"
  "total_resources sample_busy = [10, 0, 0, 0, 0]" "plan_start sample_busy = 0" "plan_end sample_busy = 100"
  "span_counter sample_busy = 1" "dimension sample_busy = 1"
  by code_simp+

lemma sample_busy_bounded [simp]: "bounded sample_busy"
  by (auto simp: bounded_def less_Suc_eq numeral_eq_Suc)

text \<open>
  C4. \<open>planner_avail_resources_at\<close> returns the total of a resource less what the spans use at that time
  (as an \<open>int64_t\<close>), for every time within the plan.
\<close>

theorem avail_resources_at_usage:
  assumes "planner_inv ctx" and "plan_start ctx \<le> t" and "t \<le> plan_end ctx" and "i < PLANNER_NUM_TYPES"
  shows "planner_avail_resources_at ctx t i =
    Some (i64 (total_resources ctx ! i - usage (map snd (span_lookup ctx)) i t), None)"
  using planner_avail_resources_at_eq [OF assms] by (simp add: free_at_def)

theorem avail_resources_at_usage_witness: "planner_avail_resources_at sample_busy 3 0 = Some (6, None)"
proof -
  have "planner_avail_resources_at sample_busy 3 0 =
      Some (i64 (total_resources sample_busy ! 0 - usage (map snd (span_lookup sample_busy)) 0 3), None)"
    by (rule avail_resources_at_usage) simp_all
  then show ?thesis by (simp add: active_at_def i64_def)
qed

text \<open>
  C5. \<open>planner_avail_during\<close> is exact for a window that ends within the plan: it returns \<open>0\<close> just when
  the request is within what is free at every time of the window.
\<close>

theorem planner_avail_during_exact:
  assumes "planner_inv ctx" and "bounded ctx" and "request_ok len counts" and "len \<le> dimension ctx"
    and "plan_start ctx \<le> t" and "1 \<le> duration" and "t + duration \<le> plan_end ctx"
    and "\<forall>i<len. counts ! i \<le> total_resources ctx ! i"
  shows "planner_avail_during ctx t duration counts len =
    (if \<forall>u i. t \<le> u \<and> u < t + duration \<and> i < len \<longrightarrow>
          counts ! i \<le> total_resources ctx ! i - usage (map snd (span_lookup ctx)) i u
     then 0 else -1, None)"
proof -
  note I = planner_invD [OF assms(1)] and r = request_ok_i64 [OF assms(3)]
  have len: "len \<le> PLANNER_NUM_TYPES" using I(6) assms(4) by simp
  show ?thesis
    using avail_during_iff [OF assms(1,2) r(1) len assms(5-7)] within_totals [OF assms(1-3) len assms(8)] assms(4,6) r(2)
    by (auto simp: planner_avail_during_def fits_window_def free_at_def)
qed

theorem planner_avail_during_exact_witness:
  "planner_avail_during sample_busy 1 2 [7] 1 =
    (if \<forall>u i. 1 \<le> u \<and> u < (1::int) + 2 \<and> i < 1 \<longrightarrow>
          [7] ! i \<le> total_resources sample_busy ! i - usage (map snd (span_lookup sample_busy)) i u
     then 0 else -1, None)"
  by (rule planner_avail_during_exact) (simp_all add: request_ok_def)

lemma avail_time_first_spec:
  assumes "planner_inv ctx" and "bounded ctx" and "zkeys_ok zkeys"
    and "request_ok len counts" and "len \<le> dimension ctx" and "\<forall>i<len. counts ! i \<le> total_resources ctx ! i"
    and "plan_start ctx \<le> on_or_aft" and "on_or_aft < plan_end ctx" and "1 \<le> duration"
    and "\<forall>p\<in>set (points_of ctx). at_of (sp_store ctx) p + duration \<le> INT64_MAX"
    and "mt_ordered (sp_store (restore_track_points zkeys ctx)) (map i64 counts) len
      (inorder (mt_resource_tree (restore_track_points zkeys ctx)))"
  defines "starts \<equiv> {at_of (sp_store ctx) p | p. p \<in> set (points_of ctx) \<and> on_or_aft \<le> at_of (sp_store ctx) p \<and>
      fits_window ctx (at_of (sp_store ctx) p) duration counts len}"
  shows "\<exists>ctx' t. planner_avail_time_first zkeys on_or_aft duration counts len ctx = (ctx', t, None) \<and>
    ((t \<in> starts \<and> t + duration \<le> plan_end ctx \<and> (\<forall>u\<in>starts. t \<le> u)) \<or>
     (t = -1 \<and> (\<forall>u\<in>starts. plan_end ctx < u + duration)))"
proof -
  note I = planner_invD [OF assms(1)] and r = request_ok_i64 [OF assms(4)]
  note rt = restore_track_points_ok [OF I(3) assms(3)]
  have len: "len \<le> PLANNER_NUM_TYPES" using I(6) assms(5) by simp
  define c where "c = (restore_track_points zkeys ctx)\<lparr>avail_time_iter_set := True,
      current_request := copy_req on_or_aft duration counts len\<rparr>"
  have f: "frame_of (restore_track_points zkeys ctx) = frame_of ctx" using rt(2) by (simp add: same_points_def)
  have cf: "total_resources c = total_resources ctx" "plan_end c = plan_end ctx" "span_lookup c = span_lookup ctx"
      "points_of c = points_of ctx" "avail_time_iter c = []"
    using frame_fields(1,5,7) [OF f] rt(2,3) by (simp_all add: c_def same_points_def)
  have cb: "planner_inv c" "bounded c"
    using planner_inv_same_points [OF assms(1) rt(2,1)] same_points_bounded [OF rt(2) assms(2)]
    by (simp_all add: c_def bounded_def)
  have at: "at_of (sp_store c) p = at_of (sp_store ctx) p" if "p \<in> set (points_of ctx)" for p
    using same_points_deref(1) [OF rt(2)] ctx_schedD(5) [OF I(1) that] by (simp add: c_def)
  have win: "fits_window c u duration (map i64 counts) len = fits_window ctx u duration counts len" for u
    using r(2) by (simp add: fits_window_def free_at_def cf)
  have so: "search_ok duration (map i64 counts) len c"
    using planner_invD(3) [OF cb(1)] ctx_schedD(2) [OF planner_invD(1) [OF cb(1)]] assms(9-11) at
    by (simp add: search_ok_def cf) (simp add: c_def)
  have fit: "\<forall>i<len. map i64 counts ! i \<le> total_resources c ! i" using r(2) assms(6) by (simp add: cf)
  have over: "\<forall>p\<in>set (points_of c). at_of (sp_store c) p + duration \<le> INT64_MAX" using assms(10) at by (simp add: cf)
  obtain ctx' t where res: "avail_at on_or_aft duration (map i64 counts) len c = (ctx', t)" by fastforce
  have "planner_avail_time_first zkeys on_or_aft duration counts len ctx = (ctx', t, None)"
    using within_totals [OF assms(1,2,4) len assms(6)] assms(5,7-9) res by (simp add: planner_avail_time_first_def c_def [symmetric] Let_def)
  moreover have "starts = {at_of (sp_store c) p | p. p \<in> set (points_of c) \<and> on_or_aft \<le> at_of (sp_store c) p \<and>
      fits_window c (at_of (sp_store c) p) duration (map i64 counts) len}"
    unfolding starts_def cf win using at by (metis (no_types, lifting))
  ultimately show ?thesis
    using search_result_earliest [OF cb cf(5) r(1) len fit assms(9) over] avail_at_spec [OF so, of on_or_aft] res
    by (simp add: cf(2))
qed

text \<open>
  C6. \<open>planner_avail_time_first\<close> returns the earliest scheduled point, not before the given time, at
  which the request fits for the whole duration, and \<open>-1\<close> when no such window ends within the plan;
  provided the min-time tree it searches is ordered. (It is not always: C13 (avail_time_first_not_earliest).)
\<close>

theorem planner_avail_time_first_earliest:
  assumes "planner_inv ctx" and "bounded ctx" and "zkeys_ok zkeys"
    and "request_ok len counts" and "len \<le> dimension ctx" and "\<forall>i<len. counts ! i \<le> total_resources ctx ! i"
    and "plan_start ctx \<le> on_or_aft" and "on_or_aft < plan_end ctx" and "1 \<le> duration"
    and "\<forall>p\<in>set (points_of ctx). at_of (sp_store ctx) p + duration \<le> INT64_MAX"
    and "mt_ordered (sp_store (restore_track_points zkeys ctx)) (map i64 counts) len
      (inorder (mt_resource_tree (restore_track_points zkeys ctx)))"
  defines "starts \<equiv> {at_of (sp_store ctx) p | p. p \<in> set (points_of ctx) \<and> on_or_aft \<le> at_of (sp_store ctx) p \<and>
      fits_window ctx (at_of (sp_store ctx) p) duration counts len}"
  shows "\<exists>ctx' t. planner_avail_time_first zkeys on_or_aft duration counts len ctx = (ctx', t, None) \<and>
    ((t \<in> starts \<and> t + duration \<le> plan_end ctx \<and> (\<forall>u\<in>starts. t \<le> u)) \<or>
     (t = -1 \<and> (\<forall>u\<in>starts. plan_end ctx < u + duration)))"
  unfolding starts_def by (rule avail_time_first_spec [OF assms(1-11)])

theorem planner_avail_time_first_earliest_witness:
  "\<exists>ctx' t. planner_avail_time_first id 0 2 [8] 1 sample_busy = (ctx', t, None) \<and>
    ((t \<in> {at_of (sp_store sample_busy) p | p. p \<in> set (points_of sample_busy) \<and> 0 \<le> at_of (sp_store sample_busy) p \<and>
        fits_window sample_busy (at_of (sp_store sample_busy) p) 2 [8] 1} \<and> t + 2 \<le> plan_end sample_busy \<and>
      (\<forall>u\<in>{at_of (sp_store sample_busy) p | p. p \<in> set (points_of sample_busy) \<and> 0 \<le> at_of (sp_store sample_busy) p \<and>
        fits_window sample_busy (at_of (sp_store sample_busy) p) 2 [8] 1}. t \<le> u)) \<or>
     (t = -1 \<and> (\<forall>u\<in>{at_of (sp_store sample_busy) p | p. p \<in> set (points_of sample_busy) \<and> 0 \<le> at_of (sp_store sample_busy) p \<and>
        fits_window sample_busy (at_of (sp_store sample_busy) p) 2 [8] 1}. plan_end sample_busy < u + 2)))"
proof (rule planner_avail_time_first_earliest)
  show "\<forall>p\<in>set (points_of sample_busy). at_of (sp_store sample_busy) p + 2 \<le> INT64_MAX" by code_simp
  show "mt_ordered (sp_store (restore_track_points id sample_busy)) (map i64 [8]) 1
      (inorder (mt_resource_tree (restore_track_points id sample_busy)))" by code_simp
qed (simp_all add: request_ok_def)

text \<open>
  C7. No over-allocation: adding a span whose window ends within the plan keeps the planned counts of
  every resource at every time within its total. (For a window past the end it does not: see \<open>add_span_past_end_overcommits\<close>.)
\<close>

theorem planner_add_span_no_overcommit:
  assumes "planner_inv ctx" and "bounded ctx" and "zkeys_ok zkeys" and "request_ok len counts"
    and "span_counter ctx < INT64_MAX" and "start_time + duration \<le> plan_end ctx"
    and "planner_add_span zkeys start_time duration counts len ctx = Some (ctx', r, e)" and "i < PLANNER_NUM_TYPES"
  shows "usage (map snd (span_lookup ctx')) i t \<le> total_resources ctx' ! i"
proof (cases "fst (avail_during start_time duration (map i64 counts) len ctx) \<and>
    span_input_check ctx start_time duration (map i64 counts) len = None")
  case False
  from planner_add_span_rejected [OF False, of zkeys] assms(2,7,8) show ?thesis by (simp add: bounded_def)
next
  case True
  note I = planner_invD [OF assms(1)] and r = request_ok_i64 [OF assms(4)]
  have c: "plan_start ctx \<le> start_time" "1 \<le> duration" "len \<le> PLANNER_NUM_TYPES"
    using True span_input_check_None by blast+
  have args: "add_args_ok start_time duration counts len"
    using assms(4,6) c I(8) by (simp add: add_args_ok_def request_ok_def time_ok_def)
  let ?s = "new_span start_time duration counts len (span_counter ctx + 1)"
  obtain a b where f: "frame_of ctx' = (frame_of ctx)\<lparr>avail_time_iter_set := False,
      span_counter := span_counter ctx + 1, span_lookup := (span_counter ctx + 1, placed_at a b ?s) # span_lookup ctx\<rparr>"
    using planner_add_span_ok [OF assms(1,3) args assms(5)] True assms(7) by fastforce
  have ff: "spans_of ctx' = placed_at a b ?s # spans_of ctx" "total_resources ctx' = total_resources ctx"
    using f [THEN arg_cong, of span_lookup] f [THEN arg_cong, of total_resources] by (simp_all add: frame_of_def)
  have "fits_window ctx start_time duration (map i64 counts) len"
    using avail_during_iff [OF assms(1,2) r(1) c(3,1,2) assms(6)] True by simp
  then have win: "planned ?s ! j \<le> free_at ctx j u" if "j < PLANNER_NUM_TYPES" "active_at u ?s" for u j
    using that free_bounds(1) [OF assms(1,2) that(1), of u] assms(4)
    by (auto simp: new_span_def active_at_def fits_window_def nth_padded request_ok_def)
  have "\<forall>x\<in>set (planned ?s). 0 \<le> x"
    using r(1) by (auto simp: new_span_def padded_def request_ok_def)
  from bounded_add [OF assms(2) ff this win] assms(8) show ?thesis by (simp add: bounded_def)
qed

theorem planner_add_span_no_overcommit_witness:
  "usage (map snd (span_lookup sample_busy)) 0 3 \<le> total_resources sample_busy ! 0"
  by (rule planner_add_span_no_overcommit [OF sample_inv sample_bounded zkeys_id _ _ _ sample_add_ok])
    (simp_all add: request_ok_def)





section \<open>The trees\<close>

text \<open>
  C10. Inserting a point of a new time into the scheduled-point tree succeeds, keeps the red-black shape
  and the time order, and afterwards exactly the old points and the new one are found by their times.
\<close>

theorem scheduled_point_insert_found:
  assumes "rb_tree t" and "sp_sorted h (inorder t)" and "time_ok (at_of h p)"
    and "\<forall>q\<in>set (inorder t). at_of h q \<noteq> at_of h p"
  shows "\<exists>t'. scheduled_point_insert h p t = Some t' \<and> rb_tree t' \<and> sp_sorted h (inorder t') \<and>
    (\<forall>x. time_ok x \<longrightarrow> scheduled_point_search h x t' =
       (if x = at_of h p then Some p else scheduled_point_search h x t))"
proof -
  obtain t' where t': "scheduled_point_insert h p t = Some t'" "rb_tree t'"
      "inorder t' = filter (\<lambda>q. at_of h q < at_of h p) (inorder t) @ p # filter (\<lambda>q. at_of h p < at_of h q) (inorder t)"
    using scheduled_point_insert_new [OF assms(2-4,1)] by metis
  have mem: "set (inorder t') = insert p (set (inorder t))" using assms(4) by (force simp: t'(3))
  have s': "sp_sorted h (inorder t')" using assms(2,3) by (auto simp: t'(3))
  have "scheduled_point_search h x t' = (if x = at_of h p then Some p else scheduled_point_search h x t)"
    if "time_ok x" for x
  proof (cases "x = at_of h p")
    case True
    then show ?thesis using scheduled_point_search_Some [OF s' that] mem by auto
  next
    case False
    then have "scheduled_point_search h x t' = Some q \<longleftrightarrow> scheduled_point_search h x t = Some q" for q
      using scheduled_point_search_Some [OF s' that] scheduled_point_search_Some [OF assms(2) that] mem by auto
    then have "scheduled_point_search h x t' = scheduled_point_search h x t" by (metis option.exhaust)
    with False show ?thesis by simp
  qed
  with t'(1,2) s' show ?thesis by blast
qed

definition sample_store :: sp_heap where
  "sample_store = map (\<lambda>t. \<lparr>sp_at = t, in_mt_resource_tree = False, new_point = False, ref_count = 1,
     scheduled = zero_array, remaining = [t mod 5, 0, 0, 0, 0]\<rparr>) [0, 7, 3, 9]"

definition sample_tree :: sp_tree where
  "sample_tree = the (scheduled_point_insert sample_store 2 (the (scheduled_point_insert sample_store 1
     (the (scheduled_point_insert sample_store 0 RbNil)))))"

lemma sample_tree_ok [simp]:
  "rb_tree sample_tree" "inorder sample_tree = [0, 2, 1]" "at_of sample_store 0 = 0" "at_of sample_store 1 = 7"
  "at_of sample_store 2 = 3" "at_of sample_store 3 = 9"
  by code_simp+

theorem scheduled_point_insert_found_witness:
  "\<exists>t'. scheduled_point_insert sample_store 3 sample_tree = Some t' \<and> rb_tree t' \<and> sp_sorted sample_store (inorder t') \<and>
    (\<forall>x. time_ok x \<longrightarrow> scheduled_point_search sample_store x t' =
       (if x = at_of sample_store 3 then Some 3 else scheduled_point_search sample_store x sample_tree))"
  by (rule scheduled_point_insert_found) (simp_all add: time_ok_def del: One_nat_def)

text \<open>
  C11. \<open>rb_erase_augmented\<close> deletes exactly its object from the sequence, keeps the red-black shape (and
  with it the logarithmic height) and, for the min-time tree, the least time of every subtree.
\<close>

theorem rb_erase_augmented_correct:
  fixes p :: sp_ptr
  assumes "rb_tree t" and "distinct (inorder t)" and "aug_ok (mintime_resource_subtree_min h) t"
  defines "t' \<equiv> rb_erase_augmented (mintime_resource_subtree_min h) p t"
  shows "inorder t' = filter (\<lambda>q. q \<noteq> p) (inorder t) \<and> rb_tree t' \<and>
    aug_ok (mintime_resource_subtree_min h) t' \<and> 2 ^ rb_height t' \<le> (Suc (length (inorder t')))\<^sup>2 \<and>
    (\<forall>m. rb_aug t' = Some m \<longrightarrow> (\<exists>q\<in>set (inorder t'). at_of h q = m) \<and> (\<forall>q\<in>set (inorder t'). m \<le> at_of h q))"
proof -
  have "aug_ok (mintime_resource_subtree_min h) t'" unfolding t'_def using assms(3) by (rule mt.aug_ok_erase)
  moreover have "rb_tree t'" unfolding t'_def using assms(1) by (rule rb_tree_erase)
  ultimately show ?thesis
    using rb_aug_least [of h t'] rb_height_log [of t'] assms(2) by (simp add: t'_def)
qed

definition sample_mt :: "sp_heap \<times> mt_tree" where
  "sample_mt = fold (mintime_resource_insert 1) [0, 1, 2, 3] (sample_store, RbNil)"

theorem rb_erase_augmented_correct_witness:
  "inorder (rb_erase_augmented (mintime_resource_subtree_min (fst sample_mt)) 2 (snd sample_mt)) = [0, 1, 3]"
proof -
  have "rb_tree (snd sample_mt)" "distinct (inorder (snd sample_mt))"
    "aug_ok (mintime_resource_subtree_min (fst sample_mt)) (snd sample_mt)" "inorder (snd sample_mt) = [0, 1, 2, 3]"
    by code_simp+
  with rb_erase_augmented_correct [OF this(1-3), of 2] show ?thesis by simp
qed

text \<open>
  \<open>mintime_resource_mintime\<close> on an ordered tree returns a point of least time among those that
  hold the request, and the null pointer just when there is none.
\<close>

theorem mintime_resource_mintime_least:
  assumes "aug_ok (mintime_resource_subtree_min h) t"
    and "sorted_wrt (\<lambda>p q. rescmp ra (remaining_of h p) len \<le> 0 \<longrightarrow> rescmp ra (remaining_of h q) len \<le> 0) (inorder t)"
    and "\<forall>p\<in>set (inorder t). at_of h p < INT64_MAX"
  shows "case mintime_resource_mintime h ra len t of
      None \<Rightarrow> \<forall>p\<in>set (inorder t). rescmp ra (remaining_of h p) len > 0
    | Some p \<Rightarrow> p \<in> set (inorder t) \<and> rescmp ra (remaining_of h p) len \<le> 0 \<and>
        (\<forall>q\<in>set (inorder t). rescmp ra (remaining_of h q) len \<le> 0 \<longrightarrow> at_of h p \<le> at_of h q)"
  using mintime_resource_mintime_spec [OF assms(1) _ assms(3), of ra len] assms(2)
  by (auto simp: holds_def not_le)

theorem mintime_resource_mintime_least_witness:
  "case mintime_resource_mintime (fst sample_mt) [3] 1 (snd sample_mt) of
      None \<Rightarrow> \<forall>p\<in>set (inorder (snd sample_mt)). rescmp [3] (remaining_of (fst sample_mt) p) 1 > 0
    | Some p \<Rightarrow> p \<in> set (inorder (snd sample_mt)) \<and> rescmp [3] (remaining_of (fst sample_mt) p) 1 \<le> 0 \<and>
        (\<forall>q\<in>set (inorder (snd sample_mt)). rescmp [3] (remaining_of (fst sample_mt) q) 1 \<le> 0 \<longrightarrow>
           at_of (fst sample_mt) p \<le> at_of (fst sample_mt) q)"
  by (rule mintime_resource_mintime_least; code_simp)

text \<open>
  C12. \<open>rescmp\<close> against non-negative counts that sum to an \<open>int\<close> decides whether the first array is
  component-wise at most the second.
\<close>

theorem rescmp_componentwise:
  assumes "len \<le> length xs" and "len \<le> length ys"
    and "\<forall>x\<in>set (take len xs). 0 \<le> x \<and> x \<le> INT64_MAX" and "\<forall>y\<in>set (take len ys). 0 \<le> y"
    and "sum_list (take len ys) \<le> 2147483647"
  shows "rescmp xs ys len \<le> 0 \<longleftrightarrow> (\<forall>i<len. xs ! i \<le> ys ! i)"
  using assms by (intro rescmp_le_0) (auto simp: request_ok_def counts_fit_def)

theorem rescmp_componentwise_witness: "rescmp [1, 5] [2, 4] 2 \<le> 0 \<longleftrightarrow> (\<forall>i<2. [1, 5::int] ! i \<le> [2, 4] ! i)"
  by (rule rescmp_componentwise) simp_all

section \<open>Where the planner falls short\<close>

text \<open>A sequence of calls to \<open>planner_add_span\<close> and \<open>planner_avail_time_first\<close> for one resource.\<close>

datatype call = AddSpan int int int | AvailFirst int int int

fun run_call :: "call \<Rightarrow> planner \<Rightarrow> planner" where
  "run_call (AddSpan t d n) ctx = (case planner_add_span id t d [n] 1 ctx of Some (ctx', _) \<Rightarrow> ctx' | None \<Rightarrow> ctx)"
| "run_call (AvailFirst t d n) ctx = fst (planner_avail_time_first id t d [n] 1 ctx)"

definition after_calls :: "call list \<Rightarrow> planner" where
  "after_calls cs = fold run_call cs sample_planner"


text \<open>
  It can return a time at which the request does not fit: when a misordered tree hides the good
  points, \<open>avail_at\<close> returns the time of the last point that \<open>span_ok\<close> rejected.
\<close>

theorem avail_time_first_not_sound:
  "let ctx = after_calls [AddSpan 1 4 8, AvailFirst 4 1 9, AddSpan 7 4 2, AvailFirst 2 3 4, AddSpan 0 6 1]
   in snd (planner_avail_time_first id 1 4 [10] 1 ctx) = (6, None) \<and>
      planner_avail_during ctx 6 4 [10] 1 = (-1, None)"
  by code_simp

text \<open>
  A window past the end of the plan passes \<open>avail_during\<close> (its \<open>return -1\<close> is \<open>true\<close>), and
  \<open>planner_add_span\<close> accepts a span that ends one past the plan: the resource is over-allocated.
\<close>

theorem add_span_past_end_overcommits:
  "let ctx = after_calls [AddSpan 90 10 10]
   in planner_avail_during ctx 95 6 [1] 1 = (0, Some ERANGE) \<and>
      (case planner_add_span id 95 6 [1] 1 ctx of
         Some (ctx', sid, _) \<Rightarrow> sid = 2 \<and> planner_avail_resources_at ctx' 95 0 = Some (-1, None)
       | None \<Rightarrow> False)"
  by code_simp

text \<open>
  Outside the bounds of C12 (rescmp_componentwise), \<open>rescmp\<close> is wrong: its accumulator is an \<open>int\<close>, so with more than
  \<open>2^31\<close> units free a request for one unit is refused.
\<close>

theorem rescmp_wraps:
  "rescmp [1] [3000000000] 1 > 0 \<and>
   (case planner_new 0 100 [3000000000] [''core''] 1 of
      Inr ctx \<Rightarrow> planner_avail_during ctx 0 10 [1] 1 = (-1, Some ERANGE) | Inl _ \<Rightarrow> False)"
  by code_simp

end
