(* ===== verification/Planner_Window.thy ===== *)
theory Planner_Window
  imports Planner_Properties
begin






end
