(* ===== verification/Jobspec.thy ===== *)
theory Jobspec
  imports Prelude
begin

text \<open>
  The job specification of \<open>jobspec.hpp\<close> and its parser in \<open>jobspec.cpp\<close>.

  The parser works on \<open>YAML::Node\<close> values of yaml-cpp. A node is a value of \<open>yaml\<close>; the typed
  conversions \<open>node.as<T> ()\<close> are the fields of the parameter \<open>yaml_cpp\<close>, with \<open>None\<close> for the
  exception they throw. A thrown \<open>parse_error\<close> is its message; its position fields are left out.
\<close>

section \<open>Data\<close>

datatype tristate = Tri_FALSE | Tri_TRUE | Tri_UNSPECIFIED

record count_spec =
  c_min :: int
  c_max :: int
  c_oper :: char
  c_operand :: int

datatype resource = Resource
  (r_type: string)
  (r_count: count_spec)
  (r_unit: string)
  (r_label: string)
  (r_id: string)
  (r_exclusive: tristate)
  (r_with: "resource list")
  (r_user_data: "(string \<times> int) list")

record task =
  t_command :: "string list"
  t_slot :: string
  t_count :: "(string \<times> string) list"
  t_distribution :: string
  t_attributes :: "(string \<times> string) list"

record jobspec =
  j_version :: int
  j_resources :: "resource list"
  j_tasks :: "task list"
  j_attributes :: "(string \<times> (string \<times> string) list) list"

datatype yaml =
    YNull
  | YScalar string
  | YSeq "yaml list"
  | YMap "(yaml \<times> yaml) list"

record yaml_cpp =
  as_unsigned :: "yaml \<Rightarrow> int option"
  as_int :: "yaml \<Rightarrow> int option"
  as_char :: "yaml \<Rightarrow> char option"
  as_string :: "yaml \<Rightarrow> string option"

datatype parse_error = parse_error string | yaml_exception

type_synonym 'a parsed = "parse_error + 'a"

section \<open>Nodes\<close>

fun is_scalar :: "yaml \<Rightarrow> bool" where
  "is_scalar (YScalar s) = True"
| "is_scalar _ = False"

fun is_map :: "yaml \<Rightarrow> bool" where
  "is_map (YMap kvs) = True"
| "is_map _ = False"

fun yaml_size :: "yaml \<Rightarrow> nat" where
  "yaml_size (YSeq xs) = length xs"
| "yaml_size (YMap kvs) = length kvs"
| "yaml_size _ = 0"

text \<open>\<open>node["key"]\<close>: the value of the first entry with that key.\<close>

fun yaml_get :: "yaml \<Rightarrow> string \<Rightarrow> yaml option" where
  "yaml_get (YMap kvs) key = map_of kvs (YScalar key)"
| "yaml_get _ key = None"

definition conv :: "('a \<Rightarrow> 'b option) \<Rightarrow> 'a \<Rightarrow> 'b parsed" where
  "conv f x = (case f x of None \<Rightarrow> Inl yaml_exception | Some y \<Rightarrow> Inr y)"

definition and_then :: "'a parsed \<Rightarrow> ('a \<Rightarrow> 'b parsed) \<Rightarrow> 'b parsed" where
  "and_then p f = (case p of Inl e \<Rightarrow> Inl e | Inr x \<Rightarrow> f x)"

lemma and_then_simps [simp]: "and_then (Inl e) f = Inl e" "and_then (Inr x) f = f x"
  by (simp_all add: and_then_def)

lemma and_then_Inr: "and_then p f = Inr y \<longleftrightarrow> (\<exists>x. p = Inr x \<and> f x = Inr y)"
  by (cases p) simp_all

lemma conv_Inr [simp]: "conv f x = Inr y \<longleftrightarrow> f x = Some y"
  by (simp add: conv_def split: option.split)

lemma and_then_cong [fundef_cong]:
  "p = p' \<Longrightarrow> (\<And>x. p' = Inr x \<Longrightarrow> f x = f' x) \<Longrightarrow> and_then p f = and_then p' f'"
  by (cases p') simp_all

text \<open>A key whose value has to be a scalar; with a message for a missing key, when it is required.\<close>

definition scalar_at :: "yaml \<Rightarrow> string \<Rightarrow> string \<Rightarrow> string \<Rightarrow> yaml parsed" where
  "scalar_at node key missing not_scalar =
     (case yaml_get node key of
        None \<Rightarrow> Inl (parse_error missing)
      | Some v \<Rightarrow> if is_scalar v then Inr v else Inl (parse_error not_scalar))"

definition opt_scalar_at :: "yaml_cpp \<Rightarrow> yaml \<Rightarrow> string \<Rightarrow> string \<Rightarrow> string option parsed" where
  "opt_scalar_at y node key not_scalar =
     (case yaml_get node key of
        None \<Rightarrow> Inr None
      | Some v \<Rightarrow>
          if is_scalar v then and_then (conv (as_string y) v) (\<lambda>s. Inr (Some s))
          else Inl (parse_error not_scalar))"

section \<open>Parsing\<close>

definition default_count :: count_spec where
  "default_count = \<lparr>c_min = 0, c_max = 0, c_oper = CHR ''+'', c_operand = 1\<rparr>"

definition parse_yaml_count :: "yaml_cpp \<Rightarrow> yaml \<Rightarrow> count_spec parsed" where
  "parse_yaml_count y cnode =
     (if is_scalar cnode then
        and_then (conv (as_unsigned y) cnode) (\<lambda>n. Inr (default_count\<lparr>c_min := n, c_max := n\<rparr>))
      else if \<not> is_map cnode then Inl (parse_error ''count is not a mapping'')
      else
        and_then (scalar_at cnode ''min'' ''Key \"min\" missing from count'' ''Value of \"min\" must be a scalar'') (\<lambda>n_min.
        and_then (scalar_at cnode ''max'' ''Key \"max\" missing from count'' ''Value of \"max\" must be a scalar'') (\<lambda>n_max.
        and_then (scalar_at cnode ''operator'' ''Key \"operator\" missing from count''
          ''Value of \"operator\" must be a scalar'') (\<lambda>n_oper.
        and_then (scalar_at cnode ''operand'' ''Key \"operand\" missing from count''
          ''Value of \"operand\" must be a scalar'') (\<lambda>n_operand.
        and_then (conv (as_unsigned y) n_min) (\<lambda>mn.
        if mn < 1 then Inl (parse_error ''\"min\" must be greater than zero'')
        else and_then (conv (as_unsigned y) n_max) (\<lambda>mx.
        if mx < 1 then Inl (parse_error ''\"max\" must be greater than zero'')
        else if mx < mn then Inl (parse_error ''\"max\" must be greater than or equal to \"min\"'')
        else and_then (conv (as_char y) n_oper) (\<lambda>oper.
        if oper \<notin> set ''+*^'' then Inl (parse_error ''Invalid count operator'')
        else and_then (conv (as_int y) n_operand) (\<lambda>operand.
        Inr \<lparr>c_min = mn, c_max = mx, c_oper = oper, c_operand = operand\<rparr>)))))))))"

definition parse_exclusive :: "yaml_cpp \<Rightarrow> yaml \<Rightarrow> tristate option parsed" where
  "parse_exclusive y resnode =
     and_then (opt_scalar_at y resnode ''exclusive'' ''Value of \"exclusive\" must be a scalar'') (\<lambda>val.
     case val of
       None \<Rightarrow> Inr None
     | Some s \<Rightarrow>
         if s = ''false'' then Inr (Some Tri_FALSE)
         else if s = ''true'' then Inr (Some Tri_TRUE)
         else Inl (parse_error ''Value of \"exclusive\" must be either \"true\" or \"false\"''))"

text \<open>
  The constructor \<open>Resource (resnode)\<close>, up to and from the recursive call on \<open>with\<close>. The field count
  counts the keys that were recognised.
\<close>

definition parse_resource_head :: "yaml_cpp \<Rightarrow> yaml \<Rightarrow>
    (string \<times> count_spec \<times> string option \<times> tristate option) parsed" where
  "parse_resource_head y resnode =
     (if \<not> is_map resnode then Inl (parse_error ''resource is not a mapping'')
      else and_then (scalar_at resnode ''type'' ''Key \"type\" missing from resource'' ''Value of \"type\" must be a scalar'')
        (\<lambda>n_type. and_then (conv (as_string y) n_type) (\<lambda>ty.
        (case yaml_get resnode ''count'' of
           None \<Rightarrow> Inl (parse_error ''Key \"count\" missing from resource'')
         | Some n_count \<Rightarrow> and_then (parse_yaml_count y n_count) (\<lambda>count.
             and_then (opt_scalar_at y resnode ''unit'' ''Value of \"unit\" must be a scalar'') (\<lambda>un.
             and_then (parse_exclusive y resnode) (\<lambda>excl. Inr (ty, count, un, excl))))))))"

definition present :: "'a option \<Rightarrow> nat" where
  "present x = (if x = None then 0 else 1)"

definition parse_resource_tail :: "yaml_cpp \<Rightarrow> yaml \<Rightarrow> string \<times> count_spec \<times> string option \<times> tristate option \<Rightarrow>
    resource list option \<Rightarrow> resource parsed" where
  "parse_resource_tail y resnode hdr wth =
     (case hdr of (ty, count, un, excl) \<Rightarrow>
        and_then (opt_scalar_at y resnode ''label'' ''Value of \"label\" must be a scalar'') (\<lambda>label.
        if label = None \<and> ty = ''slot'' then Inl (parse_error ''All slots must be labeled'')
        else and_then (opt_scalar_at y resnode ''id'' ''Value of \"id\" must be a scalar'') (\<lambda>ident.
        let field_count = 2 + present un + present excl + present wth + present label + present ident
        in if field_count \<noteq> yaml_size resnode then Inl (parse_error ''Unrecognized key in resource mapping'')
           else if yaml_size resnode < 2 \<or> yaml_size resnode > 10
           then Inl (parse_error ''impossible number of entries in resource mapping'')
           else Inr (Resource ty count (case un of None \<Rightarrow> [] | Some u \<Rightarrow> u)
             (case label of None \<Rightarrow> [] | Some l \<Rightarrow> l) (case ident of None \<Rightarrow> [] | Some i \<Rightarrow> i)
             (case excl of None \<Rightarrow> Tri_UNSPECIFIED | Some e \<Rightarrow> e)
             (case wth of None \<Rightarrow> [] | Some w \<Rightarrow> w) []))))"

lemma size_map_of: "map_of kvs k = Some v \<Longrightarrow> size v < size (YMap kvs)"
proof (induction kvs)
  case (Cons kv kvs)
  then show ?case by (cases kv) (auto split: if_splits)
qed simp

lemma size_yaml_get: "yaml_get node k = Some v \<Longrightarrow> size v < size node"
  using size_map_of by (cases node) auto

function parse_resource :: "yaml_cpp \<Rightarrow> yaml \<Rightarrow> resource parsed"
  and parse_yaml_resources :: "yaml_cpp \<Rightarrow> yaml \<Rightarrow> resource list parsed"
  and parse_resource_list :: "yaml_cpp \<Rightarrow> yaml list \<Rightarrow> resource list parsed" where
  "parse_resource y resnode =
     and_then (parse_resource_head y resnode) (\<lambda>hdr.
       case yaml_get resnode ''with'' of
         None \<Rightarrow> parse_resource_tail y resnode hdr None
       | Some w \<Rightarrow> and_then (parse_yaml_resources y w) (\<lambda>rs. parse_resource_tail y resnode hdr (Some rs)))"
| "parse_yaml_resources y resources =
     (case resources of
        YSeq xs \<Rightarrow> parse_resource_list y xs
      | _ \<Rightarrow> Inl (parse_error ''\"resources\" is not a sequence''))"
| "parse_resource_list y [] = Inr []"
| "parse_resource_list y (x # xs) =
     and_then (parse_resource y x) (\<lambda>r. and_then (parse_resource_list y xs) (\<lambda>rs. Inr (r # rs)))"
  by pat_completeness auto
termination
  by (relation "measure (\<lambda>x. case x of Inl (_, n) \<Rightarrow> 3 * size n + 1
      | Inr (Inl (_, n)) \<Rightarrow> 3 * size n + 2 | Inr (Inr (_, ns)) \<Rightarrow> 3 * size_list size ns)")
    (auto dest: size_yaml_get)

fun map_parsed :: "('a \<Rightarrow> 'b parsed) \<Rightarrow> 'a list \<Rightarrow> 'b list parsed" where
  "map_parsed f [] = Inr []"
| "map_parsed f (x # xs) = and_then (f x) (\<lambda>y. and_then (map_parsed f xs) (\<lambda>ys. Inr (y # ys)))"

text \<open>A map assigned by \<open>m[key] = value\<close> in order: a later entry replaces an earlier one.\<close>

definition assign :: "'k \<Rightarrow> 'v \<Rightarrow> ('k \<times> 'v) list \<Rightarrow> ('k \<times> 'v) list" where
  "assign k v m = (if k \<in> fst ` set m then map (\<lambda>(j, w). if j = k then (j, v) else (j, w)) m else m @ [(k, v)])"

fun string_map_from :: "yaml_cpp \<Rightarrow> (yaml \<times> yaml) list \<Rightarrow> (string \<times> string) list \<Rightarrow> (string \<times> string) list parsed" where
  "string_map_from y [] acc = Inr acc"
| "string_map_from y ((k, v) # kvs) acc =
     and_then (conv (as_string y) v) (\<lambda>s. and_then (conv (as_string y) k) (\<lambda>key.
       string_map_from y kvs (assign key s acc)))"

definition string_map_at :: "yaml_cpp \<Rightarrow> yaml \<Rightarrow> string \<Rightarrow> string \<Rightarrow> (string \<times> string) list parsed" where
  "string_map_at y node key not_map =
     (case yaml_get node key of
        None \<Rightarrow> Inr []
      | Some (YMap kvs) \<Rightarrow> string_map_from y kvs []
      | Some _ \<Rightarrow> Inl (parse_error not_map))"

definition parse_command :: "yaml_cpp \<Rightarrow> yaml \<Rightarrow> string list parsed" where
  "parse_command y tasknode =
     (case yaml_get tasknode ''command'' of
        None \<Rightarrow> Inl (parse_error ''Key \"command\" missing from task'')
      | Some (YSeq xs) \<Rightarrow> map_parsed (conv (as_string y)) xs
      | Some (YScalar s) \<Rightarrow> and_then (conv (as_string y) (YScalar s)) (\<lambda>c. Inr [c])
      | Some _ \<Rightarrow> Inl (parse_error ''\"command\" value must be a scalar or a sequence''))"

definition parse_task :: "yaml_cpp \<Rightarrow> yaml \<Rightarrow> task parsed" where
  "parse_task y tasknode =
     (if \<not> is_map tasknode then Inl (parse_error ''task is not a mapping'')
      else and_then (parse_command y tasknode) (\<lambda>command.
        and_then (scalar_at tasknode ''slot'' ''Key \"slot\" missing from task''
          ''Value of task \"slot\" must be a YAML scalar'') (\<lambda>n_slot.
        and_then (conv (as_string y) n_slot) (\<lambda>slot.
        and_then (string_map_at y tasknode ''count'' ''\"count\" in task is not a mapping'') (\<lambda>count.
        and_then (opt_scalar_at y tasknode ''distribution''
          ''Value of task \"distribution\" must be a YAML scalar'') (\<lambda>distribution.
        and_then (string_map_at y tasknode ''attributes'' ''\"attributes\" in task is not a mapping'') (\<lambda>attributes.
        if yaml_size tasknode < 3 \<or> yaml_size tasknode > 5
        then Inl (parse_error ''impossible number of entries in task mapping'')
        else Inr \<lparr>t_command = command, t_slot = slot, t_count = count,
          t_distribution = (case distribution of None \<Rightarrow> [] | Some d \<Rightarrow> d), t_attributes = attributes\<rparr>)))))))"

definition parse_yaml_tasks :: "yaml_cpp \<Rightarrow> yaml \<Rightarrow> task list parsed" where
  "parse_yaml_tasks y tasks =
     (case tasks of
        YSeq xs \<Rightarrow> map_parsed (parse_task y) xs
      | _ \<Rightarrow> Inl (parse_error ''\"tasks\" is not a sequence''))"

text \<open>
  The attributes: \<open>attributes[i][j] = value\<close>. An entry of the outer map exists only once one of its
  inner entries is assigned.
\<close>

fun inner_attributes :: "yaml_cpp \<Rightarrow> yaml \<Rightarrow> (yaml \<times> yaml) list \<Rightarrow> (string \<times> (string \<times> string) list) list \<Rightarrow>
    (string \<times> (string \<times> string) list) list parsed" where
  "inner_attributes y i [] acc = Inr acc"
| "inner_attributes y i ((j, v) # kvs) acc =
     and_then (conv (as_string y) v) (\<lambda>s.
     and_then (conv (as_string y) i) (\<lambda>ki.
     and_then (conv (as_string y) j) (\<lambda>kj.
       inner_attributes y i kvs
         (assign ki (assign kj s (case map_of acc ki of None \<Rightarrow> [] | Some m \<Rightarrow> m)) acc))))"

fun outer_attributes :: "yaml_cpp \<Rightarrow> (yaml \<times> yaml) list \<Rightarrow> (string \<times> (string \<times> string) list) list \<Rightarrow>
    (string \<times> (string \<times> string) list) list parsed" where
  "outer_attributes y [] acc = Inr acc"
| "outer_attributes y ((i, YMap kvs) # rest) acc =
     and_then (inner_attributes y i kvs acc) (outer_attributes y rest)"
| "outer_attributes y ((i, _) # rest) acc = Inl (parse_error ''value of attribute is not a mapping'')"

definition parse_attributes :: "yaml_cpp \<Rightarrow> yaml \<Rightarrow> (string \<times> (string \<times> string) list) list parsed" where
  "parse_attributes y attrs =
     (case attrs of
        YNull \<Rightarrow> Inr []
      | YMap kvs \<Rightarrow> outer_attributes y kvs []
      | _ \<Rightarrow> Inl (parse_error ''\"attributes\" is not a mapping''))"

text \<open>
  The constructor \<open>Jobspec (top)\<close>; the constructors from a string or a stream load the top node with
  \<open>YAML::Load\<close> first, the parameter \<open>yaml_load\<close> of \<open>parse_jobspec_text\<close>.
\<close>

definition parse_jobspec :: "yaml_cpp \<Rightarrow> yaml \<Rightarrow> jobspec parsed" where
  "parse_jobspec y topnode =
     (if \<not> is_map topnode then Inl (parse_error ''Top level of jobspec is not a mapping'')
      else (case (yaml_get topnode ''version'', yaml_get topnode ''resources'', yaml_get topnode ''tasks'', yaml_get topnode ''attributes'') of
          (None, _, _, _) \<Rightarrow> Inl (parse_error ''Missing key \"version\" in top level mapping'')
        | (Some _, None, _, _) \<Rightarrow> Inl (parse_error ''Missing key \"resource\" in top level mapping'')
        | (Some _, Some _, None, _) \<Rightarrow> Inl (parse_error ''Missing key \"tasks\" in top level mapping'')
        | (Some _, Some _, Some _, None) \<Rightarrow> Inl (parse_error ''Missing key \"attributes\" in top level mapping'')
        | (Some n_version, Some n_resources, Some n_tasks, Some n_attributes) \<Rightarrow>
            if yaml_size topnode \<noteq> 4
            then Inl (parse_error ''Top mapping in jobspec must have exactly four entries'')
            else if \<not> is_scalar n_version
            then Inl (parse_error ''\"version\" must be an unsigned integer'')
            else and_then (conv (as_unsigned y) n_version) (\<lambda>version.
              if version \<noteq> 1 then Inl (parse_error ''Only jobspec \"version\" 1 is supported'')
              else and_then (parse_attributes y n_attributes) (\<lambda>attributes.
                and_then (parse_yaml_resources y n_resources) (\<lambda>resources.
                and_then (parse_yaml_tasks y n_tasks) (\<lambda>tasks.
                Inr \<lparr>j_version = version, j_resources = resources, j_tasks = tasks, j_attributes = attributes\<rparr>))))))"

definition parse_jobspec_text :: "yaml_cpp \<Rightarrow> (string \<Rightarrow> yaml option) \<Rightarrow> string \<Rightarrow> jobspec parsed" where
  "parse_jobspec_text y yaml_load s = and_then (conv yaml_load s) (parse_jobspec y)"

section \<open>Printing\<close>

text \<open>\<open>IndentingOStreambuf\<close>: the indent goes before the first character of every line that is not empty.\<close>

abbreviation NL :: char where
  "NL \<equiv> CHR 0x0A"

fun indent_from :: "nat \<Rightarrow> bool \<Rightarrow> string \<Rightarrow> string" where
  "indent_from n at_start [] = []"
| "indent_from n at_start (c # s) =
     (if at_start \<and> c \<noteq> NL then replicate n (CHR '' '') else []) @ c # indent_from n (c = NL) s"

definition indented :: "nat \<Rightarrow> string \<Rightarrow> string" where
  "indented n s = indent_from n True s"

definition line :: "string \<Rightarrow> string" where
  "line s = s @ [NL]"

fun print_resource :: "resource \<Rightarrow> string" where
  "print_resource (Resource ty count un label ident excl wth ud) =
     line (''- type: '' @ ty) @
     line ''  count:'' @
     line (''    min:  '' @ show_int (c_min count)) @
     line (''    max: '' @ show_int (c_max count)) @
     line (''    operator: '' @ [c_oper count]) @
     line (''    operand: '' @ show_int (c_operand count)) @
     (if length un > 0 then line (''  unit: '' @ un) else []) @
     (if length label > 0 then line (''  label: '' @ label) else []) @
     (if length ident > 0 then line (''  id: '' @ ident) else []) @
     (case excl of Tri_TRUE \<Rightarrow> line ''  exclusive: true'' | Tri_FALSE \<Rightarrow> line ''  exclusive: false''
       | Tri_UNSPECIFIED \<Rightarrow> []) @
     (if length wth > 0 then line ''  with:'' @ indented 4 (concat (map print_resource wth)) else [])"

fun join :: "string \<Rightarrow> string list \<Rightarrow> string" where
  "join sep [] = []"
| "join sep [x] = x"
| "join sep (x # xs) = x @ sep @ join sep xs"

definition quoted :: "string \<Rightarrow> string" where
  "quoted s = CHR 0x22 # s @ [CHR 0x22]"

definition print_task :: "task \<Rightarrow> string" where
  "print_task t =
     line (''command: [ '' @ join '', '' (map quoted (t_command t)) @ '' ]'') @
     line (''slot: '' @ t_slot t) @
     (if length (t_count t) > 0
      then line ''count:'' @ indented 2 (concat (map (\<lambda>(k, v). line (k @ '': '' @ v)) (t_count t))) else []) @
     (if length (t_distribution t) > 0 then line (''distribution: '' @ t_distribution t) else []) @
     (if length (t_attributes t) > 0
      then line ''attributes:'' @ indented 2 (concat (map (\<lambda>(k, v). k @ '': '' @ v) (t_attributes t))) else [])"

definition print_jobspec :: "jobspec \<Rightarrow> string" where
  "print_jobspec j =
     line (''version: '' @ show_int (j_version j)) @
     line ''resources: '' @
     concat (map (\<lambda>r. indented 2 (print_resource r)) (j_resources j)) @
     line ''tasks: '' @
     concat (map (\<lambda>t. indented 2 (print_task t)) (j_tasks j)) @
     line ''attributes:'' @
     concat (map (\<lambda>(k, m). line (''  '' @ k @ '':'') @
       concat (map (\<lambda>(a, v). line (''    '' @ a @ '' = '' @ v)) m)) (j_attributes j))"

end
