(* ===== verification/Jobspec_Properties.thy ===== *)
theory Jobspec_Properties
  imports Jobspec
begin

text \<open>
  What the jobspec parser guarantees of a specification it accepts, and that it accepts every
  well-formed one.
\<close>

section \<open>Keys of a mapping\<close>

definition keys_of_node :: "yaml \<Rightarrow> yaml list" where
  "keys_of_node node = (case node of YMap kvs \<Rightarrow> map fst kvs | _ \<Rightarrow> [])"

definition resource_keys :: "string list" where
  "resource_keys = [''type'', ''count'', ''unit'', ''exclusive'', ''with'', ''label'', ''id'']"

lemma yaml_get_key: "is_map node \<Longrightarrow> yaml_get node k \<noteq> None \<longleftrightarrow> YScalar k \<in> set (keys_of_node node)"
  by (cases node) (auto simp: keys_of_node_def map_of_eq_None_iff)

lemma length_keys: "is_map node \<Longrightarrow> yaml_size node = length (keys_of_node node)"
  by (cases node) (auto simp: keys_of_node_def)

text \<open>
  Counting the known keys that are present: the count reaches the number of entries just when every
  key is known and none is repeated.
\<close>

lemma count_known_keys:
  assumes "distinct known" and "length (filter (\<lambda>k. k \<in> set keys) known) = length keys"
  shows "distinct keys \<and> set keys \<subseteq> set known"
proof -
  let ?K = "{k \<in> set known. k \<in> set keys}"
  have "card ?K = length keys"
    using assms by (metis distinct_card distinct_filter set_filter)
  moreover have "card ?K \<le> card (set keys)" by (intro card_mono) auto
  moreover have le: "card (set keys) \<le> length keys" by (rule card_length)
  ultimately have "card (set keys) = length keys" "card ?K = card (set keys)" by auto
  then show ?thesis
    using card_distinct card_subset_eq [of "set keys" ?K] by fastforce
qed

section \<open>Accepted counts\<close>

definition count_wf :: "count_spec \<Rightarrow> bool" where
  "count_wf c \<longleftrightarrow>
     (c_max c = c_min c \<and> c_oper c = CHR ''+'' \<and> c_operand c = 1) \<or>
     (1 \<le> c_min c \<and> c_min c \<le> c_max c \<and> c_oper c \<in> set ''+*^'')"

lemma parse_yaml_count_wf: "parse_yaml_count y node = Inr c \<Longrightarrow> count_wf c"
  by (auto simp: parse_yaml_count_def and_then_Inr count_wf_def default_count_def split: if_splits)

fun resource_wf :: "resource \<Rightarrow> bool" where
  "resource_wf (Resource ty count un label ident excl wth ud) =
     (count_wf count \<and> ud = [] \<and> (\<forall>r\<in>set wth. resource_wf r))"

section \<open>The resource parser\<close>

lemma opt_scalar_present:
  "opt_scalar_at y node key msg = Inr v \<Longrightarrow> present v = present (yaml_get node key)"
  by (auto simp: opt_scalar_at_def and_then_Inr present_def split: option.splits if_splits)

lemma parse_exclusive_present:
  "parse_exclusive y node = Inr v \<Longrightarrow> present v = present (yaml_get node ''exclusive'')"
  by (auto simp: parse_exclusive_def and_then_Inr present_def opt_scalar_at_def split: option.splits if_splits)

lemma parse_resource_head_Inr:
  assumes "parse_resource_head y node = Inr (ty, count, un, excl)"
  shows "is_map node" and "yaml_get node ''type'' \<noteq> None" and "yaml_get node ''count'' \<noteq> None"
    and "count_wf count" and "present un = present (yaml_get node ''unit'')"
    and "present excl = present (yaml_get node ''exclusive'')"
  using assms
  by (auto simp: parse_resource_head_def and_then_Inr scalar_at_def opt_scalar_present parse_exclusive_present
      intro: parse_yaml_count_wf split: if_splits option.splits)

lemma parse_resource_Inr:
  assumes "parse_resource y node = Inr r"
  obtains hdr wth where "parse_resource_head y node = Inr hdr" and "parse_resource_tail y node hdr wth = Inr r"
    and "present wth = present (yaml_get node ''with'')"
    and "\<And>w rs. yaml_get node ''with'' = Some w \<Longrightarrow> wth = Some rs \<Longrightarrow> parse_yaml_resources y w = Inr rs"
proof -
  from assms obtain hdr where h: "parse_resource_head y node = Inr hdr"
    "(case yaml_get node ''with'' of None \<Rightarrow> parse_resource_tail y node hdr None
      | Some w \<Rightarrow> and_then (parse_yaml_resources y w) (\<lambda>rs. parse_resource_tail y node hdr (Some rs))) = Inr r"
    unfolding parse_resource.simps [of y node] and_then_Inr by blast
  show thesis
  proof (cases "yaml_get node ''with''")
    case None
    with h that [of hdr None] show thesis by (simp add: present_def)
  next
    case (Some w)
    with h obtain rs where "parse_yaml_resources y w = Inr rs" "parse_resource_tail y node hdr (Some rs) = Inr r"
      by (auto simp: and_then_Inr simp del: parse_yaml_resources.simps)
    with Some h that [of hdr "Some rs"] show thesis by (auto simp: present_def simp del: parse_yaml_resources.simps)
  qed
qed

lemma parse_resource_tail_Inr:
  assumes "parse_resource_tail y node (ty, count, un, excl) wth = Inr r"
  shows "r_type r = ty" and "r_count r = count" and "r_user_data r = []"
    and "r_with r = (case wth of None \<Rightarrow> [] | Some w \<Rightarrow> w)"
    and "ty = ''slot'' \<Longrightarrow> yaml_get node ''label'' \<noteq> None"
    and "yaml_size node = 2 + present un + present excl + present wth + present (yaml_get node ''label'') +
      present (yaml_get node ''id'')"
proof -
  from assms obtain label ident where
      l: "opt_scalar_at y node ''label'' ''Value of \"label\" must be a scalar'' = Inr label"
      and i: "opt_scalar_at y node ''id'' ''Value of \"id\" must be a scalar'' = Inr ident"
      and slot: "\<not> (label = None \<and> ty = ''slot'')"
      and n: "2 + present un + present excl + present wth + present label + present ident = yaml_size node"
      and r: "r = Resource ty count (case un of None \<Rightarrow> [] | Some u \<Rightarrow> u)
             (case label of None \<Rightarrow> [] | Some l \<Rightarrow> l) (case ident of None \<Rightarrow> [] | Some i \<Rightarrow> i)
             (case excl of None \<Rightarrow> Tri_UNSPECIFIED | Some e \<Rightarrow> e)
             (case wth of None \<Rightarrow> [] | Some w \<Rightarrow> w) []"
    unfolding parse_resource_tail_def prod.case and_then_Inr Let_def
    by (simp only: and_then_Inr split: if_split_asm) blast
  show "r_type r = ty" "r_count r = count" "r_user_data r = []"
    "r_with r = (case wth of None \<Rightarrow> [] | Some w \<Rightarrow> w)" by (simp_all add: r)
  have "present label = present (yaml_get node ''label'')" using l by (rule opt_scalar_present)
  moreover have "present ident = present (yaml_get node ''id'')" using i by (rule opt_scalar_present)
  ultimately show "yaml_size node = 2 + present un + present excl + present wth + present (yaml_get node ''label'') +
      present (yaml_get node ''id'')" using n by simp
  show "ty = ''slot'' \<Longrightarrow> yaml_get node ''label'' \<noteq> None"
    using slot \<open>present label = present (yaml_get node ''label'')\<close>
    by (cases label; cases "yaml_get node ''label''") (simp_all add: present_def)
qed

lemma parse_resource_list_all:
  "parse_resource_list y xs = Inr rs \<Longrightarrow> r \<in> set rs \<Longrightarrow> \<exists>x\<in>set xs. parse_resource y x = Inr r"
  by (induction xs arbitrary: rs) (auto simp: and_then_Inr simp del: parse_resource.simps)

lemma parse_yaml_resources_all:
  "parse_yaml_resources y w = Inr rs \<Longrightarrow> r \<in> set rs \<Longrightarrow> \<exists>x. size x < size w \<and> parse_resource y x = Inr r"
  using parse_resource_list_all
  by (auto split: yaml.splits simp del: parse_resource.simps)
    (metis less_Suc_eq_le size_list_estimation' order_refl)

definition known_present :: "yaml \<Rightarrow> string list \<Rightarrow> nat" where
  "known_present node ks = (\<Sum>k\<leftarrow>ks. present (yaml_get node k))"

lemma known_present_count:
  "is_map node \<Longrightarrow> known_present node ks = length (filter (\<lambda>k. k \<in> set (keys_of_node node)) (map YScalar ks))"
  by (induction ks) (auto simp: known_present_def present_def yaml_get_key [symmetric])

lemma accepted_resource:
  assumes "parse_resource y node = Inr r"
  shows "distinct (keys_of_node node)" and "set (keys_of_node node) \<subseteq> YScalar ` set resource_keys"
    and "r_type r = ''slot'' \<Longrightarrow> YScalar ''label'' \<in> set (keys_of_node node)"
    and "count_wf (r_count r)" and "r_user_data r = []"
    and "c \<in> set (r_with r) \<Longrightarrow> \<exists>x. size x < size node \<and> parse_resource y x = Inr c"
proof -
  obtain ty count un excl wth where h: "parse_resource_head y node = Inr (ty, count, un, excl)"
      and t: "parse_resource_tail y node (ty, count, un, excl) wth = Inr r"
      and w: "present wth = present (yaml_get node ''with'')"
      and ws: "\<And>w rs. yaml_get node ''with'' = Some w \<Longrightarrow> wth = Some rs \<Longrightarrow> parse_yaml_resources y w = Inr rs"
    using parse_resource_Inr [OF assms] by (metis prod.exhaust)
  note hd = parse_resource_head_Inr [OF h] and tl = parse_resource_tail_Inr [OF t]
  have "known_present node resource_keys = length (keys_of_node node)"
    using hd(2,3,5,6) tl(6) w length_keys [OF hd(1)]
    by (simp add: known_present_def resource_keys_def present_def)
  then have "length (filter (\<lambda>k. k \<in> set (keys_of_node node)) (map YScalar resource_keys)) = length (keys_of_node node)"
    using known_present_count [OF hd(1)] by simp
  from count_known_keys [OF _ this]
  show "distinct (keys_of_node node)" "set (keys_of_node node) \<subseteq> YScalar ` set resource_keys"
    by (simp_all add: resource_keys_def)
  show "r_type r = ''slot'' \<Longrightarrow> YScalar ''label'' \<in> set (keys_of_node node)"
    using tl(1,5) yaml_get_key [OF hd(1)] by auto
  show "count_wf (r_count r)" "r_user_data r = []" using hd(4) tl(2,3) by simp_all
  show "\<exists>x. size x < size node \<and> parse_resource y x = Inr c" if "c \<in> set (r_with r)"
  proof -
    from that tl(4) obtain rs where rs: "wth = Some rs" "c \<in> set rs" by (auto split: option.splits)
    with w obtain v where v: "yaml_get node ''with'' = Some v" by (auto simp: present_def split: if_splits)
    from parse_yaml_resources_all [OF ws [OF v rs(1)] rs(2)] size_yaml_get [OF v] show ?thesis
      by (meson order_less_trans)
  qed
qed

lemma parsed_resource_wf: "parse_resource y node = Inr r \<Longrightarrow> resource_wf r"
proof (induction "size node" arbitrary: node r rule: less_induct)
  case less
  note a = accepted_resource [OF less.prems]
  have "resource_wf c" if "c \<in> set (r_with r)" for c
    using a(6) [OF that] less.hyps by blast
  with a(4,5) show ?case by (cases r) auto
qed

section \<open>Every well-formed resource is accepted\<close>

text \<open>The YAML mapping of a resource, and the laws of the conversions that the parser relies on.\<close>

definition yaml_of_count :: "count_spec \<Rightarrow> yaml" where
  "yaml_of_count c = YMap
     [(YScalar ''min'', YScalar (show_int (c_min c))), (YScalar ''max'', YScalar (show_int (c_max c))),
      (YScalar ''operator'', YScalar [c_oper c]), (YScalar ''operand'', YScalar (show_int (c_operand c)))]"

definition entry_if :: "bool \<Rightarrow> string \<Rightarrow> yaml \<Rightarrow> (yaml \<times> yaml) list" where
  "entry_if b key v = (if b then [(YScalar key, v)] else [])"

fun yaml_of_resource :: "resource \<Rightarrow> yaml" where
  "yaml_of_resource (Resource ty count un label ident excl wth ud) = YMap
     ([(YScalar ''type'', YScalar ty), (YScalar ''count'', yaml_of_count count)] @
      entry_if (un \<noteq> []) ''unit'' (YScalar un) @
      entry_if (excl \<noteq> Tri_UNSPECIFIED) ''exclusive'' (YScalar (if excl = Tri_TRUE then ''true'' else ''false'')) @
      entry_if (wth \<noteq> []) ''with'' (YSeq (map yaml_of_resource wth)) @
      entry_if (label \<noteq> [] \<or> ty = ''slot'') ''label'' (YScalar label) @
      entry_if (ident \<noteq> []) ''id'' (YScalar ident))"

definition conversions_ok :: "yaml_cpp \<Rightarrow> bool" where
  "conversions_ok y \<longleftrightarrow>
     (\<forall>s. as_string y (YScalar s) = Some s) \<and> (\<forall>c. as_char y (YScalar [c]) = Some c) \<and>
     (\<forall>n. - 2147483648 \<le> n \<and> n \<le> 2147483647 \<longrightarrow> as_int y (YScalar (show_int n)) = Some n) \<and>
     (\<forall>n. 0 \<le> n \<and> n \<le> UINT_MAX \<longrightarrow> as_unsigned y (YScalar (show_int n)) = Some n)"

definition count_in_range :: "count_spec \<Rightarrow> bool" where
  "count_in_range c \<longleftrightarrow>
     1 \<le> c_min c \<and> c_min c \<le> c_max c \<and> c_max c \<le> UINT_MAX \<and> c_oper c \<in> set ''+*^'' \<and>
     - 2147483648 \<le> c_operand c \<and> c_operand c \<le> 2147483647"

fun resource_ok :: "resource \<Rightarrow> bool" where
  "resource_ok (Resource ty count un label ident excl wth ud) =
     (count_in_range count \<and> ud = [] \<and> (\<forall>r\<in>set wth. resource_ok r))"

lemma parse_count_of:
  "conversions_ok y \<Longrightarrow> count_in_range c \<Longrightarrow> parse_yaml_count y (yaml_of_count c) = Inr c"
  by (cases c) (auto simp: parse_yaml_count_def yaml_of_count_def scalar_at_def conv_def conversions_ok_def
      count_in_range_def)

lemma map_of_entry_if: "map_of (entry_if b k v) x = (if b \<and> x = YScalar k then Some v else None)"
  by (simp add: entry_if_def)

lemma length_entry_if: "length (entry_if b k v) = (if b then 1 else 0)"
  by (simp add: entry_if_def)

lemma parse_resource_list_of:
  "(\<And>r. r \<in> set rs \<Longrightarrow> parse_resource y (f r) = Inr r) \<Longrightarrow> parse_resource_list y (map f rs) = Inr rs"
  by (induction rs) (simp_all del: parse_resource.simps)

lemma parse_resource_of:
  assumes "conversions_ok y"
  shows "resource_ok r \<Longrightarrow> parse_resource y (yaml_of_resource r) = Inr r"
proof (induction r)
  case (Resource ty count un label ident excl wth ud)
  define n where "n = yaml_of_resource (Resource ty count un label ident excl wth ud)"
  have str: "conv (as_string y) (YScalar s) = Inr s" for s using assms by (simp add: conversions_ok_def conv_def)
  have get: "yaml_get n ''type'' = Some (YScalar ty)" "yaml_get n ''count'' = Some (yaml_of_count count)"
      "yaml_get n ''unit'' = (if un \<noteq> [] then Some (YScalar un) else None)"
      "yaml_get n ''exclusive'' = (if excl \<noteq> Tri_UNSPECIFIED then Some (YScalar (if excl = Tri_TRUE then ''true'' else ''false'')) else None)"
      "yaml_get n ''with'' = (if wth \<noteq> [] then Some (YSeq (map yaml_of_resource wth)) else None)"
      "yaml_get n ''label'' = (if label \<noteq> [] \<or> ty = ''slot'' then Some (YScalar label) else None)"
      "yaml_get n ''id'' = (if ident \<noteq> [] then Some (YScalar ident) else None)"
    by (simp_all add: n_def map_add_def map_of_entry_if)
  have sz: "yaml_size n = 2 + (if un \<noteq> [] then 1 else 0) + (if excl \<noteq> Tri_UNSPECIFIED then 1 else 0) +
      (if wth \<noteq> [] then 1 else 0) + (if label \<noteq> [] \<or> ty = ''slot'' then 1 else 0) + (if ident \<noteq> [] then 1 else 0)"
    by (simp add: n_def length_entry_if)
  have map: "is_map n" by (simp add: n_def)
  have cnt: "parse_yaml_count y (yaml_of_count count) = Inr count"
    using assms Resource.prems by (simp add: parse_count_of)
  have ex: "parse_exclusive y n = Inr (if excl \<noteq> Tri_UNSPECIFIED then Some excl else None)"
    unfolding parse_exclusive_def opt_scalar_at_def get by (cases excl) (simp_all add: str)
  have hd: "parse_resource_head y n = Inr (ty, count, if un \<noteq> [] then Some un else None,
      if excl \<noteq> Tri_UNSPECIFIED then Some excl else None)"
    unfolding parse_resource_head_def scalar_at_def opt_scalar_at_def get ex using map by (simp add: str cnt)
  have tl: "parse_resource_tail y n (ty, count, if un \<noteq> [] then Some un else None,
      if excl \<noteq> Tri_UNSPECIFIED then Some excl else None) (if wth \<noteq> [] then Some wth else None) =
      Inr (Resource ty count un label ident excl wth ud)"
    unfolding parse_resource_tail_def opt_scalar_at_def get sz using Resource.prems
    by (simp add: str present_def)
  have "parse_resource_list y (map yaml_of_resource wth) = Inr wth"
    using Resource by (intro parse_resource_list_of) simp
  with hd tl get(5) have "parse_resource y n = Inr (Resource ty count un label ident excl wth ud)"
    unfolding parse_resource.simps [of y n] by (cases "wth = []") simp_all
  then show ?case by (simp only: n_def)
qed

section \<open>Properties\<close>

definition plain_yaml_cpp :: yaml_cpp where
  "plain_yaml_cpp =
     \<lparr>as_unsigned = (\<lambda>n. case n of YScalar s \<Rightarrow> let k = read_int s in if 0 \<le> k \<and> k \<le> UINT_MAX then Some k else None | _ \<Rightarrow> None),
      as_int = (\<lambda>n. case n of YScalar s \<Rightarrow> Some (read_int s) | _ \<Rightarrow> None),
      as_char = (\<lambda>n. case n of YScalar [c] \<Rightarrow> Some c | _ \<Rightarrow> None),
      as_string = (\<lambda>n. case n of YScalar s \<Rightarrow> Some s | _ \<Rightarrow> None)\<rparr>"

lemma plain_conversions: "conversions_ok plain_yaml_cpp"
  by (simp add: conversions_ok_def plain_yaml_cpp_def)

definition sample_resource :: resource where
  "sample_resource = Resource ''node'' \<lparr>c_min = 1, c_max = 4, c_oper = CHR ''*'', c_operand = 2\<rparr> [] [] [] Tri_TRUE
     [Resource ''slot'' \<lparr>c_min = 2, c_max = 2, c_oper = CHR ''+'', c_operand = 1\<rparr> [] ''default'' [] Tri_UNSPECIFIED
       [Resource ''core'' \<lparr>c_min = 4, c_max = 4, c_oper = CHR ''+'', c_operand = 1\<rparr> [] [] [] Tri_UNSPECIFIED [] []] []] []"



text \<open>
  C17. Round trip: the parser accepts the YAML mapping of every resource with counts in range, at any
  depth, and gives the resource back (for conversions that read back decimal numbers and strings).
\<close>

theorem parse_resource_roundtrip:
  assumes "conversions_ok y" and "resource_ok r"
  shows "parse_resource y (yaml_of_resource r) = Inr r"
  using parse_resource_of assms by blast

theorem parse_resource_roundtrip_witness:
  "parse_resource plain_yaml_cpp (yaml_of_resource sample_resource) = Inr sample_resource"
  by (rule parse_resource_roundtrip [OF plain_conversions])
    (simp add: sample_resource_def count_in_range_def)

lemma parse_yaml_resources_wf: "parse_yaml_resources y w = Inr rs \<Longrightarrow> r \<in> set rs \<Longrightarrow> resource_wf r"
  using parse_yaml_resources_all parsed_resource_wf by blast

definition sample_jobspec_node :: yaml where
  "sample_jobspec_node = YMap
     [(YScalar ''version'', YScalar ''1''),
      (YScalar ''resources'', YSeq [yaml_of_resource sample_resource]),
      (YScalar ''attributes'', YMap [(YScalar ''system'', YMap [(YScalar ''duration'', YScalar ''3600'')])]),
      (YScalar ''tasks'', YSeq [YMap [(YScalar ''command'', YScalar ''app''), (YScalar ''slot'', YScalar ''default''),
         (YScalar ''count'', YMap [(YScalar ''per_slot'', YScalar ''1'')])]])]"

definition sample_jobspec :: jobspec where
  "sample_jobspec = \<lparr>j_version = 1, j_resources = [sample_resource],
     j_tasks = [\<lparr>t_command = [''app''], t_slot = ''default'', t_count = [(''per_slot'', ''1'')], t_distribution = [],
       t_attributes = []\<rparr>],
     j_attributes = [(''system'', [(''duration'', ''3600'')])]\<rparr>"

lemma parse_sample_jobspec: "parse_jobspec plain_yaml_cpp sample_jobspec_node = Inr sample_jobspec"
proof -
  have r: "parse_resource plain_yaml_cpp (yaml_of_resource sample_resource) = Inr sample_resource"
    by (rule parse_resource_of [OF plain_conversions]) (simp add: sample_resource_def count_in_range_def)
  have rs: "parse_yaml_resources plain_yaml_cpp (YSeq [yaml_of_resource sample_resource]) = Inr [sample_resource]"
    by (simp add: r del: parse_resource.simps)
  have v: "conv (as_unsigned plain_yaml_cpp) (YScalar ''1'') = Inr 1" by code_simp
  have a: "parse_attributes plain_yaml_cpp (YMap [(YScalar ''system'', YMap [(YScalar ''duration'', YScalar ''3600'')])]) =
      Inr [(''system'', [(''duration'', ''3600'')])]" by code_simp
  have t: "parse_yaml_tasks plain_yaml_cpp (YSeq [YMap [(YScalar ''command'', YScalar ''app''), (YScalar ''slot'', YScalar ''default''),
         (YScalar ''count'', YMap [(YScalar ''per_slot'', YScalar ''1'')])]]) =
      Inr [\<lparr>t_command = [''app''], t_slot = ''default'', t_count = [(''per_slot'', ''1'')], t_distribution = [],
       t_attributes = []\<rparr>]" by code_simp
  show ?thesis
    unfolding parse_jobspec_def sample_jobspec_node_def sample_jobspec_def
    by (simp add: rs v a t del: parse_yaml_resources.simps)
qed

text \<open>
  C18. A jobspec is accepted only with version 1 and well-formed resources, from a mapping of exactly
  four entries.
\<close>

theorem parse_jobspec_accepts_wf:
  assumes "parse_jobspec y node = Inr j"
  shows "yaml_size node = 4 \<and> j_version j = 1 \<and> (\<forall>r\<in>set (j_resources j). resource_wf r)"
  using assms parse_yaml_resources_wf
  by (auto simp: parse_jobspec_def and_then_Inr simp del: parse_yaml_resources.simps split: if_splits option.splits)

theorem parse_jobspec_accepts_wf_witness:
  "yaml_size sample_jobspec_node = 4 \<and> j_version sample_jobspec = 1 \<and> resource_wf sample_resource"
  using parse_jobspec_accepts_wf [OF parse_sample_jobspec]
  by (simp add: sample_jobspec_def del: resource_wf.simps)

text \<open>
  The attributes of a task are printed without a line break after each: two of them run together
  on one line, so the text is not a mapping with both.
\<close>

theorem print_task_attributes_run_together:
  "print_task \<lparr>t_command = [''app''], t_slot = ''default'', t_count = [], t_distribution = [],
     t_attributes = [(''a'', ''1''), (''b'', ''2'')]\<rparr> =
   concat (map line [''command: [ '' @ quoted ''app'' @ '' ]'', ''slot: default'', ''attributes:'']) @ ''  a: 1b: 2''"
  by code_simp

end
