(* ===== verification/Matcher_Data.thy ===== *)
theory Matcher_Data
  imports Jobspec
begin

text \<open>
  The base matcher data of \<open>matcher_data.hpp\<close>: the subsystems a matcher uses and \<open>select_count\<close>, which
  picks how many units of a requested resource to take.

  The loops of \<open>select_count\<close> do not always end; \<open>count_loop\<close> is a partial function with \<open>None\<close> for a
  call that does not return. The arithmetic is that of \<open>unsigned int\<close>.
\<close>

section \<open>Data\<close>

datatype match_op = MATCH_ALLOCATE | MATCH_ALLOCATE_ORELSE_RESERVE

definition MATCH_UNMET :: int where
  "MATCH_UNMET = 0"

definition MATCH_MET :: int where
  "MATCH_MET = 1"

type_synonym subsystem = string

record matcher_data =
  sdau_resource_types :: "(subsystem \<times> string list) list"
  m_name :: string
  m_subsystems :: "subsystem list"
  m_subsystems_map :: "(subsystem \<times> string list) list"

definition new_matcher_data :: matcher_data where
  "new_matcher_data = \<lparr>sdau_resource_types = [], m_name = ''anonymous'', m_subsystems = [], m_subsystems_map = []\<rparr>"

definition add_subsystem :: "subsystem \<Rightarrow> string \<Rightarrow> matcher_data \<Rightarrow> matcher_data \<times> int" where
  "add_subsystem s tf m =
     (case map_of (m_subsystems_map m) s of
        None \<Rightarrow> (m\<lparr>m_subsystems := m_subsystems m @ [s], m_subsystems_map := (s, [tf]) # m_subsystems_map m\<rparr>, 0)
      | Some _ \<Rightarrow> (m, -1))"

text \<open>The dominant subsystem; undefined behaviour when no subsystem was added.\<close>

definition dom_subsystem :: "matcher_data \<Rightarrow> subsystem option" where
  "dom_subsystem m = (case m_subsystems m of [] \<Rightarrow> None | s # _ \<Rightarrow> Some s)"

section \<open>Selecting a count\<close>

partial_function (option) count_loop :: "(int \<Rightarrow> int) \<Rightarrow> int \<Rightarrow> int \<Rightarrow> int \<Rightarrow> int \<Rightarrow> int option" where
  "count_loop step qc mx cur count =
     (if cur \<le> qc \<and> cur \<le> mx then count_loop step qc mx (step cur) cur else Some count)"

declare count_loop.simps [code]

text \<open>The loop \<open>for (int i = 1; i < operand; i++) cur *= base\<close>, with the number of its rounds.\<close>

fun pow_loop :: "nat \<Rightarrow> int \<Rightarrow> int \<Rightarrow> int" where
  "pow_loop 0 base cur = cur"
| "pow_loop (Suc n) base cur = pow_loop n base (u32 (cur * base))"

text \<open>How \<open>cur\<close> is updated in the loop of each operator.\<close>

definition next_count :: "count_spec \<Rightarrow> int \<Rightarrow> int" where
  "next_count c cur =
     (if c_oper c = CHR ''+'' then u32 (cur + u32 (c_operand c))
      else if c_oper c = CHR ''*'' then u32 (cur * u32 (c_operand c))
      else pow_loop (nat (c_operand c - 1)) cur cur)"

definition select_count :: "count_spec \<Rightarrow> int \<Rightarrow> int option" where
  "select_count c qc =
     (if c_min c > c_max c \<or> c_min c > qc then Some 0
      else if c_oper c = CHR ''+'' then count_loop (next_count c) qc (c_max c) (c_min c) 0
      else if c_oper c = CHR ''*'' then count_loop (next_count c) qc (c_max c) (c_min c) 0
      else if c_oper c = CHR ''^'' then
        if c_operand c < 2 then Some (c_min c)
        else count_loop (next_count c) qc (c_max c) (c_min c) 0
      else Some 0)"

end
