(* ===== verification/Matcher_Data_Properties.thy ===== *)
theory Matcher_Data_Properties
  imports Matcher_Data Jobspec_Properties
begin

text \<open>When \<open>select_count\<close> returns, what it returns, and when it does not return.\<close>

section \<open>The loop as an iteration\<close>

text \<open>The exact step of each operator, on unbounded integers.\<close>

definition count_step :: "count_spec \<Rightarrow> int \<Rightarrow> int" where
  "count_step c cur =
     (if c_oper c = CHR ''+'' then cur + c_operand c
      else if c_oper c = CHR ''*'' then cur * c_operand c
      else cur ^ nat (c_operand c))"

text \<open>The counts that the operator of a specification makes progress from.\<close>

definition progress :: "count_spec \<Rightarrow> bool" where
  "progress c \<longleftrightarrow>
     (c_oper c = CHR ''+'' \<and> 1 \<le> c_operand c) \<or>
     (c_oper c = CHR ''*'' \<and> 2 \<le> c_operand c) \<or>
     (c_oper c = CHR ''^'' \<and> 2 \<le> c_operand c \<and> 2 \<le> c_min c)"

lemma progress_increases: "progress c \<Longrightarrow> 1 \<le> c_min c \<Longrightarrow> c_min c \<le> cur \<Longrightarrow> cur < count_step c cur"
proof -
  assume p: "progress c" and m: "1 \<le> c_min c" "c_min c \<le> cur"
  have pow: "cur < cur ^ nat (c_operand c)" if "2 \<le> cur" "2 \<le> c_operand c"
    using power_strict_increasing [of 1 "nat (c_operand c)" cur] that by simp
  have mul: "cur < cur * c_operand c" if "1 \<le> cur" "2 \<le> c_operand c"
    using mult_strict_left_mono [of 1 "c_operand c" cur] that by simp
  show ?thesis using p m pow mul by (auto simp: progress_def count_step_def)
qed

text \<open>
  The loop on an increasing step stops at the last iterate within the limit. The step has to be exact
  on the values below the limit.
\<close>

lemma count_loop_last:
  assumes "\<And>x. lo \<le> x \<Longrightarrow> x \<le> lim \<Longrightarrow> step x = exact x" and "\<And>x. lo \<le> x \<Longrightarrow> x < exact x"
    and "lo \<le> cur" and "lim = min qc mx"
  shows "\<exists>k. count_loop step qc mx cur count = Some (if k = 0 then count else (exact ^^ (k - 1)) cur) \<and>
    (\<forall>j. (exact ^^ j) cur \<le> lim \<longleftrightarrow> j < k)"
  using assms(3)
proof (induction "nat (lim + 1 - cur)" arbitrary: cur count rule: less_induct)
  case less
  have grow: "cur \<le> (exact ^^ j) cur" for j
  proof (induction j)
    case (Suc j)
    with assms(2) [of "(exact ^^ j) cur"] less.prems show ?case by simp
  qed simp
  show ?case
  proof (cases "cur \<le> lim")
    case False
    with assms(4) have "count_loop step qc mx cur count = Some count" by (subst count_loop.simps) auto
    moreover have "\<not> (exact ^^ j) cur \<le> lim" for j using grow [of j] False by linarith
    ultimately show ?thesis by (intro exI [of _ 0]) simp
  next
    case True
    have e: "step cur = exact cur" and up: "cur < exact cur" using assms(1,2) less.prems True by auto
    from less.hyps [of "exact cur" cur] True up less.prems obtain k where
        k: "count_loop step qc mx (exact cur) cur = Some (if k = 0 then cur else (exact ^^ (k - 1)) (exact cur))"
        "\<And>j. (exact ^^ j) (exact cur) \<le> lim \<longleftrightarrow> j < k" by auto
    have "count_loop step qc mx cur count = count_loop step qc mx (exact cur) cur"
      using True assms(4) e by (subst count_loop.simps) simp
    with k(1) have "count_loop step qc mx cur count = Some ((exact ^^ k) cur)"
      by (cases k) (simp_all add: funpow_swap1)
    moreover have "(exact ^^ j) cur \<le> lim \<longleftrightarrow> j < Suc k" for j
      using k(2) True by (cases j) (simp_all add: funpow_swap1)
    ultimately show ?thesis by (intro exI [of _ "Suc k"]) simp
  qed
qed

lemma pow_loop_exact:
  "0 < base \<Longrightarrow> 0 \<le> cur \<Longrightarrow> cur * base ^ n \<le> UINT_MAX \<Longrightarrow> pow_loop n base cur = cur * base ^ n"
proof (induction n arbitrary: cur)
  case (Suc n)
  have "cur * base \<le> cur * base * base ^ n"
    using mult_left_mono [of 1 "base ^ n" "cur * base"] one_le_power [of base n] Suc.prems by simp
  with Suc.prems have "cur * base \<le> UINT_MAX" by (simp add: mult.assoc)
  with Suc.prems have "u32 (cur * base) = cur * base" by simp
  with Suc show ?case by (simp add: ac_simps)
qed simp


lemma next_count_exact:
  assumes "progress c" and "c_operand c \<le> UINT_MAX" and "1 \<le> cur" and "count_step c cur \<le> UINT_MAX"
  shows "next_count c cur = count_step c cur"
proof -
  have "next_count c cur = count_step c cur" if "c_oper c = CHR ''^''" "2 \<le> c_operand c"
  proof -
    define n where "n = nat (c_operand c - 1)"
    have n: "nat (c_operand c) = Suc n" "nat (c_operand c - 1) = n"
      using that(2) by (auto simp: n_def)
    with that assms(3,4) pow_loop_exact [of cur cur n] show ?thesis
      by (simp add: next_count_def count_step_def)
  qed
  with assms show ?thesis
    by (auto simp: progress_def next_count_def count_step_def)
qed

lemma select_count_steps:
  assumes "c_min c \<le> c_max c" and "c_min c \<le> qc" and "progress c"
  shows "select_count c qc = count_loop (next_count c) qc (c_max c) (c_min c) 0"
  using assms by (auto simp: select_count_def progress_def next_count_def)

text \<open>
  The counts a specification allows within a limit: \<open>min\<close>, and then each next one by the operator. A
  specification is \<open>exact_below\<close> a limit when no step from a value within the limit wraps around.
\<close>

definition exact_below :: "count_spec \<Rightarrow> int \<Rightarrow> bool" where
  "exact_below c lim \<longleftrightarrow>
     1 \<le> c_min c \<and> c_operand c \<le> UINT_MAX \<and> count_step c lim \<le> UINT_MAX"

lemma count_step_mono: "progress c \<Longrightarrow> 1 \<le> x \<Longrightarrow> x \<le> y \<Longrightarrow> count_step c x \<le> count_step c y"
  by (auto simp: progress_def count_step_def mult_right_mono power_mono)

lemma select_count_last:
  assumes "c_min c \<le> c_max c" and "c_min c \<le> qc" and "progress c" and "exact_below c (min qc (c_max c))"
  shows "\<exists>k. select_count c qc = Some ((count_step c ^^ k) (c_min c)) \<and>
    (\<forall>j. (count_step c ^^ j) (c_min c) \<le> min qc (c_max c) \<longleftrightarrow> j \<le> k)"
proof -
  let ?lim = "min qc (c_max c)"
  have one: "1 \<le> c_min c" and lim: "count_step c ?lim \<le> UINT_MAX" and od: "c_operand c \<le> UINT_MAX"
    using assms(4) by (simp_all add: exact_below_def)
  have e: "next_count c x = count_step c x" if "c_min c \<le> x" "x \<le> ?lim" for x
  proof -
    from that one have "1 \<le> x" by simp
    from count_step_mono [OF assms(3) this that(2)] lim have "count_step c x \<le> UINT_MAX" by (rule order_trans)
    from next_count_exact [OF assms(3) od \<open>1 \<le> x\<close> this] show ?thesis .
  qed
  have up: "x < count_step c x" if "c_min c \<le> x" for x
    using progress_increases [OF assms(3) one that] .
  from count_loop_last [of "c_min c" ?lim "next_count c" "count_step c", OF e up order_refl refl]
  obtain k where k: "count_loop (next_count c) qc (c_max c) (c_min c) 0 =
        Some (if k = 0 then 0 else (count_step c ^^ (k - 1)) (c_min c))"
      "\<And>j. (count_step c ^^ j) (c_min c) \<le> ?lim \<longleftrightarrow> j < k" by blast
  have "(count_step c ^^ 0) (c_min c) \<le> ?lim" using assms(1,2) by simp
  then have "0 < k" by (simp only: k(2))
  then obtain m where m: "k = Suc m" by (cases k) simp_all
  show ?thesis
  proof (intro exI [of _ m] conjI allI)
    show "select_count c qc = Some ((count_step c ^^ m) (c_min c))"
      unfolding select_count_steps [OF assms(1-3)] k(1) by (simp add: m)
    show "(count_step c ^^ j) (c_min c) \<le> ?lim \<longleftrightarrow> j \<le> m" for j
      unfolding k(2) m by (rule less_Suc_eq_le)
  qed
qed

section \<open>When the loop does not end\<close>

lemma count_loop_leaves:
  assumes "count_loop step qc mx cur count = Some r"
  shows "\<exists>n. \<not> ((step ^^ n) cur \<le> qc \<and> (step ^^ n) cur \<le> mx)"
proof (rule count_loop.raw_induct
    [where P = "\<lambda>step qc mx cur count r. \<exists>n. \<not> ((step ^^ n) cur \<le> qc \<and> (step ^^ n) cur \<le> mx)", OF _ assms])
  fix f and step :: "int \<Rightarrow> int" and qc mx cur count r
  assume IH: "\<And>s q m c b y. f s q m c b = Some y \<Longrightarrow> \<exists>n. \<not> ((s ^^ n) c \<le> q \<and> (s ^^ n) c \<le> m)"
    and r: "(if cur \<le> qc \<and> cur \<le> mx then f step qc mx (step cur) cur else Some count) = Some (r :: int)"
  show "\<exists>n. \<not> ((step ^^ n) cur \<le> qc \<and> (step ^^ n) cur \<le> mx)"
  proof (cases "cur \<le> qc \<and> cur \<le> mx")
    case True
    with r have "f step qc mx (step cur) cur = Some r" by simp
    from IH [OF this] obtain n where "\<not> ((step ^^ n) (step cur) \<le> qc \<and> (step ^^ n) (step cur) \<le> mx)" by blast
    then show ?thesis by (intro exI [of _ "Suc n"]) (simp only: funpow_Suc_right comp_apply not_False_eq_True)
  next
    case False
    then show ?thesis by (intro exI [of _ 0]) simp
  qed
qed

lemma count_loop_stuck:
  assumes "\<And>n. (step ^^ n) cur \<le> qc \<and> (step ^^ n) cur \<le> mx"
  shows "count_loop step qc mx cur count = None"
  using count_loop_leaves [of step qc mx cur count] assms by (cases "count_loop step qc mx cur count") auto

lemma count_loop_fixpoint:
  assumes "step cur = cur" and "cur \<le> qc" and "cur \<le> mx"
  shows "count_loop step qc mx cur count = None"
proof (rule count_loop_stuck)
  have "(step ^^ n) cur = cur" for n using assms(1) by (induction n) simp_all
  with assms show "(step ^^ n) cur \<le> qc \<and> (step ^^ n) cur \<le> mx" for n by simp
qed

lemma pow_loop_one: "pow_loop n 1 1 = 1"
  by (induction n) simp_all

section \<open>Properties\<close>

text \<open>
  C19. For an operator that makes progress and a limit within \<open>unsigned int\<close>, \<open>select_count\<close> returns, and
  the count is the greatest one of the sequence \<open>min\<close>, \<open>min\<close> stepped once, twice, ... that neither
  the qualified units nor \<open>max\<close> is below; it is 0 when already \<open>min\<close> is above one of them.
\<close>

theorem select_count_greatest:
  assumes "progress c" and "exact_below c (min qc (c_max c))"
  shows "(if c_min c \<le> min qc (c_max c)
    then \<exists>k. select_count c qc = Some ((count_step c ^^ k) (c_min c)) \<and>
      (\<forall>j. (count_step c ^^ j) (c_min c) \<le> min qc (c_max c) \<longleftrightarrow> j \<le> k)
    else select_count c qc = Some 0)"
  using select_count_last [OF _ _ assms] by (auto simp: select_count_def)

theorem select_count_greatest_witness:
  "select_count \<lparr>c_min = 2, c_max = 20, c_oper = CHR ''*'', c_operand = 2\<rparr> 11 = Some 8"
proof -
  let ?c = "\<lparr>c_min = 2, c_max = 20, c_oper = CHR ''*'', c_operand = 2\<rparr>"
  have "progress ?c" "exact_below ?c (min 11 (c_max ?c))" "c_min ?c \<le> min 11 (c_max ?c)" by code_simp+
  from select_count_greatest [OF this(1,2)] this(3) obtain k where
      k: "select_count ?c 11 = Some ((count_step ?c ^^ k) 2)"
      "\<And>j. (count_step ?c ^^ j) 2 \<le> min 11 20 \<longleftrightarrow> j \<le> k" by auto
  have "(count_step ?c ^^ 2) 2 \<le> min 11 20" "\<not> (count_step ?c ^^ 3) 2 \<le> min 11 20" by code_simp+
  then have "k = 2" using k(2) [of 2] k(2) [of 3] by linarith
  moreover have "(count_step ?c ^^ 2) 2 = 8" by code_simp
  ultimately show ?thesis using k(1) by simp
qed

text \<open>
  C20. Specifications the parser accepts on which \<open>select_count\<close> does not return when there are enough
  qualified units: \<open>+\<close> or \<open>*\<close> with an operand that makes no progress, and \<open>^\<close> from \<open>min\<close> 1.
\<close>

theorem accepted_count_may_hang:
  assumes "conversions_ok y" and "count_in_range c" and "c_min c \<le> qc" and
    "(c_oper c = CHR ''+'' \<and> c_operand c = 0) \<or> (c_oper c = CHR ''*'' \<and> c_operand c = 1) \<or>
     (c_oper c = CHR ''^'' \<and> 2 \<le> c_operand c \<and> c_min c = 1)"
  shows "parse_yaml_count y (yaml_of_count c) = Inr c \<and> select_count c qc = None"
proof
  show "parse_yaml_count y (yaml_of_count c) = Inr c" using assms(1,2) by (rule parse_count_of)
  have r: "1 \<le> c_min c" "c_min c \<le> c_max c" "c_max c \<le> UINT_MAX"
    using assms(2) by (simp_all add: count_in_range_def)
  then have "next_count c (c_min c) = c_min c"
    using assms(4) by (auto simp: next_count_def pow_loop_one)
  from count_loop_fixpoint [of "next_count c" "c_min c", OF this assms(3) r(2)] assms(3,4) r(2)
  show "select_count c qc = None" by (auto simp: select_count_def)
qed

theorem accepted_count_may_hang_witness:
  "select_count \<lparr>c_min = 1, c_max = 4, c_oper = CHR ''*'', c_operand = 1\<rparr> 1 = None"
  using accepted_count_may_hang [OF plain_conversions, of "\<lparr>c_min = 1, c_max = 4, c_oper = CHR ''*'', c_operand = 1\<rparr>" 1]
  by (simp add: count_in_range_def)

end
