(* ===== verification/Std_Map.thy ===== *)
theory Std_Map
  imports Prelude "HOL-Library.List_Lexorder" "HOL-Library.Char_ord"
begin

text \<open>
  \<open>std::map\<close>: association lists sorted by key, so that an iteration meets the keys in their order
  (strings are compared character by character, as \<open>std::string\<close> does). \<open>m.find (k)\<close> is \<open>map_of m k\<close>.
\<close>

fun map_put :: "'k::linorder \<Rightarrow> 'v \<Rightarrow> ('k \<times> 'v) list \<Rightarrow> ('k \<times> 'v) list" where
  "map_put k v [] = [(k, v)]"
| "map_put k v ((j, w) # m) =
     (if k < j then (k, v) # (j, w) # m else if k = j then (k, v) # m else (j, w) # map_put k v m)"

definition map_erase :: "'k \<Rightarrow> ('k \<times> 'v) list \<Rightarrow> ('k \<times> 'v) list" where
  "map_erase k m = filter (\<lambda>(j, w). j \<noteq> k) m"

text \<open>\<open>m.insert (k, v)\<close>: keeps an entry that is there.\<close>

definition map_insert :: "'k::linorder \<Rightarrow> 'v \<Rightarrow> ('k \<times> 'v) list \<Rightarrow> ('k \<times> 'v) list" where
  "map_insert k v m = (if map_of m k = None then map_put k v m else m)"

definition map_ok :: "('k::linorder \<times> 'v) list \<Rightarrow> bool" where
  "map_ok m \<longleftrightarrow> sorted_wrt (<) (map fst m)"

lemma map_ok_Nil [simp]: "map_ok []"
  by (simp add: map_ok_def)

lemma map_ok_Cons: "map_ok ((k, v) # m) \<longleftrightarrow> (\<forall>j\<in>fst ` set m. k < j) \<and> map_ok m"
  by (simp add: map_ok_def)

lemma keys_map_put [simp]: "fst ` set (map_put k v m) = insert k (fst ` set m)"
  by (induction k v m rule: map_put.induct) auto

lemma map_of_put [simp]: "map_of (map_put k v m) j = (if j = k then Some v else map_of m j)"
  by (induction k v m rule: map_put.induct) auto

lemma map_ok_put [simp]: "map_ok m \<Longrightarrow> map_ok (map_put k v m)"
  by (induction k v m rule: map_put.induct) (auto simp: map_ok_Cons dest: less_trans)

lemma map_of_erase [simp]: "map_of (map_erase k m) j = (if j = k then None else map_of m j)"
  by (induction m) (auto simp: map_erase_def)

lemma map_ok_erase [simp]: "map_ok m \<Longrightarrow> map_ok (map_erase k m)"
  by (simp add: map_ok_def map_erase_def sorted_wrt_filter sorted_wrt_map)

lemma map_of_insert [simp]:
  "map_of (map_insert k v m) j = (if j = k \<and> map_of m k = None then Some v else map_of m j)"
  by (simp add: map_insert_def)

lemma map_ok_insert [simp]: "map_ok m \<Longrightarrow> map_ok (map_insert k v m)"
  by (simp add: map_insert_def)

lemma map_ok_distinct: "map_ok m \<Longrightarrow> distinct (map fst m)"
  unfolding map_ok_def by (simp add: strict_sorted_iff)

lemma map_erase_put: "map_of m k = None \<Longrightarrow> map_erase k (map_put k v m) = m"
proof (induction k v m rule: map_put.induct)
  case (2 k v j w m)
  then have "map_erase k m = m"
    by (auto simp: map_erase_def filter_id_conv map_of_eq_None_iff rev_image_eqI split: if_splits)
  with 2 show ?case by (auto simp: map_erase_def split: if_splits)
qed (simp add: map_erase_def)

end
