(* ===== verification/Scoring.thy ===== *)
theory Scoring
  imports Std_Map
begin

text \<open>
  The scores that the traverser collects: \<open>scoring_api.hpp\<close>.

  Evaluated edges and groups of edges, the evaluations of one resource type (\<open>evals_t\<close>) and the table of
  evaluations by subsystem and resource type (\<open>scoring_api_t\<close>). \<open>std::sort\<close> leaves the order of equal
  elements open, so it is a parameter \<open>std_sort\<close>. An edge descriptor is the number of an edge; it is
  \<open>None\<close> where the code leaves it uninitialised. \<open>None\<close> as a result stands for undefined behaviour
  (an index out of range, an invalid iterator).
\<close>

section \<open>Evaluated edges and groups\<close>

record eval_edg =
  ee_count :: int
  ee_needs :: int
  ee_exclusive :: int
  ee_edge :: "nat option"

record eval_egroup =
  eg_score :: int
  eg_count :: int
  eg_needs :: int
  eg_exclusive :: int
  eg_root :: bool
  eg_edges :: "eval_edg list"

definition eval_edg_new :: "int \<Rightarrow> int \<Rightarrow> int \<Rightarrow> nat option \<Rightarrow> eval_edg" where
  "eval_edg_new c n x e = \<lparr>ee_count = u32 c, ee_needs = u32 n, ee_exclusive = u32 x, ee_edge = e\<rparr>"

definition eval_egroup_default :: eval_egroup where
  "eval_egroup_default =
     \<lparr>eg_score = -1, eg_count = 0, eg_needs = 0, eg_exclusive = 0, eg_root = False, eg_edges = []\<rparr>"

definition eval_egroup_new :: "int \<Rightarrow> int \<Rightarrow> int \<Rightarrow> int \<Rightarrow> bool \<Rightarrow> eval_egroup" where
  "eval_egroup_new s c n x r =
     \<lparr>eg_score = s, eg_count = u32 c, eg_needs = u32 n, eg_exclusive = u32 x, eg_root = r, eg_edges = []\<rparr>"

type_synonym comparator = "eval_egroup \<Rightarrow> eval_egroup \<Rightarrow> bool"
type_synonym sorter = "comparator \<Rightarrow> eval_egroup list \<Rightarrow> eval_egroup list"

section \<open>The evaluations of one resource type\<close>

record evals =
  m_eval_egroups :: "eval_egroup list"
  m_resrc_type :: string
  m_cutline :: int
  m_qual_count :: int
  m_total_count :: int
  m_best_k :: int
  m_best_i :: nat
  m_iter_cur :: "nat option"

definition evals_new :: "int \<Rightarrow> string \<Rightarrow> evals" where
  "evals_new c res_type =
     \<lparr>m_eval_egroups = [], m_resrc_type = res_type, m_cutline = c, m_qual_count = 0, m_total_count = 0,
      m_best_k = 0, m_best_i = 0, m_iter_cur = None\<rparr>"

text \<open>The copy constructor and the assignment leave the iterator out.\<close>

definition evals_copy :: "evals \<Rightarrow> evals" where
  "evals_copy e = e\<lparr>m_iter_cur := None\<rparr>"

text \<open>Adding at the end of the vector may invalidate its iterators.\<close>

definition evals_add :: "eval_egroup \<Rightarrow> evals \<Rightarrow> evals \<times> int" where
  "evals_add eg e =
     (let e = e\<lparr>m_total_count := u32 (m_total_count e + eg_count eg)\<rparr>;
          e = (if eg_score eg > m_cutline e then e\<lparr>m_qual_count := u32 (m_qual_count e + eg_count eg)\<rparr> else e);
          e = e\<lparr>m_eval_egroups := m_eval_egroups e @ [eg], m_iter_cur := None\<rparr>
      in (e, m_qual_count e))"

text \<open>\<open>None\<close> is the exception \<open>out_of_range\<close>.\<close>

definition evals_at :: "nat \<Rightarrow> evals \<Rightarrow> eval_egroup option" where
  "evals_at i e = (if i < length (m_eval_egroups e) then Some (m_eval_egroups e ! i) else None)"

definition evals_set_cutline :: "int \<Rightarrow> evals \<Rightarrow> evals \<times> int" where
  "evals_set_cutline c e = (e\<lparr>m_cutline := c\<rparr>, m_cutline e)"

text \<open>
  The loop of \<open>choose_best_k\<close> from the index that is at the head of the list. The number of units left is
  an \<open>int\<close>, the counts are \<open>unsigned int\<close>.
\<close>

fun choose_loop :: "eval_egroup list \<Rightarrow> int \<Rightarrow> (eval_egroup list \<times> nat) option" where
  "choose_loop [] to_be_selected = (if to_be_selected > 0 then None else Some ([], 0))"
| "choose_loop (g # gs) to_be_selected =
     (if to_be_selected > 0 then
        case choose_loop gs (i32 (to_be_selected - eg_count g)) of
          None \<Rightarrow> None
        | Some (gs', i) \<Rightarrow>
            Some (g\<lparr>eg_needs := if to_be_selected \<le> eg_count g then to_be_selected else eg_count g\<rparr> # gs', Suc i)
      else Some (g # gs, 0))"

definition choose_best_k :: "sorter \<Rightarrow> int \<Rightarrow> comparator \<Rightarrow> evals \<Rightarrow> (evals \<times> int) option" where
  "choose_best_k std_sort k cmp e =
     (if k = 0 \<or> k > m_qual_count e then Some (e, -1)
      else (case choose_loop (std_sort cmp (m_eval_egroups e)) (i32 k) of
          None \<Rightarrow> None
        | Some (gs, i) \<Rightarrow>
            Some (e\<lparr>m_eval_egroups := gs, m_best_k := k, m_best_i := i\<rparr>, i32 (m_best_k e))))"

definition accum_best_k :: "(int \<Rightarrow> eval_egroup \<Rightarrow> int) \<Rightarrow> evals \<Rightarrow> int" where
  "accum_best_k accum e =
     (if m_best_k e = 0 \<or> m_best_i e = 0 then -1
      else fold (\<lambda>g score_accum. accum score_accum g) (take (m_best_i e) (m_eval_egroups e)) 0)"

definition evals_merge :: "evals \<Rightarrow> evals \<Rightarrow> evals \<times> int" where
  "evals_merge other e =
     (if m_cutline e \<noteq> m_cutline other \<or> m_resrc_type e \<noteq> m_resrc_type other then (e, -1)
      else (e\<lparr>m_qual_count := u32 (m_qual_count e + m_qual_count other),
              m_total_count := u32 (m_total_count e + m_total_count other),
              m_eval_egroups := m_eval_egroups e @ m_eval_egroups other, m_iter_cur := None\<rparr>, 0))"

definition evals_rewind :: "evals \<Rightarrow> evals" where
  "evals_rewind e = e\<lparr>m_iter_cur := Some 0\<rparr>"

section \<open>Orders and sums of scores\<close>

definition fold_greater :: comparator where
  "fold_greater a b \<longleftrightarrow> eg_score a > eg_score b"

definition fold_less :: comparator where
  "fold_less a b \<longleftrightarrow> eg_score a < eg_score b"

text \<open>
  \<open>interval_greater\<close> compares the intervals of an ICL interval set that contain the two scores. The
  set is built from the points inserted into it; the comparison is boost's, the parameter \<open>icl_greater\<close>.
\<close>

definition fold_interval_greater :: "(int list \<Rightarrow> int \<Rightarrow> int \<Rightarrow> bool) \<Rightarrow> int list \<Rightarrow> comparator" where
  "fold_interval_greater icl_greater ivset a b \<longleftrightarrow> icl_greater ivset (eg_score a) (eg_score b)"

definition fold_plus :: "int \<Rightarrow> eval_egroup \<Rightarrow> int" where
  "fold_plus result a = i64 (result + eg_score a)"

section \<open>The table of evaluations\<close>

record scoring_api =
  m_ssys_map :: "(string \<times> (string \<times> evals) list) list"
  m_hier_constrain_now :: bool
  m_overall_score :: int
  m_avail :: int

definition scoring_new :: scoring_api where
  "scoring_new = \<lparr>m_ssys_map = [], m_hier_constrain_now = False, m_overall_score = -1, m_avail = 0\<rparr>"

definition ssys_table :: "string \<Rightarrow> scoring_api \<Rightarrow> (string \<times> evals) list" where
  "ssys_table s d = (case map_of (m_ssys_map d) s of None \<Rightarrow> [] | Some t \<Rightarrow> t)"

definition handle_new_subsystem :: "string \<Rightarrow> scoring_api \<Rightarrow> scoring_api" where
  "handle_new_subsystem s d = d\<lparr>m_ssys_map := map_insert s [] (m_ssys_map d)\<rparr>"

definition handle_new_resrc_type :: "string \<Rightarrow> string \<Rightarrow> scoring_api \<Rightarrow> scoring_api" where
  "handle_new_resrc_type s r d =
     d\<lparr>m_ssys_map := map_put s (map_insert r (evals_new 0 r) (ssys_table s d)) (m_ssys_map d)\<rparr>"

definition handle_new_keys :: "string \<Rightarrow> string \<Rightarrow> scoring_api \<Rightarrow> scoring_api" where
  "handle_new_keys s r d = handle_new_resrc_type s r (handle_new_subsystem s d)"

text \<open>\<open>(*m_ssys_map[s])[r]\<close>, after \<open>handle_new_keys\<close>, and the state in which it was changed.\<close>

definition res_evals :: "string \<Rightarrow> string \<Rightarrow> scoring_api \<Rightarrow> evals" where
  "res_evals s r d =
     (case map_of (ssys_table s (handle_new_keys s r d)) r of None \<Rightarrow> evals_new 0 r | Some e \<Rightarrow> e)"

definition put_evals :: "string \<Rightarrow> string \<Rightarrow> evals \<Rightarrow> scoring_api \<Rightarrow> scoring_api" where
  "put_evals s r e d =
     (let d = handle_new_keys s r d
      in d\<lparr>m_ssys_map := map_put s (map_put r e (ssys_table s d)) (m_ssys_map d)\<rparr>)"

definition api_cutline :: "string \<Rightarrow> string \<Rightarrow> scoring_api \<Rightarrow> scoring_api \<times> int" where
  "api_cutline s r d = (handle_new_keys s r d, m_cutline (res_evals s r d))"

definition api_set_cutline :: "string \<Rightarrow> string \<Rightarrow> int \<Rightarrow> scoring_api \<Rightarrow> scoring_api \<times> int" where
  "api_set_cutline s r c d = (case evals_set_cutline c (res_evals s r d) of (e, rc) \<Rightarrow> (put_evals s r e d, rc))"

definition api_rewind_iter_cur :: "string \<Rightarrow> string \<Rightarrow> scoring_api \<Rightarrow> scoring_api" where
  "api_rewind_iter_cur s r d = put_evals s r (evals_rewind (res_evals s r d)) d"

text \<open>The group under the iterator; undefined when the iterator is not valid or at the end.\<close>

definition api_iter_cur :: "string \<Rightarrow> string \<Rightarrow> scoring_api \<Rightarrow> scoring_api \<times> eval_egroup option" where
  "api_iter_cur s r d =
     (handle_new_keys s r d,
      case m_iter_cur (res_evals s r d) of None \<Rightarrow> None | Some i \<Rightarrow> evals_at i (res_evals s r d))"

definition api_incr_iter_cur :: "string \<Rightarrow> string \<Rightarrow> scoring_api \<Rightarrow> scoring_api" where
  "api_incr_iter_cur s r d =
     put_evals s r ((res_evals s r d)\<lparr>m_iter_cur := map_option Suc (m_iter_cur (res_evals s r d))\<rparr>) d"

definition api_add :: "string \<Rightarrow> string \<Rightarrow> eval_egroup \<Rightarrow> scoring_api \<Rightarrow> scoring_api" where
  "api_add s r eg d = put_evals s r (fst (evals_add eg (res_evals s r d))) d"

definition api_at :: "string \<Rightarrow> string \<Rightarrow> nat \<Rightarrow> scoring_api \<Rightarrow> scoring_api \<times> eval_egroup option" where
  "api_at s r i d = (handle_new_keys s r d, evals_at i (res_evals s r d))"

definition api_qualified_count :: "string \<Rightarrow> string \<Rightarrow> scoring_api \<Rightarrow> scoring_api \<times> int" where
  "api_qualified_count s r d = (handle_new_keys s r d, m_qual_count (res_evals s r d))"

definition api_total_count :: "string \<Rightarrow> string \<Rightarrow> scoring_api \<Rightarrow> scoring_api \<times> int" where
  "api_total_count s r d = (handle_new_keys s r d, m_total_count (res_evals s r d))"

definition api_best_k :: "string \<Rightarrow> string \<Rightarrow> scoring_api \<Rightarrow> scoring_api \<times> int" where
  "api_best_k s r d = (handle_new_keys s r d, m_best_k (res_evals s r d))"

definition api_best_i :: "string \<Rightarrow> string \<Rightarrow> scoring_api \<Rightarrow> scoring_api \<times> nat" where
  "api_best_i s r d = (handle_new_keys s r d, m_best_i (res_evals s r d))"

definition choose_accum_best_k :: "sorter \<Rightarrow> string \<Rightarrow> string \<Rightarrow> int \<Rightarrow> comparator \<Rightarrow> scoring_api \<Rightarrow>
    (scoring_api \<times> int) option" where
  "choose_accum_best_k std_sort s r k cmp d =
     (case choose_best_k std_sort k cmp (res_evals s r d) of
        None \<Rightarrow> None
      | Some (e, rc) \<Rightarrow>
          if rc \<noteq> -1 then Some ((put_evals s r e d)\<lparr>m_hier_constrain_now := True\<rparr>, accum_best_k fold_plus e)
          else Some (put_evals s r e d, rc))"

definition choose_accum_all :: "sorter \<Rightarrow> string \<Rightarrow> string \<Rightarrow> comparator \<Rightarrow> scoring_api \<Rightarrow>
    (scoring_api \<times> int) option" where
  "choose_accum_all std_sort s r cmp d =
     choose_accum_best_k std_sort s r (m_qual_count (res_evals s r d)) cmp d"

text \<open>\<open>transform\<close> with \<open>to_interval\<close>: the points that are inserted into the interval set.\<close>

definition api_scores :: "string \<Rightarrow> string \<Rightarrow> scoring_api \<Rightarrow> scoring_api \<times> int list" where
  "api_scores s r d = (handle_new_keys s r d, map eg_score (m_eval_egroups (res_evals s r d)))"

definition merge_evals :: "string \<Rightarrow> string \<times> evals \<Rightarrow> scoring_api \<Rightarrow> scoring_api" where
  "merge_evals s kv d = put_evals s (fst kv) (fst (evals_merge (snd kv) (res_evals s (fst kv) d))) d"

definition api_merge :: "scoring_api \<Rightarrow> scoring_api \<Rightarrow> scoring_api" where
  "api_merge other d = fold (\<lambda>(s, t) d. fold (merge_evals s) t d) (m_ssys_map other) d"

definition api_resrc_types :: "string \<Rightarrow> scoring_api \<Rightarrow> scoring_api \<times> string list" where
  "api_resrc_types s d = (let d = handle_new_subsystem s d in (d, map fst (ssys_table s d)))"

definition api_set_overall_score :: "int \<Rightarrow> scoring_api \<Rightarrow> scoring_api" where
  "api_set_overall_score overall d = d\<lparr>m_overall_score := overall\<rparr>"

definition api_set_avail :: "int \<Rightarrow> scoring_api \<Rightarrow> scoring_api" where
  "api_set_avail n d = d\<lparr>m_avail := u32 n\<rparr>"

text \<open>
  The assignment operator: entries are inserted into the tables that are there, and nothing else is
  copied. The copy constructor does the same on a new object.
\<close>

definition api_assign :: "scoring_api \<Rightarrow> scoring_api \<Rightarrow> scoring_api" where
  "api_assign other d =
     fold (\<lambda>(s, t) d. let d = handle_new_subsystem s d
            in d\<lparr>m_ssys_map := map_put s (fold (\<lambda>(r, e). map_insert r (evals_copy e)) t (ssys_table s d)) (m_ssys_map d)\<rparr>)
       (m_ssys_map other) d"

definition api_copy :: "scoring_api \<Rightarrow> scoring_api" where
  "api_copy other = api_assign other scoring_new"

end
