(* ===== verification/Scoring_Laws.thy ===== *)
theory Scoring_Laws
  imports Scoring "HOL-Library.Multiset"
begin

text \<open>
  What choosing the best groups does, for every sorting routine that keeps the contract of
  \<open>std::sort\<close>; and the invariant of the counters.
\<close>

section \<open>The contract of the sorting routine\<close>

text \<open>
  On a strict weak order \<open>std::sort\<close> permutes the elements so that none is less than one before it.
\<close>

definition strict_weak :: "('a \<Rightarrow> 'a \<Rightarrow> bool) \<Rightarrow> bool" where
  "strict_weak lt \<longleftrightarrow>
     (\<forall>a. \<not> lt a a) \<and> (\<forall>a b c. lt a b \<and> lt b c \<longrightarrow> lt a c) \<and> (\<forall>a b c. lt a c \<longrightarrow> lt a b \<or> lt b c)"

definition sorts :: "sorter \<Rightarrow> bool" where
  "sorts std_sort \<longleftrightarrow>
     (\<forall>lt xs. strict_weak lt \<longrightarrow>
        mset (std_sort lt xs) = mset xs \<and> sorted_wrt (\<lambda>a b. \<not> lt b a) (std_sort lt xs))"

fun insert_by :: "('a \<Rightarrow> 'a \<Rightarrow> bool) \<Rightarrow> 'a \<Rightarrow> 'a list \<Rightarrow> 'a list" where
  "insert_by lt x [] = [x]"
| "insert_by lt x (y # ys) = (if lt y x then y # insert_by lt x ys else x # y # ys)"

definition insertion_sort :: "('a \<Rightarrow> 'a \<Rightarrow> bool) \<Rightarrow> 'a list \<Rightarrow> 'a list" where
  "insertion_sort lt xs = foldr (insert_by lt) xs []"

lemma mset_insert_by [simp]: "mset (insert_by lt x ys) = add_mset x (mset ys)"
  by (induction ys) auto

lemma sorted_insert_by:
  assumes "strict_weak lt"
  shows "sorted_wrt (\<lambda>a b. \<not> lt b a) ys \<Longrightarrow> sorted_wrt (\<lambda>a b. \<not> lt b a) (insert_by lt x ys)"
proof (induction ys)
  case (Cons y ys)
  have set: "set (insert_by lt x ys) = insert x (set ys)"
    by (metis mset_insert_by set_mset_add_mset_insert set_mset_mset)
  show ?case
  proof (cases "lt y x")
    case True
    with assms have "\<not> lt x y" unfolding strict_weak_def by blast
    with True Cons set show ?thesis by auto
  next
    case False
    have "\<not> lt z x" if "z \<in> set ys" for z
    proof
      assume "lt z x"
      with assms have "lt z y \<or> lt y x" unfolding strict_weak_def by blast
      with False Cons.prems that show False by simp
    qed
    with False Cons.prems show ?thesis by auto
  qed
qed simp

lemma insertion_sort_sorts: "sorts insertion_sort"
proof -
  have "mset (insertion_sort lt xs) = mset xs" for lt and xs :: "eval_egroup list"
    by (induction xs) (simp_all add: insertion_sort_def)
  moreover have "sorted_wrt (\<lambda>a b. \<not> lt b a) (insertion_sort lt xs)" if "strict_weak lt" for lt and xs :: "eval_egroup list"
    using sorted_insert_by [OF that] by (induction xs) (simp_all add: insertion_sort_def)
  ultimately show ?thesis by (simp add: sorts_def)
qed

lemma strict_weak_fold: "strict_weak fold_greater" "strict_weak fold_less"
  by (auto simp: strict_weak_def fold_greater_def fold_less_def)

section \<open>Choosing units\<close>

definition counts :: "eval_egroup list \<Rightarrow> int" where
  "counts gs = (\<Sum>g\<leftarrow>gs. eg_count g)"

definition needs :: "eval_egroup list \<Rightarrow> int" where
  "needs gs = (\<Sum>g\<leftarrow>gs. eg_needs g)"

abbreviation INT_MAX :: int where
  "INT_MAX \<equiv> 2147483647"

lemma counts_simps [simp]: "counts [] = 0" "counts (g # gs) = eg_count g + counts gs"
  "counts (gs @ hs) = counts gs + counts hs"
  by (simp_all add: counts_def)

lemma needs_simps [simp]: "needs [] = 0" "needs (g # gs) = eg_needs g + needs gs"
  "needs (gs @ hs) = needs gs + needs hs"
  by (simp_all add: needs_def)

lemma needs_nonneg: "(\<And>g. g \<in> set gs \<Longrightarrow> 0 \<le> eg_needs g) \<Longrightarrow> 0 \<le> needs gs"
  by (induction gs) simp_all

lemma needs_full: "(\<And>g. g \<in> set gs \<Longrightarrow> eg_needs g = eg_count g) \<Longrightarrow> needs gs = counts gs"
  by (induction gs) simp_all

definition nonneg :: "eval_egroup list \<Rightarrow> bool" where
  "nonneg gs \<longleftrightarrow> (\<forall>g\<in>set gs. 0 \<le> eg_count g)"

lemma nonneg_simps [simp]: "nonneg []" "nonneg (g # gs) \<longleftrightarrow> 0 \<le> eg_count g \<and> nonneg gs"
  "nonneg (gs @ hs) \<longleftrightarrow> nonneg gs \<and> nonneg hs"
  by (auto simp: nonneg_def)

lemma counts_nonneg: "nonneg gs \<Longrightarrow> 0 \<le> counts gs"
  by (induction gs) simp_all

lemma counts_filter: "nonneg gs \<Longrightarrow> counts (filter P gs) \<le> counts gs"
  by (induction gs) auto

lemma counts_mset: "mset gs = mset hs \<Longrightarrow> counts gs = counts hs"
  unfolding counts_def by (metis mset_map sum_mset_sum_list)

text \<open>
  The loop assigns the units to a prefix of the groups: each takes all it has but the last, which takes
  the rest; the groups after it are left alone.
\<close>

definition same_but_needs :: "eval_egroup \<Rightarrow> eval_egroup \<Rightarrow> bool" where
  "same_but_needs g h \<longleftrightarrow> h = g\<lparr>eg_needs := eg_needs h\<rparr>"

lemma same_but_needs_refl [simp]: "same_but_needs g g"
  by (simp add: same_but_needs_def)

lemma same_but_needs_upd [simp]: "same_but_needs g (g\<lparr>eg_needs := n\<rparr>)"
  by (simp add: same_but_needs_def)

lemma choose_loop_spec:
  assumes "nonneg gs" and "k \<le> counts gs" and "counts gs \<le> INT_MAX" and "0 \<le> k"
  shows "\<exists>hs i. choose_loop gs k = Some (hs, i) \<and> length hs = length gs \<and> i \<le> length gs \<and>
    list_all2 same_but_needs gs hs \<and> needs (take i hs) = k \<and> drop i hs = drop i gs \<and>
    (\<forall>h\<in>set (take i hs). 0 \<le> eg_needs h \<and> eg_needs h \<le> eg_count h) \<and>
    (\<forall>h\<in>set (butlast (take i hs)). eg_needs h = eg_count h) \<and> (0 < k \<longrightarrow> 0 < i)"
  using assms
proof (induction gs arbitrary: k)
  case (Cons g gs)
  show ?case
  proof (cases "k > 0")
    case False
    with Cons.prems(4) show ?thesis
      by (intro exI [of _ "g # gs"] exI [of _ 0]) (auto simp: list_all2_refl)
  next
    case True
    have g: "0 \<le> eg_count g" "nonneg gs" "0 \<le> counts gs" "counts gs \<le> INT_MAX" "eg_count g \<le> INT_MAX" "k \<le> INT_MAX"
      using Cons.prems counts_nonneg [of gs] by auto
    then have rest: "i32 (k - eg_count g) = k - eg_count g" using True by (simp add: i32_def)
    show ?thesis
    proof (cases "k \<le> eg_count g")
      case True
      with \<open>k > 0\<close> rest have "choose_loop (g # gs) k = Some (g\<lparr>eg_needs := k\<rparr> # gs, 1)"
        by (cases gs) auto
      with True \<open>k > 0\<close> show ?thesis
        by (intro exI [of _ "g\<lparr>eg_needs := k\<rparr> # gs"] exI [of _ 1])
          (auto simp: list_all2_refl)
    next
      case False
      with Cons.prems g have "k - eg_count g \<le> counts gs" "0 \<le> k - eg_count g" by auto
      from Cons.IH [OF g(2) this(1) g(4) this(2)] obtain hs i where
        h: "choose_loop gs (k - eg_count g) = Some (hs, i)" "length hs = length gs" "i \<le> length gs"
          "list_all2 same_but_needs gs hs" "needs (take i hs) = k - eg_count g" "drop i hs = drop i gs"
          "\<forall>h\<in>set (take i hs). 0 \<le> eg_needs h \<and> eg_needs h \<le> eg_count h"
          "\<forall>h\<in>set (butlast (take i hs)). eg_needs h = eg_count h" by blast
      with False \<open>k > 0\<close> rest g(1) show ?thesis
        by (intro exI [of _ "g\<lparr>eg_needs := eg_count g\<rparr> # hs"] exI [of _ "Suc i"])
          auto
    qed
  qed
qed simp

section \<open>The counters\<close>

definition evals_ok :: "evals \<Rightarrow> bool" where
  "evals_ok e \<longleftrightarrow>
     nonneg (m_eval_egroups e) \<and> counts (m_eval_egroups e) \<le> INT_MAX \<and>
     m_qual_count e = counts (filter (\<lambda>g. eg_score g > m_cutline e) (m_eval_egroups e)) \<and>
     m_total_count e = counts (m_eval_egroups e) \<and> m_best_i e \<le> length (m_eval_egroups e)"

lemma evals_new_ok [simp]: "evals_ok (evals_new c r)"
  by (simp add: evals_ok_def evals_new_def)

lemma evals_copy_ok [simp]: "evals_ok (evals_copy e) = evals_ok e"
  by (simp add: evals_ok_def evals_copy_def)

lemma evals_rewind_ok [simp]: "evals_ok (evals_rewind e) = evals_ok e"
  by (simp add: evals_ok_def evals_rewind_def)

lemma qual_le_total: "evals_ok e \<Longrightarrow> 0 \<le> m_qual_count e \<and> m_qual_count e \<le> m_total_count e"
  using counts_filter counts_nonneg [of "filter P gs" for P gs] by (auto simp: evals_ok_def nonneg_def)

lemma evals_add_ok:
  assumes "evals_ok e" and "0 \<le> eg_count g" and "m_total_count e + eg_count g \<le> INT_MAX"
  shows "evals_ok (fst (evals_add g e))"
proof -
  have "0 \<le> m_qual_count e" "m_qual_count e \<le> m_total_count e" using qual_le_total [OF assms(1)] by simp_all
  with assms show ?thesis by (auto simp: evals_ok_def evals_add_def Let_def)
qed

lemma evals_merge_ok:
  assumes "evals_ok e" and "evals_ok f" and "m_total_count e + m_total_count f \<le> INT_MAX"
  shows "evals_ok (fst (evals_merge f e))"
proof -
  have "0 \<le> m_qual_count e" "m_qual_count e \<le> m_total_count e" "0 \<le> m_qual_count f" "m_qual_count f \<le> m_total_count f"
    using qual_le_total assms(1,2) by blast+
  with assms show ?thesis by (auto simp: evals_ok_def evals_merge_def)
qed

section \<open>Choosing the best groups\<close>

definition by_score :: "comparator \<Rightarrow> bool" where
  "by_score cmp \<longleftrightarrow> (\<forall>a b a' b'. eg_score a = eg_score a' \<and> eg_score b = eg_score b' \<longrightarrow> cmp a b = cmp a' b')"

lemma by_score_fold: "by_score fold_greater" "by_score fold_less"
  by (simp_all add: by_score_def fold_greater_def fold_less_def)

definition without_needs :: "eval_egroup \<Rightarrow> eval_egroup" where
  "without_needs g = g\<lparr>eg_needs := 0\<rparr>"

lemma without_needs_simps [simp]: "eg_score (without_needs g) = eg_score g" "eg_count (without_needs g) = eg_count g"
  "eg_edges (without_needs g) = eg_edges g" "eg_root (without_needs g) = eg_root g"
  by (simp_all add: without_needs_def)

lemma same_but_needs_iff: "same_but_needs g h \<longleftrightarrow> without_needs g = without_needs h"
proof
  assume "without_needs g = without_needs h"
  then have "(without_needs g)\<lparr>eg_needs := eg_needs h\<rparr> = (without_needs h)\<lparr>eg_needs := eg_needs h\<rparr>" by simp
  then show "same_but_needs g h" by (simp add: same_but_needs_def without_needs_def)
next
  assume "same_but_needs g h"
  then have "h = g\<lparr>eg_needs := eg_needs h\<rparr>" by (simp add: same_but_needs_def)
  then have "without_needs h = without_needs (g\<lparr>eg_needs := eg_needs h\<rparr>)" by (rule arg_cong)
  then show "without_needs g = without_needs h" by (simp add: without_needs_def)
qed

lemma same_but_needs_map: "list_all2 same_but_needs gs hs \<longleftrightarrow> map without_needs gs = map without_needs hs"
  by (simp add: list.rel_map list_all2_eq same_but_needs_iff [abs_def] list.rel_eq [symmetric])

lemma nonneg_mset: "mset gs = mset hs \<Longrightarrow> nonneg gs = nonneg hs"
  unfolding nonneg_def using mset_eq_setD by blast

lemma without_needs_mset:
  assumes "mset (map without_needs gs) = mset (map without_needs hs)"
  shows "counts gs = counts hs" and "nonneg gs = nonneg hs" and "length gs = length hs"
    and "counts (filter (\<lambda>g. eg_score g > c) gs) = counts (filter (\<lambda>g. eg_score g > c) hs)"
proof -
  have "counts (map without_needs xs) = counts xs" for xs by (induction xs) simp_all
  then show "counts gs = counts hs" using counts_mset [OF assms] by simp
  have "nonneg (map without_needs xs) = nonneg xs" for xs by (induction xs) simp_all
  then show "nonneg gs = nonneg hs" using nonneg_mset [OF assms] by simp
  show "length gs = length hs" using assms by (metis length_map mset_eq_length)
  have "counts (filter (\<lambda>g. eg_score g > c) (map without_needs xs)) = counts (filter (\<lambda>g. eg_score g > c) xs)" for xs
    by (induction xs) simp_all
  moreover have "counts (filter (\<lambda>g. eg_score g > c) (map without_needs gs)) = counts (filter (\<lambda>g. eg_score g > c) (map without_needs hs))"
    using assms by (intro counts_mset) (metis mset_filter)
  ultimately show "counts (filter (\<lambda>g. eg_score g > c) gs) = counts (filter (\<lambda>g. eg_score g > c) hs)" by simp
qed

lemma sorted_without_needs:
  assumes "by_score cmp" and "map without_needs gs = map without_needs hs" and "sorted_wrt (\<lambda>a b. \<not> cmp b a) gs"
  shows "sorted_wrt (\<lambda>a b. \<not> cmp b a) hs"
proof -
  have "cmp a b = cmp (without_needs a) (without_needs b)" for a b
    using assms(1) unfolding by_score_def by (metis without_needs_simps(1))
  then have "sorted_wrt (\<lambda>a b. \<not> cmp b a) xs = sorted_wrt (\<lambda>a b. \<not> cmp b a) (map without_needs xs)" for xs
    unfolding sorted_wrt_map by (intro arg_cong [of _ _ "\<lambda>P. sorted_wrt P xs"] ext arg_cong [of _ _ Not])
  from this [of gs] this [of hs] assms(2,3) show ?thesis by simp
qed

definition chosen :: "evals \<Rightarrow> eval_egroup list" where
  "chosen e = take (m_best_i e) (m_eval_egroups e)"

definition passed_over :: "evals \<Rightarrow> eval_egroup list" where
  "passed_over e = drop (m_best_i e) (m_eval_egroups e)"

lemma choose_best_k_chooses:
  assumes "sorts std_sort" and "strict_weak cmp" and "by_score cmp" and "evals_ok e"
    and "1 \<le> k" and "k \<le> m_qual_count e"
  shows "\<exists>e'. choose_best_k std_sort k cmp e = Some (e', i32 (m_best_k e)) \<and> evals_ok e' \<and> m_best_k e' = k \<and>
    m_cutline e' = m_cutline e \<and> m_resrc_type e' = m_resrc_type e \<and> m_qual_count e' = m_qual_count e \<and>
    mset (map without_needs (m_eval_egroups e')) = mset (map without_needs (m_eval_egroups e)) \<and>
    needs (chosen e') = k \<and> chosen e' \<noteq> [] \<and>
    (\<forall>g\<in>set (chosen e'). 0 \<le> eg_needs g \<and> eg_needs g \<le> eg_count g) \<and>
    (\<forall>g\<in>set (butlast (chosen e')). eg_needs g = eg_count g) \<and>
    sorted_wrt (\<lambda>a b. \<not> cmp b a) (m_eval_egroups e')"
proof -
  let ?gs = "std_sort cmp (m_eval_egroups e)"
  have p: "mset ?gs = mset (m_eval_egroups e)" and s: "sorted_wrt (\<lambda>a b. \<not> cmp b a) ?gs"
    using assms(1,2) by (simp_all add: sorts_def)
  have n: "nonneg ?gs" "counts ?gs \<le> INT_MAX" "counts ?gs = m_total_count e"
    using assms(4) nonneg_mset [OF p] counts_mset [OF p] by (simp_all add: evals_ok_def)
  have k: "k \<le> counts ?gs" using n(3) qual_le_total [OF assms(4)] assms(6) by simp
  then have i: "i32 k = k" using n(2) assms(5) by (simp add: i32_def)
  from choose_loop_spec [OF n(1) k n(2)] assms(5) obtain hs j where
      h: "choose_loop ?gs k = Some (hs, j)" "length hs = length ?gs" "j \<le> length ?gs"
        "list_all2 same_but_needs ?gs hs" "needs (take j hs) = k" "drop j hs = drop j ?gs"
        "\<forall>h\<in>set (take j hs). 0 \<le> eg_needs h \<and> eg_needs h \<le> eg_count h" "0 < j"
        "\<forall>h\<in>set (butlast (take j hs)). eg_needs h = eg_count h" by auto
  define e' where "e' = e\<lparr>m_eval_egroups := hs, m_best_k := k, m_best_i := j\<rparr>"
  have eq: "choose_best_k std_sort k cmp e = Some (e', i32 (m_best_k e))"
    using assms(5,6) h(1) i by (simp add: choose_best_k_def e'_def)
  have same: "map without_needs ?gs = map without_needs hs" using h(4) by (simp add: same_but_needs_map)
  then have ms: "mset (map without_needs hs) = mset (map without_needs (m_eval_egroups e))"
    using p by (metis mset_map)
  note w = without_needs_mset [OF ms]
  have "evals_ok e'" using assms(4) w h(2,3) by (simp add: evals_ok_def e'_def)
  moreover have "sorted_wrt (\<lambda>a b. \<not> cmp b a) hs" using sorted_without_needs [OF assms(3) same s] .
  moreover have "take j hs \<noteq> []" using h(8) h(2,3) by auto
  ultimately show ?thesis
    using eq h(5,7,9) ms by (intro exI [of _ e'] conjI) (simp_all add: e'_def chosen_def)
qed

lemma chosen_before_passed_over:
  "sorted_wrt P (m_eval_egroups e) \<Longrightarrow> g \<in> set (chosen e) \<Longrightarrow> h \<in> set (passed_over e) \<Longrightarrow> P g h"
  unfolding chosen_def passed_over_def by (metis append_take_drop_id sorted_wrt_append)

lemma groups_split: "m_eval_egroups e = chosen e @ passed_over e"
  by (simp add: chosen_def passed_over_def)

section \<open>The table of evaluations\<close>

text \<open>A new key comes with a blank entry, so looking one up makes no difference to any entry.\<close>

lemma res_evals_lookup:
  "res_evals s r d = (case map_of (ssys_table s d) r of None \<Rightarrow> evals_new 0 r | Some e \<Rightarrow> e)"
  by (auto simp: res_evals_def handle_new_keys_def handle_new_resrc_type_def handle_new_subsystem_def
      ssys_table_def split: option.splits)

lemma ssys_table_new_keys:
  "map_of (ssys_table s (handle_new_keys s' r' d)) r =
     (if s = s' \<and> r = r' \<and> map_of (ssys_table s d) r = None then Some (evals_new 0 r) else map_of (ssys_table s d) r)"
  by (auto simp: handle_new_keys_def handle_new_resrc_type_def handle_new_subsystem_def
      ssys_table_def split: option.splits)

lemma res_evals_new_keys [simp]: "res_evals s r (handle_new_keys s' r' d) = res_evals s r d"
  by (auto simp: res_evals_lookup ssys_table_new_keys split: option.splits)

lemma res_evals_put [simp]:
  "res_evals s r (put_evals s' r' e d) = (if s = s' \<and> r = r' then e else res_evals s r d)"
proof -
  have "map_of (ssys_table s (put_evals s' r' e d)) r =
      (if s = s' \<and> r = r' then Some e else map_of (ssys_table s (handle_new_keys s' r' d)) r)"
    by (auto simp: put_evals_def Let_def ssys_table_def split: option.splits)
  then have "res_evals s r (put_evals s' r' e d) =
      (if s = s' \<and> r = r' then e else res_evals s r (handle_new_keys s' r' d))"
    unfolding res_evals_lookup by simp
  then show ?thesis by simp
qed

lemma res_evals_fields [simp]:
  "res_evals s r (d\<lparr>m_hier_constrain_now := b\<rparr>) = res_evals s r d"
  "res_evals s r (d\<lparr>m_overall_score := n\<rparr>) = res_evals s r d"
  "res_evals s r (d\<lparr>m_avail := n\<rparr>) = res_evals s r d"
  by (simp_all add: res_evals_lookup ssys_table_def)

lemma new_keys_fields [simp]:
  "m_hier_constrain_now (handle_new_keys s r d) = m_hier_constrain_now d"
  "m_overall_score (handle_new_keys s r d) = m_overall_score d"
  "m_avail (handle_new_keys s r d) = m_avail d"
  by (simp_all add: handle_new_keys_def handle_new_resrc_type_def handle_new_subsystem_def)

lemma put_evals_fields [simp]:
  "m_hier_constrain_now (put_evals s r e d) = m_hier_constrain_now d"
  "m_overall_score (put_evals s r e d) = m_overall_score d"
  "m_avail (put_evals s r e d) = m_avail d"
  by (simp_all add: put_evals_def Let_def)

definition scoring_ok :: "scoring_api \<Rightarrow> bool" where
  "scoring_ok d \<longleftrightarrow> (\<forall>s r. evals_ok (res_evals s r d))"

lemma scoring_new_ok [simp]: "scoring_ok scoring_new"
  by (simp add: scoring_ok_def res_evals_lookup ssys_table_def scoring_new_def)

lemma scoring_ok_put [simp]: "scoring_ok d \<Longrightarrow> evals_ok e \<Longrightarrow> scoring_ok (put_evals s r e d)"
  by (simp add: scoring_ok_def)

lemma scoring_ok_new_keys [simp]: "scoring_ok (handle_new_keys s r d) = scoring_ok d"
  by (simp add: scoring_ok_def)

lemma scoring_ok_fields [simp]:
  "scoring_ok (d\<lparr>m_hier_constrain_now := b\<rparr>) = scoring_ok d"
  "scoring_ok (d\<lparr>m_overall_score := n\<rparr>) = scoring_ok d"
  "scoring_ok (d\<lparr>m_avail := n\<rparr>) = scoring_ok d"
  by (simp_all add: scoring_ok_def)

lemma scoring_ok_add:
  "scoring_ok d \<Longrightarrow> 0 \<le> eg_count g \<Longrightarrow> m_total_count (res_evals s r d) + eg_count g \<le> INT_MAX \<Longrightarrow>
     scoring_ok (api_add s r g d)"
  unfolding api_add_def by (intro scoring_ok_put evals_add_ok) (auto simp: scoring_ok_def)

text \<open>
  On tables that are in order, choosing never runs past the groups, whatever the number asked for, and
  it keeps the tables in order.
\<close>

lemma choose_accum_best_k_ok:
  assumes "sorts std_sort" and "strict_weak cmp" and "by_score cmp" and "scoring_ok d" and "0 \<le> k"
  shows "\<exists>d' rc. choose_accum_best_k std_sort s r k cmp d = Some (d', rc) \<and> scoring_ok d' \<and>
    m_avail d' = m_avail d \<and> m_overall_score d' = m_overall_score d"
proof -
  have e: "evals_ok (res_evals s r d)" using assms(4) by (simp add: scoring_ok_def)
  show ?thesis
  proof (cases "k = 0 \<or> k > m_qual_count (res_evals s r d)")
    case True
    with assms(4) e show ?thesis by (simp add: choose_accum_best_k_def choose_best_k_def)
  next
    case False
    with assms(5) choose_best_k_chooses [OF assms(1-3) e, of k] obtain e' where
        "choose_best_k std_sort k cmp (res_evals s r d) = Some (e', i32 (m_best_k (res_evals s r d)))" "evals_ok e'"
      by auto
    with assms(4) show ?thesis by (simp add: choose_accum_best_k_def)
  qed
qed

end
