(* ===== verification/Scoring_Properties.thy ===== *)
theory Scoring_Properties
  imports Scoring_Laws
begin

text \<open>The properties of the scoring interface.\<close>

definition sample_group :: "int \<Rightarrow> int \<Rightarrow> eval_egroup" where
  "sample_group s n = eval_egroup_new s n 0 0 False"

definition sample_evals :: evals where
  "sample_evals = fold (\<lambda>g e. fst (evals_add g e)) [sample_group 2 3, sample_group 5 2, sample_group 4 1] (evals_new 0 ''core'')"

lemma sample_evals_ok: "evals_ok sample_evals"
  unfolding evals_ok_def nonneg_def counts_def by code_simp

text \<open>
  C21. For every sorting routine with the contract of \<open>std::sort\<close> and every order on the scores, choosing
  \<open>k\<close> of the qualified units succeeds: the needs of the chosen groups add up to exactly \<open>k\<close>, none needs
  more than it has, and no group that was passed over comes before a chosen one in the order. Only the
  order of the groups and their needs change.
\<close>

theorem choose_best_k_exact:
  assumes "sorts std_sort" and "strict_weak cmp" and "by_score cmp" and "evals_ok e"
    and "1 \<le> k" and "k \<le> m_qual_count e"
  shows "\<exists>e'. choose_best_k std_sort k cmp e = Some (e', i32 (m_best_k e)) \<and>
    needs (chosen e') = k \<and> (\<forall>g\<in>set (chosen e'). eg_needs g \<le> eg_count g) \<and>
    (\<forall>g\<in>set (chosen e'). \<forall>h\<in>set (passed_over e'). \<not> cmp h g) \<and>
    mset (map without_needs (m_eval_egroups e')) = mset (map without_needs (m_eval_egroups e)) \<and> evals_ok e'"
  using choose_best_k_chooses [OF assms] chosen_before_passed_over by (metis (no_types, lifting))

theorem choose_best_k_exact_witness:
  "choose_best_k insertion_sort 3 fold_greater sample_evals =
     Some (sample_evals\<lparr>m_eval_egroups := [(sample_group 5 2)\<lparr>eg_needs := 2\<rparr>, (sample_group 4 1)\<lparr>eg_needs := 1\<rparr>, sample_group 2 3],
       m_best_k := 3, m_best_i := 2\<rparr>, 0) \<and> needs [(sample_group 5 2)\<lparr>eg_needs := 2\<rparr>, (sample_group 4 1)\<lparr>eg_needs := 1\<rparr>] = 3"
proof -
  have c: "choose_best_k insertion_sort 3 fold_greater sample_evals =
     Some (sample_evals\<lparr>m_eval_egroups := [(sample_group 5 2)\<lparr>eg_needs := 2\<rparr>, (sample_group 4 1)\<lparr>eg_needs := 1\<rparr>, sample_group 2 3],
       m_best_k := 3, m_best_i := 2\<rparr>, 0)" by code_simp
  have "(3 :: int) \<le> m_qual_count sample_evals" by code_simp
  from choose_best_k_exact [OF insertion_sort_sorts strict_weak_fold(1) by_score_fold(1) sample_evals_ok _ this]
  show ?thesis unfolding c by (auto simp: chosen_def)
qed

text \<open>
  Under the order of \<open>fold::greater\<close> every chosen group is a qualified one: its score is above the
  cut line.
\<close>

theorem choose_greater_qualified:
  assumes "sorts std_sort" and "evals_ok e" and "choose_best_k std_sort k fold_greater e = Some (e', rc)"
    and "1 \<le> k" and "k \<le> m_qual_count e" and "g \<in> set (chosen e')" and "0 < eg_needs g"
  shows "m_cutline e < eg_score g"
proof (rule ccontr)
  assume low: "\<not> m_cutline e < eg_score g"
  let ?P = "\<lambda>g. eg_score g > m_cutline e"
  from choose_best_k_chooses [OF assms(1) strict_weak_fold(1) by_score_fold(1) assms(2,4,5)] assms(3)
  have ok: "evals_ok e'" and c: "m_cutline e' = m_cutline e" and q: "m_qual_count e' = m_qual_count e"
    and n: "needs (chosen e') = k" and le: "\<And>g. g \<in> set (chosen e') \<Longrightarrow> 0 \<le> eg_needs g \<and> eg_needs g \<le> eg_count g"
    and full: "\<And>g. g \<in> set (butlast (chosen e')) \<Longrightarrow> eg_needs g = eg_count g"
    and s: "sorted_wrt (\<lambda>a b. \<not> fold_greater b a) (m_eval_egroups e')"
    by auto
  from assms(6) obtain xs ys where xs: "chosen e' = xs @ g # ys" by (meson split_list)
  then have gs: "m_eval_egroups e' = xs @ g # (ys @ passed_over e')" using groups_split [of e'] by simp
  with s have "h \<in> set (ys @ passed_over e') \<Longrightarrow> \<not> fold_greater h g" for h by (simp add: sorted_wrt_append)
  with low have tail: "h \<in> set (ys @ passed_over e') \<Longrightarrow> \<not> ?P h" for h
    unfolding fold_greater_def by (meson leI le_less_trans not_less)
  have "m_qual_count e' = counts (filter ?P (m_eval_egroups e'))" using ok c by (simp add: evals_ok_def)
  also note gs
  also have "filter ?P (xs @ g # (ys @ passed_over e')) = filter ?P xs" using tail low by simp
  finally have q': "m_qual_count e' = counts (filter ?P xs)" .
  \<comment> \<open>the groups before \<open>g\<close> hold all the qualified units, so nothing is left for \<open>g\<close>\<close>
  have "xs = [] \<or> set xs \<subseteq> set (butlast (chosen e'))" by (auto simp: xs butlast_append)
  with full have "needs xs = counts xs" by (intro needs_full) auto
  moreover have "0 \<le> needs ys" using le by (intro needs_nonneg) (auto simp: xs)
  moreover have "nonneg xs" using ok by (simp add: evals_ok_def groups_split [of e'] xs)
  ultimately show False using n q q' assms(5,7) counts_filter [of xs ?P] by (simp add: xs)
qed

theorem choose_greater_qualified_witness:
  "m_cutline sample_evals < eg_score (sample_group 4 1)"
proof -
  have c: "choose_best_k insertion_sort 3 fold_greater sample_evals =
     Some (sample_evals\<lparr>m_eval_egroups := [(sample_group 5 2)\<lparr>eg_needs := 2\<rparr>, (sample_group 4 1)\<lparr>eg_needs := 1\<rparr>, sample_group 2 3],
       m_best_k := 3, m_best_i := 2\<rparr>, 0)" by code_simp
  have "(3 :: int) \<le> m_qual_count sample_evals" by code_simp
  from choose_greater_qualified [OF insertion_sort_sorts sample_evals_ok c _ this, of "(sample_group 4 1)\<lparr>eg_needs := 1\<rparr>"]
  show ?thesis by (simp add: chosen_def)
qed

text \<open>
  Under the order of \<open>fold::less\<close> this does not hold: a group below the cut line, which does not count
  as qualified, sorts first and is chosen.
\<close>

theorem choose_less_takes_unqualified:
  "let e = fold (\<lambda>g e. fst (evals_add g e)) [sample_group (-1) 1, sample_group 3 1] (evals_new 0 ''core'')
   in m_qual_count e = 1 \<and>
     map_option (\<lambda>(e', rc). map eg_score (chosen e')) (choose_best_k insertion_sort 1 fold_less e) = Some [-1]"
  unfolding Let_def chosen_def by code_simp

text \<open>
  A choice of \<open>2 ^ 31\<close> units is accepted and chooses nothing: the number of units left is an
  \<open>int\<close> and starts negative.
\<close>

theorem choose_beyond_int_chooses_nothing:
  "let e = fst (evals_add (sample_group 1 2147483648) (evals_new 0 ''memory''))
   in m_qual_count e = 2147483648 \<and>
     map_option (\<lambda>(e', rc). (m_best_k e', m_best_i e', rc)) (choose_best_k insertion_sort 2147483648 fold_greater e) =
       Some (2147483648, 0, 0)"
  unfolding Let_def by code_simp

text \<open>
  The assignment of one table of scores to another keeps the entries that the other has: the result
  is not a copy, and the flag that the choice was made is not taken over.
\<close>

theorem scoring_assign_keeps_old:
  "let a = api_add ''containment'' ''core'' (sample_group 1 7) scoring_new;
       b = (api_add ''containment'' ''core'' (sample_group 1 3) scoring_new)\<lparr>m_hier_constrain_now := True\<rparr>
   in m_qual_count (res_evals ''containment'' ''core'' (api_assign b a)) = 7 \<and>
     \<not> m_hier_constrain_now (api_assign b a) \<and>
     m_qual_count (res_evals ''containment'' ''core'' (api_copy b)) = 3 \<and> \<not> m_hier_constrain_now (api_copy b)"
  unfolding Let_def by code_simp

end
