(* ===== verification/Planner_Interface.thy ===== *)
theory Planner_Interface
  imports Planner_Queries
begin

text \<open>
  What the traverser relies on when it books spans: a store of spans under ids, with the laws of adding and
  removing, as the locale \<open>span_store\<close>. Its client lemmas are about the tables that map jobs to spans
  (\<open>x_spans\<close>, \<open>allocations\<close>, \<open>job2span\<close>). The planner is the interpretation.
\<close>

section \<open>The interface\<close>

locale span_store =
  fixes inv :: "'p \<Rightarrow> bool"
    and table :: "'p \<Rightarrow> int \<rightharpoonup> 's"
    and room :: "'r \<Rightarrow> 'p \<Rightarrow> bool"
    and add :: "'r \<Rightarrow> 'p \<Rightarrow> ('p \<times> int) option"
    and rem :: "int \<Rightarrow> 'p \<Rightarrow> ('p \<times> int) option"
  assumes add_law: "inv p \<Longrightarrow> room r p \<Longrightarrow> \<exists>p' sid. add r p = Some (p', sid) \<and> inv p' \<and>
      (sid = -1 \<and> p' = p \<or> sid \<noteq> -1 \<and> sid \<notin> dom (table p) \<and> (\<exists>s. table p' = (table p)(sid \<mapsto> s)))"
    and rem_law: "inv p \<Longrightarrow> sid \<in> dom (table p) \<Longrightarrow>
      \<exists>p'. rem sid p = Some (p', 0) \<and> inv p' \<and> table p' = (table p)(sid := None)"
begin

text \<open>
  The jobs \<open>J\<close> of a table \<open>m\<close> hold different spans of the store; \<open>-1\<close> stands for a span that was refused.
\<close>

definition holds :: "int set \<Rightarrow> (int \<rightharpoonup> int) \<Rightarrow> 'p \<Rightarrow> bool" where
  "holds J m p \<longleftrightarrow> inv p \<and>
     (\<forall>j\<in>J. \<forall>sid. m j = Some sid \<longrightarrow> sid \<noteq> -1 \<longrightarrow> sid \<in> dom (table p) \<and> (\<forall>k\<in>J. m k = Some sid \<longrightarrow> k = j))"

lemma holds_inv: "holds J m p \<Longrightarrow> inv p"
  by (simp add: holds_def)

lemma holds_mono: "holds J m p \<Longrightarrow> K \<subseteq> J \<Longrightarrow> (\<And>j. j \<in> K \<Longrightarrow> m' j = m j) \<Longrightarrow> holds K m' p"
  unfolding holds_def by (metis subsetD)

lemma holds_insert: "holds J m p \<Longrightarrow> m j = None \<Longrightarrow> holds (insert j J) m p"
  unfolding holds_def by (metis insert_iff option.distinct(1))

lemma rem_job:
  assumes "holds J m p" and "j \<in> J" and "m j = Some sid" and "sid \<noteq> -1"
  shows "\<exists>p'. rem sid p = Some (p', 0) \<and> holds (J - {j}) m p' \<and> table p' = (table p)(sid := None)"
proof -
  from assms have "inv p" "sid \<in> dom (table p)" by (auto simp: holds_def)
  from rem_law [OF this] obtain p' where p': "rem sid p = Some (p', 0)" "inv p'" "table p' = (table p)(sid := None)" by blast
  have "holds (J - {j}) m p'" unfolding holds_def
  proof (intro conjI ballI allI impI)
    fix k sid' assume k: "k \<in> J - {j}" and s: "m k = Some sid'" "sid' \<noteq> -1"
    with assms have "sid' \<noteq> sid" by (auto simp: holds_def)
    with k s assms show "sid' \<in> dom (table p')" by (auto simp: p'(3) holds_def)
    show "\<And>k'. k' \<in> J - {j} \<Longrightarrow> m k' = Some sid' \<Longrightarrow> k' = k" using k s assms by (auto simp: holds_def)
  qed (fact p'(2))
  with p' show ?thesis by blast
qed

lemma add_job:
  assumes "holds J m p" and "room r p" and "j \<notin> J"
  shows "\<exists>p' sid. add r p = Some (p', sid) \<and> holds (insert j J) (m(j \<mapsto> sid)) p' \<and>
    (sid = -1 \<and> p' = p \<or> sid \<noteq> -1 \<and> sid \<notin> dom (table p) \<and> (\<exists>s. table p' = (table p)(sid \<mapsto> s)))"
proof -
  from add_law [OF holds_inv [OF assms(1)] assms(2)] obtain p' sid where a: "add r p = Some (p', sid)" "inv p'"
      "sid = -1 \<and> p' = p \<or> sid \<noteq> -1 \<and> sid \<notin> dom (table p) \<and> (\<exists>s. table p' = (table p)(sid \<mapsto> s))" by blast
  moreover from a(3) have "holds (insert j J) (m(j \<mapsto> sid)) p'"
  proof
    assume "sid = -1 \<and> p' = p"
    then have p: "sid = -1" "p' = p" by simp_all
    show ?thesis unfolding holds_def p
    proof (intro conjI ballI allI impI)
      fix k sid' assume k: "k \<in> insert j J" and m: "(m(j \<mapsto> -1)) k = Some sid'" "sid' \<noteq> -1"
      then have "k \<noteq> j" by auto
      with k m have k: "k \<in> J" "m k = Some sid'" by auto
      with m assms(1) show "sid' \<in> dom (table p)" by (auto simp: holds_def)
      fix k' assume k': "k' \<in> insert j J" "(m(j \<mapsto> -1)) k' = Some sid'"
      with m have "k' \<noteq> j" by auto
      with k' have "k' \<in> J" "m k' = Some sid'" by auto
      with k m assms(1) show "k' = k" unfolding holds_def by blast
    qed (use assms(1) in \<open>simp add: holds_def\<close>)
  next
    assume r: "sid \<noteq> -1 \<and> sid \<notin> dom (table p) \<and> (\<exists>s. table p' = (table p)(sid \<mapsto> s))"
    then obtain s where s: "table p' = (table p)(sid \<mapsto> s)" by blast
    show ?thesis unfolding holds_def
    proof (intro conjI ballI allI impI)
      fix k sid' assume k: "k \<in> insert j J" and m: "(m(j \<mapsto> sid)) k = Some sid'" "sid' \<noteq> -1"
      show "sid' \<in> dom (table p')" using k m assms(1) by (cases "k = j") (auto simp: s holds_def)
      fix k' assume k': "k' \<in> insert j J" "(m(j \<mapsto> sid)) k' = Some sid'"
      have old: "sid \<noteq> sid''" if "i \<in> J" "m i = Some sid''" "sid'' \<noteq> -1" for i sid''
        using that r assms(1) unfolding holds_def by blast
      consider "k = j" "k' = j" | "k = j" "k' \<in> J" "k' \<noteq> j" | "k \<in> J" "k \<noteq> j" "k' = j" | "k \<in> J" "k \<noteq> j" "k' \<in> J" "k' \<noteq> j"
        using k k'(1) by blast
      then show "k' = k"
      proof cases
        case 4
        then show ?thesis using m k'(2) assms(1) unfolding holds_def by (metis fun_upd_other)
      qed (use m k'(2) old in fastforce)+
    qed (fact a(2))
  qed
  ultimately show ?thesis by blast
qed

end

section \<open>The planner is a span store\<close>

definition span_add :: "(int list \<Rightarrow> int list) \<Rightarrow> int \<times> int \<times> int list \<Rightarrow> planner \<Rightarrow> (planner \<times> int) option" where
  "span_add zkeys = (\<lambda>(t, duration, counts) ctx.
     map_option (\<lambda>(ctx, sid, _). (ctx, sid)) (planner_add_span zkeys t duration counts (length counts) ctx))"

definition span_rem :: "(int list \<Rightarrow> int list) \<Rightarrow> int \<Rightarrow> planner \<Rightarrow> (planner \<times> int) option" where
  "span_rem zkeys sid ctx = map_option (\<lambda>(ctx, rc, _). (ctx, rc)) (planner_rem_span zkeys sid ctx)"

definition span_room :: "int \<times> int \<times> int list \<Rightarrow> planner \<Rightarrow> bool" where
  "span_room = (\<lambda>(t, duration, counts) ctx. 0 \<le> duration \<and> t + duration \<le> INT64_MAX \<and> span_counter ctx < INT64_MAX)"

lemma span_table_ids: "planner_inv p \<Longrightarrow> sid \<in> dom (span_table p) \<Longrightarrow> 1 \<le> sid \<and> sid \<le> INT64_MAX"
  using planner_invD(4) [of p] by (fastforce simp: span_table_def table_ok_def dom_def dest: map_of_SomeD)

lemma planner_add_span_law:
  assumes "planner_inv p" and "zkeys_ok zkeys" and "span_room (t, duration, counts) p"
  shows "\<exists>p' sid e. planner_add_span zkeys t duration counts (length counts) p = Some (p', sid, e) \<and> planner_inv p' \<and>
    (sid = -1 \<and> p' = p \<or> sid \<noteq> -1 \<and> sid = span_counter p + 1 \<and> sid \<notin> dom (span_table p) \<and>
      span_table p' = (span_table p)(sid \<mapsto> (t, t + duration, padded (length counts) (map i64 counts))))"
proof (cases "fst (avail_during t duration (map i64 counts) (length counts) p) \<and>
    span_input_check p t duration (map i64 counts) (length counts) = None")
  case True
  have args: "add_args_ok t duration counts (length counts)" "span_counter p < INT64_MAX"
    using assms(3) by (auto simp: span_room_def add_args_ok_def)
  let ?n = "span_counter p + 1"
  obtain p' e a b where r: "planner_add_span zkeys t duration counts (length counts) p = Some (p', ?n, e)" "planner_inv p'"
      "frame_of p' = (frame_of p)\<lparr>avail_time_iter_set := False, span_counter := ?n,
       span_lookup := (?n, placed_at a b (new_span t duration counts (length counts) ?n)) # span_lookup p\<rparr>"
    using True by (auto intro: planner_add_span_ok [OF assms(1,2) args])
  have "span_lookup p' = (?n, placed_at a b (new_span t duration counts (length counts) ?n)) # span_lookup p"
    using r(3) [THEN arg_cong, of span_lookup] by (simp add: frame_of_def)
  moreover have "?n \<notin> dom (span_table p)" "0 \<le> span_counter p"
    using planner_invD(4) [OF assms(1)] by (fastforce simp: span_table_def table_ok_def dom_def dest: map_of_SomeD)+
  ultimately show ?thesis using r(1,2) by (simp add: span_table_def span_view_def new_span_def fun_eq_iff)
next
  case False
  then have "\<exists>e. planner_add_span zkeys t duration counts (length counts) p = Some (p, -1, e)"
    by (auto simp: planner_add_span_def span_new_def split: option.splits)
  with assms(1) show ?thesis by auto
qed

lemma planner_rem_span_law:
  assumes "planner_inv p" and "zkeys_ok zkeys" and "sid \<in> dom (span_table p)"
  shows "\<exists>p' e. planner_rem_span zkeys sid p = Some (p', 0, e) \<and> planner_inv p' \<and> span_table p' = (span_table p)(sid := None)"
proof -
  from span_table_ids [OF assms(1,3)] have k: "span_key sid = sid" by (simp add: span_key_def)
  from assms(3) obtain s where "map_of (span_lookup p) (span_key sid) = Some s" by (auto simp: span_table_def k)
  from planner_rem_span_ok [OF assms(1,2) this] obtain p' e where
    r: "planner_rem_span zkeys sid p = Some (p', 0, e)" "planner_inv p'"
      "frame_of p' = (frame_of p)\<lparr>avail_time_iter_set := False, span_lookup := zhashx_delete (span_key sid) (span_lookup p)\<rparr>" .
  have "span_lookup p' = zhashx_delete sid (span_lookup p)"
    using r(3) [THEN arg_cong, of span_lookup] by (simp add: frame_of_def k)
  then have "span_table p' = (span_table p)(sid := None)" by (simp add: span_table_def map_of_delete fun_eq_iff)
  with r(1,2) show ?thesis by blast
qed

text \<open>A planner that has lost spans at most: nothing else of its description changes.\<close>

definition trimmed :: "planner \<Rightarrow> planner \<Rightarrow> bool" where
  "trimmed p q \<longleftrightarrow> (\<exists>f. span_lookup q = filter f (span_lookup p)) \<and> span_counter q = span_counter p \<and>
     plan_start q = plan_start p \<and> plan_end q = plan_end p \<and> total_resources q = total_resources p \<and> dimension q = dimension p"

lemma trimmed_refl [simp]: "trimmed p p"
  unfolding trimmed_def by (intro conjI exI [of _ "\<lambda>_. True"]) simp_all

lemma trimmed_trans: "trimmed p q \<Longrightarrow> trimmed q r \<Longrightarrow> trimmed p r"
  unfolding trimmed_def by (elim conjE exE) (simp, blast)

lemma planner_rem_span_trimmed:
  assumes "planner_inv p" and "zkeys_ok zkeys" and "sid \<in> dom (span_table p)"
    and "planner_rem_span zkeys sid p = Some (p', rc, e)"
  shows "trimmed p p'"
proof -
  from span_table_ids [OF assms(1,3)] have k: "span_key sid = sid" by (simp add: span_key_def)
  from assms(3) obtain s where "map_of (span_lookup p) (span_key sid) = Some s" by (auto simp: span_table_def k)
  from planner_rem_span_ok [OF assms(1,2) this] assms(4)
  have f: "frame_of p' = (frame_of p)\<lparr>avail_time_iter_set := False, span_lookup := zhashx_delete (span_key sid) (span_lookup p)\<rparr>"
    by auto
  have "frame_of p' = frame_of (p\<lparr>avail_time_iter_set := False, span_lookup := zhashx_delete (span_key sid) (span_lookup p)\<rparr>)"
    using f by (simp add: frame_of_def)
  from frame_fields [OF this] show ?thesis by (auto simp: trimmed_def zhashx_delete_def)
qed

text \<open>The order in which the table of tracked points is listed is a parameter of the instance.\<close>

interpretation ps: span_store "\<lambda>p. planner_inv p \<and> zkeys_ok zkeys" span_table span_room "span_add zkeys" "span_rem zkeys"
  for zkeys
proof
  show "\<exists>p' sid. span_add zkeys r p = Some (p', sid) \<and> (planner_inv p' \<and> zkeys_ok zkeys) \<and>
      (sid = -1 \<and> p' = p \<or> sid \<noteq> -1 \<and> sid \<notin> dom (span_table p) \<and> (\<exists>s. span_table p' = (span_table p)(sid \<mapsto> s)))"
    if "planner_inv p \<and> zkeys_ok zkeys" and "span_room r p" for r p
    using planner_add_span_law [of p zkeys] that by (cases r) (fastforce simp: span_add_def)
  show "\<exists>p'. span_rem zkeys sid p = Some (p', 0) \<and> (planner_inv p' \<and> zkeys_ok zkeys) \<and> span_table p' = (span_table p)(sid := None)"
    if "planner_inv p \<and> zkeys_ok zkeys" and "sid \<in> dom (span_table p)" for sid p
    using planner_rem_span_law [of p zkeys sid] that by (fastforce simp: span_rem_def)
qed

end
