(* ===== verification/Outcome.thy ===== *)
theory Outcome
  imports Prelude
begin

text \<open>
  Results of C++ code that may not return (\<open>Diverges\<close>: a loop that does not end, or a recursion deeper
  than the fuel) or whose behaviour is undefined (\<open>Undefined\<close>: a null dereference, an index out of range,
  an iterator at the end).
\<close>

datatype 'a outcome = Ret 'a | Undefined | Diverges | Uncaught

definition bind :: "'a outcome \<Rightarrow> ('a \<Rightarrow> 'b outcome) \<Rightarrow> 'b outcome" where
  "bind m f = (case m of Ret x \<Rightarrow> f x | Undefined \<Rightarrow> Undefined | Diverges \<Rightarrow> Diverges | Uncaught \<Rightarrow> Uncaught)"

lemma bind_simps [simp]: "bind (Ret x) f = f x" "bind Undefined f = Undefined" "bind Diverges f = Diverges"
  "bind Uncaught f = Uncaught"
  by (simp_all add: bind_def)

lemma bind_Ret_iff: "bind m f = Ret y \<longleftrightarrow> (\<exists>x. m = Ret x \<and> f x = Ret y)"
  by (cases m) simp_all

lemma bind_cong [fundef_cong]:
  "m = m' \<Longrightarrow> (\<And>x. m' = Ret x \<Longrightarrow> f x = f' x) \<Longrightarrow> bind m f = bind m' f'"
  by (cases m') simp_all

lemma bind_RetE:
  assumes "bind m f = Ret y"
  obtains x where "m = Ret x" and "f x = Ret y"
  using assms by (auto simp: bind_Ret_iff)

text \<open>The value of an option whose \<open>None\<close> is undefined behaviour, and of one whose \<open>None\<close> is a loop.\<close>

definition defined :: "'a option \<Rightarrow> 'a outcome" where
  "defined x = (case x of None \<Rightarrow> Undefined | Some y \<Rightarrow> Ret y)"

definition ends :: "'a option \<Rightarrow> 'a outcome" where
  "ends x = (case x of None \<Rightarrow> Diverges | Some y \<Rightarrow> Ret y)"

lemma defined_simps [simp]: "defined None = Undefined" "defined (Some x) = Ret x"
  by (simp_all add: defined_def)

lemma ends_simps [simp]: "ends None = Diverges" "ends (Some x) = Ret x"
  by (simp_all add: ends_def)

lemma defined_Ret [simp]: "defined x = Ret y \<longleftrightarrow> x = Some y"
  by (simp add: defined_def split: option.split)

lemma ends_Ret [simp]: "ends x = Ret y \<longleftrightarrow> x = Some y"
  by (simp add: ends_def split: option.split)

text \<open>A loop over a list that threads a state.\<close>

fun each :: "('a \<Rightarrow> 's \<Rightarrow> 's outcome) \<Rightarrow> 'a list \<Rightarrow> 's \<Rightarrow> 's outcome" where
  "each f [] s = Ret s"
| "each f (x # xs) s = bind (f x s) (each f xs)"

lemma each_cong [fundef_cong]:
  "xs = xs' \<Longrightarrow> s = s' \<Longrightarrow> (\<And>x s. x \<in> set xs' \<Longrightarrow> f x s = f' x s) \<Longrightarrow> each f xs s = each f' xs' s'"
proof (induction xs' arbitrary: xs s s')
  case (Cons x xs')
  then show ?case by (auto intro!: bind_cong)
qed simp

lemma each_append: "each f (xs @ ys) s = bind (each f xs s) (each f ys)"
  by (induction xs arbitrary: s) (auto simp: bind_def split: outcome.split)

lemma each_invariant:
  "each f xs s = Ret s' \<Longrightarrow> P s \<Longrightarrow> (\<And>x s s'. x \<in> set xs \<Longrightarrow> P s \<Longrightarrow> f x s = Ret s' \<Longrightarrow> P s') \<Longrightarrow> P s'"
proof (induction xs arbitrary: s)
  case (Cons x xs)
  then show ?case by (auto simp: bind_Ret_iff)
qed simp

lemma each_returns:
  "P s \<Longrightarrow> (\<And>x s. x \<in> set xs \<Longrightarrow> P s \<Longrightarrow> \<exists>s'. f x s = Ret s' \<and> P s') \<Longrightarrow> \<exists>s'. each f xs s = Ret s' \<and> P s'"
proof (induction xs arbitrary: s)
  case (Cons x xs)
  from Cons.prems obtain s' where "f x s = Ret s'" "P s'" by (meson list.set_intros(1))
  with Cons.IH [of s'] Cons.prems(2) show ?case by auto
qed auto

end
