(* ===== verification/Outcome_Rules.thy ===== *)
theory Outcome_Rules
  imports Outcome
begin

text \<open>
  Weakest preconditions for outcomes: \<open>wp d u m P\<close> holds when every value that \<open>m\<close> returns satisfies \<open>P\<close>,
  and \<open>m\<close> diverges only if \<open>d\<close>, and is undefined or ends with an exception only if \<open>u\<close>.
\<close>

definition wp :: "bool \<Rightarrow> bool \<Rightarrow> 'a outcome \<Rightarrow> ('a \<Rightarrow> bool) \<Rightarrow> bool" where
  "wp d u m P = (case m of Ret x \<Rightarrow> P x | Undefined \<Rightarrow> u | Diverges \<Rightarrow> d | Uncaught \<Rightarrow> u)"

lemma wp_simps [simp]: "wp d u (Ret x) P = P x" "wp d u Undefined P = u" "wp d u Diverges P = d" "wp d u Uncaught P = u"
  by (simp_all add: wp_def)

lemma wp_bind [simp]: "wp d u (bind m f) P = wp d u m (\<lambda>x. wp d u (f x) P)"
  by (cases m) simp_all

lemma wp_mono: "wp d u m P \<Longrightarrow> (\<And>x. m = Ret x \<Longrightarrow> P x \<Longrightarrow> Q x) \<Longrightarrow> wp d u m Q"
  by (cases m) simp_all

lemma wp_bindI: "wp d u m P \<Longrightarrow> (\<And>x. P x \<Longrightarrow> wp d u (f x) Q) \<Longrightarrow> wp d u (bind m f) Q"
  by (cases m) simp_all

text \<open>A step that gives a state and a result, after which the code returns early when the result is -1.\<close>

lemma wp_guard:
  "wp d u m (\<lambda>r. P (fst r)) \<Longrightarrow> (\<And>t. P t \<Longrightarrow> Q (e t)) \<Longrightarrow> (\<And>t. P t \<Longrightarrow> wp d u (f t) Q) \<Longrightarrow>
     wp d u (bind m (\<lambda>(t, rc). if rc = -1 then Ret (e t) else f t)) Q"
  by (cases m) auto

lemma wp_trivial [simp]: "wp True True m (\<lambda>_. True)"
  by (cases m) simp_all

lemma wp_Ret: "wp d u m P \<Longrightarrow> m = Ret x \<Longrightarrow> P x"
  by simp

lemma wp_partialI: "(\<And>x. m = Ret x \<Longrightarrow> P x) \<Longrightarrow> wp True True m P"
  by (cases m) simp_all

lemma wp_safe: "wp False False m P \<Longrightarrow> \<exists>x. m = Ret x \<and> P x"
  by (cases m) simp_all

lemma wp_defined [simp]: "wp d u (defined x) P = (case x of None \<Rightarrow> u | Some y \<Rightarrow> P y)"
  by (simp split: option.split)

lemma wp_ends [simp]: "wp d u (ends x) P = (case x of None \<Rightarrow> d | Some y \<Rightarrow> P y)"
  by (simp split: option.split)

lemma wp_each:
  "P s \<Longrightarrow> (\<And>x s. x \<in> set xs \<Longrightarrow> P s \<Longrightarrow> wp d u (f x s) P) \<Longrightarrow> wp d u (each f xs s) P"
proof (induction xs arbitrary: s)
  case (Cons x xs)
  show ?case unfolding each.simps wp_bind
    by (rule wp_mono [of _ _ _ P]) (use Cons in auto)
qed simp

lemma wp_conj: "wp d u m P \<Longrightarrow> wp True True m Q \<Longrightarrow> wp d u m (\<lambda>x. P x \<and> Q x)"
  by (cases m) simp_all

text \<open>A loop in which every step establishes its own fact and keeps the facts of the earlier ones.\<close>

lemma wp_each_all:
  assumes "P s" and "\<And>x s. x \<in> set xs \<Longrightarrow> P s \<Longrightarrow> wp d u (f x s) (\<lambda>s'. P s' \<and> Q x s' \<and> R s s')"
    and "\<And>x s s'. R s s' \<Longrightarrow> Q x s \<Longrightarrow> Q x s'"
  shows "wp d u (each f xs s) (\<lambda>s'. P s' \<and> (\<forall>x\<in>set xs. Q x s'))"
proof -
  have "wp d u (each f ys s) (\<lambda>s'. P s' \<and> (\<forall>x\<in>Y \<union> set ys. Q x s'))"
    if "P s" "\<forall>x\<in>Y. Q x s" "set ys \<subseteq> set xs" for ys Y s
    using that
  proof (induction ys arbitrary: s Y)
    case (Cons y ys)
    have "wp d u (f y s) (\<lambda>s'. P s' \<and> Q y s' \<and> R s s')" using Cons.prems by (intro assms(2)) auto
    then show ?case unfolding each.simps
    proof (rule wp_bindI)
      fix s' assume s': "P s' \<and> Q y s' \<and> R s s'"
      then have "\<forall>x\<in>insert y Y. Q x s'" using Cons.prems(2) assms(3) by blast
      from Cons.IH [OF _ this] s' Cons.prems(3) show "wp d u (each f ys s') (\<lambda>s'. P s' \<and> (\<forall>x\<in>Y \<union> set (y # ys). Q x s'))"
        by simp
    qed
  qed simp
  from this [of s "{}" xs] assms(1) show ?thesis by simp
qed

end
