(* ===== verification/Resource_Graph.thy ===== *)
theory Resource_Graph
  imports Outcome Std_Map Planner_API
begin

text \<open>
  The resource graph: \<open>resource_data.hpp\<close> and \<open>resource_graph.hpp\<close>.

  A vertex is a resource pool with its schedule (two planners and the tables of jobs) and the data of
  the traverser; an edge is a relation. The boost adjacency list with \<open>vecS\<close> vertices and out-edges is
  a list of pools and a list of edges in the order of insertion; vertices and edges are numbers. The UUID of
  a pool is left out.
\<close>

section \<open>Colours\<close>

definition WHITE_OFFSET :: int where "WHITE_OFFSET = 0"
definition GRAY_OFFSET :: int where "GRAY_OFFSET = 1"
definition BLACK_OFFSET :: int where "BLACK_OFFSET = 2"
definition NEW_BASE :: int where "NEW_BASE = 3"

definition color_reset :: "int \<Rightarrow> int" where
  "color_reset color_base = u64 (color_base + NEW_BASE)"

definition is_white :: "int \<Rightarrow> int \<Rightarrow> bool" where
  "is_white c color_base \<longleftrightarrow> c \<le> u64 (color_base + WHITE_OFFSET)"

definition white :: "int \<Rightarrow> int" where
  "white color_base = u64 (color_base + WHITE_OFFSET)"

definition is_gray :: "int \<Rightarrow> int \<Rightarrow> bool" where
  "is_gray c color_base \<longleftrightarrow> c = u64 (color_base + GRAY_OFFSET)"

definition gray :: "int \<Rightarrow> int" where
  "gray color_base = u64 (color_base + GRAY_OFFSET)"

definition is_black :: "int \<Rightarrow> int \<Rightarrow> bool" where
  "is_black c color_base \<longleftrightarrow> c = u64 (color_base + BLACK_OFFSET)"

definition black :: "int \<Rightarrow> int" where
  "black color_base = u64 (color_base + BLACK_OFFSET)"

section \<open>Pools\<close>

definition X_CHECKER_JOBS_STR :: string where
  "X_CHECKER_JOBS_STR = ''jobs''"

definition X_CHECKER_NJOBS :: int where
  "X_CHECKER_NJOBS = 1073741824"

record pool_schedule =
  tags :: "(int \<times> int) list"
  allocations :: "(int \<times> int) list"
  reservations :: "(int \<times> int) list"
  x_spans :: "(int \<times> int) list"
  plans :: "planner option"
  x_checker :: "planner option"

definition schedule_new :: pool_schedule where
  "schedule_new = \<lparr>tags = [], allocations = [], reservations = [], x_spans = [], plans = None, x_checker = None\<rparr>"

text \<open>A new planner for the same plan and resources, as the copies make it; null when that fails.\<close>

definition planner_like :: "planner \<Rightarrow> planner option" where
  "planner_like p =
     (case planner_new (planner_base_time p) (planner_duration p) (total_resources p) (resource_types p)
         (planner_resources_len p) of
        Inl e \<Rightarrow> None
      | Inr q \<Rightarrow> Some q)"

text \<open>The assignment leaves the tables as they are and replaces a planner only by a copy of one that is there.\<close>

definition schedule_assign :: "pool_schedule \<Rightarrow> pool_schedule \<Rightarrow> pool_schedule" where
  "schedule_assign other s = s\<lparr>
     plans := (case plans other of None \<Rightarrow> plans s | Some p \<Rightarrow> planner_like p),
     x_checker := (case x_checker other of None \<Rightarrow> x_checker s | Some p \<Rightarrow> planner_like p)\<rparr>"

definition schedule_copy :: "pool_schedule \<Rightarrow> pool_schedule" where
  "schedule_copy other = schedule_assign other schedule_new"

record pool_infra =
  p_member_of :: "(string \<times> string) list"
  job2span :: "(int \<times> int) list"
  subplans :: "(string \<times> planner option) list"
  colors :: "(string \<times> int) list"

definition pool_infra_new :: pool_infra where
  "pool_infra_new = \<lparr>p_member_of = [], job2span = [], subplans = [], colors = []\<rparr>"

definition pool_infra_assign :: "pool_infra \<Rightarrow> pool_infra \<Rightarrow> pool_infra" where
  "pool_infra_assign other i = i\<lparr>
     p_member_of := p_member_of other,
     colors := colors other,
     subplans := fold (\<lambda>(s, p) m. case p of None \<Rightarrow> m | Some q \<Rightarrow> map_put s (planner_like q) m) (subplans other) (subplans i)\<rparr>"

definition pool_infra_copy :: "pool_infra \<Rightarrow> pool_infra" where
  "pool_infra_copy other = pool_infra_assign other pool_infra_new"

text \<open>\<open>scrub\<close> destroys the planners but leaves the table of subtree plans: \<open>planner_destroy\<close> nulls them.\<close>

definition pool_infra_scrub :: "pool_infra \<Rightarrow> pool_infra" where
  "pool_infra_scrub i = i\<lparr>job2span := [], subplans := map (\<lambda>(s, p). (s, None)) (subplans i), colors := []\<rparr>"

record relation_infra =
  e_member_of :: "(string \<times> string) list"
  e_needs :: int
  best_k_cnt :: int
  e_exclusive :: int

definition relation_infra_new :: relation_infra where
  "relation_infra_new = \<lparr>e_member_of = [], e_needs = 0, best_k_cnt = 0, e_exclusive = 0\<rparr>"

definition relation_infra_scrub :: "relation_infra \<Rightarrow> relation_infra" where
  "relation_infra_scrub i = i\<lparr>e_needs := 0, best_k_cnt := 0, e_exclusive := 0\<rparr>"

record resource_pool =
  p_type :: string
  paths :: "(string \<times> string) list"
  p_basename :: string
  p_name :: string
  properties :: "(string \<times> string) list"
  p_id :: int
  p_size :: int
  p_unit :: string
  p_schedule :: pool_schedule
  p_idata :: pool_infra

definition resource_pool_new :: resource_pool where
  "resource_pool_new =
     \<lparr>p_type = [], paths = [], p_basename = [], p_name = [], properties = [], p_id = -1, p_size = 0, p_unit = [],
      p_schedule = schedule_new, p_idata = pool_infra_new\<rparr>"

text \<open>Copying a pool, as the graph does when it moves its vertices, forgets the jobs and the spans.\<close>

definition resource_pool_copy :: "resource_pool \<Rightarrow> resource_pool" where
  "resource_pool_copy other = other\<lparr>
     p_schedule := schedule_assign (p_schedule other) schedule_new,
     p_idata := pool_infra_assign (p_idata other) pool_infra_new\<rparr>"

record resource_relation =
  e_src :: nat
  e_tgt :: nat
  e_name :: string
  e_idata :: relation_infra

section \<open>The graph\<close>

record resource_graph =
  vertices :: "resource_pool list"
  edges :: "resource_relation list"

record resource_graph_db =
  db_graph :: resource_graph
  db_roots :: "(string \<times> nat) list"
  by_type :: "(string \<times> nat list) list"
  by_name :: "(string \<times> nat list) list"
  by_path :: "(string \<times> nat list) list"

definition resource_graph_db_new :: resource_graph_db where
  "resource_graph_db_new =
     \<lparr>db_graph = \<lparr>vertices = [], edges = []\<rparr>, db_roots = [], by_type = [], by_name = [], by_path = []\<rparr>"

definition add_vertex :: "resource_pool \<Rightarrow> resource_graph \<Rightarrow> resource_graph \<times> nat" where
  "add_vertex p g = (g\<lparr>vertices := vertices g @ [p]\<rparr>, length (vertices g))"

definition add_edge :: "nat \<Rightarrow> nat \<Rightarrow> resource_graph \<Rightarrow> resource_graph \<times> nat" where
  "add_edge u v g =
     (g\<lparr>edges := edges g @ [\<lparr>e_src = u, e_tgt = v, e_name = [], e_idata = relation_infra_new\<rparr>]\<rparr>, length (edges g))"

definition upd_vertex :: "nat \<Rightarrow> (resource_pool \<Rightarrow> resource_pool) \<Rightarrow> resource_graph \<Rightarrow> resource_graph" where
  "upd_vertex u f g = g\<lparr>vertices := (vertices g)[u := f (vertices g ! u)]\<rparr>"

definition upd_edge :: "nat \<Rightarrow> (resource_relation \<Rightarrow> resource_relation) \<Rightarrow> resource_graph \<Rightarrow> resource_graph" where
  "upd_edge e f g = g\<lparr>edges := (edges g)[e := f (edges g ! e)]\<rparr>"

text \<open>The selector of a filtered graph: the entity belongs to a selected subsystem by a selected relation.\<close>

type_synonym subsystems_sel = "(string \<times> string list) list"

definition subsystem_selector :: "subsystems_sel \<Rightarrow> (string \<times> string) list \<Rightarrow> bool" where
  "subsystem_selector m_selector member_of =
     list_ex (\<lambda>(s, rel). case map_of m_selector s of
          None \<Rightarrow> False
        | Some sel \<Rightarrow> rel = ''*'' \<or> rel \<in> set sel \<or> ''*'' \<in> set sel) member_of"

definition vertex_selected :: "subsystems_sel \<Rightarrow> resource_graph \<Rightarrow> nat \<Rightarrow> bool" where
  "vertex_selected sel g u \<longleftrightarrow> subsystem_selector sel (p_member_of (p_idata (vertices g ! u)))"

definition edge_selected :: "subsystems_sel \<Rightarrow> resource_graph \<Rightarrow> nat \<Rightarrow> bool" where
  "edge_selected sel g e \<longleftrightarrow> subsystem_selector sel (e_member_of (e_idata (edges g ! e)))"

text \<open>The out-edges of a vertex in the graph and in the filtered graph.\<close>

definition out_edges_all :: "resource_graph \<Rightarrow> nat \<Rightarrow> nat list" where
  "out_edges_all g u = filter (\<lambda>e. e_src (edges g ! e) = u) [0..<length (edges g)]"

definition out_edges :: "subsystems_sel \<Rightarrow> resource_graph \<Rightarrow> nat \<Rightarrow> nat list" where
  "out_edges sel g u =
     filter (\<lambda>e. edge_selected sel g e \<and> vertex_selected sel g (e_tgt (edges g ! e))) (out_edges_all g u)"

definition target :: "resource_graph \<Rightarrow> nat \<Rightarrow> nat" where
  "target g e = e_tgt (edges g ! e)"

end
