(* ===== verification/Match_Policies.thy ===== *)
theory Match_Policies
  imports Resource_Graph Matcher_Data Scoring
begin

text \<open>
  The match callbacks: the base class of \<open>dfu_match_cb.hpp\<close> and the three policies of
  \<open>dfu_match_id_based.hpp\<close>.

  A policy is a record of the virtual functions the traverser calls (\<open>match_cb\<close>), each on the state it
  changes: the level counter of the callback object and the table of scores. An integer result is
  0 for a match and -1 otherwise.
\<close>

record match_cb =
  cb_data :: matcher_data
  cb_dom_finish_graph :: "string \<Rightarrow> resource list \<Rightarrow> scoring_api \<Rightarrow> (scoring_api \<times> int) outcome"
  cb_dom_finish_slot :: "string \<Rightarrow> scoring_api \<Rightarrow> (scoring_api \<times> int) outcome"
  cb_dom_finish_vtx :: "resource_pool \<Rightarrow> string \<Rightarrow> resource list \<Rightarrow> int \<times> scoring_api \<Rightarrow>
      ((int \<times> scoring_api) \<times> int) outcome"

section \<open>The base class\<close>

definition base_dom_finish_graph :: "string \<Rightarrow> resource list \<Rightarrow> scoring_api \<Rightarrow> (scoring_api \<times> int) outcome" where
  "base_dom_finish_graph subsystem resources dfu = Ret (dfu, 0)"

definition base_dom_finish_slot :: "string \<Rightarrow> scoring_api \<Rightarrow> (scoring_api \<times> int) outcome" where
  "base_dom_finish_slot subsystem dfu = Ret (dfu, 0)"

definition base_dom_finish_vtx :: "resource_pool \<Rightarrow> string \<Rightarrow> resource list \<Rightarrow> int \<times> scoring_api \<Rightarrow>
    ((int \<times> scoring_api) \<times> int) outcome" where
  "base_dom_finish_vtx p subsystem resources = (\<lambda>(level, dfu). Ret ((level - 1, dfu), 0))"

text \<open>The discover callbacks and the up-walk callbacks are not overridden by any policy.\<close>

definition dom_discover_vtx :: "int \<Rightarrow> int \<times> int" where
  "dom_discover_vtx level = (level + 1, 0)"

definition aux_discover_vtx :: "int \<Rightarrow> int \<times> int" where
  "aux_discover_vtx level = (level + 1, 0)"

definition aux_finish_vtx :: "int \<Rightarrow> int \<times> int" where
  "aux_finish_vtx level = (level - 1, 0)"

section \<open>Choosing for a list of requested resources\<close>

text \<open>
  The loop that the policies share: for each resource take the selected count of its type, or stop with
  \<open>MATCH_UNMET\<close>. The comparator may depend on the points collected so far (the interval set), which
  \<open>gather\<close> extends by the scores of the type.
\<close>

type_synonym interval_set = "int list"

definition collect :: "bool \<Rightarrow> string \<Rightarrow> string \<Rightarrow> scoring_api \<times> interval_set \<Rightarrow> scoring_api \<times> interval_set" where
  "collect gather s r = (\<lambda>(dfu, ivset).
     if gather then (case api_scores s r dfu of (dfu, pts) \<Rightarrow> (dfu, ivset @ pts)) else (dfu, ivset))"

fun choose_for :: "sorter \<Rightarrow> (interval_set \<Rightarrow> comparator) \<Rightarrow> bool \<Rightarrow> string \<Rightarrow> resource list \<Rightarrow>
    scoring_api \<times> interval_set \<Rightarrow> ((scoring_api \<times> interval_set) \<times> int) outcome" where
  "choose_for std_sort order gather s [] st = Ret (st, MATCH_MET)"
| "choose_for std_sort order gather s (r # rs) (dfu, ivset) =
     (case api_qualified_count s (r_type r) dfu of (dfu, qc) \<Rightarrow>
      bind (ends (select_count (r_count r) qc)) (\<lambda>count.
      if count = 0 then Ret ((dfu, ivset), MATCH_UNMET)
      else case collect gather s (r_type r) (dfu, ivset) of (dfu, ivset) \<Rightarrow>
        bind (defined (choose_accum_best_k std_sort s (r_type r) count (order ivset) dfu)) (\<lambda>(dfu, _).
        choose_for std_sort order gather s rs (dfu, ivset))))"

text \<open>
  \<open>dom_finish_graph\<close>: the top-level resources. \<open>dom_finish_vtx\<close>: the children of every resource of the type of
  the vertex; the score stays unmet once a child is, but the remaining resources are still gone through.
\<close>

definition finish_graph :: "sorter \<Rightarrow> (interval_set \<Rightarrow> comparator) \<Rightarrow> bool \<Rightarrow> string \<Rightarrow> resource list \<Rightarrow> scoring_api \<Rightarrow>
    (scoring_api \<times> int) outcome" where
  "finish_graph std_sort order gather s resources dfu =
     bind (choose_for std_sort order gather s resources (dfu, [])) (\<lambda>((dfu, _), score).
     Ret (api_set_overall_score score dfu, if score = MATCH_MET then 0 else -1))"

definition finish_children :: "sorter \<Rightarrow> (interval_set \<Rightarrow> comparator) \<Rightarrow> bool \<Rightarrow> string \<Rightarrow> string \<Rightarrow> resource \<Rightarrow>
    (scoring_api \<times> interval_set) \<times> int \<Rightarrow> ((scoring_api \<times> interval_set) \<times> int) outcome" where
  "finish_children std_sort order gather s ty r = (\<lambda>(st, score).
     if r_type r \<noteq> ty then Ret (st, score)
     else bind (choose_for std_sort order gather s (r_with r) st) (\<lambda>(st, sc).
       Ret (st, if sc = MATCH_UNMET then MATCH_UNMET else score)))"

definition finish_vtx :: "sorter \<Rightarrow> (interval_set \<Rightarrow> comparator) \<Rightarrow> bool \<Rightarrow> resource_pool \<Rightarrow> string \<Rightarrow> resource list \<Rightarrow>
    int \<times> scoring_api \<Rightarrow> ((int \<times> scoring_api) \<times> int) outcome" where
  "finish_vtx std_sort order gather p s resources = (\<lambda>(level, dfu).
     bind (each (finish_children std_sort order gather s (p_type p)) resources ((dfu, []), MATCH_MET))
       (\<lambda>((dfu, _), score).
       let overall = (if score = MATCH_MET then i64 (score + p_id p + 1) else score)
       in Ret ((level - 1, api_set_overall_score overall dfu), if score = MATCH_MET then 0 else -1)))"

section \<open>The policies\<close>

definition high_first_finish_graph :: "sorter \<Rightarrow> string \<Rightarrow> resource list \<Rightarrow> scoring_api \<Rightarrow> (scoring_api \<times> int) outcome" where
  "high_first_finish_graph std_sort = finish_graph std_sort (\<lambda>_. fold_greater) False"

definition high_first_finish_slot :: "sorter \<Rightarrow> string \<Rightarrow> scoring_api \<Rightarrow> (scoring_api \<times> int) outcome" where
  "high_first_finish_slot std_sort subsystem dfu =
     (case api_resrc_types subsystem dfu of (dfu, types) \<Rightarrow>
      bind (each (\<lambda>ty dfu. bind (defined (choose_accum_all std_sort subsystem ty fold_greater dfu)) (\<lambda>(dfu, _). Ret dfu)) types dfu)
        (\<lambda>dfu. Ret (dfu, 0)))"

definition high_first_finish_vtx :: "sorter \<Rightarrow> resource_pool \<Rightarrow> string \<Rightarrow> resource list \<Rightarrow> int \<times> scoring_api \<Rightarrow>
    ((int \<times> scoring_api) \<times> int) outcome" where
  "high_first_finish_vtx std_sort = finish_vtx std_sort (\<lambda>_. fold_greater) False"

definition low_first_finish_graph :: "sorter \<Rightarrow> string \<Rightarrow> resource list \<Rightarrow> scoring_api \<Rightarrow> (scoring_api \<times> int) outcome" where
  "low_first_finish_graph std_sort = finish_graph std_sort (\<lambda>_. fold_less) False"

definition low_first_finish_vtx :: "sorter \<Rightarrow> resource_pool \<Rightarrow> string \<Rightarrow> resource list \<Rightarrow> int \<times> scoring_api \<Rightarrow>
    ((int \<times> scoring_api) \<times> int) outcome" where
  "low_first_finish_vtx std_sort = finish_vtx std_sort (\<lambda>_. fold_less) False"

definition interval_first_finish_graph :: "sorter \<Rightarrow> (int list \<Rightarrow> int \<Rightarrow> int \<Rightarrow> bool) \<Rightarrow> string \<Rightarrow> resource list \<Rightarrow>
    scoring_api \<Rightarrow> (scoring_api \<times> int) outcome" where
  "interval_first_finish_graph std_sort icl_greater = finish_graph std_sort (fold_interval_greater icl_greater) True"

definition interval_first_finish_vtx :: "sorter \<Rightarrow> (int list \<Rightarrow> int \<Rightarrow> int \<Rightarrow> bool) \<Rightarrow> resource_pool \<Rightarrow> string \<Rightarrow>
    resource list \<Rightarrow> int \<times> scoring_api \<Rightarrow> ((int \<times> scoring_api) \<times> int) outcome" where
  "interval_first_finish_vtx std_sort icl_greater = finish_vtx std_sort (fold_interval_greater icl_greater) True"

text \<open>
  The functions \<open>dom_finish_slot\<close> of the low-first and the interval policy take the resources as well. They
  hide the virtual function of the base class and do not override it: the traverser calls the function of
  the base class, and nothing calls these.
\<close>

fun hidden_slot_children :: "sorter \<Rightarrow> string \<Rightarrow> resource list \<Rightarrow> scoring_api \<times> int \<Rightarrow> (scoring_api \<times> int) outcome" where
  "hidden_slot_children std_sort s [] st = Ret st"
| "hidden_slot_children std_sort s (r # rs) (dfu, score) =
     (case api_qualified_count s (r_type r) dfu of (dfu, qc) \<Rightarrow>
      bind (ends (select_count (r_count r) qc)) (\<lambda>count.
      if count = 0 then Ret (dfu, MATCH_UNMET)
      else bind (defined (choose_accum_best_k std_sort s (r_type r) count fold_greater dfu))
        (hidden_slot_children std_sort s rs)))"

definition hidden_finish_slot :: "sorter \<Rightarrow> string \<Rightarrow> resource list \<Rightarrow> int \<times> scoring_api \<Rightarrow>
    ((int \<times> scoring_api) \<times> int) outcome" where
  "hidden_finish_slot std_sort s resources = (\<lambda>(level, dfu).
     bind (each (\<lambda>r st. if r_type r \<noteq> ''slot'' then Ret st else hidden_slot_children std_sort s (r_with r) st)
         resources (dfu, MATCH_MET)) (\<lambda>(dfu, score).
     Ret ((level - 1, api_set_overall_score score dfu), if score > MATCH_MET then 0 else -1)))"

definition high_first :: "sorter \<Rightarrow> matcher_data \<Rightarrow> match_cb" where
  "high_first std_sort m =
     \<lparr>cb_data = m, cb_dom_finish_graph = high_first_finish_graph std_sort,
      cb_dom_finish_slot = high_first_finish_slot std_sort, cb_dom_finish_vtx = high_first_finish_vtx std_sort\<rparr>"

definition low_first :: "sorter \<Rightarrow> matcher_data \<Rightarrow> match_cb" where
  "low_first std_sort m =
     \<lparr>cb_data = m, cb_dom_finish_graph = low_first_finish_graph std_sort,
      cb_dom_finish_slot = base_dom_finish_slot, cb_dom_finish_vtx = low_first_finish_vtx std_sort\<rparr>"

definition greater_interval_first :: "sorter \<Rightarrow> (int list \<Rightarrow> int \<Rightarrow> int \<Rightarrow> bool) \<Rightarrow> matcher_data \<Rightarrow> match_cb" where
  "greater_interval_first std_sort icl_greater m =
     \<lparr>cb_data = m, cb_dom_finish_graph = interval_first_finish_graph std_sort icl_greater,
      cb_dom_finish_slot = base_dom_finish_slot, cb_dom_finish_vtx = interval_first_finish_vtx std_sort icl_greater\<rparr>"

definition base_match_cb :: "matcher_data \<Rightarrow> match_cb" where
  "base_match_cb m =
     \<lparr>cb_data = m, cb_dom_finish_graph = base_dom_finish_graph,
      cb_dom_finish_slot = base_dom_finish_slot, cb_dom_finish_vtx = base_dom_finish_vtx\<rparr>"

end
