(* ===== verification/Traverser_Match.thy ===== *)
theory Traverser_Match
  imports Match_Policies
begin

text \<open>
  The depth-first-and-up traverser, first part: finding matching resources (\<open>dfu_traverse_impl.cpp\<close> from
  \<open>level\<close> to \<open>enforce\<close>).

  The state \<open>trav\<close> holds the members of \<open>dfu_impl_t\<close> that change, the graph they point to and the level
  counter of the match callback; the environment holds what does not change: the selector of the filtered
  graph, the roots, the callback, and the order in which the table of tracked points of a planner is
  listed. The error messages are kept without their line ends and without the text that \<open>strerror\<close> appends.
\<close>

section \<open>State\<close>

record trav =
  tr_graph :: resource_graph
  tr_best_k_cnt :: int
  tr_color_base :: int
  tr_trav_level :: int
  tr_err_msg :: string
  tr_match_level :: int

record trav_env =
  te_sel :: subsystems_sel
  te_roots :: "(string \<times> nat) list"
  te_match :: match_cb
  te_zkeys :: "int list \<Rightarrow> int list"

definition SYSTEM_DEFAULT_DURATION :: int where
  "SYSTEM_DEFAULT_DURATION = 43200"

record jobmeta =
  jm_allocate :: bool
  jm_jobid :: int
  jm_at :: int
  jm_duration :: int

datatype match_kind = RESOURCE_MATCH | SLOT_MATCH | NONE_MATCH

definition dom_of :: "trav_env \<Rightarrow> string" where
  "dom_of env = (case dom_subsystem (cb_data (te_match env)) of None \<Rightarrow> [] | Some s \<Rightarrow> s)"

definition subsystems_of :: "trav_env \<Rightarrow> string list" where
  "subsystems_of env = m_subsystems (cb_data (te_match env))"

definition pool :: "trav \<Rightarrow> nat \<Rightarrow> resource_pool" where
  "pool t u = vertices (tr_graph t) ! u"

definition upd_pool :: "nat \<Rightarrow> (resource_pool \<Rightarrow> resource_pool) \<Rightarrow> trav \<Rightarrow> trav" where
  "upd_pool u f t = t\<lparr>tr_graph := upd_vertex u f (tr_graph t)\<rparr>"

definition err_msg :: "string \<Rightarrow> trav \<Rightarrow> trav" where
  "err_msg s t = t\<lparr>tr_err_msg := tr_err_msg t @ s\<rparr>"

definition level :: "trav \<Rightarrow> string" where
  "level t = concat (replicate (nat (tr_trav_level t)) ''---'')"

definition tick :: "trav \<Rightarrow> trav" where
  "tick t = t\<lparr>tr_best_k_cnt := u64 (tr_best_k_cnt t + 1), tr_color_base := color_reset (tr_color_base t)\<rparr>"

definition tick_color_base :: "trav \<Rightarrow> trav" where
  "tick_color_base t = t\<lparr>tr_color_base := color_reset (tr_color_base t)\<rparr>"

definition in_subsystem :: "trav \<Rightarrow> nat \<Rightarrow> string \<Rightarrow> bool" where
  "in_subsystem t e subsystem \<longleftrightarrow> map_of (e_member_of (e_idata (edges (tr_graph t) ! e))) subsystem \<noteq> None"

definition color_of :: "trav \<Rightarrow> nat \<Rightarrow> string \<Rightarrow> int" where
  "color_of t u s = (case map_of (colors (p_idata (pool t u))) s of None \<Rightarrow> 0 | Some c \<Rightarrow> c)"

definition set_color :: "nat \<Rightarrow> string \<Rightarrow> int \<Rightarrow> trav \<Rightarrow> trav" where
  "set_color u s c = upd_pool u (\<lambda>p. p\<lparr>p_idata := (p_idata p)\<lparr>colors := map_put s c (colors (p_idata p))\<rparr>\<rparr>)"

definition stop_explore :: "trav \<Rightarrow> nat \<Rightarrow> string \<Rightarrow> bool" where
  "stop_explore t e subsystem \<longleftrightarrow>
     (let u = target (tr_graph t) e
      in color_of t u subsystem = gray (tr_color_base t) \<or> color_of t u subsystem = black (tr_color_base t))"

section \<open>Planners that may be null\<close>

definition avail_during_0 :: "planner option \<Rightarrow> int \<Rightarrow> int \<Rightarrow> int outcome" where
  "avail_during_0 p t duration =
     (case p of None \<Rightarrow> Ret (-1)
      | Some ctx \<Rightarrow> defined (map_option fst (planner_avail_resources_during ctx t duration 0)))"

definition avail_during_by_type :: "planner option \<Rightarrow> int \<Rightarrow> int \<Rightarrow> string \<Rightarrow> int outcome" where
  "avail_during_by_type p t duration ty =
     (case p of None \<Rightarrow> Ret (-1)
      | Some ctx \<Rightarrow> defined (map_option fst (planner_avail_resources_during_by_type ctx t duration ty)))"

text \<open>
  Reading \<open>subplans[s]\<close> with the index operator of \<open>std::map\<close> inserts a null planner for a missing key.
\<close>

definition touch_subplan :: "nat \<Rightarrow> string \<Rightarrow> trav \<Rightarrow> trav" where
  "touch_subplan u s = upd_pool u (\<lambda>p. p\<lparr>p_idata := (p_idata p)\<lparr>
     subplans := (if map_of (subplans (p_idata p)) s = None then map_put s None (subplans (p_idata p))
                  else subplans (p_idata p))\<rparr>\<rparr>)"

definition subplan_of :: "trav \<Rightarrow> nat \<Rightarrow> string \<Rightarrow> planner option" where
  "subplan_of t u s = (case map_of (subplans (p_idata (pool t u))) s of None \<Rightarrow> None | Some p \<Rightarrow> p)"

text \<open>\<open>count\<close>: the entries of the lookup table for the types a planner tracks; none for a null planner.\<close>

definition count_aggs :: "planner option \<Rightarrow> (string \<times> int) list \<Rightarrow> int list" where
  "count_aggs p lookup =
     (case p of None \<Rightarrow> []
      | Some ctx \<Rightarrow> map (\<lambda>ty. case map_of lookup ty of None \<Rightarrow> 0 | Some n \<Rightarrow> u64 n)
          (take (planner_resources_len ctx) (resource_types ctx)))"

section \<open>Pruning\<close>

definition exclusivity :: "trav \<Rightarrow> resource list \<Rightarrow> nat \<Rightarrow> bool" where
  "exclusivity t resources u \<longleftrightarrow>
     list_ex (\<lambda>r. r_type r = p_type (pool t u) \<and> r_exclusive r = Tri_TRUE) resources"

definition by_avail :: "jobmeta \<Rightarrow> nat \<Rightarrow> trav \<Rightarrow> (trav \<times> int) outcome" where
  "by_avail meta u t =
     bind (avail_during_0 (plans (p_schedule (pool t u))) (jm_at meta) (jm_duration meta)) (\<lambda>avail.
     if avail = 0 then Ret (t, -1)
     else if avail = -1 then Ret (err_msg ''by_avail: planner_avail_resources_during returned -1.'' t, -1)
     else Ret (t, 0))"

definition by_excl :: "jobmeta \<Rightarrow> nat \<Rightarrow> resource \<Rightarrow> trav \<Rightarrow> (trav \<times> int) outcome" where
  "by_excl meta u r t =
     (if r_exclusive r = Tri_TRUE then
        bind (avail_during_by_type (x_checker (p_schedule (pool t u))) (jm_at meta) (jm_duration meta)
            X_CHECKER_JOBS_STR) (\<lambda>njobs.
        if njobs = -1 then Ret (err_msg ''by_excl: planner_avail_resources_during returned -1.'' t, -1)
        else if njobs < X_CHECKER_NJOBS then Ret (t, -1)
        else Ret (t, 0))
      else Ret (t, 0))"

definition by_subplan :: "jobmeta \<Rightarrow> string \<Rightarrow> nat \<Rightarrow> resource \<Rightarrow> trav \<Rightarrow> trav \<times> int" where
  "by_subplan meta s u r t =
     (case subplan_of t u s of
        None \<Rightarrow> (touch_subplan u s t, 0)
      | Some p \<Rightarrow>
          let aggs = count_aggs (Some p) (r_user_data r)
          in if aggs = [] then (t, 0)
             else (case planner_avail_during p (jm_at meta) (jm_duration meta) aggs (length aggs) of
                 (rc, e) \<Rightarrow>
                   if rc = -1 \<and> e \<noteq> None then (err_msg ''by_subplan: planner_avail_during returned -1.'' t, rc)
                   else (t, rc)))"

fun prune_each :: "jobmeta \<Rightarrow> string \<Rightarrow> nat \<Rightarrow> resource list \<Rightarrow> trav \<Rightarrow> (trav \<times> int) outcome" where
  "prune_each meta s u [] t = Ret (t, 0)"
| "prune_each meta s u (r # rs) t =
     (if p_type (pool t u) \<noteq> r_type r then prune_each meta s u rs t
      else bind (by_excl meta u r t) (\<lambda>(t, rc).
        if rc = -1 then Ret (t, rc)
        else case by_subplan meta s u r t of (t, rc) \<Rightarrow>
          if rc = -1 then Ret (t, rc) else prune_each meta s u rs t))"

definition prune :: "jobmeta \<Rightarrow> string \<Rightarrow> nat \<Rightarrow> resource list \<Rightarrow> trav \<Rightarrow> (trav \<times> int) outcome" where
  "prune meta s u resources t =
     bind (by_avail meta u t) (\<lambda>(t, rc). if rc = -1 then Ret (t, rc) else prune_each meta s u resources t)"

section \<open>Matching a vertex with the requested resources\<close>

fun match_loop :: "string \<Rightarrow> resource list \<Rightarrow> resource option \<times> resource option" where
  "match_loop ty [] = (None, None)"
| "match_loop ty (r # rs) =
     (if ty = r_type r then
        (fold (\<lambda>c slot. if r_type c = ''slot'' then Some c else slot) (r_with r) None, Some r)
      else if r_type r = ''slot'' then (Some r, None)
      else match_loop ty rs)"

definition slot_match :: "trav_env \<Rightarrow> trav \<Rightarrow> nat \<Rightarrow> resource option \<Rightarrow> bool" where
  "slot_match env t u slot =
     (case slot of
        None \<Rightarrow> False
      | Some sl \<Rightarrow> list_all (\<lambda>c. list_ex (\<lambda>e. p_type (pool t (target (tr_graph t) e)) = r_type c)
            (out_edges (te_sel env) (tr_graph t) u)) (r_with sl))"

definition test_match :: "trav_env \<Rightarrow> trav \<Rightarrow> nat \<Rightarrow> resource list \<Rightarrow> match_kind \<times> resource list" where
  "test_match env t u resources =
     (case match_loop (p_type (pool t u)) resources of (slot, mat) \<Rightarrow>
        if slot_match env t u slot then (SLOT_MATCH, case slot of None \<Rightarrow> [] | Some sl \<Rightarrow> r_with sl)
        else (case mat of Some r \<Rightarrow> (RESOURCE_MATCH, r_with r) | None \<Rightarrow> (NONE_MATCH, resources)))"

section \<open>Resolving and enforcing\<close>

text \<open>\<open>enforce\<close> marks the chosen edges; an index out of range is caught and gives -1.\<close>

fun enforce_edges :: "eval_edg list \<Rightarrow> trav \<Rightarrow> trav outcome" where
  "enforce_edges [] t = Ret t"
| "enforce_edges (e # es) t =
     (case ee_edge e of
        None \<Rightarrow> Undefined
      | Some i \<Rightarrow> enforce_edges es (t\<lparr>tr_graph := upd_edge i (\<lambda>r. r\<lparr>e_idata := (e_idata r)\<lparr>
            e_needs := ee_needs e, best_k_cnt := tr_best_k_cnt t, e_exclusive := i32 (ee_exclusive e)\<rparr>\<rparr>) (tr_graph t)\<rparr>))"

fun enforce_groups :: "string \<Rightarrow> string \<Rightarrow> nat list \<Rightarrow> trav \<times> scoring_api \<Rightarrow> ((trav \<times> scoring_api) \<times> int) outcome" where
  "enforce_groups s ty [] st = Ret (st, 0)"
| "enforce_groups s ty (i # is) (t, dfu) =
     (case api_at s ty i dfu of
        (dfu, None) \<Rightarrow> Ret ((t, dfu), -1)
      | (dfu, Some g) \<Rightarrow>
          if eg_root g then enforce_groups s ty is (t, dfu)
          else bind (enforce_edges (eg_edges g) t) (\<lambda>t. enforce_groups s ty is (t, dfu)))"

fun enforce_types :: "string \<Rightarrow> string list \<Rightarrow> trav \<times> scoring_api \<Rightarrow> ((trav \<times> scoring_api) \<times> int) outcome" where
  "enforce_types s [] st = Ret (st, 0)"
| "enforce_types s (ty # tys) (t, dfu) =
     (case api_best_i s ty dfu of (dfu, best_i) \<Rightarrow>
      bind (enforce_groups s ty [0..<best_i] (t, dfu)) (\<lambda>(st, rc).
      if rc = -1 then Ret (st, rc) else enforce_types s tys st))"

definition enforce :: "string \<Rightarrow> trav \<times> scoring_api \<Rightarrow> ((trav \<times> scoring_api) \<times> int) outcome" where
  "enforce s = (\<lambda>(t, dfu). case api_resrc_types s dfu of (dfu, types) \<Rightarrow> enforce_types s types (t, dfu))"

definition enforce_all :: "trav_env \<Rightarrow> trav \<times> scoring_api \<Rightarrow> ((trav \<times> scoring_api) \<times> int) outcome" where
  "enforce_all env st =
     each (\<lambda>s (st, rc). bind (enforce s st) (\<lambda>(st, r). Ret (st, rc + r))) (subsystems_of env) (st, 0)"

definition resolve :: "trav_env \<Rightarrow> trav \<times> scoring_api \<times> scoring_api \<Rightarrow> ((trav \<times> scoring_api \<times> scoring_api) \<times> int) outcome" where
  "resolve env = (\<lambda>(t, dfu, to_parent).
     if m_overall_score dfu > MATCH_UNMET then
       if m_hier_constrain_now dfu then
         bind (enforce_all env (t, dfu)) (\<lambda>((t, dfu), rc). Ret ((t, dfu, to_parent), rc))
       else Ret ((t, dfu, api_merge dfu to_parent), 0)
     else Ret ((t, dfu, to_parent), 0))"

section \<open>Exploring\<close>

text \<open>
  \<open>explore\<close> visits the targets of the out-edges. The visit of a vertex, \<open>dom_dfv\<close> or \<open>aux_upv\<close> on the vertex
  with the incoming exclusivity, is an argument; it gives the outgoing exclusivity and the result.
\<close>

type_synonym visit = "nat \<Rightarrow> bool \<Rightarrow> trav \<times> scoring_api \<Rightarrow> ((trav \<times> scoring_api) \<times> bool \<times> int) outcome"

definition score_edge :: "nat \<Rightarrow> bool \<Rightarrow> string \<Rightarrow> trav \<times> scoring_api \<Rightarrow> trav \<times> scoring_api" where
  "score_edge e x subsystem = (\<lambda>(t, dfu).
     let n = m_avail dfu;
         excl = (if x then 1 else 0);
         ev_edg = eval_edg_new n n excl (Some e);
         egrp = (eval_egroup_new (m_overall_score dfu) n 0 excl False)\<lparr>eg_edges := [ev_edg]\<rparr>
     in (t, api_add subsystem (p_type (pool t (target (tr_graph t) e))) egrp dfu))"

definition explore_edge :: "string \<Rightarrow> bool \<Rightarrow> visit \<Rightarrow> nat \<Rightarrow> (trav \<times> scoring_api) \<times> int \<Rightarrow>
    ((trav \<times> scoring_api) \<times> int) outcome" where
  "explore_edge subsystem excl visit e = (\<lambda>((t, dfu), rc2).
     if \<not> in_subsystem t e subsystem \<or> stop_explore t e subsystem then Ret ((t, dfu), rc2)
     else bind (visit (target (tr_graph t) e) excl (t, dfu)) (\<lambda>((t, dfu), x_inout, rc).
       if rc = 0 then Ret (score_edge e x_inout subsystem (t, dfu), 0) else Ret ((t, dfu), rc2)))"

definition explore :: "trav_env \<Rightarrow> nat \<Rightarrow> string \<Rightarrow> bool \<Rightarrow> visit \<Rightarrow> trav \<times> scoring_api \<Rightarrow>
    ((trav \<times> scoring_api) \<times> int) outcome" where
  "explore env u subsystem excl visit st =
     each (explore_edge subsystem excl visit) (out_edges (te_sel env) (tr_graph (fst st)) u) (st, -1)"

text \<open>The availability of the vertex after the walk below it; \<open>None\<close> where the code gives up.\<close>

definition vertex_avail :: "string \<Rightarrow> jobmeta \<Rightarrow> nat \<Rightarrow> trav \<Rightarrow> (trav \<times> int option) outcome" where
  "vertex_avail msg meta u t =
     bind (avail_during_0 (plans (p_schedule (pool t u))) (jm_at meta) (jm_duration meta)) (\<lambda>avail.
     Ret (if avail = 0 then (t, None) else if avail = -1 then (err_msg msg t, None) else (t, Some avail)))"

definition aux_finish :: "trav_env \<Rightarrow> jobmeta \<Rightarrow> nat \<Rightarrow> bool \<Rightarrow> trav \<times> scoring_api \<times> scoring_api \<Rightarrow>
    ((trav \<times> scoring_api) \<times> bool \<times> int) outcome" where
  "aux_finish env meta u excl = (\<lambda>(t, upv, to_parent).
     bind (vertex_avail ''aux_upv: planner_avail_resources_during returned -1. '' meta u t) (\<lambda>(t, avail).
     case avail of
       None \<Rightarrow> Ret ((t, to_parent), excl, -1)
     | Some _ \<Rightarrow>
         bind (resolve env (t\<lparr>tr_match_level := fst (aux_finish_vtx (tr_match_level t))\<rparr>, upv, to_parent))
           (\<lambda>((t, upv, to_parent), rc). Ret ((t, to_parent), excl, rc))))"

fun aux_upv :: "nat \<Rightarrow> trav_env \<Rightarrow> jobmeta \<Rightarrow> string \<Rightarrow> resource list \<Rightarrow> visit" where
  "aux_upv 0 env meta aux resources u excl st = Diverges"
| "aux_upv (Suc fuel) env meta aux resources u excl (t, to_parent) =
     bind (prune meta aux u resources t) (\<lambda>(t, rc).
     if rc = -1 then Ret ((t, to_parent), excl, -1)
     else
       let t = t\<lparr>tr_match_level := fst (aux_discover_vtx (tr_match_level t))\<rparr> in
       bind (if u \<noteq> (case map_of (te_roots env) aux of None \<Rightarrow> 0 | Some r \<Rightarrow> r)
             then explore env u aux excl (aux_upv fuel env meta aux resources) (t, scoring_new)
             else Ret ((t, scoring_new), -1)) (\<lambda>((t, upv), _).
       aux_finish env meta u excl (t, upv, to_parent)))"

definition dom_exp :: "trav_env \<Rightarrow> nat \<Rightarrow> bool \<Rightarrow> visit \<Rightarrow> (string \<Rightarrow> visit) \<Rightarrow> trav \<times> scoring_api \<Rightarrow>
    ((trav \<times> scoring_api) \<times> int) outcome" where
  "dom_exp env u excl dfv upv st =
     each (\<lambda>s (st, rc). explore env u s excl (if s = dom_of env then dfv else upv s) st) (subsystems_of env) (st, -1)"

section \<open>Slots\<close>

text \<open>The number of slots that fit; an \<open>unsigned int\<close> that is \<open>UINT_MAX\<close> for a slot with no resource in it.\<close>

fun cnt_slot_loop :: "string \<Rightarrow> resource list \<Rightarrow> scoring_api \<times> int \<Rightarrow> (scoring_api \<times> int) outcome" where
  "cnt_slot_loop dm [] st = Ret st"
| "cnt_slot_loop dm (r # rs) (dfu, qual_num_slots) =
     (case api_qualified_count dm (r_type r) dfu of (dfu, qc) \<Rightarrow>
      bind (ends (select_count (r_count r) qc)) (\<lambda>count.
      let fit = (if count = 0 then count else qc div count)
      in cnt_slot_loop dm rs
           (api_rewind_iter_cur dm (r_type r) dfu, if qual_num_slots > fit then fit else qual_num_slots)))"

definition cnt_slot :: "trav_env \<Rightarrow> resource list \<Rightarrow> scoring_api \<Rightarrow> (scoring_api \<times> int) outcome" where
  "cnt_slot env slot_shape dfu = cnt_slot_loop (dom_of env) slot_shape (dfu, UINT_MAX)"

text \<open>
  The loop \<open>while (j < count)\<close> takes one group after the other. It stops at the latest when the iterator
  is at the end, where reading it is undefined; the fuel is the number of the groups.
\<close>

fun take_units :: "nat \<Rightarrow> string \<Rightarrow> string \<Rightarrow> int \<Rightarrow> int \<Rightarrow> scoring_api \<times> eval_egroup \<times> int \<Rightarrow>
    (scoring_api \<times> eval_egroup \<times> int) outcome" where
  "take_units 0 dm ty count j st = (if j < count then Undefined else Ret st)"
| "take_units (Suc fuel) dm ty count j (dfu, edg_group, score) =
     (if j < count then
        (case api_iter_cur dm ty dfu of
           (dfu, None) \<Rightarrow> Undefined
         | (dfu, Some g) \<Rightarrow>
             (case eg_edges g of
                [] \<Rightarrow> Undefined
              | e # _ \<Rightarrow> take_units fuel dm ty count (u32 (j + ee_count e))
                  (api_incr_iter_cur dm ty dfu,
                   edg_group\<lparr>eg_edges := eg_edges edg_group @ [eval_edg_new (ee_count e) (ee_count e) 1 (ee_edge e)]\<rparr>,
                   i32 (score + eg_score g))))
      else Ret (dfu, edg_group, score))"

definition slot_elem :: "string \<Rightarrow> resource \<Rightarrow> scoring_api \<times> eval_egroup \<times> int \<Rightarrow>
    (scoring_api \<times> eval_egroup \<times> int) outcome" where
  "slot_elem dm r = (\<lambda>(dfu, edg_group, score).
     case api_qualified_count dm (r_type r) dfu of (dfu, qc) \<Rightarrow>
     bind (ends (select_count (r_count r) qc)) (\<lambda>count.
     take_units (length (m_eval_egroups (res_evals dm (r_type r) dfu))) dm (r_type r) count 0
       (dfu, edg_group, score)))"

fun fill_slots :: "nat \<Rightarrow> string \<Rightarrow> resource list \<Rightarrow> scoring_api \<times> scoring_api \<Rightarrow> (scoring_api \<times> scoring_api) outcome" where
  "fill_slots 0 dm slot_shape st = Ret st"
| "fill_slots (Suc n) dm slot_shape (dfu_slot, dfu) =
     bind (each (slot_elem dm) slot_shape (dfu_slot, eval_egroup_default, MATCH_MET)) (\<lambda>(dfu_slot, g, score).
     fill_slots n dm slot_shape
       (dfu_slot, api_add dm ''slot'' (g\<lparr>eg_score := score, eg_count := 1, eg_exclusive := 1\<rparr>) dfu))"

definition dom_slot :: "trav_env \<Rightarrow> nat \<Rightarrow> resource list \<Rightarrow> visit \<Rightarrow> trav \<times> scoring_api \<Rightarrow>
    ((trav \<times> scoring_api) \<times> int) outcome" where
  "dom_slot env u slot_shape dfv = (\<lambda>(t, dfu).
     bind (explore env u (dom_of env) True dfv (t, scoring_new)) (\<lambda>((t, dfu_slot), rc).
     if rc \<noteq> 0 then Ret ((t, dfu), -1)
     else bind (cb_dom_finish_slot (te_match env) (dom_of env) dfu_slot) (\<lambda>(dfu_slot, rc).
       if rc \<noteq> 0 then Ret ((t, dfu), -1)
       else bind (cnt_slot env slot_shape dfu_slot) (\<lambda>(dfu_slot, qual_num_slots).
         bind (fill_slots (nat qual_num_slots) (dom_of env) slot_shape (dfu_slot, dfu)) (\<lambda>(dfu_slot, dfu).
         Ret ((t, dfu), if qual_num_slots \<noteq> 0 then 0 else -1))))))"

section \<open>The depth-first visit\<close>

definition dom_finish :: "trav_env \<Rightarrow> jobmeta \<Rightarrow> resource list \<Rightarrow> nat \<Rightarrow> bool \<Rightarrow> trav \<times> scoring_api \<times> scoring_api \<Rightarrow>
    ((trav \<times> scoring_api) \<times> bool \<times> int) outcome" where
  "dom_finish env meta resources u x_in = (\<lambda>(t, dfu, to_parent).
     bind (vertex_avail ''dom_dfv: planner_avail_resources_during returned -1.'' meta u t) (\<lambda>(t, avail).
     case avail of
       None \<Rightarrow> Ret ((t, to_parent), x_in, -1)
     | Some avail \<Rightarrow>
         bind (cb_dom_finish_vtx (te_match env) (pool t u) (dom_of env) resources (tr_match_level t, dfu)) (\<lambda>((lvl, dfu), rc).
         let t = t\<lparr>tr_match_level := lvl\<rparr> in
         if rc \<noteq> 0 then Ret ((t, to_parent), x_in, -1)
         else bind (resolve env (t, dfu, to_parent)) (\<lambda>((t, dfu, to_parent), rc).
           if rc \<noteq> 0 then Ret ((t, to_parent), x_in, rc)
           else Ret ((t, api_set_overall_score (m_overall_score dfu) (api_set_avail avail to_parent)), x_in, 0)))))"

fun dom_dfv :: "nat \<Rightarrow> trav_env \<Rightarrow> jobmeta \<Rightarrow> resource list \<Rightarrow> visit" where
  "dom_dfv 0 env meta resources u excl st = Diverges"
| "dom_dfv (Suc fuel) env meta resources u excl (t, to_parent) =
     (let x_in = excl \<or> exclusivity t resources u; dm = dom_of env; (sm, nxt) = test_match env t u resources
      in bind (prune meta dm u resources t) (\<lambda>(t, rc).
         if rc = -1 then Ret ((t, to_parent), excl, -1)
         else
           let t = t\<lparr>tr_match_level := fst (dom_discover_vtx (tr_match_level t))\<rparr>;
               t = set_color u dm (gray (tr_color_base t)) t
           in bind (if sm = SLOT_MATCH then dom_slot env u nxt (dom_dfv fuel env meta nxt) (t, scoring_new)
                    else dom_exp env u x_in (dom_dfv fuel env meta nxt) (\<lambda>s. aux_upv fuel env meta s nxt) (t, scoring_new))
                (\<lambda>((t, dfu), _).
                dom_finish env meta resources u x_in (set_color u dm (black (tr_color_base t)) t, dfu, to_parent))))"

end
