(* ===== verification/Traverser_Update.thy ===== *)
theory Traverser_Update
  imports Traverser_Match
begin

text \<open>
  The traverser, second part: recording a selection in the planners of the graph, removing a job, and priming
  the graph and the job specification with aggregates (\<open>dfu_traverse_impl.cpp\<close>, the rest).

  The emitted text, a \<open>stringstream\<close>, is a string that grows. A planner that is null where the code
  passes it to \<open>planner_add_span\<close> is undefined behaviour; \<open>planner_rem_span\<close> checks for null.
\<close>

section \<open>Planners that may be null\<close>

definition add_span_opt :: "trav_env \<Rightarrow> int \<Rightarrow> int \<Rightarrow> int list \<Rightarrow> planner option \<Rightarrow> (planner option \<times> int) outcome" where
  "add_span_opt env t duration counts p =
     (case p of
        None \<Rightarrow> Undefined
      | Some ctx \<Rightarrow> bind (defined (planner_add_span (te_zkeys env) t duration counts (length counts) ctx))
          (\<lambda>(ctx, sid, _). Ret (Some ctx, sid)))"

definition rem_span_opt :: "trav_env \<Rightarrow> int \<Rightarrow> planner option \<Rightarrow> (planner option \<times> int) outcome" where
  "rem_span_opt env sid p =
     (case p of
        None \<Rightarrow> Ret (None, -1)
      | Some ctx \<Rightarrow> bind (defined (planner_rem_span (te_zkeys env) sid ctx)) (\<lambda>(ctx, rc, _). Ret (Some ctx, rc)))"

definition upd_schedule :: "nat \<Rightarrow> (pool_schedule \<Rightarrow> pool_schedule) \<Rightarrow> trav \<Rightarrow> trav" where
  "upd_schedule u f = upd_pool u (\<lambda>p. p\<lparr>p_schedule := f (p_schedule p)\<rparr>)"

definition upd_idata :: "nat \<Rightarrow> (pool_infra \<Rightarrow> pool_infra) \<Rightarrow> trav \<Rightarrow> trav" where
  "upd_idata u f = upd_pool u (\<lambda>p. p\<lparr>p_idata := f (p_idata p)\<rparr>)"

section \<open>Aggregates\<close>

text \<open>\<open>accum_if\<close>, for both kinds of map: add the count, an \<open>unsigned int\<close>, when the type is tracked.\<close>

definition tracked :: "trav_env \<Rightarrow> string \<Rightarrow> string \<Rightarrow> bool" where
  "tracked env s ty \<longleftrightarrow>
     ty \<in> set (case map_of (sdau_resource_types (cb_data (te_match env))) s of None \<Rightarrow> [] | Some tys \<Rightarrow> tys)"

definition accum_if :: "trav_env \<Rightarrow> string \<Rightarrow> string \<Rightarrow> int \<Rightarrow> (string \<times> int) list \<Rightarrow> (string \<times> int) list \<times> int" where
  "accum_if env s ty n accum =
     (if tracked env s ty then
        (case map_of accum ty of
           None \<Rightarrow> (map_put ty (u32 n) accum, 0)
         | Some x \<Rightarrow> (map_put ty (i64 (x + u32 n)) accum, 0))
      else (accum, -1))"

definition accum_unordered :: "trav_env \<Rightarrow> string \<Rightarrow> string \<Rightarrow> int \<Rightarrow> (string \<times> int) list \<Rightarrow> (string \<times> int) list \<times> int" where
  "accum_unordered env s ty n accum =
     (if tracked env s ty then
        (case map_of accum ty of
           None \<Rightarrow> (assign ty (u32 n) accum, 0)
         | Some x \<Rightarrow> (assign ty (i64 (x + u32 n)) accum, 0))
      else (accum, -1))"

section \<open>Emitting\<close>

definition emit_vertex :: "trav \<Rightarrow> nat \<Rightarrow> int \<Rightarrow> bool \<Rightarrow> string \<Rightarrow> string" where
  "emit_vertex t u needs exclusive ss =
     ss @ ''      '' @ level t @ p_name (pool t u) @ ''['' @ show_int needs @ '':'' @
       (if exclusive then ''x'' else ''s'') @ '']'' @ [NL]"

section \<open>Updating\<close>

text \<open>
  \<open>upd_plan\<close> gives the span and the counter \<open>n\<close>, which it increments before the span is added.
\<close>

definition upd_plan :: "trav_env \<Rightarrow> nat \<Rightarrow> string \<Rightarrow> int \<Rightarrow> jobmeta \<Rightarrow> int \<Rightarrow> trav \<times> (string \<times> int) list \<Rightarrow>
    ((trav \<times> (string \<times> int) list) \<times> int \<times> int) outcome" where
  "upd_plan env u s needs meta n = (\<lambda>(t, to_parent).
     bind (add_span_opt env (jm_at meta) (jm_duration meta) [needs] (plans (p_schedule (pool t u)))) (\<lambda>(p, sp).
     let t = upd_schedule u (\<lambda>sc. sc\<lparr>plans := p\<rparr>) t
     in if sp = -1 then Ret ((err_msg ''upd_plan: planner_add_span returned -1.'' t, to_parent), -1, n + 1)
        else
          let to_parent = fst (accum_if env s (p_type (pool t u)) needs to_parent);
              t = upd_schedule u (\<lambda>sc.
                if jm_allocate meta then sc\<lparr>allocations := map_put (jm_jobid meta) sp (allocations sc)\<rparr>
                else sc\<lparr>reservations := map_put (jm_jobid meta) sp (reservations sc)\<rparr>) t
          in Ret ((t, to_parent), sp, n + 1)))"

definition upd_subplan :: "trav_env \<Rightarrow> nat \<Rightarrow> string \<Rightarrow> jobmeta \<Rightarrow> (string \<times> int) list \<Rightarrow> trav \<Rightarrow> (trav \<times> int) outcome" where
  "upd_subplan env u s meta dfu t =
     (case subplan_of t u s of
        None \<Rightarrow> Ret (touch_subplan u s t, 0)
      | Some p \<Rightarrow>
          if dfu = [] then Ret (t, 0)
          else bind (add_span_opt env (jm_at meta) (jm_duration meta) (count_aggs (Some p) dfu) (Some p)) (\<lambda>(p, sp).
            let t = upd_idata u (\<lambda>i. i\<lparr>subplans := map_put s p (subplans i)\<rparr>) t
            in if sp = -1 then Ret (err_msg ''upd_sched: planner_add_span returned -1.'' t, -1)
               else Ret (upd_idata u (\<lambda>i. i\<lparr>job2span := map_put (jm_jobid meta) sp (job2span i)\<rparr>) t, 0)))"

text \<open>The part of \<open>upd_sched\<close> under \<open>n > 0\<close>: the tag, the exclusivity checker, the subtree plan and the output.\<close>

definition upd_tag :: "trav_env \<Rightarrow> nat \<Rightarrow> string \<Rightarrow> int \<Rightarrow> bool \<Rightarrow> int \<Rightarrow> jobmeta \<Rightarrow> (string \<times> int) list \<Rightarrow>
    trav \<times> (string \<times> int) list \<times> string \<Rightarrow> ((trav \<times> (string \<times> int) list \<times> string) \<times> int) outcome" where
  "upd_tag env u s needs excl n meta dfu = (\<lambda>(t, to_parent, ss).
     let t = upd_schedule u (\<lambda>sc. sc\<lparr>tags := map_put (jm_jobid meta) (jm_jobid meta) (tags sc)\<rparr>) t in
     bind (add_span_opt env (jm_at meta) (jm_duration meta) [1] (x_checker (p_schedule (pool t u)))) (\<lambda>(xc, sp).
     let t = upd_schedule u (\<lambda>sc. sc\<lparr>x_checker := xc, x_spans := map_put (jm_jobid meta) sp (x_spans sc)\<rparr>) t in
     bind (upd_subplan env u s meta dfu t) (\<lambda>(t, rc).
     if rc = -1 then Ret ((t, to_parent, ss), n)
     else
       let to_parent = fold (\<lambda>(ty, c) acc. fst (accum_if env s ty c acc)) dfu to_parent;
           ss = emit_vertex t u needs excl ss
       in Ret ((t\<lparr>tr_trav_level := u32 (tr_trav_level t - 1)\<rparr>, to_parent, ss), n))))"

definition upd_sched :: "trav_env \<Rightarrow> nat \<Rightarrow> string \<Rightarrow> int \<Rightarrow> bool \<Rightarrow> int \<Rightarrow> jobmeta \<Rightarrow> (string \<times> int) list \<Rightarrow>
    trav \<times> (string \<times> int) list \<times> string \<Rightarrow> ((trav \<times> (string \<times> int) list \<times> string) \<times> int) outcome" where
  "upd_sched env u s needs excl n meta dfu = (\<lambda>(t, to_parent, ss).
     bind (if excl then upd_plan env u s needs meta n (t, to_parent) else Ret ((t, to_parent), 0, n))
       (\<lambda>((t, to_parent), sp, n).
     if excl \<and> sp = -1 then Ret ((t, to_parent, ss), n)
     else if n > 0 then upd_tag env u s needs excl n meta dfu (t, to_parent, ss)
     else Ret ((t\<lparr>tr_trav_level := u32 (tr_trav_level t - 1)\<rparr>, to_parent, ss), n)))"

definition upd_upv :: "trav \<times> (string \<times> int) list \<times> string \<Rightarrow> ((trav \<times> (string \<times> int) list \<times> string) \<times> int) outcome" where
  "upd_upv st = Ret (st, 0)"

text \<open>One out-edge of \<open>upd_dfv\<close>; the recursive visit of the target is an argument.\<close>

definition upd_edge_visit :: "trav_env \<Rightarrow> string \<Rightarrow>
    (nat \<Rightarrow> int \<Rightarrow> bool \<Rightarrow> trav \<times> (string \<times> int) list \<times> string \<Rightarrow> ((trav \<times> (string \<times> int) list \<times> string) \<times> int) outcome) \<Rightarrow>
    nat \<Rightarrow> (trav \<times> (string \<times> int) list \<times> string) \<times> int \<Rightarrow> ((trav \<times> (string \<times> int) list \<times> string) \<times> int) outcome" where
  "upd_edge_visit env subsystem visit e = (\<lambda>((t, dfu, ss), n_plans).
     let i = e_idata (edges (tr_graph t) ! e)
     in if \<not> in_subsystem t e subsystem \<or> stop_explore t e subsystem \<or> best_k_cnt i \<noteq> tr_best_k_cnt t
        then Ret ((t, dfu, ss), n_plans)
        else bind (if subsystem = dom_of env
                   then visit (target (tr_graph t) e) (u32 (e_needs i)) (e_exclusive i \<noteq> 0) (t, dfu, ss)
                   else upd_upv (t, dfu, ss)) (\<lambda>(st, n). Ret (st, n_plans + n)))"

fun upd_dfv :: "nat \<Rightarrow> trav_env \<Rightarrow> jobmeta \<Rightarrow> nat \<Rightarrow> int \<Rightarrow> bool \<Rightarrow> trav \<times> (string \<times> int) list \<times> string \<Rightarrow>
    ((trav \<times> (string \<times> int) list \<times> string) \<times> int) outcome" where
  "upd_dfv 0 env meta u needs excl st = Diverges"
| "upd_dfv (Suc fuel) env meta u needs excl (t, to_parent, ss) =
     (let t = t\<lparr>tr_trav_level := u32 (tr_trav_level t + 1)\<rparr> in
      bind (each (\<lambda>subsystem st.
          each (upd_edge_visit env subsystem (upd_dfv fuel env meta)) (out_edges (te_sel env) (tr_graph (fst (fst st))) u) st)
        (subsystems_of env) ((t, [], ss), 0)) (\<lambda>((t, dfu, ss), n_plans).
      upd_sched env u (dom_of env) needs excl n_plans meta dfu
        (set_color u (dom_of env) (black (tr_color_base t)) t, to_parent, ss)))"

section \<open>Removing a job\<close>

definition rem_upv :: "trav \<Rightarrow> (trav \<times> int) outcome" where
  "rem_upv t = Ret (t, 0)"

definition rem_plan :: "trav_env \<Rightarrow> nat \<Rightarrow> int \<Rightarrow> trav \<Rightarrow> (trav \<times> int) outcome" where
  "rem_plan env u jobid t =
     (let sc = p_schedule (pool t u);
          (t, sp) = (case map_of (allocations sc) jobid of
              Some sp \<Rightarrow> (upd_schedule u (\<lambda>sc. sc\<lparr>allocations := map_erase jobid (allocations sc)\<rparr>) t, sp)
            | None \<Rightarrow> (case map_of (reservations sc) jobid of
                  Some sp \<Rightarrow> (upd_schedule u (\<lambda>sc. sc\<lparr>reservations := map_erase jobid (reservations sc)\<rparr>) t, sp)
                | None \<Rightarrow> (t, -1)))
      in if sp = -1 then Ret (t, 0)
         else bind (rem_span_opt env sp (plans (p_schedule (pool t u)))) (\<lambda>(p, rc).
           let t = upd_schedule u (\<lambda>sc. sc\<lparr>plans := p\<rparr>) t
           in if rc \<noteq> 0
              then Ret (err_msg (''rem_plan: planner_rem_span returned -1.rem_plan: '' @ p_name (pool t u) @ ''.'') t, rc)
              else Ret (t, rc)))"

definition rem_x_checker :: "trav_env \<Rightarrow> nat \<Rightarrow> int \<Rightarrow> trav \<Rightarrow> (trav \<times> int) outcome" where
  "rem_x_checker env u jobid t =
     (case map_of (x_spans (p_schedule (pool t u))) jobid of
        None \<Rightarrow> Ret (err_msg (''rem_x_checker: jobid isn'' @ [CHR 0x27] @ ''t found in x_spans table.'') t, -1)
      | Some sp \<Rightarrow>
          let t = upd_schedule u (\<lambda>sc. sc\<lparr>x_spans := map_erase jobid (x_spans sc)\<rparr>) t
          in if sp = -1 then Ret (t, 0)
             else bind (rem_span_opt env sp (x_checker (p_schedule (pool t u)))) (\<lambda>(p, rc).
               let t = upd_schedule u (\<lambda>sc. sc\<lparr>x_checker := p\<rparr>) t
               in if rc \<noteq> 0
                  then Ret (err_msg (''rem_x_checker: planner_rem_span returned -1.rem_x_checker: '' @ p_name (pool t u) @ ''.'') t, rc)
                  else Ret (t, rc)))"

text \<open>The entry in \<open>job2span\<close> stays; the span id goes through an \<open>int\<close>.\<close>

definition rem_subtree_plan :: "trav_env \<Rightarrow> nat \<Rightarrow> int \<Rightarrow> string \<Rightarrow> trav \<Rightarrow> (trav \<times> int) outcome" where
  "rem_subtree_plan env u jobid subsystem t =
     (case subplan_of t u subsystem of
        None \<Rightarrow> Ret (touch_subplan u subsystem t, 0)
      | Some p \<Rightarrow>
          (case map_of (job2span (p_idata (pool t u))) jobid of
             None \<Rightarrow> Ret (t, 0)
           | Some sp \<Rightarrow>
               if i32 sp = -1 then Ret (t, -1)
               else bind (rem_span_opt env (i32 sp) (Some p)) (\<lambda>(p, rc).
                 let t = upd_idata u (\<lambda>i. i\<lparr>subplans := map_put subsystem p (subplans i)\<rparr>) t
                 in if rc \<noteq> 0
                    then Ret (err_msg (''rem_subtree_plan: planner_rem_span returned -1.rem_subtree_plan: '' @ p_name (pool t u) @ ''.'') t, rc)
                    else Ret (t, rc))))"

definition rem_edge_visit :: "trav_env \<Rightarrow> string \<Rightarrow> (nat \<Rightarrow> trav \<Rightarrow> (trav \<times> int) outcome) \<Rightarrow> nat \<Rightarrow>
    trav \<times> int \<Rightarrow> (trav \<times> int) outcome" where
  "rem_edge_visit env subsystem visit e = (\<lambda>(t, rc).
     if \<not> in_subsystem t e subsystem \<or> stop_explore t e subsystem then Ret (t, rc)
     else bind (if subsystem = dom_of env then visit (target (tr_graph t) e) t else rem_upv t)
       (\<lambda>(t, r). Ret (t, rc + r)))"

text \<open>The part of \<open>rem_dfv\<close> that concerns the vertex itself.\<close>

definition rem_vertex :: "trav_env \<Rightarrow> nat \<Rightarrow> int \<Rightarrow> trav \<Rightarrow> (trav \<times> int) outcome" where
  "rem_vertex env u jobid t =
     bind (rem_x_checker env u jobid (upd_schedule u (\<lambda>sc. sc\<lparr>tags := map_erase jobid (tags sc)\<rparr>) t)) (\<lambda>(t, rc).
     if rc \<noteq> 0 then Ret (t, rc)
     else bind (rem_plan env u jobid t) (\<lambda>(t, rc).
       if rc \<noteq> 0 then Ret (t, rc) else rem_subtree_plan env u jobid (dom_of env) t))"

fun rem_dfv :: "nat \<Rightarrow> trav_env \<Rightarrow> int \<Rightarrow> nat \<Rightarrow> trav \<Rightarrow> (trav \<times> int) outcome" where
  "rem_dfv 0 env jobid u t = Diverges"
| "rem_dfv (Suc fuel) env jobid u t =
     (if map_of (tags (p_schedule (pool t u))) jobid = None then Ret (t, 0)
      else bind (rem_vertex env u jobid t) (\<lambda>(t, rc).
        if rc \<noteq> 0 then Ret (t, rc)
        else each (\<lambda>subsystem st.
            each (rem_edge_visit env subsystem (rem_dfv fuel env jobid)) (out_edges (te_sel env) (tr_graph (fst st)) u) st)
          (subsystems_of env) (t, 0)))"

section \<open>Priming the graph\<close>

definition subtree_plan :: "trav \<Rightarrow> nat \<Rightarrow> int list \<Rightarrow> string list \<Rightarrow> planner option" where
  "subtree_plan t u av tp =
     (let (base, dur) = (case plans (p_schedule (pool t u)) of
          None \<Rightarrow> (-1, u64 (-1)) | Some p \<Rightarrow> (planner_base_time p, u64 (planner_duration p)))
      in (case planner_new base dur av tp (length av) of Inl e \<Rightarrow> None | Inr p \<Rightarrow> Some p))"

text \<open>The loop of \<open>prime_exp\<close>: a visit that fails ends it.\<close>

fun prime_exp_loop :: "string \<Rightarrow>
    (nat \<Rightarrow> trav \<times> (string \<times> int) list \<Rightarrow> ((trav \<times> (string \<times> int) list) \<times> int) outcome) \<Rightarrow> nat list \<Rightarrow>
    trav \<times> (string \<times> int) list \<Rightarrow> ((trav \<times> (string \<times> int) list) \<times> int) outcome" where
  "prime_exp_loop s visit [] st = Ret (st, 0)"
| "prime_exp_loop s visit (e # es) (t, dfv) =
     (if \<not> in_subsystem t e s \<or> stop_explore t e s then prime_exp_loop s visit es (t, dfv)
      else bind (visit (target (tr_graph t) e) (t, dfv)) (\<lambda>(st, rc).
        if rc \<noteq> 0 then Ret (st, rc) else prime_exp_loop s visit es st))"

definition prime_subplan :: "string \<Rightarrow> nat \<Rightarrow> (string \<times> int) list \<Rightarrow> trav \<Rightarrow> trav \<times> int" where
  "prime_subplan s u dfv t =
     (let avail = map (\<lambda>(ty, n). u64 n) dfv; types = map fst dfv
      in if dfv = [] then (t, 0)
         else if length avail > PLANNER_NUM_TYPES
         then (err_msg ''prime: aggregate type count exceeds planner limit. '' t, -1)
         else (case subtree_plan t u avail types of
             None \<Rightarrow> (err_msg ''prime: error initializing a planner. '' t, -1)
           | Some p \<Rightarrow> (upd_idata u (\<lambda>i. i\<lparr>subplans := map_put s (Some p) (subplans i)\<rparr>) t, 0)))"

fun prime :: "nat \<Rightarrow> trav_env \<Rightarrow> string \<Rightarrow> nat \<Rightarrow> trav \<times> (string \<times> int) list \<Rightarrow>
    ((trav \<times> (string \<times> int) list) \<times> int) outcome" where
  "prime 0 env s u st = Diverges"
| "prime (Suc fuel) env s u (t, to_parent) =
     (let t = set_color u s (gray (tr_color_base t)) t;
          to_parent = fst (accum_if env s (p_type (pool t u)) (p_size (pool t u)) to_parent)
      in bind (prime_exp_loop s (prime fuel env s) (out_edges (te_sel env) (tr_graph t) u) (t, [])) (\<lambda>((t, dfv), rc).
         if rc \<noteq> 0 then Ret ((set_color u s (black (tr_color_base t)) t, to_parent), -1)
         else
           let to_parent = fold (\<lambda>(ty, n) acc. fst (accum_if env s ty n acc)) dfv to_parent
           in (case prime_subplan s u dfv t of
               (t, rc) \<Rightarrow> Ret ((set_color u s (black (tr_color_base t)) t, to_parent), rc))))"

section \<open>Priming the job specification\<close>

text \<open>The aggregates of the resources below each resource go into its \<open>user_data\<close>.\<close>

fun prime_resource :: "trav_env \<Rightarrow> resource \<Rightarrow> (string \<times> int) list \<Rightarrow> resource \<times> (string \<times> int) list" where
  "prime_resource env (Resource ty count un label ident excl wth ud) to_parent =
     (let s = dom_of env;
          to_parent = fst (accum_unordered env s ty (c_min count) to_parent);
          (wth, ud) = fold (\<lambda>r (rs, ud). case prime_resource env r ud of (r, ud) \<Rightarrow> (rs @ [r], ud)) wth ([], ud);
          to_parent = fold (\<lambda>(ty, n) acc. fst (accum_unordered env s ty (i64 (c_min count * n)) acc)) ud to_parent
      in (Resource ty count un label ident excl wth ud, to_parent))"

definition prime_jobspec :: "trav_env \<Rightarrow> resource list \<Rightarrow> (string \<times> int) list \<Rightarrow> resource list \<times> (string \<times> int) list" where
  "prime_jobspec env resources to_parent =
     fold (\<lambda>r (rs, acc). case prime_resource env r acc of (r, acc) \<Rightarrow> (rs @ [r], acc)) resources ([], to_parent)"

section \<open>Select, update and remove\<close>

fun root_needs :: "string \<Rightarrow> int \<Rightarrow> resource list \<Rightarrow> int \<Rightarrow> (int \<times> bool) outcome" where
  "root_needs ty qc [] needs = Ret (needs, True)"
| "root_needs ty qc (r # rs) needs =
     (if r_type r = ty then
        bind (ends (select_count (r_count r) qc)) (\<lambda>count.
        if count = 0 then Ret (needs, False) else root_needs ty qc rs count)
      else root_needs ty qc rs needs)"

text \<open>The types left open are chosen entirely; a type with no qualified unit ends the loops.\<close>

fun resolve_types :: "sorter \<Rightarrow> string \<Rightarrow> string list \<Rightarrow> scoring_api \<Rightarrow> (scoring_api \<times> bool) outcome" where
  "resolve_types std_sort s [] dfu = Ret (dfu, True)"
| "resolve_types std_sort s (ty # tys) dfu =
     (case api_qualified_count s ty dfu of (dfu, qc) \<Rightarrow>
      if qc = 0 then Ret (dfu, False)
      else case api_best_k s ty dfu of (dfu, k) \<Rightarrow>
        if k = 0 then bind (defined (choose_accum_all std_sort s ty fold_greater dfu)) (\<lambda>(dfu, _). resolve_types std_sort s tys dfu)
        else resolve_types std_sort s tys dfu)"

fun resolve_subsystems :: "sorter \<Rightarrow> string list \<Rightarrow> scoring_api \<Rightarrow> (scoring_api \<times> bool) outcome" where
  "resolve_subsystems std_sort [] dfu = Ret (dfu, True)"
| "resolve_subsystems std_sort (s # ss) dfu =
     (case api_resrc_types s dfu of (dfu, types) \<Rightarrow>
      bind (resolve_types std_sort s types dfu) (\<lambda>(dfu, ok).
      if ok then resolve_subsystems std_sort ss dfu else Ret (dfu, False)))"

definition resolve_graph :: "sorter \<Rightarrow> trav_env \<Rightarrow> nat \<Rightarrow> resource list \<Rightarrow> int \<Rightarrow> trav \<times> scoring_api \<Rightarrow>
    (trav \<times> int \<times> int) outcome" where
  "resolve_graph std_sort env root resources needs = (\<lambda>(t, dfu).
     bind (cb_dom_finish_graph (te_match env) (dom_of env) resources dfu) (\<lambda>(dfu, rc).
     if rc \<noteq> 0 then Ret (t, needs, -1)
     else bind (root_needs (p_type (pool t root)) (m_avail dfu) resources 1) (\<lambda>(needs, ok).
       if \<not> ok then Ret (t, needs, -1)
       else bind (resolve_subsystems std_sort (subsystems_of env) dfu) (\<lambda>(dfu, ok).
         if \<not> ok then Ret (t, needs, -1)
         else bind (enforce_all env (t, dfu)) (\<lambda>((t, dfu), rc). Ret (t, needs, rc))))))"

definition select :: "sorter \<Rightarrow> nat \<Rightarrow> trav_env \<Rightarrow> resource list \<Rightarrow> nat \<Rightarrow> jobmeta \<Rightarrow> bool \<Rightarrow> int \<Rightarrow> trav \<Rightarrow>
    (trav \<times> int \<times> int) outcome" where
  "select std_sort fuel env resources root meta excl needs t =
     bind (dom_dfv fuel env meta resources root excl (tick t, scoring_new)) (\<lambda>((t, dfu), x_in, rc).
     if rc \<noteq> 0 then Ret (t, needs, rc)
     else
       let x = (if excl then 1 else 0);
           ev_edg = eval_edg_new (m_avail dfu) (m_avail dfu) x None;
           egrp = (eval_egroup_new (m_overall_score dfu) (m_avail dfu) 0 x True)\<lparr>eg_edges := [ev_edg]\<rparr>
       in resolve_graph std_sort env root resources needs
            (t, api_add (dom_of env) (p_type (pool t root)) egrp dfu))"

definition update :: "nat \<Rightarrow> trav_env \<Rightarrow> nat \<Rightarrow> jobmeta \<Rightarrow> int \<Rightarrow> bool \<Rightarrow> trav \<times> string \<Rightarrow> ((trav \<times> string) \<times> int) outcome" where
  "update fuel env root meta needs excl = (\<lambda>(t, ss).
     bind (upd_dfv fuel env meta root needs excl (tick_color_base t, [], ss)) (\<lambda>((t, _, ss), n).
     Ret ((t, ss), if n > 0 then 0 else -1)))"

definition remove :: "nat \<Rightarrow> trav_env \<Rightarrow> nat \<Rightarrow> int \<Rightarrow> trav \<Rightarrow> (trav \<times> int) outcome" where
  "remove fuel env root jobid t = rem_dfv fuel env jobid root (tick_color_base t)"

end
