(* ===== verification/Traverser.thy ===== *)
theory Traverser
  imports Traverser_Update
begin

text \<open>
  The public interface of the traverser (\<open>dfu_traverse.cpp\<close>) and the metadata of a job (\<open>jobmeta_t\<close>).

  The pointers to the graph, the roots and the callback may be null. The functions run with a bound
  on the depth of the recursion (\<open>fuel\<close>) and on the number of times that are tried (\<open>rounds\<close>).
\<close>

section \<open>State\<close>

record dfu_traverser =
  dt_trav :: trav
  dt_has_graph :: bool
  dt_roots :: "(string \<times> nat) list option"
  dt_match :: "match_cb option"
  dt_sel :: subsystems_sel
  dt_zkeys :: "int list \<Rightarrow> int list"

definition trav_new :: "resource_graph \<Rightarrow> trav" where
  "trav_new g = \<lparr>tr_graph = g, tr_best_k_cnt = 0, tr_color_base = 0, tr_trav_level = 0, tr_err_msg = [], tr_match_level = 0\<rparr>"

datatype api_errno = API_EINVAL | API_ENOTSUP

section \<open>The metadata of a job\<close>

text \<open>\<open>atoll\<close>: white space, a sign, and the digits up to the first character that is none.\<close>

definition is_digit :: "char \<Rightarrow> bool" where
  "is_digit c \<longleftrightarrow> c \<in> set ''0123456789''"

definition atoll :: "string \<Rightarrow> int" where
  "atoll s =
     (let s = dropWhile (\<lambda>c. c \<in> set [CHR '' '', CHR 0x09, CHR 0x0A, CHR 0x0B, CHR 0x0C, CHR 0x0D]) s
      in case s of
           [] \<Rightarrow> 0
         | c # cs \<Rightarrow>
             if c = CHR ''-'' then - int (read_nat (takeWhile is_digit cs))
             else if c = CHR ''+'' then int (read_nat (takeWhile is_digit cs))
             else int (read_nat (takeWhile is_digit s)))"

text \<open>\<open>build\<close> reads the entry of the key \<open>system\<close> without a check that there is one.\<close>

definition jobmeta_build :: "(string \<times> (string \<times> string) list) list \<Rightarrow> bool \<Rightarrow> int \<Rightarrow> int \<Rightarrow> jobmeta outcome" where
  "jobmeta_build attributes alloc ident t =
     (case map_of attributes ''system'' of
        None \<Rightarrow> Undefined
      | Some sys \<Rightarrow> Ret \<lparr>jm_allocate = alloc, jm_jobid = ident, jm_at = t,
          jm_duration = (case map_of sys ''duration'' of None \<Rightarrow> SYSTEM_DEFAULT_DURATION | Some d \<Rightarrow> u64 (atoll d))\<rparr>)"

section \<open>Scheduling\<close>

text \<open>
  The loop over the times at which the aggregates of the job fit the root's subtree plan. The next time is
  asked for before the result of the last selection is looked at.
\<close>

definition avail_next :: "nat \<Rightarrow> string \<Rightarrow> trav \<Rightarrow> trav \<times> int" where
  "avail_next root dm t =
     (case subplan_of t root dm of
        None \<Rightarrow> (t, -1)
      | Some p \<Rightarrow> (case planner_avail_time_next p of
            (p, tm, _) \<Rightarrow> (upd_idata root (\<lambda>i. i\<lparr>subplans := map_put dm (Some p) (subplans i)\<rparr>) t, tm)))"

definition avail_first :: "trav_env \<Rightarrow> nat \<Rightarrow> string \<Rightarrow> int \<Rightarrow> int \<Rightarrow> (string \<times> int) list \<Rightarrow> trav \<Rightarrow> trav \<times> int" where
  "avail_first env root dm tm duration dfv t =
     (case subplan_of t root dm of
        None \<Rightarrow> (t, -1)
      | Some p \<Rightarrow> (case planner_avail_time_first (te_zkeys env) tm duration (count_aggs (Some p) dfv)
              (planner_resources_len p) p of
            (p, tm, _) \<Rightarrow> (upd_idata root (\<lambda>i. i\<lparr>subplans := map_put dm (Some p) (subplans i)\<rparr>) t, tm)))"

fun reserve_loop :: "nat \<Rightarrow> (jobmeta \<Rightarrow> int \<Rightarrow> trav \<Rightarrow> (trav \<times> int \<times> int) outcome) \<Rightarrow> nat \<Rightarrow> string \<Rightarrow> int \<Rightarrow>
    jobmeta \<Rightarrow> int \<Rightarrow> int \<Rightarrow> trav \<Rightarrow> (trav \<times> jobmeta \<times> int \<times> int) outcome" where
  "reserve_loop 0 sel root dm tm meta needs rc t = Diverges"
| "reserve_loop (Suc rounds) sel root dm tm meta needs rc t =
     (if tm \<noteq> -1 \<and> rc \<noteq> 0 then
        let meta = meta\<lparr>jm_at := tm\<rparr> in
        bind (sel meta needs t) (\<lambda>(t, needs, rc).
        case avail_next root dm t of (t, tm) \<Rightarrow> reserve_loop rounds sel root dm tm meta needs rc t)
      else Ret (t, meta, needs, rc))"

definition schedule :: "sorter \<Rightarrow> nat \<Rightarrow> nat \<Rightarrow> trav_env \<Rightarrow> resource list \<Rightarrow> jobmeta \<Rightarrow> bool \<Rightarrow> match_op \<Rightarrow> nat \<Rightarrow>
    (string \<times> int) list \<Rightarrow> trav \<Rightarrow> (trav \<times> jobmeta \<times> int \<times> int) outcome" where
  "schedule std_sort fuel rounds env resources meta x op root dfv t =
     (let dm = dom_of env; sel = (\<lambda>meta needs t. select std_sort fuel env resources root meta x needs t) in
      bind (sel meta 0 t) (\<lambda>(t, needs, rc).
      if rc \<noteq> 0 \<and> op = MATCH_ALLOCATE_ORELSE_RESERVE then
        if map_of (subplans (p_idata (pool t root))) dm = None then Uncaught
        else
          let meta = meta\<lparr>jm_allocate := False\<rparr> in
          case avail_first env root dm (i64 (jm_at meta + 1)) (jm_duration meta) dfv t of (t, tm) \<Rightarrow>
            reserve_loop rounds sel root dm tm meta needs rc t
      else Ret (t, meta, needs, rc)))"

section \<open>The public functions\<close>

definition env_of :: "dfu_traverser \<Rightarrow> (string \<times> nat) list \<Rightarrow> match_cb \<Rightarrow> trav_env" where
  "env_of d roots cb = \<lparr>te_sel = dt_sel d, te_roots = roots, te_match = cb, te_zkeys = dt_zkeys d\<rparr>"

fun initialize_loop :: "nat \<Rightarrow> trav_env \<Rightarrow> string list \<Rightarrow> trav \<times> int \<Rightarrow> ((trav \<times> int) \<times> api_errno option) outcome" where
  "initialize_loop fuel env [] st = Ret (st, None)"
| "initialize_loop fuel env (s # ss) (t, rc) =
     (case map_of (te_roots env) s of
        None \<Rightarrow> Ret ((t, -1), Some API_ENOTSUP)
      | Some root \<Rightarrow> bind (prime fuel env s root (t, [])) (\<lambda>((t, _), r). initialize_loop fuel env ss (t, rc + r)))"

definition traverser_initialize :: "nat \<Rightarrow> dfu_traverser \<Rightarrow> ((dfu_traverser \<times> int) \<times> api_errno option) outcome" where
  "traverser_initialize fuel d =
     (case (dt_has_graph d, dt_roots d, dt_match d) of
        (True, Some roots, Some cb) \<Rightarrow>
          bind (initialize_loop fuel (env_of d roots cb) (subsystems_of (env_of d roots cb)) (dt_trav d, 0))
            (\<lambda>((t, rc), e). Ret ((d\<lparr>dt_trav := t\<rparr>, rc), e))
      | _ \<Rightarrow> Ret ((d, -1), Some API_EINVAL))"

text \<open>
  \<open>run\<close> and \<open>remove\<close> ask the callback for its dominant subsystem before they check that there is a callback.
\<close>

definition traverser_run :: "sorter \<Rightarrow> nat \<Rightarrow> nat \<Rightarrow> dfu_traverser \<Rightarrow> jobspec \<Rightarrow> match_op \<Rightarrow> int \<Rightarrow> int \<Rightarrow> string \<Rightarrow>
    ((dfu_traverser \<times> jobspec \<times> int \<times> string) \<times> int \<times> api_errno option) outcome" where
  "traverser_run std_sort fuel rounds d js op jobid at0 ss =
     (case dt_match d of
        None \<Rightarrow> Undefined
      | Some cb \<Rightarrow> bind (defined (dom_subsystem (cb_data cb))) (\<lambda>dm.
          case (dt_has_graph d, dt_roots d) of
            (True, Some roots) \<Rightarrow>
              (case map_of roots dm of
                 None \<Rightarrow> Ret ((d, js, at0, ss), -1, Some API_EINVAL)
               | Some root \<Rightarrow>
                   if j_resources js = [] then Ret ((d, js, at0, ss), -1, Some API_EINVAL)
                   else
                     let env = env_of d roots cb;
                         x = exclusivity (dt_trav d) (j_resources js) root;
                         (rs, dfv) = prime_jobspec env (j_resources js) [];
                         js = js\<lparr>j_resources := rs\<rparr>
                     in bind (jobmeta_build (j_attributes js) True jobid at0) (\<lambda>meta.
                        bind (schedule std_sort fuel rounds env rs meta x op root dfv (dt_trav d)) (\<lambda>(t, meta, needs, rc).
                        if rc = 0 then
                          bind (update fuel env root meta needs x (t, ss)) (\<lambda>((t, ss), rc).
                          Ret ((d\<lparr>dt_trav := t\<rparr>, js, jm_at meta, ss), rc, None))
                        else Ret ((d\<lparr>dt_trav := t\<rparr>, js, at0, ss), rc, None))))
          | _ \<Rightarrow> Ret ((d, js, at0, ss), -1, Some API_EINVAL)))"

definition traverser_remove :: "nat \<Rightarrow> dfu_traverser \<Rightarrow> int \<Rightarrow> ((dfu_traverser \<times> int) \<times> api_errno option) outcome" where
  "traverser_remove fuel d jobid =
     (case dt_match d of
        None \<Rightarrow> Undefined
      | Some cb \<Rightarrow> bind (defined (dom_subsystem (cb_data cb))) (\<lambda>dm.
          case (dt_has_graph d, dt_roots d) of
            (True, Some roots) \<Rightarrow>
              (case map_of roots dm of
                 None \<Rightarrow> Ret ((d, -1), Some API_EINVAL)
               | Some root \<Rightarrow> bind (remove fuel (env_of d roots cb) root jobid (dt_trav d)) (\<lambda>(t, rc).
                   Ret ((d\<lparr>dt_trav := t\<rparr>, rc), None)))
          | _ \<Rightarrow> Ret ((d, -1), Some API_EINVAL)))"

end
