(* ===== verification/Traverser_Frame.thy ===== *)
theory Traverser_Frame
  imports Outcome_Rules Traverser Scoring_Laws
begin

text \<open>
  What matching may change: the colours of the vertices, the marks on the edges, the messages, the level
  counter of the callback, and null entries in the tables of subtree plans. Everything else of the graph stays, and colours only grow: a vertex that was
  visited stays visited.
\<close>

section \<open>The frame of matching\<close>

definition plan_in :: "(string \<times> planner option) list \<Rightarrow> string \<Rightarrow> planner option" where
  "plan_in m s = (case map_of m s of None \<Rightarrow> None | Some p \<Rightarrow> p)"

definition pool_frame :: "resource_pool \<Rightarrow> resource_pool \<Rightarrow> bool" where
  "pool_frame p q \<longleftrightarrow> q = p\<lparr>p_idata := (p_idata p)\<lparr>colors := colors (p_idata q), subplans := subplans (p_idata q)\<rparr>\<rparr> \<and>
     plan_in (subplans (p_idata q)) = plan_in (subplans (p_idata p))"

definition edge_frame :: "resource_relation \<Rightarrow> resource_relation \<Rightarrow> bool" where
  "edge_frame e f \<longleftrightarrow> f = e\<lparr>e_idata := (e_idata e)\<lparr>e_needs := e_needs (e_idata f),
     best_k_cnt := best_k_cnt (e_idata f), e_exclusive := e_exclusive (e_idata f)\<rparr>\<rparr>"

definition visited :: "string \<Rightarrow> trav \<Rightarrow> nat set" where
  "visited s t = {u. u < length (vertices (tr_graph t)) \<and>
     (color_of t u s = gray (tr_color_base t) \<or> color_of t u s = black (tr_color_base t))}"

definition quiet :: "string \<Rightarrow> trav \<Rightarrow> trav \<Rightarrow> bool" where
  "quiet dm t t' \<longleftrightarrow>
     list_all2 pool_frame (vertices (tr_graph t)) (vertices (tr_graph t')) \<and>
     list_all2 edge_frame (edges (tr_graph t)) (edges (tr_graph t')) \<and>
     tr_color_base t' = tr_color_base t \<and> tr_best_k_cnt t' = tr_best_k_cnt t \<and>
     tr_trav_level t' = tr_trav_level t \<and> visited dm t \<subseteq> visited dm t'"

lemma pool_frame_refl [simp]: "pool_frame p p"
  by (simp add: pool_frame_def)

lemma edge_frame_refl [simp]: "edge_frame e e"
  by (simp add: edge_frame_def)

lemma pool_frameD:
  assumes "pool_frame p q"
  shows "p_type q = p_type p" "p_id q = p_id p" "p_size q = p_size p" "p_name q = p_name p"
    "p_schedule q = p_schedule p" "plan_in (subplans (p_idata q)) = plan_in (subplans (p_idata p))"
    "job2span (p_idata q) = job2span (p_idata p)" "p_member_of (p_idata q) = p_member_of (p_idata p)"
  using assms unfolding pool_frame_def by (cases p; cases q; cases "p_idata p"; cases "p_idata q"; simp)+

lemma pool_frame_trans: "pool_frame p q \<Longrightarrow> pool_frame q r \<Longrightarrow> pool_frame p r"
  unfolding pool_frame_def
  by (cases p; cases q; cases r; cases "p_idata p"; cases "p_idata q"; cases "p_idata r") auto

lemma edge_frameD:
  assumes "edge_frame e f"
  shows "e_src f = e_src e" "e_tgt f = e_tgt e" "e_name f = e_name e" "e_member_of (e_idata f) = e_member_of (e_idata e)"
  using assms unfolding edge_frame_def by (cases e; cases f; cases "e_idata e"; cases "e_idata f"; simp)+

lemma edge_frame_trans: "edge_frame p q \<Longrightarrow> edge_frame q r \<Longrightarrow> edge_frame p r"
  unfolding edge_frame_def
  by (cases p; cases q; cases r; cases "e_idata p"; cases "e_idata q"; cases "e_idata r") auto

lemma list_all2_refl_frame [simp]: "list_all2 pool_frame ps ps" "list_all2 edge_frame es es"
  by (auto simp: list_all2_conv_all_nth)

lemma quiet_refl [simp]: "quiet dm t t"
  by (simp add: quiet_def)

lemma quiet_trans: "quiet dm t t' \<Longrightarrow> quiet dm t' t'' \<Longrightarrow> quiet dm t t''"
  unfolding quiet_def
  by (auto intro: list_all2_trans [of pool_frame pool_frame pool_frame, OF pool_frame_trans]
      list_all2_trans [of edge_frame edge_frame edge_frame, OF edge_frame_trans])


text \<open>The changes that matching makes, one by one.\<close>

lemma color_of_cong: "pool t u = pool t' u \<Longrightarrow> color_of t u s = color_of t' u s"
  by (simp add: color_of_def)

lemma quiet_same_graph:
  "tr_graph t' = tr_graph t \<Longrightarrow> tr_color_base t' = tr_color_base t \<Longrightarrow> tr_best_k_cnt t' = tr_best_k_cnt t \<Longrightarrow>
   tr_trav_level t' = tr_trav_level t \<Longrightarrow> quiet dm t t'"
  by (auto simp: quiet_def visited_def color_of_def pool_def)

lemma quiet_err_msg [simp]: "quiet dm t (err_msg s t)"
  by (rule quiet_same_graph) (simp_all add: err_msg_def)

lemma quiet_match_level [simp]: "quiet dm t (t\<lparr>tr_match_level := n\<rparr>)"
  by (rule quiet_same_graph) simp_all

lemma set_color_fields [simp]:
  "length (vertices (tr_graph (set_color u s c t))) = length (vertices (tr_graph t))"
  "edges (tr_graph (set_color u s c t)) = edges (tr_graph t)"
  "tr_color_base (set_color u s c t) = tr_color_base t" "tr_best_k_cnt (set_color u s c t) = tr_best_k_cnt t"
  "tr_trav_level (set_color u s c t) = tr_trav_level t" "tr_match_level (set_color u s c t) = tr_match_level t"
  by (simp_all add: set_color_def upd_pool_def upd_vertex_def)

lemma pool_upd_pool:
  "pool (upd_pool u f t) v = (if v = u \<and> u < length (vertices (tr_graph t)) then f (pool t u) else pool t v)"
  by (cases "u < length (vertices (tr_graph t))")
    (auto simp: pool_def upd_pool_def upd_vertex_def nth_list_update not_less list_update_beyond)

lemma edge_upd_edge:
  "edges (upd_edge i f g) ! j = (if j = i \<and> i < length (edges g) then f (edges g ! i) else edges g ! j)"
  by (cases "i < length (edges g)") (auto simp: upd_edge_def nth_list_update not_less list_update_beyond)

lemma color_of_set_color:
  "v < length (vertices (tr_graph t)) \<Longrightarrow>
   color_of (set_color u s c t) v s' = (if v = u \<and> s' = s then c else color_of t v s')"
  by (simp add: color_of_def set_color_def pool_upd_pool)

lemma pool_set_color: "pool_frame (pool t v) (pool (set_color u s c t) v)"
  by (simp add: set_color_def pool_upd_pool) (simp add: pool_frame_def)

lemma quiet_set_color:
  assumes "c = gray (tr_color_base t) \<or> c = black (tr_color_base t)"
  shows "quiet dm t (set_color u dm c t)"
  unfolding quiet_def using assms
  by (auto simp: visited_def color_of_set_color list_all2_conv_all_nth pool_set_color [unfolded pool_def]
      split: if_splits)

lemma visited_set_color:
  "c = gray (tr_color_base t) \<or> c = black (tr_color_base t) \<Longrightarrow> u < length (vertices (tr_graph t)) \<Longrightarrow>
   u \<in> visited dm (set_color u dm c t)"
  by (auto simp: visited_def color_of_set_color)

lemma quiet_upd_edge:
  assumes "\<And>e. edge_frame e (f e)"
  shows "quiet dm t (t\<lparr>tr_graph := upd_edge i f (tr_graph t)\<rparr>)"
proof -
  have "vertices (upd_edge i f g) = vertices g" "length (edges (upd_edge i f g)) = length (edges g)" for g
    by (simp_all add: upd_edge_def)
  with assms show ?thesis
    by (auto simp: quiet_def visited_def color_of_def pool_def list_all2_conv_all_nth edge_upd_edge)
qed

lemma quiet_mark:
  "quiet dm t (t\<lparr>tr_graph := upd_edge i (\<lambda>r. r\<lparr>e_idata := (e_idata r)\<lparr>e_needs := a, best_k_cnt := b, e_exclusive := c\<rparr>\<rparr>) (tr_graph t)\<rparr>)"
  by (rule quiet_upd_edge) (simp add: edge_frame_def)

lemma quiet_touch_subplan [simp]: "quiet dm t (touch_subplan u s t)"
proof -
  have "pool_frame (pool t v) (pool (touch_subplan u s t) v)" for v
    by (auto simp: touch_subplan_def pool_upd_pool pool_frame_def plan_in_def fun_eq_iff)
  moreover have "color_of (touch_subplan u s t) v s' = color_of t v s'" for v s'
    by (simp add: color_of_def touch_subplan_def pool_upd_pool)
  moreover have "length (vertices (tr_graph (touch_subplan u s t))) = length (vertices (tr_graph t))"
    "edges (tr_graph (touch_subplan u s t)) = edges (tr_graph t)" "tr_color_base (touch_subplan u s t) = tr_color_base t"
    "tr_best_k_cnt (touch_subplan u s t) = tr_best_k_cnt t" "tr_trav_level (touch_subplan u s t) = tr_trav_level t"
    by (simp_all add: touch_subplan_def upd_pool_def upd_vertex_def)
  ultimately show ?thesis by (simp add: quiet_def visited_def list_all2_conv_all_nth pool_def)
qed

section \<open>Matching is quiet\<close>

text \<open>Each operation keeps the relation to an earlier state.\<close>

lemmas quiet_steps = quiet_trans [OF _ quiet_mark] quiet_trans [OF _ quiet_err_msg] quiet_trans [OF _ quiet_match_level]
  quiet_trans [OF _ quiet_touch_subplan]

lemma wp_enforce_edges: "quiet dm t0 t \<Longrightarrow> wp d True (enforce_edges es t) (quiet dm t0)"
proof (induction es arbitrary: t)
  case (Cons e es)
  then show ?case using quiet_steps(1) by (cases "ee_edge e") auto
qed simp

lemma wp_enforce_groups: "quiet dm t0 t \<Longrightarrow> wp d True (enforce_groups s ty is (t, dfu)) (\<lambda>x. quiet dm t0 (fst (fst x)))"
proof (induction "is" arbitrary: t dfu)
  case (Cons i "is")
  obtain dfu' g where g: "api_at s ty i dfu = (dfu', g)" by fastforce
  show ?case
  proof (cases g)
    case (Some g)
    have "wp d True (enforce_edges (eg_edges g) t) (\<lambda>t. wp d True (enforce_groups s ty is (t, dfu')) (\<lambda>x. quiet dm t0 (fst (fst x))))"
      by (rule wp_mono [OF wp_enforce_edges [OF Cons.prems]]) (rule Cons.IH)
    with g Some Cons show ?thesis by simp
  qed (simp add: g Cons.prems)
qed simp

lemma wp_enforce_types: "quiet dm t0 t \<Longrightarrow> wp d True (enforce_types s tys (t, dfu)) (\<lambda>x. quiet dm t0 (fst (fst x)))"
proof (induction tys arbitrary: t dfu)
  case (Cons ty tys)
  obtain dfu' n where n: "api_best_i s ty dfu = (dfu', n)" by fastforce
  show ?case unfolding enforce_types.simps n prod.case wp_bind
    by (rule wp_mono [OF wp_enforce_groups [OF Cons.prems]]) (auto intro: Cons.IH)
qed simp

lemma wp_enforce: "quiet dm t0 t \<Longrightarrow> wp d True (enforce s (t, dfu)) (\<lambda>x. quiet dm t0 (fst (fst x)))"
  by (auto simp: enforce_def intro: wp_enforce_types split: prod.split)

lemma wp_enforce_all: "quiet dm t0 t \<Longrightarrow> wp d True (enforce_all env (t, dfu)) (\<lambda>x. quiet dm t0 (fst (fst x)))"
  unfolding enforce_all_def
proof (rule wp_each)
  fix s and st :: "(trav \<times> scoring_api) \<times> int"
  assume "quiet dm t0 (fst (fst st))"
  then show "wp d True (case st of (st, rc) \<Rightarrow> bind (enforce s st) (\<lambda>(st, r). Ret (st, rc + r)))
      (\<lambda>x. quiet dm t0 (fst (fst x)))"
    by (cases st; cases "fst st") (auto intro!: wp_mono [OF wp_enforce])
qed simp

lemma wp_resolve: "quiet dm t0 t \<Longrightarrow> wp d True (resolve env (t, dfu, p)) (\<lambda>x. quiet dm t0 (fst (fst x)))"
  by (auto simp: resolve_def intro!: wp_mono [OF wp_enforce_all])

lemma wp_by_avail: "quiet dm t0 t \<Longrightarrow> wp d True (by_avail meta u t) (\<lambda>x. quiet dm t0 (fst x))"
  by (auto simp: by_avail_def avail_during_0_def intro: quiet_steps split: option.split)

lemma wp_by_excl: "quiet dm t0 t \<Longrightarrow> wp d True (by_excl meta u r t) (\<lambda>x. quiet dm t0 (fst x))"
  by (auto simp: by_excl_def avail_during_by_type_def intro: quiet_steps split: option.split)

lemma quiet_by_subplan: "quiet dm t0 t \<Longrightarrow> quiet dm t0 (fst (by_subplan meta s u r t))"
  by (auto simp: by_subplan_def Let_def intro: quiet_steps split: option.split prod.split)

lemma wp_prune_each: "quiet dm t0 t \<Longrightarrow> wp d True (prune_each meta s u rs t) (\<lambda>x. quiet dm t0 (fst x))"
proof (induction rs arbitrary: t)
  case (Cons r rs)
  show ?case
  proof (cases "p_type (pool t u) = r_type r")
    case True
    have "wp d True (by_excl meta u r t) (\<lambda>(t, rc). wp d True
        (if rc = -1 then Ret (t, rc)
         else case by_subplan meta s u r t of (t, rc) \<Rightarrow> if rc = -1 then Ret (t, rc) else prune_each meta s u rs t)
        (\<lambda>x. quiet dm t0 (fst x)))"
    proof (rule wp_mono [OF wp_by_excl [OF Cons.prems]])
      fix x :: "trav \<times> int" assume "quiet dm t0 (fst x)"
      moreover obtain t' rc where "x = (t', rc)" by fastforce
      moreover obtain t'' rc' where "by_subplan meta s u r t' = (t'', rc')" by fastforce
      ultimately show "case x of (t, rc) \<Rightarrow> wp d True
        (if rc = -1 then Ret (t, rc)
         else case by_subplan meta s u r t of (t, rc) \<Rightarrow> if rc = -1 then Ret (t, rc) else prune_each meta s u rs t)
        (\<lambda>x. quiet dm t0 (fst x))"
        using quiet_by_subplan [of dm t0 t' meta s u r] Cons.IH [of t''] by simp
    qed
    with True show ?thesis by (simp add: case_prod_beta')
  qed (simp add: Cons)
qed simp

lemma wp_prune: "quiet dm t0 t \<Longrightarrow> wp d True (prune meta s u rs t) (\<lambda>x. quiet dm t0 (fst x))"
  unfolding prune_def wp_bind
  by (rule wp_mono [OF wp_by_avail]) (auto intro: wp_prune_each)

text \<open>A visit of a vertex is quiet when it keeps the relation to every earlier state.\<close>

definition quiet_visit :: "bool \<Rightarrow> string \<Rightarrow> visit \<Rightarrow> bool" where
  "quiet_visit d dm visit \<longleftrightarrow>
     (\<forall>t0 t u x p. quiet dm t0 t \<longrightarrow> wp d True (visit u x (t, p)) (\<lambda>r. quiet dm t0 (fst (fst r))))"

lemma quiet_visitD:
  "quiet_visit d dm visit \<Longrightarrow> quiet dm t0 t \<Longrightarrow> wp d True (visit u x (t, p)) (\<lambda>r. quiet dm t0 (fst (fst r)))"
  by (simp add: quiet_visit_def)

lemma score_edge_fst [simp]: "fst (score_edge e x s (t, dfu)) = t"
  by (simp add: score_edge_def Let_def)

lemma wp_explore:
  assumes "quiet_visit d dm visit" and "quiet dm t0 t"
  shows "wp d True (explore env u s excl visit (t, dfu)) (\<lambda>r. quiet dm t0 (fst (fst r)))"
  unfolding explore_def
proof (rule wp_each)
  fix e and st :: "(trav \<times> scoring_api) \<times> int"
  obtain t' dfu' n where st: "st = ((t', dfu'), n)" by (cases st) auto
  assume "quiet dm t0 (fst (fst st))"
  with st have t': "quiet dm t0 t'" by simp
  show "wp d True (explore_edge s excl visit e st) (\<lambda>r. quiet dm t0 (fst (fst r)))"
    unfolding st explore_edge_def prod.case
    by (cases "\<not> in_subsystem t' e s \<or> stop_explore t' e s")
      (auto simp: t' intro!: wp_mono [OF quiet_visitD [OF assms(1) t']])
qed (simp add: assms(2))

lemma wp_vertex_avail: "quiet dm t0 t \<Longrightarrow> wp d True (vertex_avail msg meta u t) (\<lambda>x. quiet dm t0 (fst x))"
  by (auto simp: vertex_avail_def avail_during_0_def intro: quiet_steps split: option.split)

lemma wp_aux_finish:
  "quiet dm t0 t \<Longrightarrow> wp d True (aux_finish env meta u excl (t, upv, p)) (\<lambda>r. quiet dm t0 (fst (fst r)))"
  unfolding aux_finish_def prod.case wp_bind
  by (rule wp_mono [OF wp_vertex_avail])
    (auto split: option.split intro!: wp_mono [OF wp_resolve] quiet_steps)

lemma quiet_aux_upv: "quiet_visit True dm (aux_upv fuel env meta s resources)"
proof (induction fuel)
  case (Suc fuel)
  show ?case unfolding quiet_visit_def aux_upv.simps Let_def
    by (intro allI impI wp_guard [OF wp_prune]; assumption?)
      (auto intro!: wp_bindI [OF wp_explore [OF Suc.IH]] wp_aux_finish quiet_steps simp del: wp_bind)
qed (simp add: quiet_visit_def)

section \<open>The depth-first visit is quiet\<close>

lemma wp_dom_exp:
  assumes "quiet_visit d dm dfv" and "\<And>s. s \<noteq> dom_of env \<Longrightarrow> quiet_visit d dm (upv s)" and "quiet dm t0 t"
  shows "wp d True (dom_exp env u x dfv upv (t, dfu)) (\<lambda>r. quiet dm t0 (fst (fst r)))"
  unfolding dom_exp_def
proof (rule wp_each)
  fix s and st :: "(trav \<times> scoring_api) \<times> int"
  obtain t' dfu' n where st: "st = ((t', dfu'), n)" by (cases st) auto
  assume "quiet dm t0 (fst (fst st))"
  then show "wp d True (case st of (st, rc) \<Rightarrow> explore env u s x (if s = dom_of env then dfv else upv s) st)
      (\<lambda>r. quiet dm t0 (fst (fst r)))"
    using assms(1,2) by (auto simp: st intro: wp_explore)
qed (simp add: assms(3))

lemma wp_dom_slot:
  assumes "quiet_visit True dm dfv" and "quiet dm t0 t"
  shows "wp True True (dom_slot env u shape dfv (t, dfu)) (\<lambda>r. quiet dm t0 (fst (fst r)))"
  unfolding dom_slot_def prod.case
  by (rule wp_bindI [OF wp_explore [OF assms]])
    (auto intro!: wp_bindI [OF wp_trivial] simp del: wp_bind)

lemma wp_dom_finish:
  "quiet dm t0 t \<Longrightarrow> wp True True (dom_finish env meta rs u x (t, dfu, p)) (\<lambda>r. quiet dm t0 (fst (fst r)))"
  unfolding dom_finish_def prod.case
  by (rule wp_bindI [OF wp_vertex_avail], assumption)
    (auto intro!: wp_bindI [OF wp_trivial [of "cb_dom_finish_vtx cb a b c e" for cb a b c e]]
        wp_bindI [OF wp_resolve] quiet_steps
      simp: Let_def simp del: wp_bind split: option.split)

lemma quiet_dom_dfv: "quiet_visit True (dom_of env) (dom_dfv fuel env meta resources)"
proof (induction fuel arbitrary: resources)
  case (Suc fuel)
  have body: "wp True True
      (bind (if c then dom_slot env u nxt (dom_dfv fuel env meta nxt) (t, scoring_new)
             else dom_exp env u x_in (dom_dfv fuel env meta nxt) (\<lambda>s. aux_upv fuel env meta s nxt) (t, scoring_new))
        (\<lambda>((t, dfu), _). dom_finish env meta resources u x_in (set_color u (dom_of env) (black (tr_color_base t)) t, dfu, p)))
      (\<lambda>r. quiet (dom_of env) t0 (fst (fst r)))" if "quiet (dom_of env) t0 t" for c nxt x_in t0 t u and p :: scoring_api
    using that
    by (intro wp_bindI [where P = "\<lambda>r. quiet (dom_of env) t0 (fst (fst r))"])
      (auto intro!: wp_dom_slot wp_dom_exp wp_dom_finish Suc.IH quiet_aux_upv quiet_trans [OF _ quiet_set_color] simp del: wp_bind)
  show ?case unfolding quiet_visit_def dom_dfv.simps Let_def
    by (auto split: prod.split simp del: wp_bind
        intro!: wp_guard [OF wp_prune] body quiet_trans [OF _ quiet_set_color] quiet_steps)
qed (simp add: quiet_visit_def)

end
