(* ===== verification/Match_Policies_Laws.thy ===== *)
theory Match_Policies_Laws
  imports Outcome_Rules Match_Policies Scoring_Laws Matcher_Data_Properties
begin

text \<open>
  The contract that the traverser relies on when it calls back the matcher, as the locale \<open>match_policy\<close>, and
  its interpretation by the three policies.
\<close>

section \<open>Requests whose counts end\<close>

fun counts_end :: "resource \<Rightarrow> bool" where
  "counts_end (Resource ty cnt un label ident excl wth ud) =
     ((\<forall>qc. select_count cnt qc \<noteq> None) \<and> (\<forall>r\<in>set wth. counts_end r))"

lemma counts_end_count: "counts_end r \<Longrightarrow> \<exists>n. select_count (r_count r) qc = Some n"
  by (cases r) auto

lemma counts_end_with: "counts_end r \<Longrightarrow> c \<in> set (r_with r) \<Longrightarrow> counts_end c"
  by (cases r) auto

lemma select_count_ends:
  assumes "progress c" and "1 \<le> c_min c" and "c_operand c \<le> UINT_MAX" and "count_step c (c_max c) \<le> UINT_MAX"
  shows "select_count c qc \<noteq> None"
proof (cases "c_min c \<le> c_max c \<and> c_min c \<le> qc")
  case True
  then have "count_step c (min qc (c_max c)) \<le> count_step c (c_max c)"
    using assms(1,2) by (intro count_step_mono) auto
  with assms have "exact_below c (min qc (c_max c))" by (simp add: exact_below_def)
  with select_count_last [of c qc] True assms(1) show ?thesis by auto
qed (auto simp: select_count_def)

section \<open>The contract\<close>

text \<open>
  For requests whose counts end, every callback returns (or is undefined). It answers 0 exactly with a
  match, and a vertex that matches scores one more than \<open>MATCH_MET\<close> and its id. It leaves the count of
  available units alone.
\<close>

locale match_policy =
  fixes finish_graph :: "sorter \<Rightarrow> string \<Rightarrow> resource list \<Rightarrow> scoring_api \<Rightarrow> (scoring_api \<times> int) outcome"
    and finish_slot :: "sorter \<Rightarrow> string \<Rightarrow> scoring_api \<Rightarrow> (scoring_api \<times> int) outcome"
    and finish_vtx :: "sorter \<Rightarrow> resource_pool \<Rightarrow> string \<Rightarrow> resource list \<Rightarrow> int \<times> scoring_api \<Rightarrow>
      ((int \<times> scoring_api) \<times> int) outcome"
  assumes graph_returns: "\<forall>r\<in>set rs. counts_end r \<Longrightarrow>
      wp False True (finish_graph std_sort s rs d) (\<lambda>(d', rc). rc = (if m_overall_score d' = MATCH_MET then 0 else -1))"
    and slot_returns: "wp False True (finish_slot std_sort s d) (\<lambda>(d', rc). rc = 0)"
    and vtx_returns: "\<forall>r\<in>set rs. counts_end r \<Longrightarrow>
      wp False True (finish_vtx std_sort p s rs (level, d)) (\<lambda>((level', d'), rc). level' = level - 1 \<and>
        ((rc = 0 \<and> m_overall_score d' = i64 (MATCH_MET + p_id p + 1)) \<or> (rc = -1 \<and> m_overall_score d' = MATCH_UNMET)))"
begin

lemma graph_ends: "\<forall>r\<in>set rs. counts_end r \<Longrightarrow> wp False True (finish_graph std_sort s rs d) (\<lambda>_. True)"
  by (rule wp_mono [OF graph_returns]) auto

lemma vtx_ends: "\<forall>r\<in>set rs. counts_end r \<Longrightarrow> wp False True (finish_vtx std_sort p s rs ld) (\<lambda>_. True)"
  by (cases ld) (auto intro!: wp_mono [OF vtx_returns])

text \<open>A vertex that matches has a score above the cut line, so its units are qualified.\<close>

lemma vtx_score_qualifies:
  assumes "\<forall>r\<in>set rs. counts_end r" and "finish_vtx std_sort p s rs (level, d) = Ret ((level', d'), 0)"
    and "0 \<le> p_id p + 1" and "p_id p < INT64_MAX - 1"
  shows "MATCH_UNMET < m_overall_score d'"
proof -
  from wp_Ret [OF vtx_returns [OF assms(1)] assms(2)] have "m_overall_score d' = i64 (MATCH_MET + p_id p + 1)" by simp
  moreover have "in_i64 (MATCH_MET + p_id p + 1)" using assms(3,4) by (simp add: in_i64_def MATCH_MET_def)
  ultimately show ?thesis using assms(3) by (simp add: MATCH_MET_def MATCH_UNMET_def)
qed

end

text \<open>A callback object of one of the policies.\<close>

definition policy_cb :: "match_cb \<Rightarrow> bool" where
  "policy_cb cb \<longleftrightarrow> (\<exists>g sl v std_sort. match_policy g sl v \<and>
     cb_dom_finish_graph cb = g std_sort \<and> cb_dom_finish_slot cb = sl std_sort \<and> cb_dom_finish_vtx cb = v std_sort)"

lemma policy_cb_returns:
  assumes "policy_cb cb"
  shows "\<forall>r\<in>set rs. counts_end r \<Longrightarrow> wp False True (cb_dom_finish_graph cb s rs d) (\<lambda>_. True)"
    and "wp False True (cb_dom_finish_slot cb s d) (\<lambda>(d', rc). rc = 0)"
    and "\<forall>r\<in>set rs. counts_end r \<Longrightarrow> wp False True (cb_dom_finish_vtx cb p s rs ld) (\<lambda>_. True)"
  using assms match_policy.graph_ends match_policy.slot_returns match_policy.vtx_ends
  unfolding policy_cb_def by metis+

section \<open>The policies keep the contract\<close>

lemma wp_choose_for:
  "\<forall>r\<in>set rs. counts_end r \<Longrightarrow>
   wp False True (choose_for std_sort order gather s rs st) (\<lambda>(_, score). score = MATCH_MET \<or> score = MATCH_UNMET)"
proof (induction rs arbitrary: st)
  case (Cons r rs)
  obtain dfu iv where st: "st = (dfu, iv)" by fastforce
  obtain n where n: "select_count (r_count r) (m_qual_count (res_evals s (r_type r) dfu)) = Some n"
    using Cons.prems counts_end_count [of r] by force
  show ?case
    using Cons n by (auto simp: st api_qualified_count_def split: prod.split option.split)
qed simp

lemma wp_finish_graph:
  "\<forall>r\<in>set rs. counts_end r \<Longrightarrow>
   wp False True (finish_graph std_sort order gather s rs d) (\<lambda>(d', rc). rc = (if m_overall_score d' = MATCH_MET then 0 else -1))"
  unfolding finish_graph_def
  by (rule wp_bindI [OF wp_choose_for]) (auto simp: api_set_overall_score_def)

lemma wp_finish_vtx:
  assumes "\<forall>r\<in>set rs. counts_end r"
  shows "wp False True (finish_vtx std_sort order gather p s rs (level, d)) (\<lambda>((level', d'), rc). level' = level - 1 \<and>
      ((rc = 0 \<and> m_overall_score d' = i64 (MATCH_MET + p_id p + 1)) \<or> (rc = -1 \<and> m_overall_score d' = MATCH_UNMET)))"
  unfolding finish_vtx_def prod.case
proof (rule wp_bindI [where P = "\<lambda>(_, score). score = MATCH_MET \<or> score = MATCH_UNMET"])
  show "wp False True (each (finish_children std_sort order gather s (p_type p)) rs ((d, []), MATCH_MET))
      (\<lambda>(_, score). score = MATCH_MET \<or> score = MATCH_UNMET)"
  proof (rule wp_each)
    fix r and st :: "(scoring_api \<times> interval_set) \<times> int"
    assume r: "r \<in> set rs" and st: "case st of (_, score) \<Rightarrow> score = MATCH_MET \<or> score = MATCH_UNMET"
    with assms have "\<forall>c\<in>set (r_with r). counts_end c" using counts_end_with by blast
    then show "wp False True (finish_children std_sort order gather s (p_type p) r st)
        (\<lambda>(_, score). score = MATCH_MET \<or> score = MATCH_UNMET)"
      unfolding finish_children_def using st
      by (auto simp del: wp_bind intro!: wp_bindI [OF wp_choose_for])
  qed simp
qed (auto simp: Let_def api_set_overall_score_def MATCH_MET_def MATCH_UNMET_def)

lemma wp_choose_all:
  "wp False True (each (\<lambda>ty dfu. bind (defined (choose_accum_all std_sort s ty fold_greater dfu)) (\<lambda>(dfu, _). Ret dfu)) types d) (\<lambda>_. True)"
  by (rule wp_each) (auto split: option.split)

interpretation hf: match_policy high_first_finish_graph high_first_finish_slot high_first_finish_vtx
proof
  show "wp False True (high_first_finish_slot std_sort s d) (\<lambda>(d', rc). rc = 0)" for std_sort s d
    by (auto simp: high_first_finish_slot_def split: prod.split intro!: wp_mono [OF wp_choose_all])
qed (auto simp: high_first_finish_graph_def high_first_finish_vtx_def simp del: wp_bind
      intro: wp_finish_graph [simplified] wp_finish_vtx [simplified])

interpretation lf: match_policy low_first_finish_graph "\<lambda>_. base_dom_finish_slot" low_first_finish_vtx
  by unfold_locales (auto simp: low_first_finish_graph_def low_first_finish_vtx_def base_dom_finish_slot_def
      intro: wp_finish_graph [simplified] wp_finish_vtx [simplified])

interpretation gi: match_policy "\<lambda>std_sort. interval_first_finish_graph std_sort icl_greater" "\<lambda>_. base_dom_finish_slot"
    "\<lambda>std_sort. interval_first_finish_vtx std_sort icl_greater" for icl_greater
  by unfold_locales (auto simp: interval_first_finish_graph_def interval_first_finish_vtx_def base_dom_finish_slot_def
      intro: wp_finish_graph [simplified] wp_finish_vtx [simplified])

lemma policies_cb: "policy_cb (high_first std_sort m)" "policy_cb (low_first std_sort m)"
    "policy_cb (greater_interval_first std_sort icl_greater m)"
  unfolding policy_cb_def
  using hf.match_policy_axioms lf.match_policy_axioms gi.match_policy_axioms [of icl_greater]
  by (force simp: high_first_def low_first_def greater_interval_first_def)+

end
