(* ===== verification/Traverser_Termination.thy ===== *)
theory Traverser_Termination
  imports Traverser_Frame Match_Policies_Laws
begin

text \<open>
  The recursions over the graph end: a vertex is coloured before its out-edges are explored and is not
  entered again, so a fuel of one more than the number of vertices that are not visited is enough.
\<close>

section \<open>The measure\<close>

definition unvisited :: "string \<Rightarrow> trav \<Rightarrow> nat set" where
  "unvisited dm t = {..<length (vertices (tr_graph t))} - visited dm t"

definition targets_ok :: "resource_graph \<Rightarrow> bool" where
  "targets_ok g \<longleftrightarrow> (\<forall>e<length (edges g). e_tgt (edges g ! e) < length (vertices g))"

lemma finite_unvisited [simp]: "finite (unvisited dm t)"
  by (simp add: unvisited_def)

lemma quiet_lengths:
  "quiet dm t t' \<Longrightarrow> length (vertices (tr_graph t')) = length (vertices (tr_graph t)) \<and>
     length (edges (tr_graph t')) = length (edges (tr_graph t))"
  by (auto simp: quiet_def dest: list_all2_lengthD)

lemma quiet_unvisited: "quiet dm t t' \<Longrightarrow> unvisited dm t' \<subseteq> unvisited dm t"
  using quiet_lengths [of dm t t'] by (auto simp: unvisited_def quiet_def)

lemma quiet_target: "quiet dm t t' \<Longrightarrow> e < length (edges (tr_graph t)) \<Longrightarrow> target (tr_graph t') e = target (tr_graph t) e"
  by (auto simp: quiet_def target_def dest!: list_all2_nthD [where P = edge_frame] dest: edge_frameD)

lemma quiet_targets_ok: "quiet dm t t' \<Longrightarrow> targets_ok (tr_graph t) \<Longrightarrow> targets_ok (tr_graph t')"
  using quiet_target quiet_lengths unfolding targets_ok_def target_def by metis

lemma out_edges_less: "e \<in> set (out_edges sel g u) \<Longrightarrow> e < length (edges g)"
  by (auto simp: out_edges_def out_edges_all_def)

lemma not_stopped_unvisited:
  "\<not> stop_explore t e dm \<Longrightarrow> targets_ok (tr_graph t) \<Longrightarrow> e < length (edges (tr_graph t)) \<Longrightarrow>
   target (tr_graph t) e \<in> unvisited dm t"
  by (auto simp: stop_explore_def Let_def unvisited_def visited_def targets_ok_def target_def)

section \<open>Exploring\<close>

text \<open>
  A visit ends from a state whose vertices not yet visited, other than the vertex itself, are fewer than
  \<open>n\<close>.
\<close>

definition ending_visit :: "nat \<Rightarrow> string \<Rightarrow> visit \<Rightarrow> bool" where
  "ending_visit n dm visit \<longleftrightarrow>
     (\<forall>t u x p. targets_ok (tr_graph t) \<longrightarrow> u < length (vertices (tr_graph t)) \<longrightarrow>
        card (unvisited dm t - {u}) < n \<longrightarrow> wp False True (visit u x (t, p)) (\<lambda>_. True))"

lemma explore_ends:
  assumes "ending_visit n dm visit" and "quiet_visit True dm visit" and "targets_ok (tr_graph t)"
    and "card (unvisited dm t) \<le> n"
  shows "wp False True (explore env u dm excl visit (t, dfu)) (\<lambda>r. quiet dm t (fst (fst r)))"
  unfolding explore_def fst_conv
proof (rule wp_each)
  fix e and st :: "(trav \<times> scoring_api) \<times> int"
  assume e: "e \<in> set (out_edges (te_sel env) (tr_graph t) u)"
  obtain t' dfu' k where st: "st = ((t', dfu'), k)" by (cases st) auto
  assume "quiet dm t (fst (fst st))"
  then have q: "quiet dm t t'" by (simp add: st)
  note e' = out_edges_less [OF e]
  show "wp False True (explore_edge dm excl visit e st) (\<lambda>r. quiet dm t (fst (fst r)))"
  proof (cases "\<not> in_subsystem t' e dm \<or> stop_explore t' e dm")
    case False
    let ?v = "target (tr_graph t') e"
    have ok: "targets_ok (tr_graph t')" using quiet_targets_ok [OF q assms(3)] .
    from False e' quiet_lengths [OF q] have v: "?v \<in> unvisited dm t'"
      by (intro not_stopped_unvisited ok) auto
    have "card (unvisited dm t' - {?v}) < card (unvisited dm t')"
      using v by (intro card_Diff1_less) auto
    also have "\<dots> \<le> card (unvisited dm t)" using quiet_unvisited [OF q] by (intro card_mono) auto
    finally have c: "card (unvisited dm t' - {?v}) < n" using assms(4) by simp
    have "wp False True (visit ?v excl (t', dfu')) (\<lambda>r. True \<and> quiet dm t (fst (fst r)))"
      using assms(1) ok v c quiet_visitD [OF assms(2) q]
      by (intro wp_conj) (auto simp: ending_visit_def unvisited_def)
    with False show ?thesis by (auto simp: st explore_edge_def elim: wp_mono)
  qed (auto simp: st explore_edge_def q)
qed simp

lemma dom_exp_ends:
  assumes "subsystems_of env = [dom_of env]" and "ending_visit n (dom_of env) dfv" and "quiet_visit True (dom_of env) dfv"
    and "targets_ok (tr_graph t)" and "card (unvisited (dom_of env) t) \<le> n"
  shows "wp False True (dom_exp env u x dfv upv (t, dfu)) (\<lambda>r. quiet (dom_of env) t (fst (fst r)))"
  using explore_ends [OF assms(2-5)] by (simp add: dom_exp_def assms(1))

lemma cnt_slot_loop_ends:
  "\<forall>r\<in>set rs. counts_end r \<Longrightarrow> wp False True (cnt_slot_loop s rs st) (\<lambda>_. True)"
proof (induction rs arbitrary: st)
  case (Cons r rs)
  obtain dfu q where st: "st = (dfu, q)" by fastforce
  obtain n where "select_count (r_count r) (m_qual_count (res_evals s (r_type r) dfu)) = Some n"
    using Cons.prems counts_end_count by (meson list.set_intros(1))
  with Cons show ?case by (auto simp: st api_qualified_count_def Let_def)
qed simp

lemma take_units_ends: "wp False True (take_units fuel s ty n j st) (\<lambda>_. True)"
proof (induction fuel arbitrary: j st)
  case (Suc fuel)
  obtain d g sc where "st = (d, g, sc)" by (cases st) auto
  then show ?case by (auto simp: Suc.IH split: prod.split option.split list.split)
qed simp

lemma fill_slots_ends:
  "\<forall>r\<in>set rs. counts_end r \<Longrightarrow> wp False True (fill_slots n s rs st) (\<lambda>_. True)"
proof (induction n arbitrary: st)
  case (Suc n)
  obtain ds d where st: "st = (ds, d)" by fastforce
  have "wp False True (slot_elem s r x) (\<lambda>_. True)" if "r \<in> set rs" for r x
  proof -
    obtain d g sc where x: "x = (d, g, sc)" by (cases x) auto
    from Suc.prems that have "counts_end r" by blast
    from counts_end_count [OF this] obtain k where
      "select_count (r_count r) (m_qual_count (res_evals s (r_type r) d)) = Some k" ..
    then show ?thesis using take_units_ends by (auto simp: x slot_elem_def api_qualified_count_def)
  qed
  then show ?case unfolding st fill_slots.simps
    by (intro wp_bindI [OF wp_each [where P = "\<lambda>_. True"]]) (auto simp: Suc simp del: wp_bind)
qed simp

lemma dom_slot_ends:
  assumes "policy_cb (te_match env)" and "\<forall>r\<in>set rs. counts_end r" and "ending_visit n (dom_of env) dfv"
    and "quiet_visit True (dom_of env) dfv" and "targets_ok (tr_graph t)" and "card (unvisited (dom_of env) t) \<le> n"
  shows "wp False True (dom_slot env u rs dfv (t, dfu)) (\<lambda>r. quiet (dom_of env) t (fst (fst r)))"
  unfolding dom_slot_def prod.case
  by (rule wp_bindI [OF explore_ends [OF assms(3-6)]])
    (auto intro!: wp_bindI [OF policy_cb_returns(2) [OF assms(1)]] wp_bindI [OF cnt_slot_loop_ends [OF assms(2)]]
      wp_bindI [OF fill_slots_ends [OF assms(2)]] simp: cnt_slot_def simp del: wp_bind)

lemma dom_finish_ends:
  "policy_cb (te_match env) \<Longrightarrow> \<forall>r\<in>set rs. counts_end r \<Longrightarrow>
   wp False True (dom_finish env meta rs u x (t, dfu, p)) (\<lambda>_. True)"
  unfolding dom_finish_def prod.case
  by (rule wp_bindI [OF wp_vertex_avail [OF quiet_refl]])
    (auto intro!: wp_bindI [OF policy_cb_returns(3)] wp_bindI [OF wp_resolve [OF quiet_refl]]
      simp: Let_def simp del: wp_bind split: option.split)

section \<open>The depth-first visit\<close>

lemma test_match_counts_end:
  assumes "\<forall>r\<in>set rs. counts_end r" and "test_match env t u rs = (sm, nxt)"
  shows "\<forall>r\<in>set nxt. counts_end r"
proof -
  have "\<forall>r\<in>set rs. counts_end r \<Longrightarrow> match_loop ty rs = (sl, ma) \<Longrightarrow>
      (\<forall>r. sl = Some r \<longrightarrow> counts_end r) \<and> (\<forall>r. ma = Some r \<longrightarrow> counts_end r)" for ty sl ma
  proof (induction rs)
    case (Cons r rs)
    have "fold (\<lambda>c slot. if r_type c = ''slot'' then Some c else slot) cs acc = Some x \<Longrightarrow>
        x \<in> set cs \<or> acc = Some x" for cs acc x
      by (induction cs arbitrary: acc) (auto split: if_splits)
    then show ?case using Cons counts_end_with [of r] by (fastforce split: if_splits)
  qed simp
  with assms show ?thesis
    by (fastforce simp: test_match_def slot_match_def dest: counts_end_with split: prod.splits option.splits if_splits)
qed

lemma dom_dfv_ends:
  assumes "subsystems_of env = [dom_of env]" and "policy_cb (te_match env)"
  shows "\<forall>r\<in>set rs. counts_end r \<Longrightarrow> ending_visit fuel (dom_of env) (dom_dfv fuel env meta rs)"
proof (induction fuel arbitrary: rs)
  case (Suc fuel)
  let ?dm = "dom_of env"
  have "wp False True (dom_dfv (Suc fuel) env meta rs u x (t, p)) (\<lambda>_. True)"
    if ok: "targets_ok (tr_graph t)" and u: "u < length (vertices (tr_graph t))" and c: "card (unvisited ?dm t - {u}) < Suc fuel"
    for t u x and p :: scoring_api
  proof -
    obtain sm nxt where m: "test_match env t u rs = (sm, nxt)" by fastforce
    note nxt = test_match_counts_end [OF Suc.prems m]
    have body: "wp False True (bind (if sm = SLOT_MATCH then dom_slot env u nxt (dom_dfv fuel env meta nxt) (t2, scoring_new)
             else dom_exp env u x_in (dom_dfv fuel env meta nxt) (\<lambda>s. aux_upv fuel env meta s nxt) (t2, scoring_new))
        (\<lambda>((t, dfu), _). dom_finish env meta rs u x_in (set_color u ?dm (black (tr_color_base t)) t, dfu, p))) (\<lambda>_. True)"
      if q: "quiet ?dm t t1" and t2: "t2 = set_color u ?dm (gray (tr_color_base t1)) t1" for t1 t2 x_in
    proof -
      have q2: "quiet ?dm t t2" unfolding t2 by (rule quiet_trans [OF q quiet_set_color]) simp
      have ok2: "targets_ok (tr_graph t2)" using quiet_targets_ok [OF q2 ok] .
      have "u \<in> visited ?dm t2" unfolding t2
        using u quiet_lengths [OF q] by (intro visited_set_color) auto
      then have "unvisited ?dm t2 \<subseteq> unvisited ?dm t - {u}"
        using quiet_unvisited [OF q2] by (auto simp: unvisited_def)
      then have "card (unvisited ?dm t2) \<le> card (unvisited ?dm t - {u})" by (intro card_mono) auto
      with c have le: "card (unvisited ?dm t2) \<le> fuel" by simp
      note sub = Suc.IH [OF nxt] quiet_dom_dfv [of env fuel meta nxt] ok2 le
      show ?thesis
        by (rule wp_bindI [where P = "\<lambda>_. True"])
          (auto intro!: wp_mono [OF dom_slot_ends [OF assms(2) nxt sub]] wp_mono [OF dom_exp_ends [OF assms(1) sub]]
            dom_finish_ends [OF assms(2) Suc.prems] simp del: wp_bind)
    qed
    show ?thesis unfolding dom_dfv.simps Let_def m prod.case
      by (rule wp_guard [OF wp_prune [OF quiet_refl [of ?dm t]]], rule TrueI)
        (rule body [OF quiet_trans [OF _ quiet_match_level] refl])
  qed
  then show ?case by (simp add: ending_visit_def del: dom_dfv.simps)
qed (simp add: ending_visit_def)

section \<open>Select\<close>

lemma wp_root_needs: "\<forall>r\<in>set rs. counts_end r \<Longrightarrow> wp False True (root_needs ty qc rs n) (\<lambda>_. True)"
proof (induction rs arbitrary: n)
  case (Cons r rs)
  from Cons.prems have "counts_end r" by simp
  from counts_end_count [OF this] obtain k where "select_count (r_count r) qc = Some k" ..
  with Cons show ?case by auto
qed simp

lemma wp_resolve_types: "wp d True (resolve_types std_sort s tys dfu) (\<lambda>_. True)"
  by (induction tys arbitrary: dfu) (auto split: prod.split option.split)

lemma wp_resolve_subsystems: "wp d True (resolve_subsystems std_sort ss dfu) (\<lambda>_. True)"
  by (induction ss arbitrary: dfu) (auto split: prod.split intro!: wp_mono [OF wp_resolve_types])

lemma wp_resolve_graph:
  assumes "policy_cb (te_match env)" and "\<forall>r\<in>set rs. counts_end r" and "quiet dm t0 t"
  shows "wp False True (resolve_graph std_sort env root rs n0 (t, dfu)) (\<lambda>r. quiet dm t0 (fst r))"
  unfolding resolve_graph_def prod.case using assms(3)
  by (auto intro!: wp_bindI [OF policy_cb_returns(1) [OF assms(1,2)]] wp_bindI [OF wp_root_needs [OF assms(2)]]
      wp_bindI [OF wp_resolve_subsystems] wp_bindI [OF wp_enforce_all [OF assms(3)]] simp del: wp_bind)

lemma quiet_resolve_graph:
  assumes "quiet dm t0 t"
  shows "wp True True (resolve_graph std_sort env root rs n0 (t, dfu)) (\<lambda>r. quiet dm t0 (fst r))"
  unfolding resolve_graph_def prod.case using assms
  by (auto intro!: wp_bindI [OF wp_trivial [of "cb_dom_finish_graph cb a b c" for cb a b c]]
      wp_bindI [OF wp_trivial [of "root_needs a b c e" for a b c e]]
      wp_bindI [OF wp_resolve_subsystems] wp_bindI [OF wp_enforce_all [OF assms]] simp del: wp_bind)

lemma quiet_select:
  "wp True True (select std_sort fuel env rs root meta excl n0 t) (\<lambda>r. quiet (dom_of env) (tick t) (fst r))"
  unfolding select_def
  by (rule wp_bindI [OF quiet_visitD [OF quiet_dom_dfv quiet_refl]])
    (auto simp: Let_def simp del: wp_bind intro!: quiet_resolve_graph)

lemma tick_graph [simp]: "tr_graph (tick t) = tr_graph t"
  by (simp add: tick_def)

lemma select_ends:
  assumes "subsystems_of env = [dom_of env]" and "policy_cb (te_match env)" and "\<forall>r\<in>set rs. counts_end r"
    and "targets_ok (tr_graph t)" and "root < length (vertices (tr_graph t))" and "length (vertices (tr_graph t)) \<le> fuel"
  shows "wp False True (select std_sort fuel env rs root meta excl n0 t) (\<lambda>_. True)"
proof -
  let ?dm = "dom_of env" and ?n = "length (vertices (tr_graph t))"
  have "unvisited ?dm (tick t) - {root} \<subset> {..<?n}" using assms(5) by (auto simp: unvisited_def)
  then have "card (unvisited ?dm (tick t) - {root}) < card {..<?n}" by (intro psubset_card_mono) auto
  with assms(6) have c: "card (unvisited ?dm (tick t) - {root}) < fuel" by simp
  have "wp False True (dom_dfv fuel env meta rs root excl (tick t, scoring_new)) (\<lambda>_. True)"
    using dom_dfv_ends [OF assms(1-3)] assms(4,5) c unfolding ending_visit_def by simp
  then have "wp False True (dom_dfv fuel env meta rs root excl (tick t, scoring_new))
      (\<lambda>r. True \<and> quiet ?dm (tick t) (fst (fst r)))"
    by (intro wp_conj quiet_visitD [OF quiet_dom_dfv quiet_refl])
  then show ?thesis unfolding select_def
    by (elim wp_bindI) (auto simp: Let_def simp del: wp_bind intro!: wp_mono [OF wp_resolve_graph [OF assms(2,3)]])
qed

end
