(* ===== verification/Traverser_Remove.thy ===== *)
theory Traverser_Remove
  imports Planner_Interface Traverser_Termination
begin

text \<open>
  Removing a job (\<open>rem_dfv\<close>): on a graph whose tables and planners agree, the traversal ends, gives 0,
  deletes exactly the spans of the job from the pools it enters and leaves every other job as it is.
\<close>

section \<open>Pools whose tables and planners agree\<close>

definition job_span :: "pool_schedule \<Rightarrow> int \<rightharpoonup> int" where
  "job_span sc j = (case map_of (allocations sc) j of Some sp \<Rightarrow> Some sp | None \<Rightarrow> map_of (reservations sc) j)"

abbreviation jobs_of :: "resource_pool \<Rightarrow> int set" where
  "jobs_of p \<equiv> dom (map_of (tags (p_schedule p)))"

text \<open>
  Every job tagged on the pool has its entry in \<open>x_spans\<close>, and the spans that the tables give to the tagged
  jobs are in the planners, each under one job. Ids of subtree spans go through an \<open>int\<close> on removal.
\<close>

definition pool_ok :: "trav_env \<Rightarrow> resource_pool \<Rightarrow> bool" where
  "pool_ok env p \<longleftrightarrow>
     (let sc = p_schedule p; J = jobs_of p in
      J \<subseteq> dom (map_of (x_spans sc)) \<and>
      (\<exists>xc. x_checker sc = Some xc \<and> ps.holds (te_zkeys env) J (map_of (x_spans sc)) xc) \<and>
      (\<exists>pl. plans sc = Some pl \<and> ps.holds (te_zkeys env) J (job_span sc) pl) \<and>
      dom (map_of (allocations sc)) \<inter> dom (map_of (reservations sc)) = {} \<and>
      (\<forall>q. plan_in (subplans (p_idata p)) (dom_of env) = Some q \<longrightarrow>
         ps.holds (te_zkeys env) J (map_of (job2span (p_idata p))) q \<and>
         (\<forall>j\<in>J. \<forall>sp. map_of (job2span (p_idata p)) j = Some sp \<longrightarrow> 1 \<le> sp \<and> sp \<le> 2147483647)))"

text \<open>
  What a removal needs of every pool. A pool that holds no job need not have planners: the generator leaves
  such pools behind.
\<close>

definition pool_sound :: "trav_env \<Rightarrow> resource_pool \<Rightarrow> bool" where
  "pool_sound env p \<longleftrightarrow> jobs_of p \<noteq> {} \<longrightarrow> pool_ok env p"

lemma pool_sound_ok: "pool_ok env p \<Longrightarrow> pool_sound env p"
  by (simp add: pool_sound_def)

definition spans_in :: "planner option \<Rightarrow> int \<rightharpoonup> int \<times> int \<times> resource_array" where
  "spans_in p = (case p of None \<Rightarrow> Map.empty | Some ctx \<Rightarrow> span_table ctx)"

lemma spans_in_simps [simp]: "spans_in None = Map.empty" "spans_in (Some ctx) = span_table ctx"
  by (simp_all add: spans_in_def)

definition without_span :: "int option \<Rightarrow> (int \<rightharpoonup> 's) \<Rightarrow> int \<rightharpoonup> 's" where
  "without_span sp T = (case sp of None \<Rightarrow> T | Some sid \<Rightarrow> T(sid := None))"

lemma without_span_simps [simp]: "without_span None T = T" "without_span (Some sid) T = T(sid := None)"
    "without_span sp Map.empty = Map.empty" "without_span sp (without_span sp T) = without_span sp T"
  by (auto simp: without_span_def split: option.split)

text \<open>The pool without the job: its entries and its spans are gone, all others are there.\<close>

definition freed :: "string \<Rightarrow> int \<Rightarrow> resource_pool \<Rightarrow> resource_pool \<Rightarrow> bool" where
  "freed dm jobid p p' \<longleftrightarrow>
     (let sc = p_schedule p; sc' = p_schedule p'; i = p_idata p; i' = p_idata p' in
      tags sc' = map_erase jobid (tags sc) \<and> x_spans sc' = map_erase jobid (x_spans sc) \<and>
      allocations sc' = map_erase jobid (allocations sc) \<and> reservations sc' = map_erase jobid (reservations sc) \<and>
      spans_in (x_checker sc') = without_span (map_of (x_spans sc) jobid) (spans_in (x_checker sc)) \<and>
      spans_in (plans sc') = without_span (job_span sc jobid) (spans_in (plans sc)) \<and>
      spans_in (plan_in (subplans i') dm) = without_span (map_of (job2span i) jobid) (spans_in (plan_in (subplans i) dm)) \<and>
      (\<forall>s. s \<noteq> dm \<longrightarrow> plan_in (subplans i') s = plan_in (subplans i) s) \<and>
      job2span i' = job2span i \<and> colors i' = colors i \<and> p_member_of i' = p_member_of i \<and> p_type p' = p_type p \<and> p_name p' = p_name p)"

section \<open>One pool\<close>

lemma upd_pool_upd_pool [simp]: "upd_pool u f (upd_pool u g t) = upd_pool u (\<lambda>p. f (g p)) t"
  by (cases "u < length (vertices (tr_graph t))") (auto simp: upd_pool_def upd_vertex_def list_update_beyond)

lemma upd_pool_cong: "f (pool t u) = g (pool t u) \<Longrightarrow> upd_pool u f t = upd_pool u g t"
  by (simp add: upd_pool_def upd_vertex_def pool_def)

lemma upd_pool_id: "f (pool t u) = pool t u \<Longrightarrow> upd_pool u f t = t"
  by (simp add: upd_pool_def upd_vertex_def pool_def)

lemma pool_upd_same [simp]: "u < length (vertices (tr_graph t)) \<Longrightarrow> pool (upd_pool u f t) u = f (pool t u)"
  by (simp add: pool_upd_pool)

lemma length_upd_pool [simp]: "length (vertices (tr_graph (upd_pool u f t))) = length (vertices (tr_graph t))"
  by (simp add: upd_pool_def upd_vertex_def)

lemma map_erase_absent: "map_of m k = None \<Longrightarrow> map_erase k m = m"
  by (auto simp: map_erase_def map_of_eq_None_iff filter_id_conv rev_image_eqI)

lemma dom_map_erase: "dom (map_of (map_erase k m)) = dom (map_of m) - {k}"
  by (auto simp: dom_def)

text \<open>Removing a span that the tables give to the job.\<close>

lemma rem_span_opt_job:
  assumes "ps.holds (te_zkeys env) J m p" and "j \<in> J" and "m j = Some sid" and "sid \<noteq> -1"
  obtains p' where "rem_span_opt env sid (Some p) = Ret (Some p', 0)" and "ps.holds (te_zkeys env) (J - {j}) m p'"
    and "span_table p' = (span_table p)(sid := None)"
proof -
  from ps.rem_job [OF assms] obtain p' where p': "span_rem (te_zkeys env) sid p = Some (p', 0)"
      "ps.holds (te_zkeys env) (J - {j}) m p'" "span_table p' = (span_table p)(sid := None)" by blast
  from p'(1) obtain e where "planner_rem_span (te_zkeys env) sid p = Some (p', 0, e)" by (auto simp: span_rem_def)
  then have "rem_span_opt env sid (Some p) = Ret (Some p', 0)" by (simp add: rem_span_opt_def)
  then show thesis using p'(2,3) by (rule that)
qed

lemma no_span_minus_one: "ps.holds z J m p \<Longrightarrow> (span_table p)(-1 := None) = span_table p"
  using span_table_ids [of p "-1"] ps.holds_inv [of z J m p]
  by (intro fun_upd_idem) (cases "span_table p (-1)"; fastforce)

lemma rem_x_checker_ok:
  assumes u: "u < length (vertices (tr_graph t))" and x: "x_checker (p_schedule (pool t u)) = Some xc"
    and h: "ps.holds (te_zkeys env) J (map_of (x_spans (p_schedule (pool t u)))) xc"
    and j: "jobid \<in> J" "map_of (x_spans (p_schedule (pool t u))) jobid = Some sp"
  obtains xc' where "rem_x_checker env u jobid t =
      Ret (upd_schedule u (\<lambda>sc. sc\<lparr>x_spans := map_erase jobid (x_spans sc), x_checker := Some xc'\<rparr>) t, 0)"
    and "ps.holds (te_zkeys env) (J - {jobid}) (map_of (x_spans (p_schedule (pool t u)))) xc'"
    and "span_table xc' = (span_table xc)(sp := None)"
proof (cases "sp = -1")
  case True
  have "rem_x_checker env u jobid t =
      Ret (upd_schedule u (\<lambda>sc. sc\<lparr>x_spans := map_erase jobid (x_spans sc), x_checker := Some xc\<rparr>) t, 0)"
    using x j(2) True by (auto simp: rem_x_checker_def upd_schedule_def Let_def intro!: upd_pool_cong)
  then show thesis
    by (rule that) (use h no_span_minus_one [OF h] True in \<open>auto intro: ps.holds_mono\<close>)
next
  case False
  from rem_span_opt_job [OF h j this] obtain xc' where r: "rem_span_opt env sp (Some xc) = Ret (Some xc', 0)"
      "ps.holds (te_zkeys env) (J - {jobid}) (map_of (x_spans (p_schedule (pool t u)))) xc'"
      "span_table xc' = (span_table xc)(sp := None)" .
  have "rem_x_checker env u jobid t =
      Ret (upd_schedule u (\<lambda>sc. sc\<lparr>x_spans := map_erase jobid (x_spans sc), x_checker := Some xc'\<rparr>) t, 0)"
    using u x j(2) False r(1) by (auto simp: rem_x_checker_def upd_schedule_def Let_def intro!: upd_pool_cong)
  then show thesis by (rule that) (fact r)+
qed

lemma rem_plan_ok:
  assumes u: "u < length (vertices (tr_graph t))" and x: "plans (p_schedule (pool t u)) = Some pl"
    and h: "ps.holds (te_zkeys env) J (job_span (p_schedule (pool t u))) pl" and j: "jobid \<in> J"
    and d: "dom (map_of (allocations (p_schedule (pool t u)))) \<inter> dom (map_of (reservations (p_schedule (pool t u)))) = {}"
  obtains pl' where "rem_plan env u jobid t = Ret (upd_schedule u (\<lambda>sc. sc\<lparr>allocations := map_erase jobid (allocations sc),
      reservations := map_erase jobid (reservations sc), plans := Some pl'\<rparr>) t, 0)"
    and "ps.holds (te_zkeys env) (J - {jobid}) (job_span (p_schedule (pool t u))) pl'"
    and "span_table pl' = without_span (job_span (p_schedule (pool t u)) jobid) (span_table pl)"
proof -
  let ?sc = "p_schedule (pool t u)"
  have gone: "ps.holds (te_zkeys env) (J - {jobid}) (job_span ?sc) pl" using h by (rule ps.holds_mono) auto
  have ab: "map_erase jobid (allocations ?sc) = allocations ?sc" if "map_of (allocations ?sc) jobid = None"
    using that by (rule map_erase_absent)
  have re: "map_erase jobid (reservations ?sc) = reservations ?sc"
    if "map_of (allocations ?sc) jobid \<noteq> None \<or> map_of (reservations ?sc) jobid = None"
    using that d by (intro map_erase_absent) (auto simp: dom_def)
  show thesis
  proof (cases "job_span ?sc jobid = None \<or> job_span ?sc jobid = Some (-1)")
    case True
    have "rem_plan env u jobid t = Ret (upd_schedule u (\<lambda>sc. sc\<lparr>allocations := map_erase jobid (allocations sc),
        reservations := map_erase jobid (reservations sc), plans := Some pl\<rparr>) t, 0)"
      using True x ab re
      by (auto simp: rem_plan_def upd_schedule_def job_span_def Let_def split: option.splits
          intro!: upd_pool_cong upd_pool_id [symmetric])
    then show thesis
      by (rule that) (use gone True no_span_minus_one [OF h] in \<open>auto simp: without_span_def\<close>)
  next
    case False
    then obtain sp where sp: "job_span ?sc jobid = Some sp" "sp \<noteq> -1" by auto
    from rem_span_opt_job [OF h j sp] obtain pl' where r: "rem_span_opt env sp (Some pl) = Ret (Some pl', 0)"
        "ps.holds (te_zkeys env) (J - {jobid}) (job_span ?sc) pl'" "span_table pl' = (span_table pl)(sp := None)" .
    have "rem_plan env u jobid t = Ret (upd_schedule u (\<lambda>sc. sc\<lparr>allocations := map_erase jobid (allocations sc),
        reservations := map_erase jobid (reservations sc), plans := Some pl'\<rparr>) t, 0)"
      using u x sp r(1) ab re
      by (auto simp: rem_plan_def upd_schedule_def job_span_def Let_def split: option.splits intro!: upd_pool_cong)
    then show thesis by (rule that) (use r sp in \<open>auto simp: without_span_def\<close>)
  qed
qed

lemma rem_subtree_plan_ok:
  assumes u: "u < length (vertices (tr_graph t))"
    and h: "\<And>q. plan_in (subplans (p_idata (pool t u))) dm = Some q \<Longrightarrow>
         ps.holds (te_zkeys env) J (map_of (job2span (p_idata (pool t u)))) q \<and>
         (\<forall>j\<in>J. \<forall>sp. map_of (job2span (p_idata (pool t u))) j = Some sp \<longrightarrow> 1 \<le> sp \<and> sp \<le> 2147483647)"
    and j: "jobid \<in> J"
  obtains f where "rem_subtree_plan env u jobid dm t = Ret (upd_idata u (\<lambda>i. i\<lparr>subplans := f (subplans i)\<rparr>) t, 0)"
    and "\<forall>s. s \<noteq> dm \<longrightarrow> plan_in (f (subplans (p_idata (pool t u)))) s = plan_in (subplans (p_idata (pool t u))) s"
    and "\<forall>q. plan_in (f (subplans (p_idata (pool t u)))) dm = Some q \<longrightarrow>
      ps.holds (te_zkeys env) (J - {jobid}) (map_of (job2span (p_idata (pool t u)))) q"
    and "spans_in (plan_in (f (subplans (p_idata (pool t u)))) dm) =
        without_span (map_of (job2span (p_idata (pool t u))) jobid) (spans_in (plan_in (subplans (p_idata (pool t u))) dm))"
    and "(plan_in (f (subplans (p_idata (pool t u)))) dm = None) = (plan_in (subplans (p_idata (pool t u))) dm = None)"
proof -
  let ?i = "p_idata (pool t u)"
  have so: "subplan_of t u dm = plan_in (subplans ?i) dm" by (simp add: subplan_of_def plan_in_def)
  show thesis
  proof (cases "plan_in (subplans ?i) dm")
    case None
    let ?f = "\<lambda>m. if map_of m dm = None then map_put dm None m else m"
    show thesis
      by (rule that [of ?f])
        (use None in \<open>auto simp: rem_subtree_plan_def so touch_subplan_def upd_idata_def plan_in_def spans_in_def
          split: option.splits if_splits\<close>)
  next
    case (Some q)
    note h = h [OF Some]
    show thesis
    proof (cases "map_of (job2span ?i) jobid")
      case None
      show thesis
        by (rule that [of id])
          (use h Some None in \<open>auto simp: rem_subtree_plan_def so upd_idata_def without_span_def spans_in_def
            intro: ps.holds_mono upd_pool_id [symmetric]\<close>)
    next
      case sp: (Some sp)
      with h j have le: "1 \<le> sp" "sp \<le> 2147483647" by blast+
      then have i: "i32 sp = sp" by (simp add: i32_def)
      have "sp \<noteq> -1" using le by simp
      from rem_span_opt_job [OF conjunct1 [OF h] j sp this] obtain q' where r: "rem_span_opt env sp (Some q) = Ret (Some q', 0)"
        "ps.holds (te_zkeys env) (J - {jobid}) (map_of (job2span ?i)) q'" "span_table q' = (span_table q)(sp := None)" .
      show thesis
        by (rule that [of "map_put dm (Some q')"])
          (use le r sp Some i in \<open>auto simp: rem_subtree_plan_def so upd_idata_def without_span_def spans_in_def plan_in_def\<close>)
    qed
  qed
qed

lemma rem_vertex_ok:
  assumes u: "u < length (vertices (tr_graph t))" and ok: "pool_ok env (pool t u)" and j: "jobid \<in> jobs_of (pool t u)"
  obtains p' where "rem_vertex env u jobid t = Ret (upd_pool u (\<lambda>_. p') t, 0)"
    and "freed (dom_of env) jobid (pool t u) p'" and "pool_ok env p'"
proof -
  let ?p = "pool t u" and ?dm = "dom_of env" and ?J = "jobs_of (pool t u)"
  let ?sc = "p_schedule ?p"
  from ok obtain xc pl where xc: "x_checker ?sc = Some xc" "ps.holds (te_zkeys env) ?J (map_of (x_spans ?sc)) xc"
    and pl: "plans ?sc = Some pl" "ps.holds (te_zkeys env) ?J (job_span ?sc) pl"
    and sub: "?J \<subseteq> dom (map_of (x_spans ?sc))" and d: "dom (map_of (allocations ?sc)) \<inter> dom (map_of (reservations ?sc)) = {}"
    and sp: "\<And>q. plan_in (subplans (p_idata ?p)) ?dm = Some q \<Longrightarrow> ps.holds (te_zkeys env) ?J (map_of (job2span (p_idata ?p))) q \<and>
         (\<forall>j\<in>?J. \<forall>sp. map_of (job2span (p_idata ?p)) j = Some sp \<longrightarrow> 1 \<le> sp \<and> sp \<le> 2147483647)"
    by (auto simp: pool_ok_def Let_def)
  from sub j obtain x where x: "map_of (x_spans ?sc) jobid = Some x" by blast
  define t1 where "t1 = upd_schedule u (\<lambda>sc. sc\<lparr>tags := map_erase jobid (tags sc)\<rparr>) t"
  have u1: "u < length (vertices (tr_graph t1))" and p1: "pool t1 u = ?p\<lparr>p_schedule := ?sc\<lparr>tags := map_erase jobid (tags ?sc)\<rparr>\<rparr>"
    using u by (simp_all add: t1_def upd_schedule_def)
  obtain xc' where r1: "rem_x_checker env u jobid t1 =
      Ret (upd_schedule u (\<lambda>sc. sc\<lparr>x_spans := map_erase jobid (x_spans sc), x_checker := Some xc'\<rparr>) t1, 0)"
    "ps.holds (te_zkeys env) (?J - {jobid}) (map_of (x_spans ?sc)) xc'" "span_table xc' = (span_table xc)(x := None)"
    using xc x j by (auto simp: p1 intro: rem_x_checker_ok [OF u1, of xc env ?J])
  define t2 where "t2 = upd_schedule u (\<lambda>sc. sc\<lparr>x_spans := map_erase jobid (x_spans sc), x_checker := Some xc'\<rparr>) t1"
  have u2: "u < length (vertices (tr_graph t2))" and p2: "pool t2 u = ?p\<lparr>p_schedule := ?sc\<lparr>tags := map_erase jobid (tags ?sc),
      x_spans := map_erase jobid (x_spans ?sc), x_checker := Some xc'\<rparr>\<rparr>"
    using u1 by (simp_all add: t2_def upd_schedule_def p1)
  have js: "job_span (p_schedule (pool t2 u)) = job_span ?sc" by (simp add: p2 job_span_def fun_eq_iff split: option.split)
  obtain pl' where r2: "rem_plan env u jobid t2 = Ret (upd_schedule u (\<lambda>sc. sc\<lparr>allocations := map_erase jobid (allocations sc),
      reservations := map_erase jobid (reservations sc), plans := Some pl'\<rparr>) t2, 0)"
    "ps.holds (te_zkeys env) (?J - {jobid}) (job_span ?sc) pl'" "span_table pl' = without_span (job_span ?sc jobid) (span_table pl)"
    by (rule rem_plan_ok [OF u2, of pl env ?J jobid, unfolded js]) (use pl d j in \<open>simp_all add: p2\<close>)
  define t3 where "t3 = upd_schedule u (\<lambda>sc. sc\<lparr>allocations := map_erase jobid (allocations sc),
      reservations := map_erase jobid (reservations sc), plans := Some pl'\<rparr>) t2"
  have u3: "u < length (vertices (tr_graph t3))" and p3: "pool t3 u = ?p\<lparr>p_schedule := ?sc\<lparr>tags := map_erase jobid (tags ?sc),
      x_spans := map_erase jobid (x_spans ?sc), x_checker := Some xc', allocations := map_erase jobid (allocations ?sc),
      reservations := map_erase jobid (reservations ?sc), plans := Some pl'\<rparr>\<rparr>"
    using u2 by (simp_all add: t3_def upd_schedule_def p2)
  have i3: "p_idata (pool t3 u) = p_idata ?p" by (simp add: p3)
  obtain f where r3: "rem_subtree_plan env u jobid ?dm t3 = Ret (upd_idata u (\<lambda>i. i\<lparr>subplans := f (subplans i)\<rparr>) t3, 0)"
    "\<forall>s. s \<noteq> ?dm \<longrightarrow> plan_in (f (subplans (p_idata ?p))) s = plan_in (subplans (p_idata ?p)) s"
    "\<forall>q. plan_in (f (subplans (p_idata ?p))) ?dm = Some q \<longrightarrow>
      ps.holds (te_zkeys env) (?J - {jobid}) (map_of (job2span (p_idata ?p))) q"
    "spans_in (plan_in (f (subplans (p_idata ?p))) ?dm) =
        without_span (map_of (job2span (p_idata ?p)) jobid) (spans_in (plan_in (subplans (p_idata ?p)) ?dm))"
    "(plan_in (f (subplans (p_idata ?p))) ?dm = None) = (plan_in (subplans (p_idata ?p)) ?dm = None)"
    by (rule rem_subtree_plan_ok [OF u3, of ?dm env ?J jobid, unfolded i3, OF sp j])
  define p' where "p' = ?p\<lparr>p_schedule := ?sc\<lparr>tags := map_erase jobid (tags ?sc),
      x_spans := map_erase jobid (x_spans ?sc), x_checker := Some xc', allocations := map_erase jobid (allocations ?sc),
      reservations := map_erase jobid (reservations ?sc), plans := Some pl'\<rparr>,
      p_idata := (p_idata ?p)\<lparr>subplans := f (subplans (p_idata ?p))\<rparr>\<rparr>"
  have "upd_idata u (\<lambda>i. i\<lparr>subplans := f (subplans i)\<rparr>) t3 = upd_pool u (\<lambda>_. p') t"
    by (auto simp: t3_def t2_def t1_def upd_schedule_def upd_idata_def p'_def intro!: upd_pool_cong)
  then have "rem_vertex env u jobid t = Ret (upd_pool u (\<lambda>_. p') t, 0)"
    by (simp add: rem_vertex_def t1_def [symmetric] r1(1) t2_def [symmetric] r2(1) t3_def [symmetric] r3(1))
  moreover have "freed ?dm jobid ?p p'"
    using xc(1) pl(1) x r1(3) r2(3) r3(2,4) by (simp add: freed_def p'_def spans_in_def without_span_def Let_def split: option.split)
  moreover have "pool_ok env p'"
  proof -
    have J: "jobs_of p' = ?J - {jobid}" by (simp add: p'_def dom_map_erase)
    have "ps.holds (te_zkeys env) (?J - {jobid}) (map_of (x_spans (p_schedule p'))) xc'"
      by (rule ps.holds_mono [OF r1(2)]) (auto simp: p'_def)
    moreover have "ps.holds (te_zkeys env) (?J - {jobid}) (job_span (p_schedule p')) pl'"
      by (rule ps.holds_mono [OF r2(2)]) (auto simp: p'_def job_span_def split: option.split)
    moreover have "ps.holds (te_zkeys env) (?J - {jobid}) (map_of (job2span (p_idata p'))) q \<and>
        (\<forall>j\<in>?J - {jobid}. \<forall>sp. map_of (job2span (p_idata p')) j = Some sp \<longrightarrow> 1 \<le> sp \<and> sp \<le> 2147483647)"
      if q: "plan_in (subplans (p_idata p')) ?dm = Some q" for q
    proof -
      from q r3(5) obtain q0 where "plan_in (subplans (p_idata ?p)) ?dm = Some q0" by (auto simp: p'_def)
      from sp [OF this] have "\<forall>j\<in>?J - {jobid}. \<forall>sp. map_of (job2span (p_idata ?p)) j = Some sp \<longrightarrow> 1 \<le> sp \<and> sp \<le> 2147483647"
        by blast
      then show ?thesis using r3(3) q by (simp add: p'_def)
    qed
    moreover have "?J - {jobid} \<subseteq> dom (map_of (x_spans (p_schedule p')))"
        "dom (map_of (allocations (p_schedule p'))) \<inter> dom (map_of (reservations (p_schedule p'))) = {}"
      using sub d by (auto simp: p'_def dom_map_erase)
    ultimately show ?thesis unfolding pool_ok_def Let_def J by (simp add: p'_def)
  qed
  ultimately show thesis by (rule that)
qed

section \<open>The traversal\<close>

text \<open>The vertices that carry the job, and what a removal does to a graph.\<close>

definition tagged :: "int \<Rightarrow> trav \<Rightarrow> nat set" where
  "tagged jobid t = {u. u < length (vertices (tr_graph t)) \<and> jobid \<in> jobs_of (pool t u)}"

definition same_shape :: "trav \<Rightarrow> trav \<Rightarrow> bool" where
  "same_shape t t' \<longleftrightarrow> edges (tr_graph t') = edges (tr_graph t) \<and>
     length (vertices (tr_graph t')) = length (vertices (tr_graph t)) \<and>
     (\<forall>u<length (vertices (tr_graph t)). colors (p_idata (pool t' u)) = colors (p_idata (pool t u)) \<and>
        p_member_of (p_idata (pool t' u)) = p_member_of (p_idata (pool t u))) \<and>
     (\<exists>g. t' = t\<lparr>tr_graph := g\<rparr>)"

definition removes :: "string \<Rightarrow> int \<Rightarrow> trav \<Rightarrow> trav \<Rightarrow> bool" where
  "removes dm jobid t t' \<longleftrightarrow> same_shape t t' \<and>
     (\<forall>u<length (vertices (tr_graph t)). pool t' u = pool t u \<or> freed dm jobid (pool t u) (pool t' u))"

text \<open>The edges that the removal follows from a vertex.\<close>

definition rem_edges :: "trav_env \<Rightarrow> trav \<Rightarrow> nat \<Rightarrow> nat list" where
  "rem_edges env t u = filter (\<lambda>e. in_subsystem t e (dom_of env)) (out_edges (te_sel env) (tr_graph t) u)"

lemma freed_jobs: "freed dm jobid p p' \<Longrightarrow> jobs_of p' = jobs_of p - {jobid}"
  by (simp add: freed_def Let_def dom_map_erase)

lemma freed_fields: "freed dm jobid p p' \<Longrightarrow> colors (p_idata p') = colors (p_idata p) \<and> p_member_of (p_idata p') = p_member_of (p_idata p)"
  by (simp add: freed_def Let_def)

lemma same_shape_refl [simp]: "same_shape t t"
  by (simp add: same_shape_def) (rule exI [of _ "tr_graph t"], simp)

lemma same_shape_trans: "same_shape t t' \<Longrightarrow> same_shape t' t'' \<Longrightarrow> same_shape t t''"
  unfolding same_shape_def by (elim conjE exE) (simp, metis trav.update_convs(1))

lemma same_shape_lookups:
  assumes "same_shape t t'"
  shows "in_subsystem t' e s = in_subsystem t e s" "target (tr_graph t') e = target (tr_graph t) e"
    "u < length (vertices (tr_graph t)) \<Longrightarrow> color_of t' u s = color_of t u s" "tr_color_base t' = tr_color_base t"
  using assms by (auto simp: same_shape_def in_subsystem_def target_def color_of_def)

lemma same_shape_out_edges:
  assumes "same_shape t t'" and "targets_ok (tr_graph t)"
  shows "out_edges sel (tr_graph t') u = out_edges sel (tr_graph t) u"
proof -
  have e: "edges (tr_graph t') = edges (tr_graph t)" using assms(1) by (simp add: same_shape_def)
  have "vertex_selected sel (tr_graph t') (e_tgt (edges (tr_graph t) ! i)) = vertex_selected sel (tr_graph t) (e_tgt (edges (tr_graph t) ! i))"
    if "i < length (edges (tr_graph t))" for i
    using assms that by (auto simp: vertex_selected_def same_shape_def targets_ok_def pool_def)
  then show ?thesis by (auto simp: out_edges_def out_edges_all_def edge_selected_def e intro!: filter_cong)
qed

lemma map_erase_twice [simp]: "map_erase k (map_erase k m) = map_erase k m"
  by (simp add: map_erase_def)

lemma freed_trans: "freed dm j p p' \<Longrightarrow> freed dm j p' p'' \<Longrightarrow> freed dm j p p''"
  unfolding freed_def Let_def by (elim conjE) (simp add: job_span_def)

lemma removes_trans:
  assumes "removes dm j t t'" and "removes dm j t' t''"
  shows "removes dm j t t''"
proof -
  have "same_shape t t'" "same_shape t' t''" using assms by (simp_all add: removes_def)
  then have "same_shape t t''" "length (vertices (tr_graph t')) = length (vertices (tr_graph t))"
    by (rule same_shape_trans) (use \<open>same_shape t t'\<close> in \<open>simp add: same_shape_def\<close>)
  then show ?thesis using assms freed_trans unfolding removes_def by metis
qed

lemma removes_tagged:
  assumes "removes dm j t t'"
  shows "tagged j t' \<subseteq> tagged j t"
proof
  fix u assume u: "u \<in> tagged j t'"
  then have "u < length (vertices (tr_graph t))" using assms by (simp add: removes_def same_shape_def tagged_def)
  moreover from this have "pool t' u = pool t u \<or> freed dm j (pool t u) (pool t' u)" using assms by (simp add: removes_def)
  moreover have "\<not> freed dm j (pool t u) (pool t' u)" using u freed_jobs by (fastforce simp: tagged_def)
  ultimately show "u \<in> tagged j t" using u by (simp add: tagged_def)
qed

definition removable :: "trav_env \<Rightarrow> trav \<Rightarrow> bool" where
  "removable env t \<longleftrightarrow> targets_ok (tr_graph t) \<and> (\<forall>u<length (vertices (tr_graph t)). pool_sound env (pool t u) \<and>
     color_of t u (dom_of env) \<noteq> gray (tr_color_base t) \<and> color_of t u (dom_of env) \<noteq> black (tr_color_base t))"

lemma removable_same_shape:
  "removable env t \<Longrightarrow> same_shape t t' \<Longrightarrow> \<forall>u<length (vertices (tr_graph t)). pool_sound env (pool t' u) \<Longrightarrow> removable env t'"
  using same_shape_lookups [of t t'] by (auto simp: removable_def same_shape_def targets_ok_def)

text \<open>What \<open>rem_dfv\<close> promises, but for the edges of the vertices in \<open>X\<close>.\<close>

definition rem_post :: "trav_env \<Rightarrow> int \<Rightarrow> nat set \<Rightarrow> trav \<Rightarrow> trav \<Rightarrow> bool" where
  "rem_post env jobid X t t' \<longleftrightarrow> removes (dom_of env) jobid t t' \<and> removable env t' \<and>
     (\<forall>v\<in>tagged jobid t - tagged jobid t' - X. \<forall>e\<in>set (rem_edges env t v). target (tr_graph t) e \<notin> tagged jobid t')"

lemma rem_edges_same: "same_shape t t' \<Longrightarrow> targets_ok (tr_graph t) \<Longrightarrow> rem_edges env t' v = rem_edges env t v"
  by (simp add: rem_edges_def same_shape_out_edges same_shape_lookups(1))

lemma rem_post_trans:
  assumes "rem_post env jobid X t t'" and "rem_post env jobid Y t' t''" and "targets_ok (tr_graph t)"
  shows "rem_post env jobid (X \<union> Y) t t''"
proof -
  have r: "removes (dom_of env) jobid t t'" "removes (dom_of env) jobid t' t''" using assms by (simp_all add: rem_post_def)
  then have s: "same_shape t t'" by (simp add: removes_def)
  have "target (tr_graph t) e \<notin> tagged jobid t''"
    if "v \<in> tagged jobid t - tagged jobid t'' - (X \<union> Y)" "e \<in> set (rem_edges env t v)" for v e
    using that assms removes_tagged [OF r(2)] same_shape_lookups(2) [OF s] rem_edges_same [OF s assms(3)]
    unfolding rem_post_def by (cases "v \<in> tagged jobid t'") auto
  with assms r show ?thesis by (auto simp: rem_post_def intro: removes_trans)
qed

lemma rem_post_refl: "removable env t \<Longrightarrow> rem_post env jobid X t t"
  by (simp add: rem_post_def removes_def)

lemma rem_post_mono: "rem_post env jobid X t t' \<Longrightarrow> X \<subseteq> Y \<Longrightarrow> rem_post env jobid Y t t'"
  by (auto simp: rem_post_def)

lemma not_stopped: "removable env t \<Longrightarrow> e < length (edges (tr_graph t)) \<Longrightarrow> \<not> stop_explore t e (dom_of env)"
  by (simp add: removable_def stop_explore_def targets_ok_def target_def Let_def)

lemma rem_post_vertex:
  assumes r: "removable env t" and u: "u < length (vertices (tr_graph t))" and p': "freed (dom_of env) jobid (pool t u) p'" "pool_ok env p'"
  defines "t' \<equiv> upd_pool u (\<lambda>_. p') t"
  shows "rem_post env jobid {u} t t'" and "u \<notin> tagged jobid t'"
proof -
  have pl: "pool t' v = (if v = u then p' else pool t v)" for v using u by (simp add: t'_def pool_upd_pool)
  have e: "edges (tr_graph t') = edges (tr_graph t)" by (simp add: t'_def upd_pool_def upd_vertex_def)
  have s: "same_shape t t'" unfolding same_shape_def
    using freed_fields [OF p'(1)] by (auto simp: pl e) (auto simp: t'_def upd_pool_def upd_vertex_def)
  have rm: "removes (dom_of env) jobid t t'" using s p'(1) by (simp add: removes_def pl)
  have "removable env t'"
    by (rule removable_same_shape [OF r s]) (use r pool_sound_ok [OF p'(2)] in \<open>auto simp: removable_def pl\<close>)
  moreover have "tagged jobid t - tagged jobid t' - {u} = {}" by (auto simp: tagged_def pl) (simp add: t'_def)
  ultimately show "rem_post env jobid {u} t t'" using rm unfolding rem_post_def by blast
  show "u \<notin> tagged jobid t'" using freed_jobs [OF p'(1)] by (auto simp: tagged_def pl)
qed

lemma rem_post_tagged: "rem_post env jobid X t t' \<Longrightarrow> tagged jobid t' \<subseteq> tagged jobid t"
  by (auto simp: rem_post_def dest: removes_tagged)

lemma finite_tagged [simp]: "finite (tagged jobid t)"
  by (simp add: tagged_def)

text \<open>The loops over the subsystems and the edges, for a visit of fewer than \<open>n\<close> tagged vertices.\<close>

definition rem_visit_ok :: "nat \<Rightarrow> trav_env \<Rightarrow> int \<Rightarrow> (nat \<Rightarrow> trav \<Rightarrow> (trav \<times> int) outcome) \<Rightarrow> bool" where
  "rem_visit_ok n env jobid visit \<longleftrightarrow>
     (\<forall>t u. removable env t \<longrightarrow> u < length (vertices (tr_graph t)) \<longrightarrow> card (tagged jobid t) < n \<longrightarrow>
        wp False False (visit u t) (\<lambda>(t', rc). rc = 0 \<and> rem_post env jobid {} t t' \<and> u \<notin> tagged jobid t'))"

lemma rem_edges_loop:
  assumes visit: "rem_visit_ok n env jobid visit" and t: "removable env t1" "card (tagged jobid t1) < n"
    and t2: "rem_post env jobid {} t1 t2"
  shows "wp False False (each (rem_edge_visit env s visit) (out_edges (te_sel env) (tr_graph t2) u) (t2, 0))
    (\<lambda>(t', rc). rc = 0 \<and> rem_post env jobid {} t1 t' \<and> tagged jobid t' \<subseteq> tagged jobid t2 \<and>
      (s = dom_of env \<longrightarrow> (\<forall>e\<in>set (rem_edges env t1 u). target (tr_graph t1) e \<notin> tagged jobid t')))"
proof -
  let ?dm = "dom_of env"
  let ?P = "\<lambda>(t', rc). rc = 0 \<and> rem_post env jobid {} t1 t' \<and> tagged jobid t' \<subseteq> tagged jobid t2"
  let ?Q = "\<lambda>e (t', rc :: int). s = ?dm \<longrightarrow> in_subsystem t1 e ?dm \<longrightarrow> target (tr_graph t1) e \<notin> tagged jobid t'"
  let ?R = "\<lambda>(t', rc :: int) (t'', rc' :: int). tagged jobid t'' \<subseteq> tagged jobid t'"
  have ok1: "targets_ok (tr_graph t1)" using t(1) by (simp add: removable_def)
  have s2: "same_shape t1 t2" using t2 by (simp add: rem_post_def removes_def)
  have es: "out_edges (te_sel env) (tr_graph t2) u = out_edges (te_sel env) (tr_graph t1) u"
    by (rule same_shape_out_edges [OF s2 ok1])
  have "wp False False (each (rem_edge_visit env s visit) (out_edges (te_sel env) (tr_graph t2) u) (t2, 0))
      (\<lambda>x. ?P x \<and> (\<forall>e\<in>set (out_edges (te_sel env) (tr_graph t2) u). ?Q e x))"
  proof (rule wp_each_all [where R = ?R])
    show "?P (t2, 0)" using t2 by simp
    fix e and st :: "trav \<times> int" assume e: "e \<in> set (out_edges (te_sel env) (tr_graph t2) u)" and st: "?P st"
    obtain t' where t': "st = (t', 0)" and q: "rem_post env jobid {} t1 t'" and sub: "tagged jobid t' \<subseteq> tagged jobid t2" using st by auto
    have r': "removable env t'" and s': "same_shape t1 t'" using q by (simp_all add: rem_post_def removes_def)
    have e': "e < length (edges (tr_graph t'))" using e s' s2 by (auto simp: same_shape_def dest: out_edges_less)
    note look = same_shape_lookups(1,2) [OF s']
    show "wp False False (rem_edge_visit env s visit e st) (\<lambda>x. ?P x \<and> ?Q e x \<and> ?R st x)"
    proof (cases "in_subsystem t' e s \<and> \<not> stop_explore t' e s")
      case True
      show ?thesis
      proof (cases "s = ?dm")
        case dm: True
        have v: "target (tr_graph t') e < length (vertices (tr_graph t'))"
          using r' e' by (simp add: removable_def targets_ok_def target_def)
        have "card (tagged jobid t') \<le> card (tagged jobid t1)" using rem_post_tagged [OF q] by (intro card_mono) auto
        with t(2) have c: "card (tagged jobid t') < n" by simp
        have "wp False False (visit (target (tr_graph t') e) t')
            (\<lambda>(t'', rc). rc = 0 \<and> rem_post env jobid {} t' t'' \<and> target (tr_graph t') e \<notin> tagged jobid t'')"
          using visit r' v c by (simp add: rem_visit_ok_def)
        then show ?thesis using True dm sub look rem_post_trans [OF q _ ok1] rem_post_tagged
          by (auto simp: t' rem_edge_visit_def elim!: wp_mono) blast+
      next
        case False
        then show ?thesis using True q sub by (simp add: t' rem_edge_visit_def rem_upv_def)
      qed
    next
      case False
      have "s = ?dm \<Longrightarrow> \<not> in_subsystem t' e ?dm" using False not_stopped [OF r' e'] by auto
      then show ?thesis using False q sub look by (auto simp: t' rem_edge_visit_def)
    qed
  qed auto
  then show ?thesis by (rule wp_mono) (auto simp: rem_edges_def es)
qed

lemma rem_dfv_ok:
  assumes dm: "dom_of env \<in> set (subsystems_of env)"
  shows "rem_visit_ok fuel env jobid (rem_dfv fuel env jobid)"
proof (induction fuel)
  case (Suc fuel)
  show ?case unfolding rem_visit_ok_def
  proof (intro allI impI)
    fix t u assume r: "removable env t" and u: "u < length (vertices (tr_graph t))" and c: "card (tagged jobid t) < Suc fuel"
    let ?dm = "dom_of env"
    let ?post = "\<lambda>(t', rc). rc = 0 \<and> rem_post env jobid {} t t' \<and> u \<notin> tagged jobid t'"
    show "wp False False (rem_dfv (Suc fuel) env jobid u t) ?post"
    proof (cases "u \<in> tagged jobid t")
      case False
      then have "map_of (tags (p_schedule (pool t u))) jobid = None" using u by (simp add: tagged_def) auto
      then show ?thesis using False rem_post_refl [OF r] by simp
    next
      case True
      have j: "jobid \<in> jobs_of (pool t u)" using True by (simp add: tagged_def)
      then have "pool_ok env (pool t u)" using r u by (auto simp: removable_def pool_sound_def)
      from this j obtain p' where v: "rem_vertex env u jobid t = Ret (upd_pool u (\<lambda>_. p') t, 0)"
          and p': "freed ?dm jobid (pool t u) p'" "pool_ok env p'" by (rule rem_vertex_ok [OF u])
      define t1 where "t1 = upd_pool u (\<lambda>_. p') t"
      note post1 = rem_post_vertex [OF r u p', folded t1_def]
      have r1: "removable env t1" and s1: "same_shape t t1" using post1(1) by (simp_all add: rem_post_def removes_def)
      have ok: "targets_ok (tr_graph t)" using r by (simp add: removable_def)
      have "tagged jobid t1 \<subset> tagged jobid t" using rem_post_tagged [OF post1(1)] post1(2) True by blast
      then have c1: "card (tagged jobid t1) < fuel" using c psubset_card_mono [of "tagged jobid t" "tagged jobid t1"] by simp
      let ?P = "\<lambda>(t', rc). rc = 0 \<and> rem_post env jobid {} t1 t'"
      let ?Q = "\<lambda>s (t', rc :: int). s = ?dm \<longrightarrow> (\<forall>e\<in>set (rem_edges env t1 u). target (tr_graph t1) e \<notin> tagged jobid t')"
      have "wp False False (each (\<lambda>s st. each (rem_edge_visit env s (rem_dfv fuel env jobid)) (out_edges (te_sel env) (tr_graph (fst st)) u) st)
          (subsystems_of env) (t1, 0)) (\<lambda>x. ?P x \<and> (\<forall>s\<in>set (subsystems_of env). ?Q s x))"
      proof (rule wp_each_all [where R = "\<lambda>(t', rc :: int) (t'', rc' :: int). tagged jobid t'' \<subseteq> tagged jobid t'"])
        show "?P (t1, 0)" using rem_post_refl [OF r1] by simp
        fix s and st :: "trav \<times> int" assume "?P st"
        then obtain t' where st: "st = (t', 0)" "rem_post env jobid {} t1 t'" by auto
        show "wp False False (each (rem_edge_visit env s (rem_dfv fuel env jobid)) (out_edges (te_sel env) (tr_graph (fst st)) u) st)
            (\<lambda>x. ?P x \<and> ?Q s x \<and> (case st of (t', rc) \<Rightarrow> \<lambda>(t'', rc'). tagged jobid t'' \<subseteq> tagged jobid t') x)"
          using rem_edges_loop [OF Suc.IH r1 c1 st(2), of s u] by (auto simp: st(1) elim!: wp_mono)
      qed auto
      then have "wp False False (rem_dfv (Suc fuel) env jobid u t)
          (\<lambda>(t', rc). rc = 0 \<and> rem_post env jobid {} t1 t' \<and> (\<forall>e\<in>set (rem_edges env t1 u). target (tr_graph t1) e \<notin> tagged jobid t'))"
        using j dm by (auto simp: v t1_def [symmetric] elim!: wp_mono)
      then show ?thesis
      proof (rule wp_mono)
        fix x assume x: "case x of (t', rc) \<Rightarrow> rc = 0 \<and> rem_post env jobid {} t1 t' \<and>
            (\<forall>e\<in>set (rem_edges env t1 u). target (tr_graph t1) e \<notin> tagged jobid t')"
        obtain t' where t': "x = (t', 0)" "rem_post env jobid {} t1 t'"
            "\<forall>e\<in>set (rem_edges env t u). target (tr_graph t) e \<notin> tagged jobid t'"
          using x by (auto simp: rem_edges_same [OF s1 ok] same_shape_lookups(2) [OF s1])
        have "rem_post env jobid {u} t t'" using rem_post_trans [OF post1(1) t'(2) ok] by simp
        then have "rem_post env jobid {} t t'" using t'(3) by (auto simp: rem_post_def)
        then show "?post x" using t'(1) rem_post_tagged [OF t'(2)] post1(2) by auto
      qed
    qed
  qed
qed (simp add: rem_visit_ok_def)

text \<open>
  The vertices with the job that the removal reaches from a root, along vertices with the job.
\<close>

inductive reached :: "trav_env \<Rightarrow> int \<Rightarrow> trav \<Rightarrow> nat \<Rightarrow> nat \<Rightarrow> bool" for env jobid t root where
  reached_root: "root \<in> tagged jobid t \<Longrightarrow> reached env jobid t root root"
| reached_edge: "reached env jobid t root u \<Longrightarrow> e \<in> set (rem_edges env t u) \<Longrightarrow> target (tr_graph t) e \<in> tagged jobid t \<Longrightarrow>
    reached env jobid t root (target (tr_graph t) e)"

lemma reached_tagged: "reached env jobid t root u \<Longrightarrow> u \<in> tagged jobid t"
  by (induction rule: reached.induct) auto

lemma rem_post_reached:
  assumes "rem_post env jobid {} t t'" and "root \<notin> tagged jobid t'" and "reached env jobid t root u"
  shows "u \<notin> tagged jobid t'"
  using assms(3)
proof (induction rule: reached.induct)
  case (reached_edge u e)
  then show ?case using assms(1) reached_tagged by (fastforce simp: rem_post_def)
qed (rule assms(2))

text \<open>After \<open>tick_color_base\<close> no colour that was in use stops the traversal.\<close>

definition colors_used :: "string \<Rightarrow> trav \<Rightarrow> bool" where
  "colors_used dm t \<longleftrightarrow> 0 \<le> tr_color_base t \<and> tr_color_base t + 5 < 2 ^ 64 \<and>
     (\<forall>u<length (vertices (tr_graph t)). 0 \<le> color_of t u dm \<and> color_of t u dm \<le> tr_color_base t + 2)"

lemma tick_color_base_removable:
  assumes "targets_ok (tr_graph t)" and "\<forall>u<length (vertices (tr_graph t)). pool_sound env (pool t u)"
    and "colors_used (dom_of env) t"
  shows "removable env (tick_color_base t)"
proof -
  have b: "tr_color_base (tick_color_base t) = tr_color_base t + 3"
      "gray (tr_color_base t + 3) = tr_color_base t + 4" "black (tr_color_base t + 3) = tr_color_base t + 5"
    using assms(3) by (auto simp: tick_color_base_def color_reset_def NEW_BASE_def gray_def black_def GRAY_OFFSET_def
        BLACK_OFFSET_def colors_used_def u64_def)
  have "color_of (tick_color_base t) u s = color_of t u s" "pool (tick_color_base t) u = pool t u"
      "tr_graph (tick_color_base t) = tr_graph t" for u s
    by (simp_all add: tick_color_base_def color_of_def pool_def)
  with assms b show ?thesis by (fastforce simp: removable_def colors_used_def)
qed

lemma remove_ok:
  assumes "dom_of env \<in> set (subsystems_of env)" and "targets_ok (tr_graph t)"
    and "\<forall>u<length (vertices (tr_graph t)). pool_sound env (pool t u)" and "colors_used (dom_of env) t"
    and "root < length (vertices (tr_graph t))" and "length (vertices (tr_graph t)) < fuel"
  shows "wp False False (remove fuel env root jobid t)
    (\<lambda>(t', rc). rc = 0 \<and> rem_post env jobid {} (tick_color_base t) t' \<and> root \<notin> tagged jobid t')"
proof -
  have g: "tr_graph (tick_color_base t) = tr_graph t" by (simp add: tick_color_base_def)
  have "card (tagged jobid (tick_color_base t)) \<le> card {..<length (vertices (tr_graph t))}"
    by (intro card_mono) (auto simp: tagged_def g)
  with assms(6) have "card (tagged jobid (tick_color_base t)) < fuel" by simp
  with rem_dfv_ok [OF assms(1), of fuel jobid] tick_color_base_removable [OF assms(2-4)] assms(5)
  show ?thesis by (simp add: remove_def rem_visit_ok_def g)
qed

end
