(* ===== verification/Traverser_Booking.thy ===== *)
theory Traverser_Booking
  imports Traverser_Remove
begin

text \<open>
  Booking a job on a pool (\<open>upd_sched\<close>): the spans that are added are those that a removal takes away.
\<close>

text \<open>The pool with the job: all else is as before, and without the spans of the job so are the planners.\<close>

definition booked :: "string \<Rightarrow> int \<Rightarrow> resource_pool \<Rightarrow> resource_pool \<Rightarrow> bool" where
  "booked dm jobid p p' \<longleftrightarrow>
     (let sc = p_schedule p; sc' = p_schedule p'; i = p_idata p; i' = p_idata p' in
      jobs_of p' = insert jobid (jobs_of p) \<and>
      (\<forall>j. j \<noteq> jobid \<longrightarrow> map_of (x_spans sc') j = map_of (x_spans sc) j \<and> job_span sc' j = job_span sc j \<and>
         map_of (job2span i') j = map_of (job2span i) j) \<and>
      without_span (map_of (x_spans sc') jobid) (spans_in (x_checker sc')) = spans_in (x_checker sc) \<and>
      without_span (job_span sc' jobid) (spans_in (plans sc')) = spans_in (plans sc) \<and>
      without_span (map_of (job2span i') jobid) (spans_in (plan_in (subplans i') dm)) = spans_in (plan_in (subplans i) dm) \<and>
      (\<forall>s. s \<noteq> dm \<longrightarrow> plan_in (subplans i') s = plan_in (subplans i) s) \<and>
      colors i' = colors i \<and> p_member_of i' = p_member_of i \<and> p_type p' = p_type p \<and> p_name p' = p_name p)"

lemma add_span_opt_job:
  assumes "ps.holds (te_zkeys env) J m p" and "span_room (t, duration, cs) p" and "j \<notin> J"
  obtains p' sid where "add_span_opt env t duration cs (Some p) = Ret (Some p', sid)"
    and "ps.holds (te_zkeys env) (insert j J) (m(j \<mapsto> sid)) p'"
    and "(span_table p')(sid := None) = span_table p" and "sid = -1 \<longrightarrow> p' = p"
    and "sid \<noteq> -1 \<longrightarrow> 1 \<le> sid \<and> sid = span_counter p + 1"
proof -
  from ps.add_job [OF assms] obtain p' sid where a: "span_add (te_zkeys env) (t, duration, cs) p = Some (p', sid)"
      "ps.holds (te_zkeys env) (insert j J) (m(j \<mapsto> sid)) p'"
      "sid = -1 \<and> p' = p \<or> sid \<noteq> -1 \<and> sid \<notin> dom (span_table p) \<and> (\<exists>s. span_table p' = (span_table p)(sid \<mapsto> s))" by blast
  from a(1) obtain e where e: "planner_add_span (te_zkeys env) t duration cs (length cs) p = Some (p', sid, e)"
    by (auto simp: span_add_def)
  then have 1: "add_span_opt env t duration cs (Some p) = Ret (Some p', sid)" by (simp add: add_span_opt_def)
  have 2: "(span_table p')(sid := None) = span_table p"
  proof (cases "sid = -1")
    case False
    with a(3) obtain s where "span_table p sid = None" "span_table p' = (span_table p)(sid \<mapsto> s)" by blast
    then show ?thesis by (simp add: fun_upd_idem)
  qed (use a(3) no_span_minus_one [OF assms(1)] in simp)
  have 3: "sid = -1 \<longrightarrow> p' = p" using a(3) by auto
  have "sid \<noteq> -1 \<Longrightarrow> sid \<in> dom (span_table p')" using a(3) by auto
  moreover have "sid \<noteq> -1 \<Longrightarrow> sid = span_counter p + 1"
    using planner_add_span_law [of p "te_zkeys env" t duration cs] assms(2) ps.holds_inv [OF assms(1)] e by auto
  ultimately have 4: "sid \<noteq> -1 \<longrightarrow> 1 \<le> sid \<and> sid = span_counter p + 1"
    using span_table_ids [of p' sid] ps.holds_inv [OF a(2)] by auto
  show thesis by (rule that [OF 1 a(2) 2 3 4])
qed

text \<open>A pool that can take the job: the tables do not know it, and the planners have ids left.\<close>

definition bookable :: "trav_env \<Rightarrow> jobmeta \<Rightarrow> resource_pool \<Rightarrow> bool" where
  "bookable env meta p \<longleftrightarrow>
     (let sc = p_schedule p; j = jm_jobid meta in
      pool_ok env p \<and> j \<notin> jobs_of p \<and> j \<notin> dom (map_of (allocations sc)) \<and> j \<notin> dom (map_of (reservations sc)) \<and>
      j \<notin> dom (map_of (job2span (p_idata p))) \<and> 0 \<le> jm_duration meta \<and> jm_at meta + jm_duration meta \<le> INT64_MAX \<and>
      (\<forall>q. plans sc = Some q \<or> x_checker sc = Some q \<longrightarrow> span_counter q < INT64_MAX) \<and>
      (\<forall>q. plan_in (subplans (p_idata p)) (dom_of env) = Some q \<longrightarrow> span_counter q < 2147483647))"

text \<open>\<open>upd_plan\<close>: the span of an exclusive pool.\<close>

lemma job_span_upd [simp]: "job_span (sc\<lparr>plans := a\<rparr>) = job_span sc" "job_span (sc\<lparr>tags := b\<rparr>) = job_span sc"
    "job_span (sc\<lparr>x_checker := a\<rparr>) = job_span sc" "job_span (sc\<lparr>x_spans := b\<rparr>) = job_span sc"
  by (simp_all add: job_span_def fun_eq_iff split: option.split)

definition with_span :: "jobmeta \<Rightarrow> int \<Rightarrow> pool_schedule \<Rightarrow> pool_schedule" where
  "with_span meta sp sc = (if jm_allocate meta then sc\<lparr>allocations := map_put (jm_jobid meta) sp (allocations sc)\<rparr>
                           else sc\<lparr>reservations := map_put (jm_jobid meta) sp (reservations sc)\<rparr>)"

lemma with_span_fields [simp]: "tags (with_span meta sp sc) = tags sc" "x_spans (with_span meta sp sc) = x_spans sc"
    "plans (with_span meta sp sc) = plans sc" "x_checker (with_span meta sp sc) = x_checker sc"
  by (simp_all add: with_span_def)

lemma with_span_job:
  assumes "jm_jobid meta \<notin> dom (map_of (allocations sc))" and "jm_jobid meta \<notin> dom (map_of (reservations sc))"
  shows "job_span (with_span meta sp sc) = (job_span sc)(jm_jobid meta \<mapsto> sp)"
    and "dom (map_of (allocations sc)) \<inter> dom (map_of (reservations sc)) = {} \<Longrightarrow>
      dom (map_of (allocations (with_span meta sp sc))) \<inter> dom (map_of (reservations (with_span meta sp sc))) = {}"
  using assms by (auto simp: with_span_def job_span_def fun_eq_iff dom_def split: option.split)

lemma upd_plan_ok:
  assumes u: "u < length (vertices (tr_graph t))" and b: "bookable env meta (pool t u)"
  obtains (refused) t' where "upd_plan env u s amt meta n (t, acc) = Ret ((t', acc), -1, n + 1)" and "tr_graph t' = tr_graph t"
  | (added) pl pl' sp acc' where "plans (p_schedule (pool t u)) = Some pl" and "sp \<noteq> -1"
    and "upd_plan env u s amt meta n (t, acc) =
      Ret ((upd_schedule u (\<lambda>sc. with_span meta sp (sc\<lparr>plans := Some pl'\<rparr>)) t, acc'), sp, n + 1)"
    and "ps.holds (te_zkeys env) (insert (jm_jobid meta) (jobs_of (pool t u))) ((job_span (p_schedule (pool t u)))(jm_jobid meta \<mapsto> sp)) pl'"
    and "(span_table pl')(sp := None) = span_table pl"
proof -
  let ?sc = "p_schedule (pool t u)"
  from b obtain pl where pl: "plans ?sc = Some pl" "ps.holds (te_zkeys env) (jobs_of (pool t u)) (job_span ?sc) pl"
    by (auto simp: bookable_def pool_ok_def Let_def)
  have "span_room (jm_at meta, jm_duration meta, [amt]) pl" "jm_jobid meta \<notin> jobs_of (pool t u)"
    using b pl(1) by (auto simp: bookable_def span_room_def Let_def)
  note room = this
  obtain pl' sp where r: "add_span_opt env (jm_at meta) (jm_duration meta) [amt] (Some pl) = Ret (Some pl', sp)"
      "ps.holds (te_zkeys env) (insert (jm_jobid meta) (jobs_of (pool t u))) ((job_span ?sc)(jm_jobid meta \<mapsto> sp)) pl'"
      "(span_table pl')(sp := None) = span_table pl" "sp = -1 \<longrightarrow> pl' = pl" by (rule add_span_opt_job [OF pl(2) room])
  show thesis
  proof (cases "sp = -1")
    case True
    have g: "tr_graph (upd_schedule u (\<lambda>sc. sc\<lparr>plans := Some pl\<rparr>) t) = tr_graph t"
      unfolding upd_schedule_def by (subst upd_pool_id) (simp_all add: pl(1) flip: pl(1))
    show thesis
      by (rule refused [of "err_msg ''upd_plan: planner_add_span returned -1.'' (upd_schedule u (\<lambda>sc. sc\<lparr>plans := Some pl\<rparr>) t)"])
        (use True r(1,4) pl(1) g in \<open>simp_all add: upd_plan_def err_msg_def Let_def\<close>)
  next
    case False
    have "upd_plan env u s amt meta n (t, acc) =
      Ret ((upd_schedule u (\<lambda>sc. with_span meta sp (sc\<lparr>plans := Some pl'\<rparr>)) t,
        fst (accum_if env s (p_type (pool (upd_schedule u (\<lambda>sc. sc\<lparr>plans := Some pl'\<rparr>) t) u)) amt acc)), sp, n + 1)"
      using False r(1) pl(1) by (cases "jm_allocate meta") (simp_all add: upd_plan_def upd_schedule_def Let_def with_span_def)
    from added [OF pl(1) False this r(2,3)] show thesis .
  qed
qed

lemma map_of_put_upd: "map_of (map_put k v m) = (map_of m)(k \<mapsto> v)"
  by (simp add: fun_eq_iff)

text \<open>The rest of \<open>upd_sched\<close>: the tag, the span of the exclusivity checker, and the span of the subtree plan.\<close>

lemma upd_subplan_ok:
  assumes u: "u < length (vertices (tr_graph t))"
    and h: "\<forall>q. plan_in (subplans (p_idata (pool t u))) dm = Some q \<longrightarrow>
         ps.holds (te_zkeys env) J (map_of (job2span (p_idata (pool t u)))) q \<and> span_counter q < 2147483647"
    and j: "jm_jobid meta \<notin> J" "jm_jobid meta \<notin> dom (map_of (job2span (p_idata (pool t u))))"
    and m: "0 \<le> jm_duration meta" "jm_at meta + jm_duration meta \<le> INT64_MAX"
  obtains t' rc i' where "upd_subplan env u dm meta dfu t = Ret (t', rc)"
    and "tr_graph t' = tr_graph (upd_idata u (\<lambda>_. i') t)"
    and "colors i' = colors (p_idata (pool t u))" and "p_member_of i' = p_member_of (p_idata (pool t u))"
    and "\<forall>s. s \<noteq> dm \<longrightarrow> plan_in (subplans i') s = plan_in (subplans (p_idata (pool t u))) s"
    and "\<forall>k. k \<noteq> jm_jobid meta \<longrightarrow> map_of (job2span i') k = map_of (job2span (p_idata (pool t u))) k"
    and "\<forall>q. plan_in (subplans i') dm = Some q \<longrightarrow> ps.holds (te_zkeys env) (insert (jm_jobid meta) J) (map_of (job2span i')) q"
    and "\<forall>sp. map_of (job2span i') (jm_jobid meta) = Some sp \<longrightarrow> 1 \<le> sp \<and> sp \<le> 2147483647"
    and "without_span (map_of (job2span i') (jm_jobid meta)) (spans_in (plan_in (subplans i') dm)) =
      spans_in (plan_in (subplans (p_idata (pool t u))) dm)"
    and "plan_in (subplans i') dm = None \<longrightarrow> plan_in (subplans (p_idata (pool t u))) dm = None"
proof -
  let ?i = "p_idata (pool t u)" and ?j = "jm_jobid meta"
  have so: "subplan_of t u dm = plan_in (subplans ?i) dm" by (simp add: subplan_of_def plan_in_def)
  have none: "map_of (job2span ?i) ?j = None" using j(2) by auto
  have grow: "ps.holds (te_zkeys env) (insert ?j J) (map_of (job2span ?i)) q" if "ps.holds (te_zkeys env) J (map_of (job2span ?i)) q" for q
    using that none by (rule ps.holds_insert)
  have id: "tr_graph t = tr_graph (upd_idata u (\<lambda>_. ?i) t)"
    unfolding upd_idata_def by (subst upd_pool_id) simp_all
  show thesis
  proof (cases "plan_in (subplans ?i) dm = None \<or> dfu = []")
    case True
    let ?f = "\<lambda>i. i\<lparr>subplans := if map_of (subplans i) dm = None then map_put dm None (subplans i) else subplans i\<rparr>"
    show thesis
    proof (cases "plan_in (subplans ?i) dm = None")
      case None: True
      have "upd_subplan env u dm meta dfu t = Ret (touch_subplan u dm t, 0)" by (simp add: upd_subplan_def so None)
      moreover have "tr_graph (touch_subplan u dm t) = tr_graph (upd_idata u (\<lambda>_. ?f ?i) t)"
        unfolding touch_subplan_def upd_idata_def by (intro arg_cong [where f = tr_graph] upd_pool_cong) simp
      ultimately show thesis
        by (rule that [of "touch_subplan u dm t" 0 "?f ?i"])
          (use None none in \<open>auto simp: plan_in_def split: option.splits if_splits\<close>)
    next
      case False
      with True have "upd_subplan env u dm meta dfu t = Ret (t, 0)" by (auto simp: upd_subplan_def so split: option.split)
      from that [OF this id] show thesis using h none grow by simp
    qed
  next
    case False
    then obtain q where q: "plan_in (subplans ?i) dm = Some q" and "dfu \<noteq> []" by auto
    with h have hq: "ps.holds (te_zkeys env) J (map_of (job2span ?i)) q" "span_counter q < 2147483647" by blast+
    have "span_room (jm_at meta, jm_duration meta, count_aggs (Some q) dfu) q" using hq(2) m by (simp add: span_room_def)
    from hq(1) this j(1) obtain q' sp where r: "add_span_opt env (jm_at meta) (jm_duration meta) (count_aggs (Some q) dfu) (Some q) = Ret (Some q', sp)"
        "ps.holds (te_zkeys env) (insert ?j J) ((map_of (job2span ?i))(?j \<mapsto> sp)) q'" "(span_table q')(sp := None) = span_table q"
        "sp = -1 \<longrightarrow> q' = q" "sp \<noteq> -1 \<longrightarrow> 1 \<le> sp \<and> sp = span_counter q + 1"
      by (rule add_span_opt_job)
    show thesis
    proof (cases "sp = -1")
      case True
      let ?i' = "?i\<lparr>subplans := map_put dm (Some q') (subplans ?i)\<rparr>"
      have "upd_subplan env u dm meta dfu t =
          Ret (err_msg ''upd_sched: planner_add_span returned -1.'' (upd_idata u (\<lambda>i. i\<lparr>subplans := map_put dm (Some q') (subplans i)\<rparr>) t), -1)"
        using True r(1) q \<open>dfu \<noteq> []\<close> by (simp add: upd_subplan_def so)
      moreover have "tr_graph (err_msg ''upd_sched: planner_add_span returned -1.'' (upd_idata u (\<lambda>i. i\<lparr>subplans := map_put dm (Some q') (subplans i)\<rparr>) t)) =
          tr_graph (upd_idata u (\<lambda>_. ?i') t)"
        by (simp add: err_msg_def upd_idata_def upd_pool_def upd_vertex_def pool_def)
      ultimately show thesis
        by (rule that [of _ _ ?i']) (use True r(4) q none hq(1) grow in \<open>auto simp: plan_in_def err_msg_def\<close>)
    next
      case False
      let ?i' = "?i\<lparr>subplans := map_put dm (Some q') (subplans ?i), job2span := map_put ?j sp (job2span ?i)\<rparr>"
      let ?t' = "upd_idata u (\<lambda>i. i\<lparr>subplans := map_put dm (Some q') (subplans i), job2span := map_put ?j sp (job2span i)\<rparr>) t"
      have "upd_subplan env u dm meta dfu t = Ret (?t', 0)"
        using False r(1) q \<open>dfu \<noteq> []\<close> by (simp add: upd_subplan_def so upd_idata_def)
      moreover have "tr_graph ?t' = tr_graph (upd_idata u (\<lambda>_. ?i') t)"
        unfolding upd_idata_def by (intro arg_cong [where f = tr_graph] upd_pool_cong) simp
      ultimately show thesis
        by (rule that [of _ _ ?i']) (use False r(2,3,5) q hq(2) in \<open>auto simp: plan_in_def map_of_put_upd simp del: map_of_put\<close>)
    qed
  qed
qed

text \<open>The tag and the span of the exclusivity checker.\<close>

definition with_tag :: "jobmeta \<Rightarrow> int \<Rightarrow> planner \<Rightarrow> pool_schedule \<Rightarrow> pool_schedule" where
  "with_tag meta sp xc sc = sc\<lparr>tags := map_put (jm_jobid meta) (jm_jobid meta) (tags sc), x_checker := Some xc,
     x_spans := map_put (jm_jobid meta) sp (x_spans sc)\<rparr>"

lemma with_tag_fields [simp]: "plans (with_tag meta sp xc sc) = plans sc" "x_checker (with_tag meta sp xc sc) = Some xc"
    "allocations (with_tag meta sp xc sc) = allocations sc" "reservations (with_tag meta sp xc sc) = reservations sc"
    "job_span (with_tag meta sp xc sc) = job_span sc"
    "map_of (x_spans (with_tag meta sp xc sc)) = (map_of (x_spans sc))(jm_jobid meta \<mapsto> sp)"
    "dom (map_of (tags (with_tag meta sp xc sc))) = insert (jm_jobid meta) (dom (map_of (tags sc)))"
  by (auto simp: with_tag_def fun_eq_iff job_span_def dom_def split: option.split)

lemma tagging_ok:
  assumes u: "u < length (vertices (tr_graph t))" and b: "bookable env meta (pool t u)"
    and sc: "x_checker (p_schedule (pool t1 u)) = x_checker (p_schedule (pool t u))" "u < length (vertices (tr_graph t1))"
  obtains xc xc' sp where "x_checker (p_schedule (pool t u)) = Some xc"
    and "add_span_opt env (jm_at meta) (jm_duration meta) [1] (x_checker (p_schedule (pool t1 u))) = Ret (Some xc', sp)"
    and "ps.holds (te_zkeys env) (insert (jm_jobid meta) (jobs_of (pool t u))) ((map_of (x_spans (p_schedule (pool t u))))(jm_jobid meta \<mapsto> sp)) xc'"
    and "(span_table xc')(sp := None) = span_table xc"
proof -
  let ?sc = "p_schedule (pool t u)"
  from b obtain xc where xc: "x_checker ?sc = Some xc" "ps.holds (te_zkeys env) (jobs_of (pool t u)) (map_of (x_spans ?sc)) xc"
    by (auto simp: bookable_def pool_ok_def Let_def)
  have room: "span_room (jm_at meta, jm_duration meta, [1]) xc" "jm_jobid meta \<notin> jobs_of (pool t u)"
    using b xc(1) by (auto simp: bookable_def span_room_def Let_def)
  show thesis by (rule add_span_opt_job [OF xc(2) room]) (use xc(1) sc in \<open>auto intro: that\<close>)
qed

text \<open>The pool of a vertex after its schedule \<open>sc\<close>, with the plan of the job or without, gets the tag and the subtree span.\<close>

lemma booked_pool:
  assumes b: "bookable env meta p"
    and sc: "tags sc = tags (p_schedule p)" "x_spans sc = x_spans (p_schedule p)"
      "\<forall>j. j \<noteq> jm_jobid meta \<longrightarrow> job_span sc j = job_span (p_schedule p) j"
      "dom (map_of (allocations sc)) \<inter> dom (map_of (reservations sc)) = {}"
    and pl: "plans sc = Some pl" "ps.holds (te_zkeys env) (insert (jm_jobid meta) (jobs_of p)) (job_span sc) pl"
      "without_span (job_span sc (jm_jobid meta)) (span_table pl) = spans_in (plans (p_schedule p))"
    and x: "ps.holds (te_zkeys env) (insert (jm_jobid meta) (jobs_of p)) ((map_of (x_spans (p_schedule p)))(jm_jobid meta \<mapsto> sp)) xc'"
      "(span_table xc')(sp := None) = spans_in (x_checker (p_schedule p))"
    and i: "colors i' = colors (p_idata p)" "p_member_of i' = p_member_of (p_idata p)"
      "\<forall>s. s \<noteq> dom_of env \<longrightarrow> plan_in (subplans i') s = plan_in (subplans (p_idata p)) s"
      "\<forall>k. k \<noteq> jm_jobid meta \<longrightarrow> map_of (job2span i') k = map_of (job2span (p_idata p)) k"
      "\<forall>q. plan_in (subplans i') (dom_of env) = Some q \<longrightarrow> ps.holds (te_zkeys env) (insert (jm_jobid meta) (jobs_of p)) (map_of (job2span i')) q"
      "\<forall>sp. map_of (job2span i') (jm_jobid meta) = Some sp \<longrightarrow> 1 \<le> sp \<and> sp \<le> 2147483647"
      "without_span (map_of (job2span i') (jm_jobid meta)) (spans_in (plan_in (subplans i') (dom_of env))) =
        spans_in (plan_in (subplans (p_idata p)) (dom_of env))"
      "plan_in (subplans i') (dom_of env) = None \<longrightarrow> plan_in (subplans (p_idata p)) (dom_of env) = None"
      "plan_in (subplans i') (dom_of env) \<noteq> None \<longrightarrow> plan_in (subplans (p_idata p)) (dom_of env) \<noteq> None"
  defines "p' \<equiv> p\<lparr>p_schedule := with_tag meta sp xc' sc, p_idata := i'\<rparr>"
  shows "booked (dom_of env) (jm_jobid meta) p p'" and "pool_ok env p'"
proof -
  let ?j = "jm_jobid meta"
  show "booked (dom_of env) ?j p p'"
    using sc pl x i by (simp add: booked_def p'_def Let_def)
  have J: "jobs_of p' = insert ?j (jobs_of p)" by (simp add: p'_def sc)
  have b': "jobs_of p \<subseteq> dom (map_of (x_spans (p_schedule p)))" using b by (simp add: bookable_def pool_ok_def Let_def)
  have "1 \<le> s \<and> s \<le> 2147483647"
    if q: "plan_in (subplans i') (dom_of env) = Some q" and k: "k \<in> insert ?j (jobs_of p)" "map_of (job2span i') k = Some s" for q k s
  proof (cases "k = ?j")
    case False
    with k i(4) have k': "k \<in> jobs_of p" "map_of (job2span (p_idata p)) k = Some s" by auto
    from q i(9) obtain q0 where "plan_in (subplans (p_idata p)) (dom_of env) = Some q0" by auto
    with b k' show ?thesis unfolding bookable_def pool_ok_def Let_def by blast
  qed (use i(6) k(2) in simp)
  then show "pool_ok env p'" unfolding pool_ok_def Let_def J
    using pl x(1) sc b' i(5) by (auto simp: p'_def)
qed

lemma pool_cong: "tr_graph t = tr_graph t' \<Longrightarrow> pool t v = pool t' v"
  by (simp add: pool_def)

lemma plan_in_None_subplan:
  "upd_subplan env u dm meta dfu t = Ret (t', rc) \<Longrightarrow> u < length (vertices (tr_graph t)) \<Longrightarrow>
   plan_in (subplans (p_idata (pool t u))) dm = None \<Longrightarrow> plan_in (subplans (p_idata (pool t' u))) dm = None"
proof -
  assume a: "upd_subplan env u dm meta dfu t = Ret (t', rc)" "u < length (vertices (tr_graph t))"
    "plan_in (subplans (p_idata (pool t u))) dm = None"
  then have "subplan_of t u dm = None" by (simp add: subplan_of_def plan_in_def)
  with a(1) have "t' = touch_subplan u dm t" by (simp add: upd_subplan_def)
  with a(2,3) show ?thesis by (auto simp: touch_subplan_def plan_in_def split: option.splits)
qed

text \<open>\<open>upd_sched\<close> after the plan of the pool is settled: \<open>t1\<close> differs from \<open>t\<close> by the schedule \<open>sc\<close>.\<close>

lemma upd_sched_tag:
  assumes u: "u < length (vertices (tr_graph t))" and b: "bookable env meta (pool t u)"
    and t1: "tr_graph t1 = tr_graph (upd_schedule u (\<lambda>_. sc) t)"
    and sc: "tags sc = tags (p_schedule (pool t u))" "x_spans sc = x_spans (p_schedule (pool t u))"
      "x_checker sc = x_checker (p_schedule (pool t u))"
      "\<forall>j. j \<noteq> jm_jobid meta \<longrightarrow> job_span sc j = job_span (p_schedule (pool t u)) j"
      "dom (map_of (allocations sc)) \<inter> dom (map_of (reservations sc)) = {}"
    and pl: "plans sc = Some pl" "ps.holds (te_zkeys env) (insert (jm_jobid meta) (jobs_of (pool t u))) (job_span sc) pl"
      "without_span (job_span sc (jm_jobid meta)) (span_table pl) = spans_in (plans (p_schedule (pool t u)))"
  obtains xc sp t2 rc where "add_span_opt env (jm_at meta) (jm_duration meta) [1] (x_checker (p_schedule (pool t1 u))) = Ret (Some xc, sp)"
    and "upd_subplan env u (dom_of env) meta dfu (upd_schedule u (with_tag meta sp xc) t1) = Ret (t2, rc)"
    and "booked (dom_of env) (jm_jobid meta) (pool t u) (pool t2 u)" and "pool_ok env (pool t2 u)"
    and "\<forall>v. v \<noteq> u \<longrightarrow> pool t2 v = pool t v"
proof -
  let ?p = "pool t u" and ?j = "jm_jobid meta" and ?dm = "dom_of env"
  have u1: "u < length (vertices (tr_graph t1))" by (simp add: t1 upd_schedule_def u)
  have p1: "pool t1 v = (if v = u then ?p\<lparr>p_schedule := sc\<rparr> else pool t v)" for v
    using pool_cong [OF t1, of v] u by (auto simp: upd_schedule_def pool_upd_pool)
  have xsc: "x_checker (p_schedule (pool t1 u)) = x_checker (p_schedule ?p)" by (simp add: p1 sc)
  obtain xc0 xc sp where x: "x_checker (p_schedule ?p) = Some xc0"
      "add_span_opt env (jm_at meta) (jm_duration meta) [1] (x_checker (p_schedule (pool t1 u))) = Ret (Some xc, sp)"
      "ps.holds (te_zkeys env) (insert ?j (jobs_of ?p)) ((map_of (x_spans (p_schedule ?p)))(?j \<mapsto> sp)) xc"
      "(span_table xc)(sp := None) = span_table xc0"
    by (rule tagging_ok [OF u b xsc u1])
  define t1' where "t1' = upd_schedule u (with_tag meta sp xc) t1"
  have u1': "u < length (vertices (tr_graph t1'))" using u1 by (simp add: t1'_def upd_schedule_def)
  have p1': "pool t1' v = (if v = u then ?p\<lparr>p_schedule := with_tag meta sp xc sc\<rparr> else pool t v)" for v
    using u1 by (simp add: t1'_def upd_schedule_def pool_upd_pool p1)
  have i1: "p_idata (pool t1' u) = p_idata ?p" by (simp add: p1')
  have bj: "?j \<notin> jobs_of ?p" "?j \<notin> dom (map_of (job2span (p_idata ?p)))" "0 \<le> jm_duration meta"
      "jm_at meta + jm_duration meta \<le> INT64_MAX"
    and bq: "\<forall>q. plan_in (subplans (p_idata ?p)) ?dm = Some q \<longrightarrow>
         ps.holds (te_zkeys env) (jobs_of ?p) (map_of (job2span (p_idata ?p))) q \<and> span_counter q < 2147483647"
    using b by (auto simp: bookable_def pool_ok_def Let_def)
  obtain t2 rc i' where s: "upd_subplan env u ?dm meta dfu t1' = Ret (t2, rc)" "tr_graph t2 = tr_graph (upd_idata u (\<lambda>_. i') t1')"
      "colors i' = colors (p_idata ?p)" "p_member_of i' = p_member_of (p_idata ?p)"
      "\<forall>s. s \<noteq> ?dm \<longrightarrow> plan_in (subplans i') s = plan_in (subplans (p_idata ?p)) s"
      "\<forall>k. k \<noteq> ?j \<longrightarrow> map_of (job2span i') k = map_of (job2span (p_idata ?p)) k"
      "\<forall>q. plan_in (subplans i') ?dm = Some q \<longrightarrow> ps.holds (te_zkeys env) (insert ?j (jobs_of ?p)) (map_of (job2span i')) q"
      "\<forall>sp. map_of (job2span i') ?j = Some sp \<longrightarrow> 1 \<le> sp \<and> sp \<le> 2147483647"
      "without_span (map_of (job2span i') ?j) (spans_in (plan_in (subplans i') ?dm)) = spans_in (plan_in (subplans (p_idata ?p)) ?dm)"
      "plan_in (subplans i') ?dm = None \<longrightarrow> plan_in (subplans (p_idata ?p)) ?dm = None"
    by (rule upd_subplan_ok [OF u1', of ?dm env "jobs_of ?p" meta dfu, unfolded i1, OF bq bj])
  have p2: "pool t2 v = (if v = u then ?p\<lparr>p_schedule := with_tag meta sp xc sc, p_idata := i'\<rparr> else pool t v)" for v
    using pool_cong [OF s(2), of v] u1' by (simp add: upd_idata_def pool_upd_pool p1')
  have n: "plan_in (subplans i') ?dm \<noteq> None \<longrightarrow> plan_in (subplans (p_idata ?p)) ?dm \<noteq> None"
    using plan_in_None_subplan [OF s(1) u1'] unfolding p2 p1' by fastforce
  note booked = booked_pool [OF b sc(1,2,4,5) pl x(3) _ s(3-10) n]
  show thesis
    by (rule that [OF x(2) s(1) [unfolded t1'_def]]) (use booked x(1,4) in \<open>simp_all add: p2\<close>)
qed

lemma upd_sched_ok:
  assumes u: "u < length (vertices (tr_graph t))" and b: "bookable env meta (pool t u)" and n: "0 \<le> n"
  obtains t' acc' ss' where "upd_sched env u (dom_of env) amt excl n meta dfu (t, acc, ss) = Ret ((t', acc', ss'), if excl then n + 1 else n)"
    and "pool_ok env (pool t' u)" and "\<forall>v. v \<noteq> u \<longrightarrow> pool t' v = pool t v"
    and "booked (dom_of env) (jm_jobid meta) (pool t u) (pool t' u) \<or>
      pool t' u = pool t u \<and> (excl \<and> jm_jobid meta \<notin> jobs_of (pool t' u) \<or> n = 0)"
proof -
  let ?p = "pool t u" and ?j = "jm_jobid meta" and ?dm = "dom_of env" and ?sc = "p_schedule (pool t u)"
  from b have ok: "pool_ok env ?p" and fresh: "?j \<notin> jobs_of ?p" "?j \<notin> dom (map_of (allocations ?sc))" "?j \<notin> dom (map_of (reservations ?sc))"
    by (simp_all add: bookable_def Let_def)
  then obtain pl where pl: "plans ?sc = Some pl" "ps.holds (te_zkeys env) (jobs_of ?p) (job_span ?sc) pl"
    and disj: "dom (map_of (allocations ?sc)) \<inter> dom (map_of (reservations ?sc)) = {}"
    by (auto simp: pool_ok_def Let_def)
  have none: "job_span ?sc ?j = None" using fresh by (auto simp: job_span_def split: option.split)
  note finish = that
  let ?n = "if excl then n + 1 else n"
  have tag: thesis
    if r: "upd_sched env u ?dm amt excl n meta dfu (t, acc, ss) = upd_tag env u ?dm amt excl ?n meta dfu (t1, acc1, ss)"
      and t1: "tr_graph t1 = tr_graph (upd_schedule u (\<lambda>_. sc) t)"
      and sc: "tags sc = tags ?sc" "x_spans sc = x_spans ?sc" "x_checker sc = x_checker ?sc"
        "\<forall>j. j \<noteq> ?j \<longrightarrow> job_span sc j = job_span ?sc j" "dom (map_of (allocations sc)) \<inter> dom (map_of (reservations sc)) = {}"
      and p: "plans sc = Some pl1" "ps.holds (te_zkeys env) (insert ?j (jobs_of ?p)) (job_span sc) pl1"
        "without_span (job_span sc ?j) (span_table pl1) = spans_in (plans ?sc)"
    for t1 acc1 sc pl1
  proof -
    obtain xc sp t2 rc where x: "add_span_opt env (jm_at meta) (jm_duration meta) [1] (x_checker (p_schedule (pool t1 u))) = Ret (Some xc, sp)"
      "upd_subplan env u ?dm meta dfu (upd_schedule u (with_tag meta sp xc) t1) = Ret (t2, rc)"
      "booked ?dm ?j ?p (pool t2 u)" "pool_ok env (pool t2 u)" "\<forall>v. v \<noteq> u \<longrightarrow> pool t2 v = pool t v"
      by (rule upd_sched_tag [OF u b t1 sc p])
    have u1: "u < length (vertices (tr_graph t1))" by (simp add: t1 upd_schedule_def u)
    have "upd_schedule u (\<lambda>sc. sc\<lparr>x_checker := Some xc, x_spans := map_put ?j sp (x_spans sc)\<rparr>)
        (upd_schedule u (\<lambda>sc. sc\<lparr>tags := map_put ?j ?j (tags sc)\<rparr>) t1) = upd_schedule u (with_tag meta sp xc) t1"
      by (auto simp: upd_schedule_def with_tag_def intro!: upd_pool_cong)
    moreover have "x_checker (p_schedule (pool (upd_schedule u (\<lambda>sc. sc\<lparr>tags := map_put ?j ?j (tags sc)\<rparr>) t1) u)) =
        x_checker (p_schedule (pool t1 u))" using u1 by (simp add: upd_schedule_def)
    ultimately have r': "upd_tag env u ?dm amt excl ?n meta dfu (t1, acc1, ss) =
        (if rc = -1 then Ret ((t2, acc1, ss), ?n)
         else Ret ((t2\<lparr>tr_trav_level := u32 (tr_trav_level t2 - 1)\<rparr>,
           fold (\<lambda>(ty, c) acc. fst (accum_if env ?dm ty c acc)) dfu acc1, emit_vertex t2 u amt excl ss), ?n))"
      using x(1,2) by (simp add: upd_tag_def Let_def)
    have p3: "pool (t2\<lparr>tr_trav_level := k\<rparr>) v = pool t2 v" for k v by (simp add: pool_def)
    show thesis
    proof (cases "rc = -1")
      case True
      show thesis by (rule finish [of t2 acc1 ss]) (use True r r' x(3-5) in simp_all)
    next
      case False
      show thesis
        by (rule finish [of "t2\<lparr>tr_trav_level := u32 (tr_trav_level t2 - 1)\<rparr>"
              "fold (\<lambda>(ty, c) acc. fst (accum_if env ?dm ty c acc)) dfu acc1" "emit_vertex t2 u amt excl ss"])
          (use False r r' x(3-5) in \<open>simp_all add: p3\<close>)
    qed
  qed
  show thesis
  proof (cases excl)
    case e: False
    show thesis
    proof (cases "n = 0")
      case True
      show thesis
        by (rule that [of "t\<lparr>tr_trav_level := u32 (tr_trav_level t - 1)\<rparr>" acc ss])
          (use e True ok in \<open>simp_all add: upd_sched_def pool_def\<close>)
    next
      case False
      with n have "0 < n" by simp
      show thesis
      proof (rule tag [of t acc ?sc pl])
        show "tr_graph t = tr_graph (upd_schedule u (\<lambda>_. ?sc) t)" by (simp add: upd_schedule_def upd_pool_id)
        show "ps.holds (te_zkeys env) (insert ?j (jobs_of ?p)) (job_span ?sc) pl" using pl(2) none by (rule ps.holds_insert)
      qed (use e \<open>0 < n\<close> none disj pl in \<open>simp_all add: upd_sched_def\<close>)
    qed
  next
    case e: True
    show thesis
      using u b
    proof (cases rule: upd_plan_ok [of u t env meta ?dm amt n acc])
      case (refused t')
      show thesis
        by (rule that [of t' acc ss])
          (use e refused fresh ok in \<open>simp_all add: upd_sched_def pool_cong [OF refused(2)]\<close>)
    next
      case (added pl0 pl' sp acc')
      let ?sc' = "with_span meta sp (?sc\<lparr>plans := Some pl'\<rparr>)" and ?t1 = "upd_schedule u (\<lambda>sc. with_span meta sp (sc\<lparr>plans := Some pl'\<rparr>)) t"
      have js: "job_span ?sc' = (job_span ?sc)(?j \<mapsto> sp)"
        "dom (map_of (allocations ?sc')) \<inter> dom (map_of (reservations ?sc')) = {}"
        using with_span_job [of meta "?sc\<lparr>plans := Some pl'\<rparr>" sp] fresh disj by simp_all
      show thesis
      proof (rule tag [of ?t1 acc' ?sc' pl'])
        show "tr_graph ?t1 = tr_graph (upd_schedule u (\<lambda>_. ?sc') t)"
          unfolding upd_schedule_def by (intro arg_cong [where f = tr_graph] upd_pool_cong) simp
      qed (use e n added js in \<open>simp_all add: upd_sched_def\<close>)
    qed
  qed
qed

end
