(* ===== verification/Traverser_Sample.thy ===== *)
theory Traverser_Sample
  imports Traverser_Booking Planner_Properties
begin

text \<open>
  A small resource graph, a node with a pool of four cores, on which the properties of the traverser are shown
  not to be vacuous: with its planners new, and with job 7 booked on the node.
\<close>

definition sample_plan :: "string \<Rightarrow> int \<Rightarrow> planner" where
  "sample_plan ty n = initialize 0 1000 (blank_planner [n, 0, 0, 0, 0] [ty] 1)"

definition sample_x :: planner where
  "sample_x = sample_plan X_CHECKER_JOBS_STR X_CHECKER_NJOBS"

definition sample_pool :: "string \<Rightarrow> int \<Rightarrow> int \<Rightarrow> resource_pool" where
  "sample_pool ty i n = resource_pool_new\<lparr>p_type := ty, p_basename := ty, p_name := ty @ show_int i, p_id := i, p_size := n,
     p_schedule := schedule_new\<lparr>plans := Some (sample_plan ty n), x_checker := Some sample_x\<rparr>,
     p_idata := pool_infra_new\<lparr>p_member_of := [(''containment'', ''*'')]\<rparr>\<rparr>"

definition sample_graph :: resource_graph where
  "sample_graph = \<lparr>vertices = [sample_pool ''node'' 0 1, sample_pool ''core'' 0 4],
     edges = [\<lparr>e_src = 0, e_tgt = 1, e_name = [], e_idata = relation_infra_new\<lparr>e_member_of := [(''containment'', ''contains'')]\<rparr>\<rparr>]\<rparr>"

definition sample_matcher :: matcher_data where
  "sample_matcher = fst (add_subsystem ''containment'' ''*'' new_matcher_data)"

definition sample_env :: trav_env where
  "sample_env = \<lparr>te_sel = [(''containment'', [''*''])], te_roots = [(''containment'', 0)],
     te_match = high_first insertion_sort sample_matcher, te_zkeys = id\<rparr>"

definition sample_count :: "int \<Rightarrow> count_spec" where
  "sample_count n = \<lparr>c_min = n, c_max = n, c_oper = CHR ''+'', c_operand = 1\<rparr>"

definition sample_cores :: "int \<Rightarrow> tristate \<Rightarrow> resource" where
  "sample_cores n x = Resource ''core'' (sample_count n) [] [] [] x [] []"

definition sample_request :: "tristate \<Rightarrow> resource list \<Rightarrow> resource list" where
  "sample_request x rs = [Resource ''node'' (sample_count 1) [] [] [] x rs []]"

definition sample_trav :: trav where
  "sample_trav = trav_new sample_graph"

definition sample_meta :: jobmeta where
  "sample_meta = \<lparr>jm_allocate = True, jm_jobid = 7, jm_at = 0, jm_duration = 10\<rparr>"

definition sample_traverser :: dfu_traverser where
  "sample_traverser = \<lparr>dt_trav = sample_trav, dt_has_graph = True, dt_roots = Some [(''containment'', 0)],
     dt_match = Some (high_first insertion_sort sample_matcher), dt_sel = [(''containment'', [''*''])], dt_zkeys = id\<rparr>"

definition sample_job :: "resource list \<Rightarrow> jobspec" where
  "sample_job rs = \<lparr>j_version = 1, j_resources = rs, j_tasks = [], j_attributes = [(''system'', [(''duration'', ''10'')])]\<rparr>"

text \<open>The result of a run: the return value, the emitted text, and the cores left at time 5.\<close>

definition run_outcome :: "resource list \<Rightarrow> (int \<times> string \<times> int option) outcome" where
  "run_outcome rs = bind (traverser_run insertion_sort 3 3 sample_traverser (sample_job rs) MATCH_ALLOCATE 7 0 [])
     (\<lambda>((d, _, _, ss), rc, _). Ret (rc, ss, case plans (p_schedule (pool (dt_trav d) 1)) of None \<Rightarrow> None
        | Some p \<Rightarrow> map_option fst (planner_avail_resources_at p 5 0)))"

section \<open>The sample is in order\<close>

lemma sample_plan_inv: "0 \<le> n \<Longrightarrow> n \<le> 2147483647 \<Longrightarrow> planner_inv (sample_plan ty n)"
  unfolding sample_plan_def
  by (rule initialize_inv) (auto simp: totals_ok_def blank_planner_def less_Suc_eq numeral_eq_Suc)

lemma sample_plan_fields [simp]: "span_lookup (sample_plan ty n) = []" "span_counter (sample_plan ty n) = 0"
    "total_resources (sample_plan ty n) = [n, 0, 0, 0, 0]" "plan_start (sample_plan ty n) = 0" "plan_end (sample_plan ty n) = 1000"
    "dimension (sample_plan ty n) = 1" "resource_types (sample_plan ty n) = [ty]"
  by (simp_all add: sample_plan_def initialize_def Let_def blank_planner_def i64_def)

lemma sample_plan_bounded: "0 \<le> n \<Longrightarrow> n \<le> 2147483647 \<Longrightarrow> bounded (sample_plan ty n)"
  by (auto simp: bounded_def less_Suc_eq numeral_eq_Suc)

lemma holds_no_job: "planner_inv p \<Longrightarrow> zkeys_ok z \<Longrightarrow> ps.holds z {} m p"
  unfolding ps.holds_def by simp

lemma dom_sample_env [simp]: "dom_of sample_env = ''containment''" "subsystems_of sample_env = [''containment'']"
  by code_simp+

lemma zkeys_sample_env [simp]: "te_zkeys sample_env = id"
  by (simp add: sample_env_def)

lemma sample_pool_bookable:
  assumes "0 \<le> n" and "n \<le> 2147483647"
  shows "bookable sample_env sample_meta (sample_pool ty i n)"
proof -
  have x: "planner_inv sample_x" unfolding sample_x_def X_CHECKER_NJOBS_def by (rule sample_plan_inv) simp_all
  show ?thesis
    using sample_plan_inv [OF assms] x sample_plan_bounded [OF assms]
    by (auto simp: bookable_def pool_ok_def sample_pool_def schedule_new_def pool_infra_new_def sample_meta_def sample_x_def
        plan_in_def Let_def intro!: holds_no_job simp del: zkeys_id) simp_all
qed

lemma sample_node_lengths [simp]: "length (vertices sample_graph) = 2" "tr_graph sample_trav = sample_graph"
  by (simp_all add: sample_graph_def sample_trav_def trav_new_def)

lemma sample_targets_ok [simp]: "targets_ok sample_graph"
  by (simp add: targets_ok_def sample_graph_def)

lemma pool_sample_trav: "pool sample_trav 0 = sample_pool ''node'' 0 1" "pool sample_trav 1 = sample_pool ''core'' 0 4"
  by (simp_all add: pool_def sample_graph_def sample_trav_def trav_new_def)

text \<open>The graph with job 7 booked on the node.\<close>

definition sample_booked :: trav where
  "sample_booked = (case upd_sched sample_env 0 ''containment'' 1 True 0 sample_meta [] (sample_trav, [], []) of
      Ret ((t, _), _) \<Rightarrow> t | _ \<Rightarrow> sample_trav)"

lemma sample_booked_eq:
  "\<exists>r. upd_sched sample_env 0 ''containment'' 1 True 0 sample_meta [] (sample_trav, [], []) = Ret ((sample_booked, r), 1)"
  "pool_ok sample_env (pool sample_booked 0)" "pool_ok sample_env (pool sample_booked 1)" 
proof -
  have b: "bookable sample_env sample_meta (pool sample_trav 0)" "pool_ok sample_env (pool sample_trav 1)"
    unfolding pool_sample_trav using sample_pool_bookable [of 4 "''core''" 0]
    by (auto intro: sample_pool_bookable) (simp add: bookable_def Let_def)
  obtain t acc ss where r: "upd_sched sample_env 0 (dom_of sample_env) 1 True 0 sample_meta [] (sample_trav, [], []) = Ret ((t, acc, ss), 1)"
      "pool_ok sample_env (pool t 0)" "\<forall>v. v \<noteq> 0 \<longrightarrow> pool t v = pool sample_trav v"
    by (rule upd_sched_ok [of 0 sample_trav sample_env sample_meta 0 1 True "[]" "[]" "[]"]) (use b in simp_all)
  from this have "sample_booked = t" by (simp add: sample_booked_def)
  with r b(2) show "\<exists>r. upd_sched sample_env 0 ''containment'' 1 True 0 sample_meta [] (sample_trav, [], []) = Ret ((sample_booked, r), 1)"
    "pool_ok sample_env (pool sample_booked 0)" "pool_ok sample_env (pool sample_booked 1)"
    by auto
qed

lemma sample_booked_facts: "length (vertices (tr_graph sample_booked)) = 2"
    "edges (tr_graph sample_booked) = edges sample_graph" "tr_color_base sample_booked = 0"
    "color_of sample_booked 0 ''containment'' = 0" "color_of sample_booked 1 ''containment'' = 0"
    "map_of (tags (p_schedule (pool sample_booked 0))) 7 = Some 7"
  by code_simp+

lemma sample_counts_end: "\<forall>r\<in>set (sample_request x [sample_cores 2 y]). counts_end r"
proof -
  have "select_count (sample_count n) qc \<noteq> None" if "1 \<le> n" "n \<le> 1000" for n qc
    using that by (intro select_count_ends) (auto simp: sample_count_def progress_def count_step_def)
  then show ?thesis by (simp add: sample_request_def sample_cores_def)
qed

end
