(* ===== verification/Traverser_Update_Frame.thy ===== *)
theory Traverser_Update_Frame
  imports Traverser_Booking
begin

text \<open>
  What recording a selection (\<open>update\<close>) may change: the entries of the job in the tables of the pools, the
  planners and the colours. The entries of other jobs stay; an allocation adds no reservation and a
  reservation no allocation.
\<close>

definition own_entry :: "int \<Rightarrow> (int \<times> int) list \<Rightarrow> (int \<times> int) list \<Rightarrow> bool" where
  "own_entry j m m' \<longleftrightarrow> (\<forall>k. k \<noteq> j \<longrightarrow> map_of m' k = map_of m k)"

definition pool_books :: "jobmeta \<Rightarrow> resource_pool \<Rightarrow> resource_pool \<Rightarrow> bool" where
  "pool_books meta p q \<longleftrightarrow>
     (let sc = p_schedule p; sc' = p_schedule q; j = jm_jobid meta in
      own_entry j (tags sc) (tags sc') \<and> own_entry j (x_spans sc) (x_spans sc') \<and>
      own_entry j (allocations sc) (allocations sc') \<and> own_entry j (reservations sc) (reservations sc') \<and>
      own_entry j (job2span (p_idata p)) (job2span (p_idata q)) \<and>
      (if jm_allocate meta then reservations sc' = reservations sc else allocations sc' = allocations sc) \<and>
      p_type q = p_type p \<and> p_size q = p_size p \<and> p_member_of (p_idata q) = p_member_of (p_idata p))"

definition books :: "jobmeta \<Rightarrow> trav \<Rightarrow> trav \<Rightarrow> bool" where
  "books meta t t' \<longleftrightarrow> edges (tr_graph t') = edges (tr_graph t) \<and> list_all2 (pool_books meta) (vertices (tr_graph t)) (vertices (tr_graph t'))"

lemma own_entry_simps [simp]: "own_entry j m m" "own_entry j m (map_put j v m)"
  by (simp_all add: own_entry_def)

lemma pool_books_refl [simp]: "pool_books meta p p"
  by (simp add: pool_books_def Let_def)

lemma pool_books_trans: "pool_books meta p q \<Longrightarrow> pool_books meta q r \<Longrightarrow> pool_books meta p r"
  by (auto simp: pool_books_def Let_def own_entry_def split: if_splits)

lemma books_refl [simp]: "books meta t t"
  by (simp add: books_def list_all2_refl)

lemma books_trans: "books meta t t' \<Longrightarrow> books meta t' t'' \<Longrightarrow> books meta t t''"
  unfolding books_def
  by (auto intro: list_all2_trans [of "pool_books meta" "pool_books meta" "pool_books meta", OF pool_books_trans])

lemma books_same_graph: "tr_graph t' = tr_graph t \<Longrightarrow> books meta t t'"
  by (simp add: books_def list_all2_refl)

lemma books_err_msg [simp]: "books meta t (err_msg s t)"
  by (rule books_same_graph) (simp add: err_msg_def)

lemma books_trav_level [simp]: "books meta t (t\<lparr>tr_trav_level := n\<rparr>)"
  by (rule books_same_graph) simp

lemma books_upd_pool:
  assumes "\<And>p. pool_books meta p (f p)"
  shows "books meta t (upd_pool u f t)"
  using assms
  by (cases "u < length (vertices (tr_graph t))")
    (auto simp: books_def upd_pool_def upd_vertex_def list_all2_conv_all_nth nth_list_update list_update_beyond)

lemma books_steps [simp]:
  "books meta t (upd_schedule u (\<lambda>sc. sc\<lparr>plans := p\<rparr>) t)"
  "books meta t (upd_schedule u (\<lambda>sc. sc\<lparr>tags := map_put (jm_jobid meta) v (tags sc)\<rparr>) t)"
  "books meta t (upd_schedule u (\<lambda>sc. sc\<lparr>x_checker := p, x_spans := map_put (jm_jobid meta) v (x_spans sc)\<rparr>) t)"
  "books meta t (upd_schedule u (\<lambda>sc. if jm_allocate meta then sc\<lparr>allocations := map_put (jm_jobid meta) v (allocations sc)\<rparr>
     else sc\<lparr>reservations := map_put (jm_jobid meta) v (reservations sc)\<rparr>) t)"
  "books meta t (upd_idata u (\<lambda>i. i\<lparr>subplans := f (subplans i)\<rparr>) t)"
  "books meta t (upd_idata u (\<lambda>i. i\<lparr>job2span := map_put (jm_jobid meta) v (job2span i)\<rparr>) t)"
  "books meta t (touch_subplan u s t)" "books meta t (set_color u s c t)"
  by (auto simp: upd_schedule_def upd_idata_def touch_subplan_def set_color_def pool_books_def Let_def intro!: books_upd_pool)

lemma books_after: "books meta t0 t \<Longrightarrow> books meta t t' \<Longrightarrow> books meta t0 t'"
  by (rule books_trans)

lemma wp_add_span_opt: "wp d True (add_span_opt env at dur cs p) (\<lambda>_. True)"
  by (auto simp: add_span_opt_def split: option.split)

lemma wp_upd_plan:
  assumes "books meta t0 t"
  shows "wp d True (upd_plan env u s k meta n (t, acc)) (\<lambda>r. books meta t0 (fst (fst r)))"
proof -
  have *: "books meta t0 t'" if "books meta t t'" for t' using books_trans [OF assms that] .
  show ?thesis
    by (cases "plans (p_schedule (pool t u))")
      (auto simp: upd_plan_def add_span_opt_def Let_def split: option.split
        intro!: * books_trans [OF _ books_err_msg] books_trans [OF _ books_steps(4)])
qed

lemma wp_upd_subplan:
  assumes "books meta t0 t"
  shows "wp d True (upd_subplan env u s meta dfu t) (\<lambda>r. books meta t0 (fst r))"
proof -
  have *: "books meta t0 t'" if "books meta t t'" for t' using books_trans [OF assms that] .
  show ?thesis
    by (auto simp: upd_subplan_def add_span_opt_def Let_def split: option.split
        intro!: * books_trans [OF _ books_err_msg] books_trans [OF _ books_steps(6)])
qed

lemma wp_upd_tag:
  assumes "books meta t0 t"
  shows "wp d True (upd_tag env u s k x n meta dfu (t, acc, ss)) (\<lambda>r. books meta t0 (fst (fst r)))"
  unfolding upd_tag_def prod.case Let_def
  by (rule wp_bindI [OF wp_add_span_opt])
    (auto simp del: wp_bind
      intro!: wp_bindI [OF wp_upd_subplan [of meta t0]] books_trans [OF _ books_trav_level] books_trans [OF _ books_steps(3)]
        books_trans [OF assms books_steps(2)])

lemma wp_upd_sched:
  assumes "books meta t0 t"
  shows "wp d True (upd_sched env u s k x n meta dfu (t, acc, ss)) (\<lambda>r. books meta t0 (fst (fst r)))"
  unfolding upd_sched_def prod.case
proof (rule wp_bindI [where P = "\<lambda>r. books meta t0 (fst (fst r))"])
  show "wp d True (if x then upd_plan env u s k meta n (t, acc) else Ret ((t, acc), 0, n)) (\<lambda>r. books meta t0 (fst (fst r)))"
    using wp_upd_plan [OF assms] assms by simp
qed (auto intro!: wp_upd_tag books_trans [OF _ books_trav_level] split: prod.split)

definition booking_visit :: "jobmeta \<Rightarrow> (nat \<Rightarrow> int \<Rightarrow> bool \<Rightarrow> trav \<times> (string \<times> int) list \<times> string \<Rightarrow>
    ((trav \<times> (string \<times> int) list \<times> string) \<times> int) outcome) \<Rightarrow> bool" where
  "booking_visit meta visit \<longleftrightarrow>
     (\<forall>t0 t u k x acc ss. books meta t0 t \<longrightarrow> wp True True (visit u k x (t, acc, ss)) (\<lambda>r. books meta t0 (fst (fst r))))"

lemma wp_upd_edge_visit:
  assumes "booking_visit meta visit" and "books meta t0 (fst (fst st))"
  shows "wp True True (upd_edge_visit env s visit e st) (\<lambda>r. books meta t0 (fst (fst r)))"
proof -
  obtain t dfu ss n where st: "st = ((t, dfu, ss), n)" by (cases st) auto
  let ?i = "e_idata (edges (tr_graph t) ! e)"
  have "wp True True (visit (target (tr_graph t) e) (u32 (e_needs ?i)) (e_exclusive ?i \<noteq> 0) (t, dfu, ss)) (\<lambda>r. books meta t0 (fst (fst r)))"
    using assms by (simp add: booking_visit_def st)
  then show ?thesis using assms(2) by (auto simp: st upd_edge_visit_def upd_upv_def Let_def elim!: wp_mono)
qed

lemma booking_upd_dfv: "booking_visit meta (upd_dfv fuel env meta)"
proof (induction fuel)
  case (Suc fuel)
  show ?case unfolding booking_visit_def upd_dfv.simps Let_def
  proof (intro allI impI)
    fix t0 t u k x ss and acc :: "(string \<times> int) list"
    assume t: "books meta t0 t"
    let ?P = "\<lambda>r :: (trav \<times> (string \<times> int) list \<times> string) \<times> int. books meta t0 (fst (fst r))"
    have inner: "wp True True (each (upd_edge_visit env s (upd_dfv fuel env meta)) es st) ?P" if "?P st" for s es st
      using that by (rule wp_each) (rule wp_upd_edge_visit [OF Suc.IH])
    show "wp True True (bind (each (\<lambda>s st. each (upd_edge_visit env s (upd_dfv fuel env meta)) (out_edges (te_sel env) (tr_graph (fst (fst st))) u) st)
          (subsystems_of env) ((t\<lparr>tr_trav_level := u32 (tr_trav_level t + 1)\<rparr>, [], ss), 0)) (\<lambda>((t, dfu, ss), n_plans).
        upd_sched env u (dom_of env) k x n_plans meta dfu (set_color u (dom_of env) (black (tr_color_base t)) t, acc, ss))) ?P"
    proof (rule wp_bindI [where P = ?P])
      show "wp True True (each (\<lambda>s st. each (upd_edge_visit env s (upd_dfv fuel env meta)) (out_edges (te_sel env) (tr_graph (fst (fst st))) u) st)
          (subsystems_of env) ((t\<lparr>tr_trav_level := u32 (tr_trav_level t + 1)\<rparr>, [], ss), 0)) ?P"
        by (rule wp_each) (auto intro: inner books_trans [OF t books_trav_level])
    qed (auto intro!: wp_upd_sched books_trans [OF _ books_steps(8)] simp del: wp_bind)
  qed
qed (simp add: booking_visit_def)

lemma books_update:
  assumes "update fuel env root meta k x (t, ss) = Ret ((t', ss'), rc)"
  shows "books meta t t'"
proof -
  have "books meta t (tick_color_base t)" by (rule books_same_graph) (simp add: tick_color_base_def)
  then have "wp True True (upd_dfv fuel env meta root k x (tick_color_base t, [], ss)) (\<lambda>r. books meta t (fst (fst r)))"
    using booking_upd_dfv [of meta fuel env] by (simp add: booking_visit_def)
  then have "wp True True (update fuel env root meta k x (t, ss)) (\<lambda>r. books meta t (fst (fst r)))"
    unfolding update_def prod.case by (rule wp_bindI) auto
  from wp_Ret [OF this assms] show ?thesis by simp
qed

lemma books_fields:
  assumes "books meta t t'"
  shows "edges (tr_graph t') = edges (tr_graph t)" "length (vertices (tr_graph t')) = length (vertices (tr_graph t))"
    "u < length (vertices (tr_graph t)) \<Longrightarrow> pool_books meta (pool t u) (pool t' u)"
  using assms by (auto simp: books_def pool_def dest: list_all2_lengthD list_all2_nthD)

lemma upd_sched_length:
  "upd_sched env u s k x n meta dfu (t, acc, ss) = Ret ((t', acc', ss'), n') \<Longrightarrow>
   length (vertices (tr_graph t')) = length (vertices (tr_graph t))"
  using wp_Ret [OF wp_upd_sched [OF books_refl], of env u s k x n meta dfu t acc ss] books_fields(2) by fastforce

end
