(* ===== verification/Traverser_Sound.thy ===== *)
theory Traverser_Sound
  imports Traverser_Remove Traverser
begin

text \<open>
  A traverser whose pools are in order (\<open>traverser_sound\<close>), and what \<open>remove\<close> does on it.
\<close>

definition traverser_sound :: "nat \<Rightarrow> dfu_traverser \<Rightarrow> bool" where
  "traverser_sound fuel d \<longleftrightarrow>
     (case (dt_match d, dt_roots d) of
        (Some cb, Some roots) \<Rightarrow>
          (case dom_subsystem (cb_data cb) of
             Some dm \<Rightarrow>
               (case map_of roots dm of
                  Some root \<Rightarrow> dt_has_graph d \<and> root < length (vertices (tr_graph (dt_trav d))) \<and>
                    targets_ok (tr_graph (dt_trav d)) \<and> colors_used dm (dt_trav d) \<and>
                    (\<forall>u<length (vertices (tr_graph (dt_trav d))). pool_sound (env_of d roots cb) (pool (dt_trav d) u)) \<and>
                    length (vertices (tr_graph (dt_trav d))) < fuel
                | None \<Rightarrow> False)
           | None \<Rightarrow> False)
      | _ \<Rightarrow> False)"

lemma traverser_soundE:
  assumes "traverser_sound fuel d"
  obtains cb roots dm root where "dt_match d = Some cb" and "dom_subsystem (cb_data cb) = Some dm" and "dt_has_graph d" and "dt_roots d = Some roots"
    and "map_of roots dm = Some root" and "root < length (vertices (tr_graph (dt_trav d)))"
    and "targets_ok (tr_graph (dt_trav d))" and "colors_used dm (dt_trav d)"
    and "\<forall>u<length (vertices (tr_graph (dt_trav d))). pool_sound (env_of d roots cb) (pool (dt_trav d) u)"
    and "length (vertices (tr_graph (dt_trav d))) < fuel"
  using assms by (auto simp: traverser_sound_def split: option.splits)

lemma dom_of_env_of: "dom_subsystem (cb_data cb) = Some dm \<Longrightarrow> dom_of (env_of d roots cb) = dm"
  "dom_subsystem (cb_data cb) = Some dm \<Longrightarrow> dm \<in> set (subsystems_of (env_of d roots cb))"
  by (auto simp: dom_of_def env_of_def subsystems_of_def dom_subsystem_def split: list.splits)

text \<open>The root of the dominant subsystem holds the job.\<close>

definition root_holds :: "int \<Rightarrow> dfu_traverser \<Rightarrow> bool" where
  "root_holds jobid d \<longleftrightarrow>
     (case (dt_match d, dt_roots d) of
        (Some cb, Some roots) \<Rightarrow>
          (case Option.bind (dom_subsystem (cb_data cb)) (map_of roots) of
             Some root \<Rightarrow> jobid \<in> jobs_of (pool (dt_trav d) root) | None \<Rightarrow> False)
      | _ \<Rightarrow> False)"

lemma traverser_remove_frees:
  assumes "dt_match d = Some cb" and "dom_subsystem (cb_data cb) = Some dm" and "dt_has_graph d" and "dt_roots d = Some roots"
    and "map_of roots dm = Some root" and "root < length (vertices (tr_graph (dt_trav d)))"
    and "targets_ok (tr_graph (dt_trav d))" and "colors_used dm (dt_trav d)"
    and "\<forall>u<length (vertices (tr_graph (dt_trav d))). pool_sound (env_of d roots cb) (pool (dt_trav d) u)"
    and "length (vertices (tr_graph (dt_trav d))) < fuel"
  obtains t' where "traverser_remove fuel d jobid = Ret ((d\<lparr>dt_trav := t'\<rparr>, 0), None)"
    and "rem_post (env_of d roots cb) jobid {} (tick_color_base (dt_trav d)) t'" and "root \<notin> tagged jobid t'"
proof -
  let ?env = "env_of d roots cb" and ?t = "tick_color_base (dt_trav d)"
  note dm = dom_of_env_of [OF assms(2), of d roots]
  have "wp False False (remove fuel ?env root jobid (dt_trav d))
      (\<lambda>(t', rc). rc = 0 \<and> rem_post ?env jobid {} ?t t' \<and> root \<notin> tagged jobid t')"
    using assms dm by (intro remove_ok) auto
  from wp_safe [OF this] obtain t' where t': "remove fuel ?env root jobid (dt_trav d) = Ret (t', 0)"
      "rem_post ?env jobid {} ?t t'" "root \<notin> tagged jobid t'" by auto
  have "traverser_remove fuel d jobid = Ret ((d\<lparr>dt_trav := t'\<rparr>, 0), None)"
    using assms(1-5) t'(1) by (simp add: traverser_remove_def)
  then show thesis using t'(2,3) by (rule that)
qed

end
