(* ===== verification/Traverser_Properties.thy ===== *)
theory Traverser_Properties
  imports Traverser_Sample Traverser_Update_Frame Traverser_Sound
begin

text \<open>The properties of the traverser, with their witnesses on the sample graph.\<close>

section \<open>Selecting\<close>



text \<open>
  C24. A selection leaves the state of the resources alone, whether it succeeds or not: schedules, subtree
  plans and tables of jobs of every pool, and the ends and relations of every edge, are as before. (What it
  changes are the colours of vertices and the marks on edges.)
\<close>

theorem select_changes_only_marks:
  assumes "select std_sort fuel env resources root meta excl n0 t = Ret (t', n, rc)"
    and "u < length (vertices (tr_graph t))" and "e < length (edges (tr_graph t))"
  shows "p_schedule (pool t' u) = p_schedule (pool t u) \<and>
    plan_in (subplans (p_idata (pool t' u))) = plan_in (subplans (p_idata (pool t u))) \<and>
    job2span (p_idata (pool t' u)) = job2span (p_idata (pool t u)) \<and> p_type (pool t' u) = p_type (pool t u) \<and>
    target (tr_graph t') e = target (tr_graph t) e \<and> in_subsystem t' e s = in_subsystem t e s"
proof -
  have q: "quiet (dom_of env) (tick t) t'"
    using wp_Ret [OF quiet_select assms(1)] by simp
  have p: "pool_frame (pool t u) (pool t' u)" and e: "edge_frame (edges (tr_graph t) ! e) (edges (tr_graph t') ! e)"
    using q assms(2,3) by (auto simp: quiet_def pool_def dest: list_all2_nthD)
  from pool_frameD [OF p] edge_frameD [OF e] show ?thesis by (simp add: target_def in_subsystem_def)
qed

theorem select_changes_only_marks_witness:
  "\<exists>t' n rc. select insertion_sort 3 sample_env (sample_request Tri_FALSE [sample_cores 2 Tri_TRUE]) 0 sample_meta False 0 sample_trav = Ret (t', n, rc) \<and>
    p_schedule (pool t' 1) = p_schedule (pool sample_trav 1)"
proof -
  let ?s = "select insertion_sort 3 sample_env (sample_request Tri_FALSE [sample_cores 2 Tri_TRUE]) 0 sample_meta False 0 sample_trav"
  have "(case ?s of Ret _ \<Rightarrow> True | _ \<Rightarrow> False)" by code_simp
  then obtain t' n rc where r: "?s = Ret (t', n, rc)" by (cases ?s) auto
  have "1 < length (vertices (tr_graph sample_trav))" "0 < length (edges (tr_graph sample_trav))" by code_simp+
  from select_changes_only_marks [OF r this] r show ?thesis by blast
qed

section \<open>Booking and removing\<close>

text \<open>
  C25. \<open>upd_sched\<close> on a pool whose tables and planners agree, and that does not know the job: it returns, the
  tables and planners agree afterwards, no other pool changes, and either the pool holds the job, everything
  else being as before, or it is unchanged (the plan refused the span, or there was nothing below).
\<close>

theorem upd_sched_books:
  assumes "u < length (vertices (tr_graph t))" and "bookable env meta (pool t u)" and "0 \<le> n"
  shows "\<exists>t' acc' ss'. upd_sched env u (dom_of env) k excl n meta dfu (t, acc, ss) = Ret ((t', acc', ss'), if excl then n + 1 else n) \<and>
    pool_ok env (pool t' u) \<and> (\<forall>v. v \<noteq> u \<longrightarrow> pool t' v = pool t v) \<and>
    (booked (dom_of env) (jm_jobid meta) (pool t u) (pool t' u) \<or> pool t' u = pool t u \<and> (excl \<or> n = 0))"
  by (rule upd_sched_ok [OF assms]) blast

theorem upd_sched_books_witness:
  "\<exists>t' acc' ss'. upd_sched sample_env 1 (dom_of sample_env) 4 True 0 sample_meta [] (sample_trav, [], []) = Ret ((t', acc', ss'), if True then 0 + 1 else 0) \<and>
    pool_ok sample_env (pool t' 1) \<and> pool t' 0 = pool sample_trav 0"
proof -
  have "1 < length (vertices (tr_graph sample_trav))" "bookable sample_env sample_meta (pool sample_trav 1)"
    unfolding pool_sample_trav by (simp_all add: sample_pool_bookable)
  from upd_sched_books [OF this order_refl, of 4 True "[]" "[]" "[]"] show ?thesis by auto
qed



text \<open>
  C27. Recording a selection, over the whole graph, touches the entries of its own job only: what the tables
  of a pool say of any other job is as before, an allocation adds no reservation and a reservation no
  allocation, and the shape of the graph stays.
\<close>

theorem update_touches_own_job:
  assumes "update fuel env root meta k x (t, ss) = Ret ((t', ss'), rc)" and "u < length (vertices (tr_graph t))"
    and "j \<noteq> jm_jobid meta"
  shows "map_of (allocations (p_schedule (pool t' u))) j = map_of (allocations (p_schedule (pool t u))) j \<and>
    map_of (reservations (p_schedule (pool t' u))) j = map_of (reservations (p_schedule (pool t u))) j \<and>
    map_of (x_spans (p_schedule (pool t' u))) j = map_of (x_spans (p_schedule (pool t u))) j \<and>
    (j \<in> jobs_of (pool t' u) \<longleftrightarrow> j \<in> jobs_of (pool t u)) \<and>
    (if jm_allocate meta then reservations (p_schedule (pool t' u)) = reservations (p_schedule (pool t u))
     else allocations (p_schedule (pool t' u)) = allocations (p_schedule (pool t u))) \<and>
    length (vertices (tr_graph t')) = length (vertices (tr_graph t)) \<and> edges (tr_graph t') = edges (tr_graph t)"
  using books_fields [OF books_update [OF assms(1)]] assms(2,3)
  by (auto simp: pool_books_def own_entry_def Let_def)

theorem update_touches_own_job_witness:
  "\<exists>t' ss' rc. update 3 sample_env 0 (sample_meta\<lparr>jm_jobid := 8\<rparr>) 1 False (sample_booked, []) = Ret ((t', ss'), rc) \<and>
    7 \<in> jobs_of (pool t' 0) \<and> reservations (p_schedule (pool t' 0)) = reservations (p_schedule (pool sample_booked 0))"
proof -
  let ?s = "update 3 sample_env 0 (sample_meta\<lparr>jm_jobid := 8\<rparr>) 1 False (sample_booked, [])"
  have "(case ?s of Ret _ \<Rightarrow> True | _ \<Rightarrow> False)" by code_simp
  then obtain t' ss' rc where r: "?s = Ret ((t', ss'), rc)" by (cases ?s) auto
  have "0 < length (vertices (tr_graph sample_booked))" "7 \<noteq> jm_jobid (sample_meta\<lparr>jm_jobid := 8\<rparr>)"
      "jm_allocate (sample_meta\<lparr>jm_jobid := 8\<rparr>)" "7 \<in> jobs_of (pool sample_booked 0)"
    using sample_booked_facts by (auto simp: sample_meta_def)
  with update_touches_own_job [OF r this(1,2)] r show ?thesis by auto
qed

text \<open>
  C28. Removing a job from a graph whose tables and planners agree: the traversal ends within as many levels as
  there are vertices and answers 0; afterwards no pool that the walk reaches from the root along pools of
  the job has the job, every pool is either untouched or has lost exactly the entries and spans of the job,
  and the tables and planners agree again.
\<close>

theorem traverser_remove_frees_job:
  assumes "dt_match d = Some cb" and "dom_subsystem (cb_data cb) = Some dm" and "dt_has_graph d" and "dt_roots d = Some roots"
    and "map_of roots dm = Some root" and "root < length (vertices (tr_graph (dt_trav d)))"
    and "targets_ok (tr_graph (dt_trav d))" and "colors_used dm (dt_trav d)"
    and "\<forall>u<length (vertices (tr_graph (dt_trav d))). pool_sound (env_of d roots cb) (pool (dt_trav d) u)"
    and "length (vertices (tr_graph (dt_trav d))) < fuel"
  shows "\<exists>t'. traverser_remove fuel d jobid = Ret ((d\<lparr>dt_trav := t'\<rparr>, 0), None) \<and>
    (\<forall>u. reached (env_of d roots cb) jobid (tick_color_base (dt_trav d)) root u \<longrightarrow> jobid \<notin> jobs_of (pool t' u)) \<and>
    (\<forall>u<length (vertices (tr_graph (dt_trav d))).
       (pool t' u = pool (dt_trav d) u \<or> freed dm jobid (pool (dt_trav d) u) (pool t' u)) \<and>
       pool_sound (env_of d roots cb) (pool t' u))"
proof -
  let ?env = "env_of d roots cb" and ?t = "tick_color_base (dt_trav d)"
  note dm = dom_of_env_of [OF assms(2), of d roots]
  obtain t' where run: "traverser_remove fuel d jobid = Ret ((d\<lparr>dt_trav := t'\<rparr>, 0), None)"
      and t': "rem_post ?env jobid {} ?t t'" "root \<notin> tagged jobid t'"
    by (rule traverser_remove_frees [OF assms])
  have g: "tr_graph ?t = tr_graph (dt_trav d)" "pool ?t u = pool (dt_trav d) u" for u
    by (simp_all add: tick_color_base_def pool_def)
  have len: "length (vertices (tr_graph t')) = length (vertices (tr_graph (dt_trav d)))"
    using t'(1) by (simp add: rem_post_def removes_def same_shape_def g)
  have "jobid \<notin> jobs_of (pool t' u)" if "reached ?env jobid ?t root u" for u
    using rem_post_reached [OF t' that] reached_tagged [OF that] by (simp add: tagged_def len g)
  moreover have "pool t' u = pool (dt_trav d) u \<or> freed dm jobid (pool (dt_trav d) u) (pool t' u)" "pool_sound ?env (pool t' u)"
    if "u < length (vertices (tr_graph (dt_trav d)))" for u
    using t'(1) that by (auto simp: rem_post_def removes_def removable_def g dm len)
  ultimately show ?thesis using run by blast
qed

theorem traverser_remove_frees_job_witness:
  "\<exists>t'. traverser_remove 3 (sample_traverser\<lparr>dt_trav := sample_booked\<rparr>) 7 =
      Ret ((sample_traverser\<lparr>dt_trav := t'\<rparr>, 0), None) \<and> 7 \<notin> jobs_of (pool t' 0)"
proof -
  let ?d = "sample_traverser\<lparr>dt_trav := sample_booked\<rparr>" and ?cb = "high_first insertion_sort sample_matcher"
    and ?roots = "[(''containment'', 0 :: nat)]"
  have e: "env_of ?d ?roots ?cb = sample_env" by (simp add: env_of_def sample_traverser_def sample_env_def)
  have d: "dom_subsystem (cb_data ?cb) = Some ''containment''" by code_simp
  have tgt: "targets_ok (tr_graph sample_booked)"
    using sample_targets_ok sample_booked_facts(1,2) by (simp add: targets_ok_def)
  have col: "colors_used ''containment'' sample_booked"
    using sample_booked_facts by (simp add: colors_used_def less_Suc_eq numeral_2_eq_2)
  have ok: "\<forall>u<length (vertices (tr_graph (dt_trav ?d))). pool_sound (env_of ?d ?roots ?cb) (pool (dt_trav ?d) u)"
    unfolding e using sample_booked_eq(2,3) sample_booked_facts(1) by (auto simp: less_Suc_eq numeral_2_eq_2 intro!: pool_sound_ok)
  have "\<exists>t'. traverser_remove 3 ?d 7 = Ret ((?d\<lparr>dt_trav := t'\<rparr>, 0), None) \<and>
    (\<forall>u. reached (env_of ?d ?roots ?cb) 7 (tick_color_base (dt_trav ?d)) 0 u \<longrightarrow> 7 \<notin> jobs_of (pool t' u)) \<and>
    (\<forall>u<length (vertices (tr_graph (dt_trav ?d))).
       (pool t' u = pool (dt_trav ?d) u \<or> freed ''containment'' 7 (pool (dt_trav ?d) u) (pool t' u)) \<and>
       pool_sound (env_of ?d ?roots ?cb) (pool t' u))"
    by (rule traverser_remove_frees_job [OF _ d _ _ _ _ _ _ ok]) (use sample_booked_facts tgt col in \<open>simp_all add: sample_traverser_def\<close>)
  moreover have "reached (env_of ?d ?roots ?cb) 7 (tick_color_base (dt_trav ?d)) 0 0"
    using sample_booked_facts(1,6) by (intro reached_root) (auto simp: tagged_def tick_color_base_def pool_def)
  ultimately show ?thesis by auto
qed

end
