(* ===== verification/Resource_Gen.thy ===== *)
theory Resource_Gen
  imports Resource_Graph
begin

text \<open>
  The generator of the resource graph (\<open>resource_gen.cpp\<close>, \<open>resource_gen_spec.cpp\<close>).

  A recipe is a graph whose vertices describe pools and whose edges say how to make the pools below. Boost
  reads it from a GraphML file and walks it depth first; the walk is the list of the events that the visitor
  sees, and both are parameters of \<open>read_graphml\<close>.
\<close>

section \<open>The recipe\<close>

datatype gen_meth = MULTIPLY | ASSOCIATE_IN | ASSOCIATE_BY_PATH_IN | GEN_UNKNOWN

record pool_gen =
  g_root :: int
  g_type :: string
  g_basename :: string
  g_size :: int
  g_unit :: string
  g_subsystem :: string

record relation_gen =
  g_src :: nat
  g_tgt :: nat
  e_subsystem :: string
  relation :: string
  rrelation :: string
  id_scope :: int
  id_start :: int
  id_stride :: int
  gen_method :: string
  multi_scale :: int
  as_tgt_subsystem :: string
  as_tgt_uplvl :: int
  as_src_uplvl :: int

record recipe =
  g_pools :: "pool_gen list"
  g_relations :: "relation_gen list"

definition str2genmeth :: "(string \<times> gen_meth) list" where
  "str2genmeth = [(''MULTIPLY'', MULTIPLY), (''ASSOCIATE_IN'', ASSOCIATE_IN),
     (''ASSOCIATE_BY_PATH_IN'', ASSOCIATE_BY_PATH_IN), ([], GEN_UNKNOWN)]"

fun genmeth_loop :: "string \<Rightarrow> (string \<times> gen_meth) list \<Rightarrow> gen_meth" where
  "genmeth_loop s [] = GEN_UNKNOWN"
| "genmeth_loop s ((str, e) # tbl) = (if str = [] then e else if str = s then e else genmeth_loop s tbl)"

definition to_gen_method_t :: "string \<Rightarrow> gen_meth" where
  "to_gen_method_t s = genmeth_loop s str2genmeth"

section \<open>The state of the visitor\<close>

text \<open>A vertex of the recipe for which nothing was made yet has the empty list of sources.\<close>

record emitter =
  em_db :: resource_graph_db
  gen_src_vtx :: "nat \<Rightarrow> nat list"
  hier_scales :: "int list"
  em_err_msg :: string

definition emitter_new :: "resource_graph_db \<Rightarrow> emitter" where
  "emitter_new db = \<lparr>em_db = db, gen_src_vtx = (\<lambda>_. []), hier_scales = [], em_err_msg = []\<rparr>"

text \<open>The copy keeps the pointers and the message, and starts with empty tables.\<close>

definition emitter_copy :: "emitter \<Rightarrow> emitter" where
  "emitter_copy other = \<lparr>em_db = em_db other, gen_src_vtx = (\<lambda>_. []), hier_scales = [], em_err_msg = em_err_msg other\<rparr>"

definition upd_graph :: "(resource_graph \<Rightarrow> resource_graph) \<Rightarrow> emitter \<Rightarrow> emitter" where
  "upd_graph f em = em\<lparr>em_db := (em_db em)\<lparr>db_graph := f (db_graph (em_db em))\<rparr>\<rparr>"

definition gen_pool :: "emitter \<Rightarrow> nat \<Rightarrow> resource_pool" where
  "gen_pool em v = vertices (db_graph (em_db em)) ! v"

section \<open>Paths and ids\<close>

text \<open>The text up to and with the slash number \<open>n\<close>, counted from 0; all of it when there are fewer.\<close>

fun upto_slash :: "nat \<Rightarrow> string \<Rightarrow> string" where
  "upto_slash n [] = []"
| "upto_slash n (c # cs) =
     (if c = CHR ''/'' then (case n of 0 \<Rightarrow> [c] | Suc m \<Rightarrow> c # upto_slash m cs) else c # upto_slash n cs)"

definition path_prefix :: "string \<Rightarrow> int \<Rightarrow> string \<Rightarrow> (int \<times> string) outcome" where
  "path_prefix path uplevel prefix =
     (let num_slashes = int (count_list path (CHR ''/''))
      in if uplevel \<ge> num_slashes then Ret (-1, prefix)
         else
           let new_prefix = upto_slash (nat (num_slashes - uplevel)) path
           in if new_prefix = [] then Undefined
              else Ret (0, if last new_prefix \<noteq> CHR ''/'' then new_prefix @ ''/'' else new_prefix))"

text \<open>The remainder of C, whose sign is that of the dividend.\<close>

definition c_rem :: "int \<Rightarrow> int \<Rightarrow> int" where
  "c_rem x y = sgn x * (\<bar>x\<bar> mod \<bar>y\<bar>)"

definition dim_wrap :: "int list \<Rightarrow> int \<Rightarrow> int" where
  "dim_wrap scales scope =
     (let scope = (if scope > int (length scales) then int (length scales) else scope)
      in foldl (\<lambda>w s. i32 (w * s)) 1 (take (nat scope) scales))"

definition gen_id :: "int list \<Rightarrow> relation_gen \<Rightarrow> int \<Rightarrow> int \<Rightarrow> int \<Rightarrow> int outcome" where
  "gen_id scales e i sz j =
     (if id_scope e < 0 then Ret (-1)
      else if id_scope e = 0 then Ret (i32 (id_start e + i))
      else
        let j_dim_wrap = dim_wrap scales (id_scope e)
        in if j_dim_wrap = 0 then Undefined
           else Ret (i32 (id_start e + c_rem j j_dim_wrap * sz * id_stride e + i * id_stride e)))"

section \<open>Edges\<close>

definition raw_edge :: "nat \<Rightarrow> nat \<Rightarrow> emitter \<Rightarrow> emitter \<times> nat" where
  "raw_edge src_v tgt_v em =
     (let g = db_graph (em_db em) in
      case List.find (\<lambda>e. target g e = tgt_v) (out_edges_all g src_v) of
        Some e \<Rightarrow> (em, e)
      | None \<Rightarrow> (upd_graph (\<lambda>g. fst (add_edge src_v tgt_v g)) em, snd (add_edge src_v tgt_v g)))"

definition relate :: "string \<Rightarrow> string \<Rightarrow> resource_relation \<Rightarrow> resource_relation" where
  "relate subsystem rel r = r\<lparr>
     e_idata := (e_idata r)\<lparr>e_member_of := map_put subsystem rel (e_member_of (e_idata r))\<rparr>,
     e_name := e_name r @ '':'' @ subsystem @ ''.'' @ rel\<rparr>"

text \<open>Both ways; nothing but a bare edge once there is an error message.\<close>

definition emit_edges :: "relation_gen \<Rightarrow> nat \<Rightarrow> nat \<Rightarrow> emitter \<Rightarrow> emitter" where
  "emit_edges ge src_v tgt_v em =
     (case raw_edge src_v tgt_v em of (em, e) \<Rightarrow>
      if em_err_msg em \<noteq> [] then em
      else case raw_edge tgt_v src_v (upd_graph (upd_edge e (relate (e_subsystem ge) (relation ge))) em) of (em, e) \<Rightarrow>
        if em_err_msg em \<noteq> [] then em
        else upd_graph (upd_edge e (relate (e_subsystem ge) (rrelation ge))) em)"

section \<open>Pools\<close>

text \<open>\<open>operator[]\<close> of a map from strings to paths makes the empty path when there is none.\<close>

definition path_in :: "resource_pool \<Rightarrow> string \<Rightarrow> string" where
  "path_in p s = (case map_of (paths p) s of None \<Rightarrow> [] | Some pth \<Rightarrow> pth)"

definition touch_path :: "nat \<Rightarrow> string \<Rightarrow> emitter \<Rightarrow> emitter" where
  "touch_path v s = upd_graph (upd_vertex v (\<lambda>p. p\<lparr>paths := map_insert s [] (paths p)\<rparr>))"

definition index_push :: "string \<Rightarrow> nat \<Rightarrow> (string \<times> nat list) list \<Rightarrow> (string \<times> nat list) list" where
  "index_push k v m = map_put k ((case map_of m k of None \<Rightarrow> [] | Some vs \<Rightarrow> vs) @ [v]) m"

definition planner_for :: "int \<Rightarrow> string \<Rightarrow> planner option" where
  "planner_for qty res_type =
     (case planner_new 0 INT64_MAX [qty] [res_type] 1 of Inl e \<Rightarrow> None | Inr p \<Rightarrow> Some p)"

definition fill_pool :: "pool_gen \<Rightarrow> int \<Rightarrow> string \<Rightarrow> resource_pool \<Rightarrow> resource_pool" where
  "fill_pool u ident pref p =
     (let istr = (if ident \<noteq> -1 then show_int ident else []);
          name = g_basename u @ istr
      in p\<lparr>p_type := g_type u, p_basename := g_basename u, p_size := u32 (g_size u),
           p_schedule := (p_schedule p)\<lparr>plans := planner_for (u64 (g_size u)) (g_type u),
                                        x_checker := planner_for X_CHECKER_NJOBS X_CHECKER_JOBS_STR\<rparr>,
           p_id := ident, p_name := name, paths := map_put (g_subsystem u) (pref @ ''/'' @ name) (paths p),
           p_idata := (p_idata p)\<lparr>p_member_of := map_put (g_subsystem u) ''*'' (p_member_of (p_idata p))\<rparr>\<rparr>)"

definition index_pool :: "string \<Rightarrow> nat \<Rightarrow> resource_graph_db \<Rightarrow> resource_graph_db" where
  "index_pool ssys v db =
     (let p = vertices (db_graph db) ! v
      in db\<lparr>by_path := index_push (path_in p ssys) v (by_path db), by_type := index_push (p_type p) v (by_type db),
            by_name := index_push (p_name p) v (by_name db)\<rparr>)"

definition new_vertex :: "emitter \<Rightarrow> emitter \<times> nat" where
  "new_vertex em = (upd_graph (\<lambda>g. fst (add_vertex resource_pool_new g)) em, snd (add_vertex resource_pool_new (db_graph (em_db em))))"

text \<open>A pool below another one adds two vertices to the graph and fills the second.\<close>

definition emit_vertex_gen :: "pool_gen \<Rightarrow> relation_gen \<Rightarrow> nat option \<Rightarrow> int \<Rightarrow> int \<Rightarrow> int \<Rightarrow> emitter \<Rightarrow>
    (emitter \<times> nat) outcome" where
  "emit_vertex_gen u e src_v i sz j em =
     (case (src_v, map_of (db_roots (em_db em)) (g_subsystem u)) of
        (None, Some root) \<Rightarrow> Ret (em, root)
      | _ \<Rightarrow>
          (case new_vertex em of (em, v) \<Rightarrow>
           bind (case src_v of
                   None \<Rightarrow>
                     Ret (em\<lparr>em_db := (em_db em)\<lparr>db_roots := map_put (g_subsystem u) v (db_roots (em_db em))\<rparr>\<rparr>, v, 0, [])
                 | Some s \<Rightarrow>
                     (case new_vertex em of (em, v) \<Rightarrow>
                      bind (gen_id (hier_scales em) e i sz j) (\<lambda>ident.
                      Ret (touch_path s (g_subsystem u) em, v, ident, path_in (gen_pool em s) (g_subsystem u)))))
             (\<lambda>(em, v, ident, pref).
             let em = upd_graph (upd_vertex v (fill_pool u ident pref)) em
             in Ret (em\<lparr>em_db := index_pool (g_subsystem u) v (em_db em)\<rparr>, v))))"

section \<open>The visitor\<close>

definition push_src :: "nat \<Rightarrow> nat \<Rightarrow> emitter \<Rightarrow> emitter" where
  "push_src u v em = em\<lparr>gen_src_vtx := (gen_src_vtx em)(u := gen_src_vtx em u @ [v])\<rparr>"

text \<open>The pool \<open>tgt_vtx\<close> joins the subsystem of the edge below \<open>src_vtx\<close>.\<close>

definition join_subsystem :: "string \<Rightarrow> nat \<Rightarrow> nat \<Rightarrow> emitter \<Rightarrow> emitter" where
  "join_subsystem s src_vtx tgt_vtx em =
     (let em = touch_path src_vtx s em;
          pth = path_in (gen_pool em src_vtx) s @ ''/'' @ p_name (gen_pool em tgt_vtx)
      in upd_graph (upd_vertex tgt_vtx (\<lambda>p. p\<lparr>paths := map_put s pth (paths p),
           p_idata := (p_idata p)\<lparr>p_member_of := map_put s ''*'' (p_member_of (p_idata p))\<rparr>\<rparr>)) em)"

definition emit_child :: "recipe \<Rightarrow> relation_gen \<Rightarrow> nat \<Rightarrow> int \<Rightarrow> int \<Rightarrow> emitter \<Rightarrow> emitter outcome" where
  "emit_child rcp e src_vtx j i em =
     bind (emit_vertex_gen (g_pools rcp ! g_tgt e) e (Some src_vtx) i (multi_scale e) j em) (\<lambda>(em, tgt_vtx).
     Ret (push_src (g_tgt e) tgt_vtx (emit_edges e src_vtx tgt_vtx em)))"

definition multiply_src :: "recipe \<Rightarrow> relation_gen \<Rightarrow> nat \<Rightarrow> emitter \<times> int \<Rightarrow> (emitter \<times> int) outcome" where
  "multiply_src rcp e src_vtx st =
     (case st of (em, j) \<Rightarrow> bind (each (emit_child rcp e src_vtx j) [0..multi_scale e - 1] em) (\<lambda>em. Ret (em, j + 1)))"

definition multiply :: "recipe \<Rightarrow> relation_gen \<Rightarrow> emitter \<Rightarrow> emitter outcome" where
  "multiply rcp e em =
     bind (each (multiply_src rcp e) (gen_src_vtx em (g_src e)) (em, 0)) (\<lambda>(em, j).
     Ret (em\<lparr>hier_scales := multi_scale e # hier_scales em\<rparr>))"

definition pools_of_type :: "string \<Rightarrow> resource_graph_db \<Rightarrow> nat list" where
  "pools_of_type ty db = (case map_of (by_type db) ty of None \<Rightarrow> [] | Some vs \<Rightarrow> vs)"

definition touch_type :: "string \<Rightarrow> emitter \<Rightarrow> emitter" where
  "touch_type ty em = em\<lparr>em_db := (em_db em)\<lparr>by_type := map_insert ty [] (by_type (em_db em))\<rparr>\<rparr>"

definition associate :: "relation_gen \<Rightarrow> nat \<Rightarrow> nat \<Rightarrow> emitter \<Rightarrow> emitter" where
  "associate e src_vtx tgt_vtx em =
     push_src (g_tgt e) tgt_vtx (emit_edges e src_vtx tgt_vtx (join_subsystem (e_subsystem e) src_vtx tgt_vtx em))"

definition associate_in :: "recipe \<Rightarrow> relation_gen \<Rightarrow> emitter \<Rightarrow> emitter" where
  "associate_in rcp e em =
     (let ty = g_type (g_pools rcp ! g_tgt e) in
      fold (\<lambda>src_vtx em. fold (associate e src_vtx) (pools_of_type ty (em_db em)) (touch_type ty em))
       (gen_src_vtx em (g_src e)) em)"

definition associate_by_path :: "relation_gen \<Rightarrow> nat \<Rightarrow> nat \<Rightarrow> emitter \<Rightarrow> emitter outcome" where
  "associate_by_path e src_vtx tgt_vtx em =
     (let s = as_tgt_subsystem e; em = touch_path src_vtx s (touch_path tgt_vtx s em) in
      bind (path_prefix (path_in (gen_pool em tgt_vtx) s) (as_tgt_uplvl e) []) (\<lambda>(_, comp_pth1).
      bind (path_prefix (path_in (gen_pool em src_vtx) s) (as_src_uplvl e) []) (\<lambda>(_, comp_pth2).
      Ret (if comp_pth1 \<noteq> comp_pth2 then em else associate e src_vtx tgt_vtx em))))"

definition associate_by_path_in :: "recipe \<Rightarrow> relation_gen \<Rightarrow> emitter \<Rightarrow> emitter outcome" where
  "associate_by_path_in rcp e em =
     (let ty = g_type (g_pools rcp ! g_tgt e) in
      each (\<lambda>src_vtx em. each (associate_by_path e src_vtx) (pools_of_type ty (em_db em)) (touch_type ty em))
       (gen_src_vtx em (g_src e)) em)"

definition emit_root :: "recipe \<Rightarrow> relation_gen \<Rightarrow> emitter \<Rightarrow> emitter outcome" where
  "emit_root rcp e em =
     (if g_root (g_pools rcp ! g_src e) \<noteq> 0 \<and> gen_src_vtx em (g_src e) = []
      then bind (emit_vertex_gen (g_pools rcp ! g_src e) e None 0 1 0 em) (\<lambda>(em, v). Ret (push_src (g_src e) v em))
      else Ret em)"

definition tree_edge :: "recipe \<Rightarrow> relation_gen \<Rightarrow> emitter \<Rightarrow> emitter outcome" where
  "tree_edge rcp e em =
     bind (emit_root rcp e em) (\<lambda>em.
     let em = em\<lparr>gen_src_vtx := (gen_src_vtx em)(g_tgt e := [])\<rparr> in
     case to_gen_method_t (gen_method e) of
       MULTIPLY \<Rightarrow> multiply rcp e em
     | ASSOCIATE_IN \<Rightarrow> Ret (associate_in rcp e em)
     | ASSOCIATE_BY_PATH_IN \<Rightarrow> associate_by_path_in rcp e em
     | GEN_UNKNOWN \<Rightarrow> Ret (em\<lparr>em_err_msg := em_err_msg em @ '': unknown generation method''\<rparr>))"

definition finish_vertex :: "emitter \<Rightarrow> emitter" where
  "finish_vertex em = em\<lparr>hier_scales := tl (hier_scales em)\<rparr>"

section \<open>Reading a recipe\<close>

datatype gen_event = Tree_Edge nat | Finish_Vertex nat

definition gen_step :: "recipe \<Rightarrow> gen_event \<Rightarrow> emitter \<Rightarrow> emitter outcome" where
  "gen_step rcp ev em =
     (case ev of Tree_Edge e \<Rightarrow> tree_edge rcp (g_relations rcp ! e) em | Finish_Vertex u \<Rightarrow> Ret (finish_vertex em))"

text \<open>
  The search takes its visitor by value, so the messages of the walk stay in the copy; the database is shared.
  \<open>loaded\<close> is what boost reads from the file, \<open>None\<close> when it raises an error.
\<close>

definition read_graphml :: "(recipe \<Rightarrow> gen_event list) \<Rightarrow> string \<Rightarrow> recipe option \<Rightarrow> string \<Rightarrow> resource_graph_db \<Rightarrow>
    (resource_graph_db \<times> string \<times> int) outcome" where
  "read_graphml dfs fn loaded err_msg db =
     (case loaded of
        None \<Rightarrow> Ret (db, err_msg @ '': error in reading '' @ fn, -1)
      | Some rcp \<Rightarrow>
          let em = emitter_new db in
          bind (each (gen_step rcp) (dfs rcp) (emitter_copy em)) (\<lambda>visited.
          let err_msg = err_msg @ em_err_msg em
          in Ret (em_db visited, err_msg, if err_msg = [] then 0 else -1)))"

end
