(* ===== verification/Resource_Gen_Laws.thy ===== *)
theory Resource_Gen_Laws
  imports Resource_Gen Traverser_Remove
begin

text \<open>
  Laws of the generator: what every step keeps of the database (edges and indices lead to pools that have
  their planners, no pool knows a job), and what one step of a multiplication adds.
\<close>

section \<open>Well-formed databases\<close>

definition fresh_pool :: "resource_pool \<Rightarrow> bool" where
  "fresh_pool p \<longleftrightarrow>
     tags (p_schedule p) = [] \<and> allocations (p_schedule p) = [] \<and> reservations (p_schedule p) = [] \<and>
     x_spans (p_schedule p) = [] \<and> job2span (p_idata p) = [] \<and> subplans (p_idata p) = [] \<and> colors (p_idata p) = []"

text \<open>A pool that the generator filled, and one that it left behind.\<close>

definition made :: "resource_pool \<Rightarrow> bool" where
  "made p \<longleftrightarrow> x_checker (p_schedule p) = planner_for X_CHECKER_NJOBS X_CHECKER_JOBS_STR \<and>
     (\<exists>n. plans (p_schedule p) = planner_for (u64 n) (p_type p) \<and> p_size p = u32 n)"

definition left_behind :: "resource_pool \<Rightarrow> bool" where
  "left_behind p \<longleftrightarrow> p_schedule p = schedule_new \<and> p_member_of (p_idata p) = []"

definition usable :: "resource_graph \<Rightarrow> nat \<Rightarrow> bool" where
  "usable g v \<longleftrightarrow> v < length (vertices g) \<and> made (vertices g ! v)"

definition index_ok :: "(resource_pool \<Rightarrow> string \<Rightarrow> bool) \<Rightarrow> resource_graph \<Rightarrow> (string \<times> nat list) list \<Rightarrow> bool" where
  "index_ok key g m \<longleftrightarrow> (\<forall>k vs. map_of m k = Some vs \<longrightarrow> (\<forall>v\<in>set vs. usable g v \<and> key (vertices g ! v) k))"

definition graph_ok :: "resource_graph \<Rightarrow> bool" where
  "graph_ok g \<longleftrightarrow> (\<forall>e<length (edges g). usable g (e_src (edges g ! e)) \<and> usable g (e_tgt (edges g ! e))) \<and>
     (\<forall>p\<in>set (vertices g). fresh_pool p \<and> (made p \<or> left_behind p))"

definition db_ok :: "resource_graph_db \<Rightarrow> bool" where
  "db_ok db \<longleftrightarrow> graph_ok (db_graph db) \<and> (\<forall>s v. map_of (db_roots db) s = Some v \<longrightarrow> usable (db_graph db) v) \<and>
     index_ok (\<lambda>p k. p_type p = k) (db_graph db) (by_type db) \<and>
     index_ok (\<lambda>p k. p_name p = k) (db_graph db) (by_name db) \<and>
     index_ok (\<lambda>p k. True) (db_graph db) (by_path db)"

definition em_ok :: "emitter \<Rightarrow> bool" where
  "em_ok em \<longleftrightarrow> db_ok (em_db em) \<and> (\<forall>u. \<forall>v\<in>set (gen_src_vtx em u). usable (db_graph (em_db em)) v)"

lemma db_ok_new [simp]: "db_ok resource_graph_db_new"
  by (simp add: db_ok_def graph_ok_def index_ok_def resource_graph_db_new_def)

lemma em_ok_new: "db_ok db \<Longrightarrow> em_ok (emitter_copy (emitter_new db))"
  by (simp add: em_ok_def emitter_copy_def emitter_new_def)

lemma made_planner: "made p \<Longrightarrow> x_checker (p_schedule p) \<noteq> None"
  by (simp add: made_def planner_for_def planner_new_def X_CHECKER_NJOBS_def)

section \<open>Growing graphs\<close>

text \<open>
  What never changes once a pool or an edge is there: everything but the paths and the membership of a pool,
  and the ends of an edge. A path that is there in a subsystem of the pool's own stays too.
\<close>

definition same_pool :: "resource_pool \<Rightarrow> resource_pool \<Rightarrow> bool" where
  "same_pool p p' \<longleftrightarrow> p_type p' = p_type p \<and> p_basename p' = p_basename p \<and> p_name p' = p_name p \<and> p_id p' = p_id p \<and>
     p_size p' = p_size p \<and> p_schedule p' = p_schedule p \<and> job2span (p_idata p') = job2span (p_idata p) \<and>
     subplans (p_idata p') = subplans (p_idata p) \<and> colors (p_idata p') = colors (p_idata p)"

lemma same_pool_refl [simp]: "same_pool p p"
  by (simp add: same_pool_def)

lemma same_pool_trans: "same_pool p q \<Longrightarrow> same_pool q r \<Longrightarrow> same_pool p r"
  by (simp add: same_pool_def)

lemma same_pool_made: "same_pool p p' \<Longrightarrow> made p' = made p"
  by (simp add: same_pool_def made_def)

lemma same_pool_fresh: "same_pool p p' \<Longrightarrow> fresh_pool p' = fresh_pool p"
  by (simp add: same_pool_def fresh_pool_def)

definition grows :: "resource_graph \<Rightarrow> resource_graph \<Rightarrow> bool" where
  "grows g g' \<longleftrightarrow> length (vertices g) \<le> length (vertices g') \<and> length (edges g) \<le> length (edges g') \<and>
     (\<forall>v<length (vertices g). same_pool (vertices g ! v) (vertices g' ! v)) \<and>
     (\<forall>e<length (edges g). e_src (edges g' ! e) = e_src (edges g ! e) \<and> e_tgt (edges g' ! e) = e_tgt (edges g ! e))"

lemma grows_refl [simp]: "grows g g"
  by (simp add: grows_def)

lemma grows_trans: "grows g h \<Longrightarrow> grows h k \<Longrightarrow> grows g k"
  unfolding grows_def by (auto intro: same_pool_trans)

lemma grows_live: "grows g g' \<Longrightarrow> usable g v \<Longrightarrow> usable g' v"
  by (auto simp: grows_def usable_def same_pool_made)

lemma grows_index:
  assumes "grows g g'" and "index_ok key g m" and "\<And>p p' k. same_pool p p' \<Longrightarrow> key p k \<Longrightarrow> key p' k"
  shows "index_ok key g' m"
  using assms grows_live [OF assms(1)] unfolding index_ok_def grows_def usable_def by blast

text \<open>A step that changes only the graph, lets it grow and keeps it well-formed, keeps the database well-formed.\<close>

definition em_grows :: "emitter \<Rightarrow> emitter \<Rightarrow> bool" where
  "em_grows em em' \<longleftrightarrow> em_ok em' \<and> grows (db_graph (em_db em)) (db_graph (em_db em'))"

lemma em_grows_trans: "em_grows em em' \<Longrightarrow> em_grows em' em'' \<Longrightarrow> em_grows em em''"
  by (auto simp: em_grows_def intro: grows_trans)

lemma em_grows_refl: "em_ok em \<Longrightarrow> em_grows em em"
  by (simp add: em_grows_def)

lemma upd_graph_sel [simp]:
  "db_graph (em_db (upd_graph f em)) = f (db_graph (em_db em))" "db_roots (em_db (upd_graph f em)) = db_roots (em_db em)"
  "by_type (em_db (upd_graph f em)) = by_type (em_db em)" "by_name (em_db (upd_graph f em)) = by_name (em_db em)"
  "by_path (em_db (upd_graph f em)) = by_path (em_db em)" "gen_src_vtx (upd_graph f em) = gen_src_vtx em"
  "hier_scales (upd_graph f em) = hier_scales em" "em_err_msg (upd_graph f em) = em_err_msg em"
  by (simp_all add: upd_graph_def)

lemma em_grows_graph:
  assumes "em_ok em" and "grows (db_graph (em_db em)) (f (db_graph (em_db em)))"
    and "graph_ok (db_graph (em_db em)) \<Longrightarrow> graph_ok (f (db_graph (em_db em)))"
  shows "em_grows em (upd_graph f em)"
  using assms grows_live [OF assms(2)] grows_index [OF assms(2)]
  by (auto simp: em_grows_def em_ok_def db_ok_def same_pool_def)

section \<open>Updates of pools and edges\<close>

lemma upd_vertex_sel [simp]:
  "length (vertices (upd_vertex u f g)) = length (vertices g)" "edges (upd_vertex u f g) = edges g"
  by (simp_all add: upd_vertex_def)

lemma nth_upd_vertex: "v < length (vertices g) \<Longrightarrow>
  vertices (upd_vertex u f g) ! v = (if v = u then f (vertices g ! v) else vertices g ! v)"
  by (auto simp: upd_vertex_def)

lemma upd_edge_sel [simp]:
  "length (edges (upd_edge e f g)) = length (edges g)" "vertices (upd_edge e f g) = vertices g"
  by (simp_all add: upd_edge_def)

lemma nth_upd_edge: "d < length (edges g) \<Longrightarrow> edges (upd_edge e f g) ! d = (if d = e then f (edges g ! d) else edges g ! d)"
  by (auto simp: upd_edge_def)

lemma grows_upd_vertex: "(\<And>p. same_pool p (f p)) \<Longrightarrow> grows g (upd_vertex u f g)"
  by (auto simp: grows_def nth_upd_vertex)

lemma graph_ok_upd_vertex:
  assumes "graph_ok g" and "\<And>p. same_pool p (f p)" and "u < length (vertices g) \<Longrightarrow> made (vertices g ! u)"
  shows "graph_ok (upd_vertex u f g)"
proof -
  have l: "usable (upd_vertex u f g) v = usable g v" for v
    by (cases "v < length (vertices g)") (simp_all add: usable_def nth_upd_vertex same_pool_made [OF assms(2)])
  have "p \<in> set (vertices g) \<or> (u < length (vertices g) \<and> p = f (vertices g ! u))" if "p \<in> set (vertices (upd_vertex u f g))" for p
  proof (cases "u < length (vertices g)")
    case True
    then show ?thesis using that set_update_subset_insert [of "vertices g" u "f (vertices g ! u)"] by (auto simp: upd_vertex_def)
  next
    case False
    then show ?thesis using that by (simp add: upd_vertex_def list_update_beyond)
  qed
  moreover have "fresh_pool (f (vertices g ! u)) \<and> made (f (vertices g ! u))" if "u < length (vertices g)"
    using assms(1,3) that same_pool_fresh [OF assms(2)] same_pool_made [OF assms(2)] by (simp add: graph_ok_def)
  ultimately have "fresh_pool p \<and> (made p \<or> left_behind p)" if "p \<in> set (vertices (upd_vertex u f g))" for p
    using that assms(1) unfolding graph_ok_def by blast
  with assms(1) show ?thesis unfolding graph_ok_def l by simp
qed

lemma em_grows_upd_vertex:
  assumes "em_ok em" and "\<And>p. same_pool p (f p)" and "usable (db_graph (em_db em)) u"
  shows "em_grows em (upd_graph (upd_vertex u f) em)"
  using assms by (intro em_grows_graph grows_upd_vertex graph_ok_upd_vertex) (auto simp: usable_def)

lemma em_grows_touch: "em_ok em \<Longrightarrow> usable (db_graph (em_db em)) u \<Longrightarrow> em_grows em (touch_path u s em)"
  unfolding touch_path_def by (rule em_grows_upd_vertex) (auto simp: same_pool_def)

lemma em_grows_join:
  assumes "em_ok em" and "usable (db_graph (em_db em)) src" and "usable (db_graph (em_db em)) tgt"
  shows "em_grows em (join_subsystem s src tgt em)"
proof -
  have t: "em_grows em (touch_path src s em)" by (rule em_grows_touch) (fact assms)+
  with assms have "em_ok (touch_path src s em)" "usable (db_graph (em_db (touch_path src s em))) tgt"
    by (auto simp: em_grows_def intro: grows_live)
  with t show ?thesis unfolding join_subsystem_def Let_def
    by (auto intro!: em_grows_trans [OF t] em_grows_upd_vertex simp: same_pool_def)
qed

lemma em_grows_upd_edge:
  assumes "em_ok em" and "\<And>r. e_src (f r) = e_src r \<and> e_tgt (f r) = e_tgt r"
  shows "em_grows em (upd_graph (upd_edge e f) em)"
  using assms by (intro em_grows_graph) (auto simp: grows_def nth_upd_edge graph_ok_def usable_def)

lemma em_grows_raw_edge:
  assumes "em_ok em" and "usable (db_graph (em_db em)) u" and "usable (db_graph (em_db em)) v"
  shows "em_grows em (fst (raw_edge u v em))"
proof (cases "List.find (\<lambda>e. target (db_graph (em_db em)) e = v) (out_edges_all (db_graph (em_db em)) u)")
  case None
  have "em_grows em (upd_graph (\<lambda>g. fst (add_edge u v g)) em)"
    using assms by (intro em_grows_graph) (auto simp: grows_def graph_ok_def usable_def add_edge_def nth_append)
  with None show ?thesis by (simp add: raw_edge_def)
qed (use assms in \<open>simp add: raw_edge_def em_grows_refl\<close>)

lemma em_grows_emit_edges:
  assumes "em_ok em" and "usable (db_graph (em_db em)) u" and "usable (db_graph (em_db em)) v"
  shows "em_grows em (emit_edges ge u v em)"
proof -
  obtain em1 e where r: "raw_edge u v em = (em1, e)" by (cases "raw_edge u v em")
  with em_grows_raw_edge [OF assms] have g1: "em_grows em em1" by simp
  let ?em2 = "upd_graph (upd_edge e (relate (e_subsystem ge) (relation ge))) em1"
  have g2: "em_grows em ?em2"
    using em_grows_trans [OF g1 em_grows_upd_edge] g1 by (simp add: em_grows_def relate_def)
  obtain em3 e' where r': "raw_edge v u ?em2 = (em3, e')" by (cases "raw_edge v u ?em2")
  have "em_grows ?em2 em3"
    using em_grows_raw_edge [of ?em2 v u] g2 assms(2,3) r' by (auto simp: em_grows_def intro: grows_live)
  with g2 have g3: "em_grows em em3" by (rule em_grows_trans)
  have "em_grows em (upd_graph (upd_edge e' (relate (e_subsystem ge) (rrelation ge))) em3)"
    using em_grows_upd_edge [of em3 "relate (e_subsystem ge) (rrelation ge)" e'] g3
    by (auto simp: em_grows_def relate_def intro: grows_trans)
  with g1 g3 r r' show ?thesis by (simp add: emit_edges_def)
qed


section \<open>New pools\<close>

lemma grows_append: "grows g (g\<lparr>vertices := vertices g @ ps\<rparr>)"
  by (auto simp: grows_def nth_append)

lemma em_grows_new_pools:
  assumes "em_ok em" and "\<forall>p\<in>set ps. fresh_pool p \<and> (made p \<or> left_behind p)"
  shows "em_grows em (upd_graph (\<lambda>g. g\<lparr>vertices := vertices g @ ps\<rparr>) em)"
  using assms by (intro em_grows_graph grows_append) (auto simp: graph_ok_def usable_def nth_append)

lemma fill_pool_made: "fresh_pool (fill_pool u ident pref resource_pool_new)" "made (fill_pool u ident pref resource_pool_new)"
  by (auto simp: fill_pool_def fresh_pool_def made_def resource_pool_new_def schedule_new_def pool_infra_new_def Let_def)

lemma new_pool_left: "fresh_pool resource_pool_new" "left_behind resource_pool_new"
  by (simp_all add: fresh_pool_def left_behind_def resource_pool_new_def schedule_new_def pool_infra_new_def)

lemma index_ok_push:
  "index_ok key g m \<Longrightarrow> usable g v \<Longrightarrow> key (vertices g ! v) k \<Longrightarrow> index_ok key g (index_push k v m)"
  by (cases "map_of m k") (auto simp: index_ok_def index_push_def)

lemma index_pool_graph [simp]: "db_graph (index_pool s v db) = db_graph db" "db_roots (index_pool s v db) = db_roots db"
  by (simp_all add: index_pool_def Let_def)

lemma db_ok_index_pool: "db_ok db \<Longrightarrow> usable (db_graph db) v \<Longrightarrow> db_ok (index_pool s v db)"
  unfolding db_ok_def index_pool_graph by (auto simp: index_pool_def Let_def intro!: index_ok_push)

lemma em_grows_index: "em_ok em \<Longrightarrow> usable (db_graph (em_db em)) v \<Longrightarrow> em_grows em (em\<lparr>em_db := index_pool s v (em_db em)\<rparr>)"
  by (simp add: em_grows_def em_ok_def db_ok_index_pool)

lemma em_grows_root:
  "em_ok em \<Longrightarrow> usable (db_graph (em_db em)) v \<Longrightarrow>
   em_grows em (em\<lparr>em_db := (em_db em)\<lparr>db_roots := map_put s v (db_roots (em_db em))\<rparr>\<rparr>)"
  by (auto simp: em_grows_def em_ok_def db_ok_def split: if_splits)

text \<open>The pools that one call of \<open>emit_vertex_gen\<close> below another pool adds, and the database after it.\<close>

definition child_pool :: "pool_gen \<Rightarrow> int \<Rightarrow> resource_pool \<Rightarrow> resource_pool" where
  "child_pool u ident parent = fill_pool u ident (path_in parent (g_subsystem u)) resource_pool_new"

definition with_child :: "pool_gen \<Rightarrow> int \<Rightarrow> nat \<Rightarrow> resource_graph \<Rightarrow> resource_graph" where
  "with_child u ident s g =
     upd_vertex s (\<lambda>p. p\<lparr>paths := map_insert (g_subsystem u) [] (paths p)\<rparr>)
       (g\<lparr>vertices := vertices g @ [resource_pool_new, child_pool u ident (vertices g ! s)]\<rparr>)"

lemma path_in_touched [simp]: "path_in (p\<lparr>paths := map_insert s [] (paths p)\<rparr>) s' = path_in p s'"
  by (auto simp: path_in_def split: option.splits)

lemma emit_vertex_below:
  assumes "s < length (vertices (db_graph (em_db em)))"
  shows "emit_vertex_gen u e (Some s) i sz j em =
    bind (gen_id (hier_scales em) e i sz j) (\<lambda>ident.
      let em' = upd_graph (with_child u ident s) em; v = Suc (length (vertices (db_graph (em_db em))))
      in Ret (em'\<lparr>em_db := index_pool (g_subsystem u) v (em_db em')\<rparr>, v))"
proof -
  let ?g = "db_graph (em_db em)" and ?n = "length (vertices (db_graph (em_db em)))"
  have g: "upd_vertex (Suc ?n) (fill_pool u ident (path_in (vertices ?g ! s) (g_subsystem u)))
      (upd_vertex s (\<lambda>p. p\<lparr>paths := map_insert (g_subsystem u) [] (paths p)\<rparr>)
        (?g\<lparr>vertices := vertices ?g @ [resource_pool_new, resource_pool_new]\<rparr>)) = with_child u ident s ?g" for ident
    using assms by (simp add: with_child_def child_pool_def upd_vertex_def nth_append list_update_append)
  show ?thesis
    using assms by (cases "gen_id (hier_scales em) e i sz j") (simp_all add: emit_vertex_gen_def new_vertex_def add_vertex_def upd_graph_def touch_path_def gen_pool_def Let_def
        nth_append g split: option.split)
qed


section \<open>Every step of the walk keeps the database well-formed\<close>

lemma em_growsD: "em_grows em em' \<Longrightarrow> em_ok em'" "em_grows em em' \<Longrightarrow> usable (db_graph (em_db em)) v \<Longrightarrow> usable (db_graph (em_db em')) v"
  by (auto simp: em_grows_def intro: grows_live)

lemma em_grows_then: "em_grows em em' \<Longrightarrow> (em_ok em' \<Longrightarrow> em_grows em' em'') \<Longrightarrow> em_grows em em''"
  by (rule em_grows_trans) (simp_all add: em_growsD)

lemma em_ok_src: "em_ok em \<Longrightarrow> v \<in> set (gen_src_vtx em u) \<Longrightarrow> usable (db_graph (em_db em)) v"
  by (auto simp: em_ok_def)

lemma em_ok_by_type: "em_ok em \<Longrightarrow> v \<in> set (pools_of_type ty (em_db em)) \<Longrightarrow> usable (db_graph (em_db em)) v"
  by (cases "map_of (by_type (em_db em)) ty") (auto simp: em_ok_def db_ok_def index_ok_def pools_of_type_def)

lemma em_grows_with_child:
  assumes "em_ok em" and "usable (db_graph (em_db em)) s"
  shows "em_grows em (upd_graph (with_child u ident s) em)"
    and "usable (db_graph (em_db (upd_graph (with_child u ident s) em))) (Suc (length (vertices (db_graph (em_db em)))))"
proof -
  let ?g = "db_graph (em_db em)" and ?ps = "[resource_pool_new, child_pool u ident (vertices (db_graph (em_db em)) ! s)]"
  let ?em = "upd_graph (\<lambda>g. g\<lparr>vertices := vertices g @ ?ps\<rparr>) em"
  have 1: "em_grows em ?em"
    using fill_pool_made new_pool_left by (intro em_grows_new_pools [OF assms(1)]) (auto simp: child_pool_def)
  have 2: "em_grows ?em (touch_path s (g_subsystem u) ?em)"
    using em_growsD [OF 1] assms(2) by (intro em_grows_touch)
  have e: "upd_graph (with_child u ident s) em = touch_path s (g_subsystem u) ?em"
    by (simp add: upd_graph_def with_child_def touch_path_def)
  from em_grows_trans [OF 1 2] show "em_grows em (upd_graph (with_child u ident s) em)" unfolding e .
  have "usable (db_graph (em_db ?em)) (Suc (length (vertices ?g)))"
    by (simp add: usable_def nth_append child_pool_def fill_pool_made)
  from em_growsD(2) [OF 2 this] show "usable (db_graph (em_db (upd_graph (with_child u ident s) em))) (Suc (length (vertices ?g)))"
    unfolding e .
qed

lemma wp_emit_below:
  assumes "em_ok em" and "usable (db_graph (em_db em)) s"
  shows "wp True True (emit_vertex_gen u e (Some s) i sz j em) (\<lambda>(em', v). em_grows em em' \<and> usable (db_graph (em_db em')) v)"
proof -
  have s: "s < length (vertices (db_graph (em_db em)))" using assms(2) by (simp add: usable_def)
  let ?em = "\<lambda>ident. upd_graph (with_child u ident s) em" and ?v = "Suc (length (vertices (db_graph (em_db em))))"
  have "em_grows em ((?em ident)\<lparr>em_db := index_pool (g_subsystem u) ?v (em_db (?em ident))\<rparr>)" for ident
    using em_grows_with_child [OF assms, of u ident]
    by (intro em_grows_trans [OF em_grows_with_child(1) em_grows_index]) (auto simp: em_grows_def assms)
  moreover have "usable (with_child u ident s (db_graph (em_db em))) ?v" for ident
    using em_grows_with_child(2) [OF assms, of u ident] by simp
  ultimately show ?thesis
    by (cases "gen_id (hier_scales em) e i sz j") (simp_all add: emit_vertex_below [OF s] Let_def del: upd_graph_sel(1) add: upd_graph_sel)
qed

lemma wp_emit_root:
  assumes "em_ok em"
  shows "wp True True (emit_vertex_gen u e None i sz j em) (\<lambda>(em', v). em_grows em em' \<and> usable (db_graph (em_db em')) v)"
proof (cases "map_of (db_roots (em_db em)) (g_subsystem u)")
  case (Some root)
  then show ?thesis using assms by (auto simp: emit_vertex_gen_def em_grows_refl em_ok_def db_ok_def)
next
  case None
  let ?n = "length (vertices (db_graph (em_db em)))" and ?p = "fill_pool u 0 [] resource_pool_new"
  let ?em1 = "upd_graph (\<lambda>g. g\<lparr>vertices := vertices g @ [?p]\<rparr>) em"
  let ?em2 = "?em1\<lparr>em_db := (em_db ?em1)\<lparr>db_roots := map_put (g_subsystem u) ?n (db_roots (em_db ?em1))\<rparr>\<rparr>"
  let ?em3 = "?em2\<lparr>em_db := index_pool (g_subsystem u) ?n (em_db ?em2)\<rparr>"
  have 1: "em_grows em ?em1" by (intro em_grows_new_pools [OF assms]) (simp add: fill_pool_made)
  have n: "usable (db_graph (em_db ?em1)) ?n" by (simp add: usable_def fill_pool_made)
  have 2: "em_grows ?em1 ?em2" using em_growsD [OF 1] n by (intro em_grows_root) simp_all
  have "em_grows ?em2 ?em3" by (rule em_grows_index) (use em_growsD [OF 2] n in simp_all)
  with 1 2 have "em_grows em ?em3" by (blast intro: em_grows_trans)
  moreover have "emit_vertex_gen u e None i sz j em = Ret (?em3, ?n)"
    using None by (cases "em_db em") (simp add: emit_vertex_gen_def new_vertex_def add_vertex_def upd_graph_def upd_vertex_def Let_def)
  ultimately show ?thesis using n by simp
qed

lemma em_grows_push: "em_ok em \<Longrightarrow> usable (db_graph (em_db em)) v \<Longrightarrow> em_grows em (push_src u v em)"
  by (auto simp: em_grows_def em_ok_def push_src_def)

lemma em_grows_associate:
  assumes "em_ok em" and "usable (db_graph (em_db em)) s" and "usable (db_graph (em_db em)) v"
  shows "em_grows em (associate e s v em)"
proof -
  note 1 = em_grows_join [OF assms, of "e_subsystem e"]
  note 2 = em_grows_emit_edges [OF em_growsD(1) [OF 1] em_growsD(2) [OF 1 assms(2)] em_growsD(2) [OF 1 assms(3)], of e]
  note 12 = em_grows_trans [OF 1 2]
  show ?thesis unfolding associate_def
    by (rule em_grows_trans [OF 12 em_grows_push [OF em_growsD(1) [OF 12] em_growsD(2) [OF 12 assms(3)]]])
qed

lemma em_grows_fields:
  "em_ok em \<Longrightarrow> em_grows em (em\<lparr>hier_scales := h\<rparr>)" "em_ok em \<Longrightarrow> em_grows em (em\<lparr>em_err_msg := m\<rparr>)"
  "em_ok em \<Longrightarrow> em_grows em (em\<lparr>gen_src_vtx := (gen_src_vtx em)(u := [])\<rparr>)" "em_ok em \<Longrightarrow> em_grows em (touch_type ty em)"
  "em_ok em \<Longrightarrow> em_grows em (finish_vertex em)"
  by (auto simp: em_grows_def em_ok_def touch_type_def db_ok_def index_ok_def finish_vertex_def split: if_splits)

lemma em_grows_fold:
  assumes "em_ok em" and "\<And>x em'. x \<in> set xs \<Longrightarrow> em_grows em em' \<Longrightarrow> em_grows em' (f x em')"
  shows "em_grows em (fold f xs em)"
proof -
  have "em_grows em (fold f ys em')" if "set ys \<subseteq> set xs" "em_grows em em'" for ys em'
    using that
  proof (induction ys arbitrary: em')
    case (Cons y ys)
    then have "em_grows em (f y em')" using em_grows_trans [OF Cons.prems(2) assms(2) [OF _ Cons.prems(2)]] by simp
    with Cons show ?case by simp
  qed simp
  from this [OF subset_refl em_grows_refl [OF assms(1)]] show ?thesis .
qed

lemma wp_grows_each:
  assumes "em_ok em" and "\<And>x em'. x \<in> set xs \<Longrightarrow> em_grows em em' \<Longrightarrow> wp True True (f x em') (em_grows em')"
  shows "wp True True (each f xs em) (em_grows em)"
  by (rule wp_each [where P = "em_grows em"])
    (use assms in \<open>auto intro: em_grows_refl wp_mono em_grows_trans\<close>)

lemma em_grows_associate_in: "em_ok em \<Longrightarrow> em_grows em (associate_in rcp e em)"
  unfolding associate_in_def Let_def
proof (rule em_grows_fold)
  fix s em' assume em: "em_ok em" and s: "s \<in> set (gen_src_vtx em (g_src e))" and em': "em_grows em em'"
  let ?ty = "g_type (g_pools rcp ! g_tgt e)"
  note t = em_grows_fields(4) [OF em_growsD(1) [OF em'], of ?ty]
  show "em_grows em' (fold (associate e s) (pools_of_type ?ty (em_db em')) (touch_type ?ty em'))"
  proof (rule em_grows_trans [OF t em_grows_fold [OF em_growsD(1) [OF t]]])
    fix v em'' assume v: "v \<in> set (pools_of_type ?ty (em_db em'))" and g: "em_grows (touch_type ?ty em') em''"
    note all = em_growsD(2) [OF g] em_growsD(2) [OF t] em_growsD(2) [OF em']
    from g show "em_grows em'' (associate e s v em'')"
      by (intro em_grows_associate em_growsD(1) all em_ok_src [OF em s] em_ok_by_type [OF em_growsD(1) [OF em'] v])
  qed
qed

lemma wp_associate_by_path:
  assumes "em_ok em" and "usable (db_graph (em_db em)) s" and "usable (db_graph (em_db em)) v"
  shows "wp True True (associate_by_path e s v em) (em_grows em)"
proof -
  note 1 = em_grows_touch [OF assms(1,3), of "as_tgt_subsystem e"]
  note 2 = em_grows_trans [OF 1 em_grows_touch [OF em_growsD(1) [OF 1] em_growsD(2) [OF 1 assms(2)], of "as_tgt_subsystem e"]]
  note 3 = em_grows_trans [OF 2 em_grows_associate [OF em_growsD(1) [OF 2] em_growsD(2) [OF 2 assms(2)] em_growsD(2) [OF 2 assms(3)], of e]]
  show ?thesis unfolding associate_by_path_def Let_def
    by (intro wp_bindI [OF wp_trivial]) (simp_all add: 2 3 split: prod.split)
qed

lemma wp_associate_by_path_in: "em_ok em \<Longrightarrow> wp True True (associate_by_path_in rcp e em) (em_grows em)"
  unfolding associate_by_path_in_def Let_def
proof (rule wp_grows_each)
  fix s em' assume em: "em_ok em" and s: "s \<in> set (gen_src_vtx em (g_src e))" and em': "em_grows em em'"
  let ?ty = "g_type (g_pools rcp ! g_tgt e)"
  note t = em_grows_fields(4) [OF em_growsD(1) [OF em'], of ?ty]
  have "wp True True (each (associate_by_path e s) (pools_of_type ?ty (em_db em')) (touch_type ?ty em')) (em_grows (touch_type ?ty em'))"
  proof (rule wp_grows_each [OF em_growsD(1) [OF t]])
    fix v em'' assume v: "v \<in> set (pools_of_type ?ty (em_db em'))" and g: "em_grows (touch_type ?ty em') em''"
    note all = em_growsD(2) [OF g] em_growsD(2) [OF t] em_growsD(2) [OF em']
    from g show "wp True True (associate_by_path e s v em'') (em_grows em'')"
      by (intro wp_associate_by_path em_growsD(1) all em_ok_src [OF em s] em_ok_by_type [OF em_growsD(1) [OF em'] v])
  qed
  then show "wp True True (each (associate_by_path e s) (pools_of_type ?ty (em_db em')) (touch_type ?ty em')) (em_grows em')"
    by (rule wp_mono) (rule em_grows_trans [OF t])
qed

lemma wp_multiply:
  assumes em: "em_ok em"
  shows "wp True True (multiply rcp e em) (em_grows em)"
proof -
  let ?u = "g_pools rcp ! g_tgt e"
  let ?child = "emit_child rcp e"
  have child: "wp True True (?child s j i em') (em_grows em')" if "em_ok em'" "usable (db_graph (em_db em')) s" for s j i em'
    unfolding emit_child_def
  proof (rule wp_bindI [OF wp_emit_below [OF that]])
    fix x assume x: "case x of (em'', v) \<Rightarrow> em_grows em' em'' \<and> usable (db_graph (em_db em'')) v"
    obtain em2 v where xv: "x = (em2, v)" by (cases x)
    from x have g: "em_grows em' em2" and v: "usable (db_graph (em_db em2)) v" by (simp_all add: xv)
    note 1 = em_grows_emit_edges [OF em_growsD(1) [OF g] em_growsD(2) [OF g that(2)] v, of e]
    from em_grows_trans [OF g em_grows_trans [OF 1 em_grows_push [OF em_growsD(1) [OF 1] em_growsD(2) [OF 1 v]]]]
    show "wp True True (case x of (em, v) \<Rightarrow> Ret (push_src (g_tgt e) v (emit_edges e s v em))) (em_grows em')"
      by (simp add: xv)
  qed
  have "wp True True (each (multiply_src rcp e) (gen_src_vtx em (g_src e)) (em, 0)) (\<lambda>(em', j). em_grows em em')"
  proof (rule wp_each [where P = "\<lambda>(em', j). em_grows em em'"])
    fix s and st :: "emitter \<times> int" assume s: "s \<in> set (gen_src_vtx em (g_src e))" and st: "case st of (em', j) \<Rightarrow> em_grows em em'"
    obtain em' j where sj: "st = (em', j)" by (cases st)
    with st have g: "em_grows em em'" by simp
    have "wp True True (each (?child s j) [0..multi_scale e - 1] em') (em_grows em')"
      using em_growsD [OF g] em_ok_src [OF em s] by (intro wp_grows_each child) (auto dest: em_growsD)
    from wp_mono [OF this, of "em_grows em"] g
    show "wp True True (multiply_src rcp e s st)
        (\<lambda>(em', j). em_grows em em')"
      by (auto simp: sj multiply_src_def intro: em_grows_trans)
  qed (simp add: em_grows_refl em)
  then show ?thesis unfolding multiply_def
    by (rule wp_bindI) (auto elim!: em_grows_then intro: em_grows_fields)
qed

lemma wp_emit_root_step:
  assumes "em_ok em"
  shows "wp True True (emit_root rcp e em) (em_grows em)"
proof (cases "g_root (g_pools rcp ! g_src e) \<noteq> 0 \<and> gen_src_vtx em (g_src e) = []")
  case True
  have "wp True True (emit_vertex_gen (g_pools rcp ! g_src e) e None 0 1 0 em)
      (\<lambda>r. em_grows em (push_src (g_src e) (snd r) (fst r)))"
    by (rule wp_mono [OF wp_emit_root [OF assms]]) (auto elim!: em_grows_then intro: em_grows_push)
  then show ?thesis using True by (simp add: emit_root_def case_prod_beta)
qed (auto simp: emit_root_def em_grows_refl assms)

lemma wp_tree_edge:
  assumes "em_ok em"
  shows "wp True True (tree_edge rcp e em) (em_grows em)"
proof -
  show ?thesis unfolding tree_edge_def
  proof (rule wp_bindI [OF wp_emit_root_step [OF assms]])
    fix em1 assume "em_grows em em1"
    note 1 = em_grows_trans [OF this em_grows_fields(3) [OF em_growsD(1) [OF this], of "g_tgt e"]]
    note ok = em_growsD(1) [OF 1]
    show "wp True True (let em = em1\<lparr>gen_src_vtx := (gen_src_vtx em1)(g_tgt e := [])\<rparr> in
        case to_gen_method_t (gen_method e) of MULTIPLY \<Rightarrow> multiply rcp e em | ASSOCIATE_IN \<Rightarrow> Ret (associate_in rcp e em)
        | ASSOCIATE_BY_PATH_IN \<Rightarrow> associate_by_path_in rcp e em
        | GEN_UNKNOWN \<Rightarrow> Ret (em\<lparr>em_err_msg := em_err_msg em @ '': unknown generation method''\<rparr>)) (em_grows em)"
      unfolding Let_def
      by (cases "to_gen_method_t (gen_method e)")
        (auto intro!: em_grows_trans [OF 1] wp_mono [OF wp_multiply [OF ok]] wp_mono [OF wp_associate_by_path_in [OF ok]]
          em_grows_associate_in [OF ok] em_grows_fields(2) [OF ok])
  qed
qed

lemma wp_gen_steps: "em_ok em \<Longrightarrow> wp True True (each (gen_step rcp) evs em) (em_grows em)"
  by (rule wp_grows_each)
    (auto simp: gen_step_def intro: wp_tree_edge em_grows_fields dest: em_growsD split: gen_event.split)

end
