(* ===== verification/Resource_Gen_Children.thy ===== *)
theory Resource_Gen_Children
  imports Resource_Gen_Laws
begin

text \<open>What the multiplication of a recipe edge adds to the graph: two vertices and two edges for every child.\<close>

section \<open>Graphs that are only added to\<close>

definition extends :: "resource_graph \<Rightarrow> resource_graph \<Rightarrow> bool" where
  "extends g g' \<longleftrightarrow> length (vertices g) \<le> length (vertices g') \<and> length (edges g) \<le> length (edges g') \<and>
     (\<forall>v<length (vertices g). same_pool (vertices g ! v) (vertices g' ! v) \<and>
        p_idata (vertices g' ! v) = p_idata (vertices g ! v) \<and>
        (\<forall>s. path_in (vertices g' ! v) s = path_in (vertices g ! v) s)) \<and>
     (\<forall>d<length (edges g). edges g' ! d = edges g ! d)"

definition edges_in :: "resource_graph \<Rightarrow> bool" where
  "edges_in g \<longleftrightarrow> (\<forall>d<length (edges g). e_src (edges g ! d) < length (vertices g) \<and> e_tgt (edges g ! d) < length (vertices g))"

lemma extends_refl [simp]: "extends g g"
  by (simp add: extends_def)

lemma extends_trans: "extends g h \<Longrightarrow> extends h k \<Longrightarrow> extends g k"
  unfolding extends_def by (auto intro: same_pool_trans)

text \<open>The pool \<open>v\<close> is a child of the pool \<open>s\<close>, made from the recipe vertex \<open>u\<close> along the recipe edge \<open>e\<close>.\<close>

definition has_edge :: "resource_graph \<Rightarrow> nat \<Rightarrow> nat \<Rightarrow> string \<Rightarrow> string \<Rightarrow> bool" where
  "has_edge g s v ssys rel \<longleftrightarrow> (\<exists>d<length (edges g). e_src (edges g ! d) = s \<and> e_tgt (edges g ! d) = v \<and>
     map_of (e_member_of (e_idata (edges g ! d))) ssys = Some rel)"

definition is_child :: "pool_gen \<Rightarrow> relation_gen \<Rightarrow> int \<Rightarrow> nat \<Rightarrow> nat \<Rightarrow> resource_graph \<Rightarrow> bool" where
  "is_child u e ident s v g \<longleftrightarrow>
     (let p = vertices g ! v in
      v < length (vertices g) \<and> p_type p = g_type u \<and> p_id p = ident \<and>
      p_name p = g_basename u @ (if ident \<noteq> -1 then show_int ident else []) \<and> p_size p = u32 (g_size u) \<and>
      plans (p_schedule p) = planner_for (u64 (g_size u)) (g_type u) \<and>
      map_of (p_member_of (p_idata p)) (g_subsystem u) = Some ''*'' \<and>
      path_in p (g_subsystem u) = path_in (vertices g ! s) (g_subsystem u) @ ''/'' @ p_name p \<and>
      has_edge g s v (e_subsystem e) (relation e) \<and> has_edge g v s (e_subsystem e) (rrelation e))"

lemma has_edge_extends: "extends g g' \<Longrightarrow> has_edge g s v ssys rel \<Longrightarrow> has_edge g' s v ssys rel"
  unfolding extends_def has_edge_def by (metis less_le_trans)

lemma is_child_extends: "extends g g' \<Longrightarrow> is_child u e ident s v g \<Longrightarrow> s < length (vertices g) \<Longrightarrow> is_child u e ident s v g'"
proof -
  assume x: "extends g g'" and c: "is_child u e ident s v g" and s: "s < length (vertices g)"
  have v: "v < length (vertices g)" using c by (simp add: is_child_def Let_def)
  have "same_pool (vertices g ! v) (vertices g' ! v)" "p_idata (vertices g' ! v) = p_idata (vertices g ! v)"
      "path_in (vertices g' ! v) t = path_in (vertices g ! v) t" "path_in (vertices g' ! s) t = path_in (vertices g ! s) t"
      "v < length (vertices g')" for t
    using x v s by (simp_all add: extends_def)
  with c has_edge_extends [OF x] show ?thesis by (simp add: is_child_def Let_def same_pool_def)
qed

section \<open>One child\<close>

definition with_edges :: "relation_gen \<Rightarrow> nat \<Rightarrow> nat \<Rightarrow> resource_graph \<Rightarrow> resource_graph" where
  "with_edges e s v g = g\<lparr>edges := edges g @
     [relate (e_subsystem e) (relation e) \<lparr>e_src = s, e_tgt = v, e_name = [], e_idata = relation_infra_new\<rparr>,
      relate (e_subsystem e) (rrelation e) \<lparr>e_src = v, e_tgt = s, e_name = [], e_idata = relation_infra_new\<rparr>]\<rparr>"

lemma find_out_edge_None:
  "(\<forall>d<length (edges g). \<not> (e_src (edges g ! d) = s \<and> e_tgt (edges g ! d) = v)) \<Longrightarrow>
   List.find (\<lambda>e. target g e = v) (out_edges_all g s) = None"
  by (auto simp: find_None_iff out_edges_all_def target_def)

lemma emit_edges_new:
  assumes "em_err_msg em = []" and "edges_in (db_graph (em_db em))" and "s \<noteq> v"
    and "\<forall>d<length (edges (db_graph (em_db em))). e_src (edges (db_graph (em_db em)) ! d) \<noteq> v \<and> e_tgt (edges (db_graph (em_db em)) ! d) \<noteq> v"
  shows "emit_edges e s v em = upd_graph (with_edges e s v) em"
proof -
  let ?g = "db_graph (em_db em)"
  let ?r = "\<lparr>e_src = s, e_tgt = v, e_name = [], e_idata = relation_infra_new\<rparr>"
  have 1: "raw_edge s v em = (upd_graph (\<lambda>g. g\<lparr>edges := edges g @ [?r]\<rparr>) em, length (edges ?g))"
    using find_out_edge_None [of ?g s v] assms(4) by (simp add: raw_edge_def add_edge_def Let_def)
  let ?f = "relate (e_subsystem e) (relation e)"
  let ?em = "upd_graph (\<lambda>g. g\<lparr>edges := edges g @ [?f ?r]\<rparr>) em"
  have 2: "upd_graph (upd_edge (length (edges ?g)) ?f) (upd_graph (\<lambda>g. g\<lparr>edges := edges g @ [?r]\<rparr>) em) = ?em"
    by (simp add: upd_graph_def upd_edge_def)
  have "e_src (?f ?r) = s" by (simp add: relate_def)
  then have "\<forall>d<length (edges (db_graph (em_db ?em))). \<not> (e_src (edges (db_graph (em_db ?em)) ! d) = v \<and> e_tgt (edges (db_graph (em_db ?em)) ! d) = s)"
    using assms(3,4) by (auto simp: nth_append)
  from find_out_edge_None [OF this]
  have 3: "raw_edge v s ?em = (upd_graph (\<lambda>g. g\<lparr>edges := edges g @ [\<lparr>e_src = v, e_tgt = s, e_name = [], e_idata = relation_infra_new\<rparr>]\<rparr>) ?em,
      Suc (length (edges ?g)))"
    by (simp add: raw_edge_def add_edge_def Let_def)
  show ?thesis unfolding emit_edges_def 1 prod.case 2 3
    using assms(1) by (simp add: upd_graph_def upd_edge_def with_edges_def nth_append list_update_append)
qed

lemma child_pool_sel:
  "p_type (child_pool u ident p) = g_type u" "p_id (child_pool u ident p) = ident"
  "p_name (child_pool u ident p) = g_basename u @ (if ident \<noteq> -1 then show_int ident else [])"
  "p_size (child_pool u ident p) = u32 (g_size u)"
  "plans (p_schedule (child_pool u ident p)) = planner_for (u64 (g_size u)) (g_type u)"
  "map_of (p_member_of (p_idata (child_pool u ident p))) (g_subsystem u) = Some ''*''"
  "path_in (child_pool u ident p) (g_subsystem u) = path_in p (g_subsystem u) @ ''/'' @ g_basename u @ (if ident \<noteq> -1 then show_int ident else [])"
  by (simp_all add: child_pool_def fill_pool_def Let_def path_in_def resource_pool_new_def pool_infra_new_def)

lemma with_child_sel:
  assumes "s < length (vertices g)"
  shows "length (vertices (with_child u ident s g)) = length (vertices g) + 2" "edges (with_child u ident s g) = edges g"
    "vertices (with_child u ident s g) ! Suc (length (vertices g)) = child_pool u ident (vertices g ! s)"
    "v < length (vertices g) \<Longrightarrow> vertices (with_child u ident s g) ! v =
       (if v = s then (vertices g ! v)\<lparr>paths := map_insert (g_subsystem u) [] (paths (vertices g ! v))\<rparr> else vertices g ! v)"
  using assms by (simp_all add: with_child_def nth_upd_vertex nth_append)

lemma emit_child_spec:
  assumes "em_err_msg em = []" and "edges_in (db_graph (em_db em))" and "s < length (vertices (db_graph (em_db em)))"
    and "emit_child rcp e s j i em = Ret em'"
  defines "v \<equiv> Suc (length (vertices (db_graph (em_db em))))"
  obtains ident where "gen_id (hier_scales em) e i (multi_scale e) j = Ret ident"
    and "is_child (g_pools rcp ! g_tgt e) e ident s v (db_graph (em_db em'))"
    and "length (vertices (db_graph (em_db em'))) = length (vertices (db_graph (em_db em))) + 2"
    and "extends (db_graph (em_db em)) (db_graph (em_db em'))" and "edges_in (db_graph (em_db em'))"
    and "gen_src_vtx em' = (gen_src_vtx em)(g_tgt e := gen_src_vtx em (g_tgt e) @ [v])"
    and "hier_scales em' = hier_scales em" and "em_err_msg em' = []"
proof -
  let ?u = "g_pools rcp ! g_tgt e" and ?g = "db_graph (em_db em)"
  obtain ident where gid: "gen_id (hier_scales em) e i (multi_scale e) j = Ret ident"
    using assms(4) unfolding emit_child_def emit_vertex_below [OF assms(3)]
    by (cases "gen_id (hier_scales em) e i (multi_scale e) j") simp_all
  let ?em1 = "upd_graph (with_child ?u ident s) em"
  let ?em2 = "?em1\<lparr>em_db := index_pool (g_subsystem ?u) v (em_db ?em1)\<rparr>"
  have e1: "em' = push_src (g_tgt e) v (emit_edges e s v ?em2)"
    using assms(4) gid unfolding emit_child_def emit_vertex_below [OF assms(3)] by (simp add: v_def Let_def)
  have g2: "db_graph (em_db ?em2) = with_child ?u ident s ?g" by simp
  have sv: "s < v" using assms(3) by (simp add: v_def)
  have e2: "emit_edges e s v ?em2 = upd_graph (with_edges e s v) ?em2"
    by (rule emit_edges_new) (use assms(1-3) sv in \<open>auto simp: g2 edges_in_def with_child_sel v_def\<close>)
  have g': "db_graph (em_db em') = with_edges e s v (with_child ?u ident s ?g)"
    unfolding e1 e2 by (simp add: push_src_def)
  have sel: "vertices (with_edges e s w g) = vertices g" for g w by (simp add: with_edges_def)
  have len: "length (vertices (db_graph (em_db em'))) = length (vertices ?g) + 2" by (simp add: g' sel with_child_sel assms(3))
  have ext: "extends ?g (db_graph (em_db em'))"
    unfolding extends_def g' sel using assms(3) by (auto simp: with_child_sel same_pool_def with_edges_def nth_append)
  have ein: "edges_in (db_graph (em_db em'))"
    using assms(2,3) sv unfolding edges_in_def len by (auto simp: g' with_edges_def with_child_sel nth_append relate_def v_def less_Suc_eq)
  have "has_edge (db_graph (em_db em')) s v (e_subsystem e) (relation e)" "has_edge (db_graph (em_db em')) v s (e_subsystem e) (rrelation e)"
    unfolding has_edge_def g'
    by (rule exI [of _ "length (edges ?g)"], simp add: with_edges_def with_child_sel assms(3) nth_append relate_def relation_infra_new_def)
      (rule exI [of _ "Suc (length (edges ?g))"], simp add: with_edges_def with_child_sel assms(3) nth_append relate_def relation_infra_new_def)
  then have child: "is_child ?u e ident s v (db_graph (em_db em'))"
    using assms(3) sv unfolding is_child_def Let_def len
    by (simp add: g' sel with_child_sel(3,4) v_def child_pool_sel)
  have "gen_src_vtx em' = (gen_src_vtx em)(g_tgt e := gen_src_vtx em (g_tgt e) @ [v])" "hier_scales em' = hier_scales em" "em_err_msg em' = []"
    unfolding e1 e2 using assms(1) by (simp_all add: push_src_def)
  with gid child len ext ein show thesis by (rule that)
qed


section \<open>All children\<close>

text \<open>What a run of children keeps and counts: \<open>n\<close> of them were made after the state \<open>em\<close>.\<close>

definition children_made :: "nat \<Rightarrow> nat \<Rightarrow> emitter \<Rightarrow> emitter \<Rightarrow> bool" where
  "children_made tgt n em em' \<longleftrightarrow>
     (let g = db_graph (em_db em); g' = db_graph (em_db em') in
      length (vertices g') = length (vertices g) + 2 * n \<and> extends g g' \<and> edges_in g' \<and> em_err_msg em' = [] \<and>
      hier_scales em' = hier_scales em \<and>
      gen_src_vtx em' = (gen_src_vtx em)(tgt := gen_src_vtx em tgt @ map (\<lambda>k. length (vertices g) + 2 * k + 1) [0..<n]))"

lemma children_made_refl: "em_err_msg em = [] \<Longrightarrow> edges_in (db_graph (em_db em)) \<Longrightarrow> children_made tgt 0 em em"
  by (simp add: children_made_def)

lemma upt_add_map: "map f [0..<m + n] = map f [0..<m] @ map (\<lambda>k. f (m + k)) [0..<n]"
  by (induction n) simp_all

lemma children_made_trans:
  assumes "children_made tgt m em em1" and "children_made tgt n em1 em2"
  shows "children_made tgt (m + n) em em2"
  using assms by (auto simp: children_made_def Let_def upt_add_map algebra_simps intro: extends_trans)

lemma children_madeD:
  assumes "children_made tgt n em em'"
  shows "em_err_msg em' = []" "edges_in (db_graph (em_db em'))" "hier_scales em' = hier_scales em"
    "extends (db_graph (em_db em)) (db_graph (em_db em'))"
    "length (vertices (db_graph (em_db em'))) = length (vertices (db_graph (em_db em))) + 2 * n"
  using assms by (simp_all add: children_made_def Let_def)

text \<open>The child number \<open>k\<close> of a state, made from \<open>s\<close> with the indices \<open>i\<close> and \<open>j\<close>.\<close>

definition child_at :: "recipe \<Rightarrow> relation_gen \<Rightarrow> emitter \<Rightarrow> nat \<Rightarrow> int \<Rightarrow> int \<Rightarrow> nat \<Rightarrow> emitter \<Rightarrow> bool" where
  "child_at rcp e em s i j k em' \<longleftrightarrow>
     (\<exists>ident. gen_id (hier_scales em) e i (multi_scale e) j = Ret ident \<and>
        is_child (g_pools rcp ! g_tgt e) e ident s (length (vertices (db_graph (em_db em))) + 2 * k + 1) (db_graph (em_db em')))"

lemma child_at_extends:
  "child_at rcp e em s i j k em1 \<Longrightarrow> extends (db_graph (em_db em1)) (db_graph (em_db em2)) \<Longrightarrow>
   s < length (vertices (db_graph (em_db em1))) \<Longrightarrow> child_at rcp e em s i j k em2"
  unfolding child_at_def by (blast intro: is_child_extends)

lemma child_at_shift:
  "children_made tgt n em em1 \<Longrightarrow> child_at rcp e em1 s i j k em2 \<Longrightarrow> child_at rcp e em s i j (n + k) em2"
  by (auto simp: child_at_def children_madeD algebra_simps)

lemma emit_children:
  assumes "em_err_msg em = []" and "edges_in (db_graph (em_db em))" and "s < length (vertices (db_graph (em_db em)))"
    and "each (emit_child rcp e s j) is em = Ret em'"
  shows "children_made (g_tgt e) (length is) em em' \<and> (\<forall>k<length is. child_at rcp e em s (is ! k) j k em')"
  using assms
proof (induction "is" arbitrary: em)
  case Nil
  then show ?case by (simp add: children_made_refl)
next
  case (Cons i ns)
  from Cons.prems(4) obtain em1 where 1: "emit_child rcp e s j i em = Ret em1" and 2: "each (emit_child rcp e s j) ns em1 = Ret em'"
    by (auto elim: bind_RetE)
  from emit_child_spec [OF Cons.prems(1-3) 1] have m: "children_made (g_tgt e) (Suc 0) em em1" and c: "child_at rcp e em s i j 0 em1"
    by (auto simp: children_made_def child_at_def Let_def)
  note d = children_madeD [OF m]
  from Cons.IH [OF d(1,2) _ 2] Cons.prems(3) d(5)
  have ih: "children_made (g_tgt e) (length ns) em1 em'" "\<forall>k<length ns. child_at rcp e em1 s (ns ! k) j k em'" by simp_all
  have "child_at rcp e em s ((i # ns) ! k) j k em'" if "k < Suc (length ns)" for k
  proof (cases k)
    case 0
    then show ?thesis using child_at_extends [OF c children_madeD(4) [OF ih(1)]] Cons.prems(3) d(5) by simp
  next
    case (Suc l)
    then show ?thesis using child_at_shift [OF m] ih(2) that by fastforce
  qed
  with children_made_trans [OF m ih(1)] show ?case by simp
qed

lemma multiply_children:
  assumes "em_err_msg em = []" and "edges_in (db_graph (em_db em))" and "\<forall>s\<in>set ss. s < length (vertices (db_graph (em_db em)))"
    and "each (multiply_src rcp e) ss (em, j) = Ret (em', j')"
  defines "ks \<equiv> [0..multi_scale e - 1]"
  shows "children_made (g_tgt e) (length ss * length ks) em em' \<and>
    (\<forall>a<length ss. \<forall>k<length ks. child_at rcp e em (ss ! a) (ks ! k) (j + int a) (a * length ks + k) em')"
  using assms(1-4)
proof (induction ss arbitrary: em j)
  case Nil
  then show ?case by (simp add: children_made_refl)
next
  case (Cons s ss)
  from Cons.prems(4) obtain em1 where 1: "each (emit_child rcp e s j) ks em = Ret em1"
      and 2: "each (multiply_src rcp e) ss (em1, j + 1) = Ret (em', j')"
    by (auto simp: bind_Ret_iff ks_def multiply_src_def [of rcp e s "(em, j)"])
  have s: "s < length (vertices (db_graph (em_db em)))" using Cons.prems(3) by simp
  from emit_children [OF Cons.prems(1,2) s 1] have m: "children_made (g_tgt e) (length ks) em em1"
    and c: "\<forall>k<length ks. child_at rcp e em s (ks ! k) j k em1" by simp_all
  note d = children_madeD [OF m]
  have "\<forall>s\<in>set ss. s < length (vertices (db_graph (em_db em1)))" using Cons.prems(3) d(5) by auto
  note ih = conjunct1 [OF Cons.IH [OF d(1,2) this 2]] conjunct2 [OF Cons.IH [OF d(1,2) this 2]]
  have "child_at rcp e em ((s # ss) ! a) (ks ! k) (j + int a) (a * length ks + k) em'" if "a < Suc (length ss)" "k < length ks" for a k
  proof (cases a)
    case 0
    then show ?thesis using child_at_extends [OF _ children_madeD(4) [OF ih(1)]] c s d(5) that by simp
  next
    case (Suc b)
    then show ?thesis using child_at_shift [OF m, of rcp e "ss ! b" "ks ! k" "j + 1 + int b" "b * length ks + k"] ih(2) that
      by (simp add: algebra_simps)
  qed
  with children_made_trans [OF m ih(1)] show ?case by simp
qed

end
