(* ===== verification/Resource_Gen_Properties.thy ===== *)
theory Resource_Gen_Properties
  imports Resource_Gen_Children Traverser
begin

text \<open>The properties of the generator, with their witnesses on a small recipe: a cluster of two nodes.\<close>

section \<open>A sample recipe\<close>

definition sample_pool_gen :: "int \<Rightarrow> string \<Rightarrow> int \<Rightarrow> pool_gen" where
  "sample_pool_gen r ty n =
     \<lparr>g_root = r, g_type = ty, g_basename = ty, g_size = n, g_unit = [], g_subsystem = ''containment''\<rparr>"

definition sample_relation :: "nat \<Rightarrow> nat \<Rightarrow> int \<Rightarrow> int \<Rightarrow> string \<Rightarrow> relation_gen" where
  "sample_relation src tgt n scope meth =
     \<lparr>g_src = src, g_tgt = tgt, e_subsystem = ''containment'', relation = ''contains'', rrelation = ''in'',
      id_scope = scope, id_start = 0, id_stride = 1, gen_method = meth, multi_scale = n,
      as_tgt_subsystem = [], as_tgt_uplvl = 0, as_src_uplvl = 0\<rparr>"

definition sample_recipe :: "string \<Rightarrow> recipe" where
  "sample_recipe meth =
     \<lparr>g_pools = [sample_pool_gen 1 ''cluster'' 1, sample_pool_gen 0 ''node'' 1],
      g_relations = [sample_relation 0 1 2 0 meth]\<rparr>"

definition sample_walk :: "recipe \<Rightarrow> gen_event list" where
  "sample_walk rcp = [Tree_Edge 0, Finish_Vertex 1, Finish_Vertex 0]"

section \<open>The database\<close>

text \<open>
  C29. Whatever the recipe and the order of its walk, the generator keeps the database well-formed: every edge
  and every entry of an index and of the roots leads to a pool that has its planners, and the entries by
  type and by name are of the right type and name; pools that were there keep everything but paths and
  membership. The graph is then one that the traverser takes: its edges lead to vertices, no colour is set, and
  no pool knows a job.
\<close>

theorem generator_builds_wf:
  assumes "db_ok db" and "read_graphml dfs fn loaded msg db = Ret (db', msg', rc)"
  shows "db_ok db' \<and> grows (db_graph db) (db_graph db') \<and> targets_ok (db_graph db') \<and>
    colors_used dm (trav_new (db_graph db')) \<and> (\<forall>p\<in>set (vertices (db_graph db')). jobs_of p = {} \<and> pool_sound env p)"
proof -
  have "wp True True (read_graphml dfs fn loaded msg db) (\<lambda>(db', msg', rc). db_ok db' \<and> grows (db_graph db) (db_graph db'))"
  proof (cases loaded)
    case (Some rcp)
    show ?thesis unfolding read_graphml_def Some option.case Let_def
      by (rule wp_bindI [OF wp_gen_steps [OF em_ok_new [OF assms(1)]]])
        (simp add: em_grows_def em_ok_def emitter_copy_def emitter_new_def)
  qed (simp add: read_graphml_def assms(1))
  from wp_Ret [OF this assms(2)] have ok: "db_ok db'" "grows (db_graph db) (db_graph db')" by simp_all
  then have "targets_ok (db_graph db')" by (auto simp: db_ok_def graph_ok_def targets_ok_def usable_def)
  moreover have fresh: "fresh_pool p" if "p \<in> set (vertices (db_graph db'))" for p
    using ok(1) that by (simp add: db_ok_def graph_ok_def)
  then have "jobs_of p = {} \<and> pool_sound env p" if "p \<in> set (vertices (db_graph db'))" for p
    using that by (simp add: fresh_pool_def pool_sound_def)
  moreover have "colors_used dm (trav_new (db_graph db'))"
    using fresh by (simp add: colors_used_def trav_new_def color_of_def pool_def fresh_pool_def)
  ultimately show ?thesis using ok by blast
qed

theorem generator_builds_wf_witness:
  "\<exists>db. read_graphml sample_walk ''f'' (Some (sample_recipe ''MULTIPLY'')) [] resource_graph_db_new = Ret (db, [], 0) \<and>
    db_ok db \<and> map_of (by_type db) ''node'' = Some [2, 4]"
proof -
  let ?r = "read_graphml sample_walk ''f'' (Some (sample_recipe ''MULTIPLY'')) [] resource_graph_db_new"
  have "(case ?r of Ret (db, m, rc) \<Rightarrow> m = [] \<and> rc = 0 \<and> map_of (by_type db) ''node'' = Some [2, 4] | _ \<Rightarrow> False)"
    by code_simp
  then obtain db where r: "?r = Ret (db, [], 0)" "map_of (by_type db) ''node'' = Some [2, 4]"
    by (auto split: outcome.splits)
  from generator_builds_wf [OF db_ok_new r(1), of "[]"] r show ?thesis by blast
qed

text \<open>
  C30. A recipe edge of the kind \<open>MULTIPLY\<close> makes for each of its source pools as many children as its scale
  says, in the order of the sources. The child number \<open>i\<close> of the source number \<open>a\<close> has the type, the size and the
  plan of the recipe vertex, the id that \<open>gen_id\<close> gives to \<open>i\<close> and \<open>a\<close>, the name and the path below its parent that
  follow, and an edge each way with the relations of the recipe; and the graph grows by two vertices for
  every child, one of which is never used.
\<close>

theorem multiply_generates:
  assumes "em_ok em" and "em_err_msg em = []" and "multiply rcp e em = Ret em'"
  shows "let n = length (vertices (db_graph (em_db em))); m = nat (multi_scale e); srcs = gen_src_vtx em (g_src e) in
    gen_src_vtx em' (g_tgt e) = gen_src_vtx em (g_tgt e) @ map (\<lambda>k. n + 2 * k + 1) [0..<length srcs * m] \<and>
    length (vertices (db_graph (em_db em'))) = n + 2 * (length srcs * m) \<and>
    hier_scales em' = multi_scale e # hier_scales em \<and>
    (\<forall>a<length srcs. \<forall>i<m. \<exists>ident. gen_id (hier_scales em) e (int i) (multi_scale e) (int a) = Ret ident \<and>
       is_child (g_pools rcp ! g_tgt e) e ident (srcs ! a) (n + 2 * (a * m + i) + 1) (db_graph (em_db em')))"
proof -
  let ?is = "[0..multi_scale e - 1]" and ?ss = "gen_src_vtx em (g_src e)"
  obtain em1 j where 1: "each (multiply_src rcp e) ?ss (em, 0) = Ret (em1, j)"
      and em': "em' = em1\<lparr>hier_scales := multi_scale e # hier_scales em1\<rparr>"
    using assms(3) by (auto simp: multiply_def bind_Ret_iff)
  have "edges_in (db_graph (em_db em))" "\<forall>s\<in>set ?ss. s < length (vertices (db_graph (em_db em)))"
    using assms(1) by (auto simp: em_ok_def db_ok_def graph_ok_def edges_in_def usable_def)
  from multiply_children [OF assms(2) this 1]
  have m: "children_made (g_tgt e) (length ?ss * length ?is) em em1"
    and c: "\<forall>a<length ?ss. \<forall>k<length ?is. child_at rcp e em (?ss ! a) (?is ! k) (int a) (a * length ?is + k) em1" by auto
  from c m show ?thesis by (simp add: em' children_made_def child_at_def Let_def)
qed

theorem multiply_generates_witness:
  "\<exists>em em'. multiply (sample_recipe ''MULTIPLY'') (sample_relation 0 1 2 0 ''MULTIPLY'') em = Ret em' \<and>
    gen_src_vtx em 0 = [0] \<and> gen_src_vtx em' 1 = [2, 4] \<and>
    is_child (sample_pool_gen 0 ''node'' 1) (sample_relation 0 1 2 0 ''MULTIPLY'') 1 0 4 (db_graph (em_db em'))"
proof -
  let ?rcp = "sample_recipe ''MULTIPLY''" and ?e = "sample_relation 0 1 2 0 ''MULTIPLY''"
  let ?m = "emit_root ?rcp ?e (emitter_new resource_graph_db_new)"
  have "(case ?m of Ret em \<Rightarrow> gen_src_vtx em 0 = [0] \<and> gen_src_vtx em 1 = [] \<and> em_err_msg em = [] \<and>
      hier_scales em = [] \<and> length (vertices (db_graph (em_db em))) = 1 \<and>
      (case multiply ?rcp ?e em of Ret em' \<Rightarrow> True | _ \<Rightarrow> False) | _ \<Rightarrow> False)" by code_simp
  then obtain em em' where em: "?m = Ret em" "gen_src_vtx em 0 = [0]" "gen_src_vtx em 1 = []" "em_err_msg em = []"
      "hier_scales em = []" "length (vertices (db_graph (em_db em))) = 1" and em': "multiply ?rcp ?e em = Ret em'"
    by (auto split: outcome.splits)
  have "em_ok (emitter_new resource_graph_db_new)" by (simp add: em_ok_def emitter_new_def)
  from wp_Ret [OF wp_emit_root_step [OF this] em(1)] have "em_ok em" by (simp add: em_grows_def)
  from multiply_generates [OF this em(4) em'] em(2-)
  have "gen_src_vtx em' 1 = [2, 4]" "\<exists>ident. gen_id [] ?e 1 2 0 = Ret ident \<and>
      is_child (sample_pool_gen 0 ''node'' 1) ?e ident 0 4 (db_graph (em_db em'))"
    by (simp_all add: Let_def sample_recipe_def sample_relation_def numeral_2_eq_2 less_Suc_eq all_conj_distrib eval_nat_numeral)
  moreover have "gen_id [] ?e 1 2 0 = Ret 1" by code_simp
  ultimately show ?thesis using em(2) em' by auto
qed


section \<open>Ids and paths\<close>

lemma digits_unique:
  fixes q :: int
  assumes "0 \<le> i" "i < s" "0 \<le> i'" "i' < s" "q * s + i = q' * s + i'"
  shows "q = q' \<and> i = i'"
proof -
  have "q = (q * s + i) div s" "q' = (q' * s + i') div s" using assms(1-4) by simp_all
  with assms(5) show ?thesis by simp
qed

text \<open>
  C31. Within the scope of an edge the ids are unique: two children get the same id exactly when they have the
  same number under their parents and the numbers of the parents agree modulo the number of parents in
  the scope. (The ids must fit into an \<open>int\<close>.)
\<close>

theorem gen_ids_unique:
  assumes "0 < id_scope e" and "0 < dim_wrap scales (id_scope e)" and "0 < id_stride e" and "0 \<le> id_start e"
    and "id_start e + dim_wrap scales (id_scope e) * sz * id_stride e < 2147483648"
    and "0 \<le> i" "i < sz" "0 \<le> j" "0 \<le> i'" "i' < sz" "0 \<le> j'"
  shows "\<exists>a b. gen_id scales e i sz j = Ret a \<and> gen_id scales e i' sz j' = Ret b \<and>
    (a = b \<longleftrightarrow> i = i' \<and> j mod dim_wrap scales (id_scope e) = j' mod dim_wrap scales (id_scope e))"
proof -
  let ?w = "dim_wrap scales (id_scope e)" and ?d = "id_stride e"
  let ?id = "\<lambda>i j. id_start e + ((j mod ?w) * sz + i) * ?d"
  have g: "gen_id scales e i sz j = Ret (?id i j)" if "0 \<le> i" "i < sz" "0 \<le> j" for i j
  proof -
    have r: "c_rem j ?w = j mod ?w" using that assms(2) by (cases "j = 0") (simp_all add: c_rem_def)
    have b: "0 \<le> j mod ?w" "j mod ?w \<le> ?w - 1" using assms(2) pos_mod_bound [of ?w j] by simp_all
    then have "(j mod ?w) * sz \<le> (?w - 1) * sz" using that by (intro mult_right_mono) auto
    then have "(j mod ?w) * sz + i \<le> ?w * sz" using that by (simp add: algebra_simps)
    then have "((j mod ?w) * sz + i) * ?d \<le> ?w * sz * ?d" using assms(3) by (intro mult_right_mono) auto
    moreover have "0 \<le> ((j mod ?w) * sz + i) * ?d" using b that assms(3) by simp
    ultimately have "0 \<le> ?id i j" "?id i j < 2147483648" using assms(4,5) by linarith+
    then have "i32 (?id i j) = ?id i j" by (simp add: i32_def)
    moreover have e: "id_start e + c_rem j ?w * sz * ?d + i * ?d = ?id i j" unfolding r by (simp add: algebra_simps)
    ultimately show ?thesis using assms(1,2) unfolding gen_id_def Let_def e by simp
  qed
  have "?id i j = ?id i' j' \<longleftrightarrow> (j mod ?w) * sz + i = (j' mod ?w) * sz + i'" using assms(3) by simp
  also have "\<dots> \<longleftrightarrow> i = i' \<and> j mod ?w = j' mod ?w"
    using digits_unique [OF assms(6,7,9,10), of "j mod ?w" "j' mod ?w"] by metis
  finally show ?thesis using g [OF assms(6-8)] g [OF assms(9-11)] by blast
qed

theorem gen_ids_unique_witness:
  "\<exists>a b. gen_id [2, 18] (sample_relation 0 1 8 1 ''MULTIPLY'') 3 8 0 = Ret a \<and>
    gen_id [2, 18] (sample_relation 0 1 8 1 ''MULTIPLY'') 3 8 1 = Ret b \<and> a \<noteq> b"
proof -
  let ?e = "sample_relation 0 1 8 1 ''MULTIPLY''"
  have w: "dim_wrap [2, 18] (id_scope ?e) = 2" by code_simp
  have "\<exists>a b. gen_id [2, 18] ?e 3 8 0 = Ret a \<and> gen_id [2, 18] ?e 3 8 1 = Ret b \<and>
      (a = b \<longleftrightarrow> (3 :: int) = 3 \<and> 0 mod dim_wrap [2, 18] (id_scope ?e) = 1 mod dim_wrap [2, 18] (id_scope ?e))"
    by (rule gen_ids_unique, unfold w) (simp_all add: sample_relation_def)
  then show ?thesis unfolding w by auto
qed

definition abs_path :: "string list \<Rightarrow> string" where
  "abs_path cs = concat (map (\<lambda>c. CHR ''/'' # c) cs)"

lemma upto_slash_part: "CHR ''/'' \<notin> set c \<Longrightarrow> upto_slash n (c @ s) = c @ upto_slash n s"
  by (induction c) auto

lemma upto_slash_path: "\<forall>c\<in>set cs. CHR ''/'' \<notin> set c \<Longrightarrow>
  upto_slash n (abs_path cs) = (if n < length cs then abs_path (take n cs) @ ''/'' else abs_path cs)"
proof (induction cs arbitrary: n)
  case (Cons c cs)
  then show ?case by (cases n) (auto simp: abs_path_def upto_slash_part)
qed (simp add: abs_path_def)

lemma count_slashes: "\<forall>c\<in>set cs. CHR ''/'' \<notin> set c \<Longrightarrow> count_list (abs_path cs) (CHR ''/'') = length cs"
  by (induction cs) (simp_all add: abs_path_def)

text \<open>
  C32. On a path of non-empty components, \<open>path_prefix\<close> goes up the given number of levels: it keeps all
  components but the last ones and ends in a slash; it fails, and leaves the prefix as it was, when there are not
  more components than levels. The levels of two paths are then compared by their prefixes.
\<close>

theorem path_prefix_goes_up:
  assumes "cs \<noteq> []" and "\<forall>c\<in>set cs. c \<noteq> [] \<and> CHR ''/'' \<notin> set c"
  shows "path_prefix (abs_path cs) uplevel prefix =
    Ret (if uplevel \<ge> int (length cs) then (-1, prefix)
         else (0, abs_path (take (nat (int (length cs) - uplevel)) cs) @ ''/''))"
proof -
  have no: "\<forall>c\<in>set cs. CHR ''/'' \<notin> set c" using assms(2) by blast
  have ne: "abs_path cs \<noteq> []" using assms(1) by (cases cs) (simp_all add: abs_path_def)
  have "last (abs_path cs) = last (last cs)"
    using assms by (induction cs rule: rev_induct) (auto simp: abs_path_def last_append)
  moreover have "last (last cs) \<noteq> CHR ''/''" using assms last_in_set by (metis last_in_set)
  ultimately have l: "last (abs_path cs) \<noteq> CHR ''/''" by simp
  show ?thesis
    using ne l by (auto simp: path_prefix_def upto_slash_path [OF no] count_slashes [OF no] Let_def)
qed

theorem path_prefix_goes_up_witness:
  "path_prefix ''/cluster0/rack1/node2'' 1 [] = Ret (0, ''/cluster0/rack1/'')"
  using path_prefix_goes_up [of "[''cluster0'', ''rack1'', ''node2'']" 1 "[]"] by (simp add: abs_path_def)

section \<open>Errors\<close>



end
