(* ===== verification/Traverser_Prime.thy ===== *)
theory Traverser_Prime
  imports Traverser_Sample
begin

text \<open>
  The aggregates of a job specification: \<open>prime\<close> against the demand that the nesting of the request says.
\<close>

section \<open>The demand\<close>

text \<open>How many units of a type a request asks for at least: its own, and those below for each of its units.\<close>

fun demand :: "string \<Rightarrow> resource \<Rightarrow> int" where
  "demand ty (Resource t cnt un label ident excl wth ud) =
     c_min cnt * ((if t = ty then 1 else 0) + sum_list (map (demand ty) wth))"

abbreviation demand_of :: "string \<Rightarrow> resource list \<Rightarrow> int" where
  "demand_of ty rs \<equiv> sum_list (map (demand ty) rs)"

text \<open>A request as it is parsed, without aggregates, whose demands below each resource are counts of 32 bits.\<close>

fun demand_fits :: "resource \<Rightarrow> bool" where
  "demand_fits (Resource t cnt un label ident excl wth ud) \<longleftrightarrow>
     0 \<le> c_min cnt \<and> ud = [] \<and> (\<forall>ty. demand_of ty wth \<le> UINT_MAX) \<and> (\<forall>r\<in>set wth. demand_fits r)"

definition amount :: "(string \<times> int) list \<Rightarrow> string \<Rightarrow> int" where
  "amount m ty = (case map_of m ty of None \<Rightarrow> 0 | Some n \<Rightarrow> n)"

text \<open>The aggregates in \<open>user_data\<close> are the demands below, for the types that are tracked.\<close>

fun aggregated :: "(string \<Rightarrow> bool) \<Rightarrow> resource \<Rightarrow> bool" where
  "aggregated T (Resource t cnt un label ident excl wth ud) \<longleftrightarrow>
     (\<forall>ty. amount ud ty = (if T ty then demand_of ty wth else 0)) \<and> (\<forall>r\<in>set wth. aggregated T r)"

fun plain :: "resource \<Rightarrow> resource" where
  "plain (Resource t cnt un label ident excl wth ud) = Resource t cnt un label ident excl (map plain wth) []"

section \<open>Accumulating\<close>

lemma map_of_assign: "map_of (assign k v m) = (map_of m)(k \<mapsto> v)"
proof -
  have "map_of (map (\<lambda>(j, w). if j = k then (j, v) else (j, w)) m) = (if k \<in> fst ` set m then (map_of m)(k \<mapsto> v) else map_of m)"
    by (induction m) (auto simp: fun_eq_iff)
  moreover have "map_of (m @ [(k, v)]) = (map_of m)(k \<mapsto> v)" if "k \<notin> fst ` set m"
    using that by (auto simp: fun_eq_iff map_add_def split: option.split) (metis map_of_eq_None_iff option.distinct(1))
  ultimately show ?thesis by (simp add: assign_def)
qed

lemma assign_keys:
  assumes "distinct (map fst m)"
  shows "distinct (map fst (assign k v m))" and "set (map fst (assign k v m)) = insert k (set (map fst m))"
proof -
  have k: "fst \<circ> (\<lambda>(j, w). if j = k then (j, v) else (j, w)) = fst" by (auto simp: fun_eq_iff)
  have "map fst (assign k v m) = (if k \<in> set (map fst m) then map fst m else map fst m @ [k])"
    unfolding assign_def by (simp only: k map_map if_distrib [of "map fst"] set_map map_append list.map fst_conv)
  then show "distinct (map fst (assign k v m))" "set (map fst (assign k v m)) = insert k (set (map fst m))"
    using assms by (simp_all add: insert_absorb)
qed

text \<open>The tables of aggregates.\<close>

definition agg_ok :: "(string \<Rightarrow> bool) \<Rightarrow> (string \<times> int) list \<Rightarrow> bool" where
  "agg_ok T m \<longleftrightarrow> distinct (map fst m) \<and> (\<forall>ty\<in>set (map fst m). T ty) \<and> (\<forall>ty. 0 \<le> amount m ty)"

lemma agg_ok_Nil [simp]: "agg_ok T []" "amount [] ty = 0"
  by (simp_all add: agg_ok_def amount_def)

lemma amount_assign: "amount (assign k v m) ty = (if ty = k then v else amount m ty)"
  by (simp add: amount_def map_of_assign)

lemma amount_untracked: "agg_ok T m \<Longrightarrow> \<not> T ty \<Longrightarrow> amount m ty = 0"
proof -
  assume a: "agg_ok T m" "\<not> T ty"
  then have "ty \<notin> fst ` set m" by (auto simp: agg_ok_def)
  then have "map_of m ty = None" by (simp add: map_of_eq_None_iff)
  then show "amount m ty = 0" by (simp add: amount_def)
qed

lemma accum_unordered_adds:
  assumes "agg_ok (tracked env s) m" and "0 \<le> n" and "amount m ty + n \<le> UINT_MAX"
  defines "m' \<equiv> fst (accum_unordered env s ty n m)"
  shows "agg_ok (tracked env s) m' \<and> (\<forall>ty'. amount m' ty' = amount m ty' + (if ty' = ty \<and> tracked env s ty then n else 0))"
proof (cases "tracked env s ty")
  case True
  have a: "0 \<le> amount m ty" "n \<le> UINT_MAX" using assms(1,3) by (auto simp: agg_ok_def) (smt (verit))
  then have "in_i64 (amount m ty + n)" using assms(2,3) by (simp add: in_i64_def)
  with a assms(2) True have m': "m' = assign ty (amount m ty + n) m"
    unfolding m'_def accum_unordered_def by (cases "map_of m ty") (simp_all add: amount_def)
  show ?thesis using assms(1,2) True assign_keys [of m ty "amount m ty + n"]
    by (auto simp: m' amount_assign agg_ok_def)
next
  case False
  then show ?thesis using assms(1) by (simp add: m'_def accum_unordered_def)
qed

lemma accum_all_adds:
  assumes "agg_ok (tracked env s) m" and "agg_ok (tracked env s) ud" and "0 \<le> k"
    and "\<forall>ty. amount m ty + k * amount ud ty \<le> UINT_MAX"
  defines "m' \<equiv> fold (\<lambda>(ty, n) acc. fst (accum_unordered env s ty (i64 (k * n)) acc)) ud m"
  shows "agg_ok (tracked env s) m' \<and> (\<forall>ty. amount m' ty = amount m ty + k * amount ud ty)"
  using assms(1,2,4) unfolding m'_def
proof (induction ud arbitrary: m)
  case Nil
  then show ?case by simp
next
  case (Cons x ud)
  obtain t n where x: "x = (t, n)" by (cases x)
  have t: "t \<notin> set (map fst ud)" "tracked env s t" "agg_ok (tracked env s) ud" and n: "0 \<le> n"
    and ud: "amount (x # ud) ty = (if ty = t then n else amount ud ty)" for ty
  proof -
    have d: "distinct (map fst ((t, n) # ud))" "\<forall>k\<in>set (map fst ((t, n) # ud)). tracked env s k" "0 \<le> amount ((t, n) # ud) k" for k
      using Cons.prems(2) unfolding x agg_ok_def by blast+
    show ud: "amount (x # ud) ty = (if ty = t then n else amount ud ty)" for ty by (simp add: x amount_def)
    show "t \<notin> set (map fst ud)" "tracked env s t" using d(1,2) by simp_all
    show "0 \<le> n" using d(3) [of t] by (simp add: amount_def)
    have "amount ud t = 0" using d(1) by (simp add: amount_def flip: map_of_eq_None_iff)
    then have "0 \<le> amount ud k" for k using d(3) [of k] ud [of k] by (auto simp: x split: if_splits)
    then show "agg_ok (tracked env s) ud" using d(1,2) by (simp add: agg_ok_def)
  qed
  have ut: "amount ud t = 0" using t(1) by (simp add: amount_def flip: map_of_eq_None_iff)
  have m: "0 \<le> amount m t" "amount m t + k * n \<le> UINT_MAX" "0 \<le> k * n"
    using Cons.prems(1,3) ud [of t] n assms(3) by (auto simp: agg_ok_def dest: spec [of _ t])
  then have i: "i64 (k * n) = k * n" by (simp add: in_i64_def)
  let ?m = "fst (accum_unordered env s t (k * n) m)"
  have a: "agg_ok (tracked env s) ?m" "amount ?m ty = amount m ty + (if ty = t then k * n else 0)" for ty
    using accum_unordered_adds [OF Cons.prems(1) m(3,2)] t(2) by auto
  have "\<forall>ty. amount ?m ty + k * amount ud ty \<le> UINT_MAX"
    using Cons.prems(3) ut by (auto simp: a(2) ud split: if_splits)
  from Cons.IH [OF a(1) t(3) this] show ?case
    using ut by (auto simp: x i a(2) ud [unfolded x])
qed

section \<open>Priming\<close>

definition primes :: "trav_env \<Rightarrow> (string \<times> int) list \<Rightarrow> resource list \<Rightarrow> resource list \<Rightarrow> (string \<times> int) list \<Rightarrow> bool" where
  "primes env m rs rs' m' \<longleftrightarrow> agg_ok (tracked env (dom_of env)) m' \<and>
     (\<forall>ty. amount m' ty = amount m ty + (if tracked env (dom_of env) ty then demand_of ty rs else 0)) \<and>
     (\<forall>r\<in>set rs'. aggregated (tracked env (dom_of env)) r) \<and> map plain rs' = rs"

lemma demand_nonneg: "demand_fits r \<Longrightarrow> 0 \<le> demand ty r"
proof (induction r)
  case (Resource t cnt un label ident excl wth ud)
  then have "0 \<le> demand_of ty wth" by (intro sum_list_nonneg) auto
  with Resource show ?case by simp
qed

lemma demand_of_nonneg: "\<forall>r\<in>set rs. demand_fits r \<Longrightarrow> 0 \<le> demand_of ty rs"
  by (intro sum_list_nonneg) (auto intro: demand_nonneg)

lemma demand_plain [simp]: "demand ty (plain r) = demand ty r"
proof (induction r)
  case (Resource t cnt un label ident excl wth ud)
  then have "map (\<lambda>r. demand ty (plain r)) wth = map (demand ty) wth" by simp
  then show ?case by (simp add: comp_def del: map_eq_conv)
qed

lemma demand_of_plain: "demand_of ty (map plain rs) = demand_of ty rs"
  by (simp add: comp_def)

lemma primes_list:
  assumes "\<And>r m. r \<in> set rs \<Longrightarrow> demand_fits r \<Longrightarrow> agg_ok (tracked env (dom_of env)) m \<Longrightarrow> \<forall>ty. amount m ty + demand ty r \<le> UINT_MAX \<Longrightarrow>
      primes env m [r] [fst (prime_resource env r m)] (snd (prime_resource env r m))"
    and "\<forall>r\<in>set rs. demand_fits r" and "agg_ok (tracked env (dom_of env)) m" and "\<forall>ty. amount m ty + demand_of ty rs \<le> UINT_MAX"
  shows "\<exists>rs' m'. fold (\<lambda>r (rs, acc). case prime_resource env r acc of (r, acc) \<Rightarrow> (rs @ [r], acc)) rs (pre, m) = (pre @ rs', m') \<and>
    primes env m rs rs' m'"
  using assms
proof (induction rs arbitrary: pre m)
  case Nil
  then show ?case by (simp add: primes_def)
next
  case (Cons r rs)
  obtain r1 m1 where r1: "prime_resource env r m = (r1, m1)" by (cases "prime_resource env r m")
  have d: "0 \<le> demand_of ty rs" for ty using Cons.prems(2) by (intro demand_of_nonneg) simp
  have "amount m ty + demand ty r \<le> UINT_MAX" for ty using Cons.prems(4) d [of ty] by (auto dest: spec [of _ ty])
  then have p: "primes env m [r] [r1] m1" using Cons.prems(1) [of r m] Cons.prems(2,3) r1 by simp
  have ok: "agg_ok (tracked env (dom_of env)) m1" using p by (simp add: primes_def)
  have b: "amount m1 ty + demand_of ty rs \<le> UINT_MAX" for ty
    using p Cons.prems(2,4) demand_nonneg [of r ty] by (fastforce simp: primes_def dest: spec [of _ ty])
  have "\<exists>rs' m'. fold (\<lambda>r (rs, acc). case prime_resource env r acc of (r, acc) \<Rightarrow> (rs @ [r], acc)) rs (pre @ [r1], m1) =
      ((pre @ [r1]) @ rs', m') \<and> primes env m1 rs rs' m'"
  proof (rule Cons.IH)
    show "primes env m [r] [fst (prime_resource env r m)] (snd (prime_resource env r m))"
      if "r \<in> set rs" "demand_fits r" "agg_ok (tracked env (dom_of env)) m" "\<forall>ty. amount m ty + demand ty r \<le> UINT_MAX" for r m
      using that by (intro Cons.prems(1)) simp_all
  qed (use Cons.prems(2) ok b in simp_all)
  then obtain rs' m' where r: "fold (\<lambda>r (rs, acc). case prime_resource env r acc of (r, acc) \<Rightarrow> (rs @ [r], acc)) rs (pre @ [r1], m1) =
      ((pre @ [r1]) @ rs', m')" "primes env m1 rs rs' m'" by blast
  have "primes env m (r # rs) (r1 # rs') m'" using p r(2) by (auto simp: primes_def)
  with r(1) r1 show ?case by (intro exI [of _ "r1 # rs'"] exI [of _ m']) simp
qed

lemma prime_resource_primes:
  assumes "demand_fits r" and "agg_ok (tracked env (dom_of env)) m" and "\<forall>ty. amount m ty + demand ty r \<le> UINT_MAX"
  shows "primes env m [r] [fst (prime_resource env r m)] (snd (prime_resource env r m))"
  using assms
proof (induction r arbitrary: m)
  case (Resource t cnt un label ident excl wth ud)
  let ?T = "tracked env (dom_of env)" and ?k = "c_min cnt"
  have k: "0 \<le> ?k" and ud: "ud = []" and b: "demand_of ty wth \<le> UINT_MAX" and f: "\<forall>r\<in>set wth. demand_fits r" for ty
    using Resource.prems(1) by simp_all
  have nn: "0 \<le> demand_of ty wth" for ty using f by (rule demand_of_nonneg)
  have tot: "amount m ty + ?k * ((if t = ty then 1 else 0) + demand_of ty wth) \<le> UINT_MAX" for ty
    using Resource.prems(3) by (auto dest: spec [of _ ty])
  have "amount m t + ?k \<le> UINT_MAX" using tot [of t] mult_nonneg_nonneg [OF k nn [of t]] by (simp add: algebra_simps)
  note a = accum_unordered_adds [OF Resource.prems(2) k this]
  let ?m1 = "fst (accum_unordered env (dom_of env) t ?k m)"
  have "\<exists>wth' ud'. fold (\<lambda>r (rs, acc). case prime_resource env r acc of (r, acc) \<Rightarrow> (rs @ [r], acc)) wth ([], []) = ([] @ wth', ud') \<and>
      primes env [] wth wth' ud'"
    by (rule primes_list [OF Resource.IH]) (use f b in simp_all)
  then obtain wth' ud' where w: "fold (\<lambda>r (rs, acc). case prime_resource env r acc of (r, acc) \<Rightarrow> (rs @ [r], acc)) wth ([], []) = ([] @ wth', ud')"
    "primes env [] wth wth' ud'" by blast
  have u: "agg_ok ?T ud'" "amount ud' ty = (if ?T ty then demand_of ty wth else 0)" for ty
    using w(2) by (simp_all add: primes_def)
  have "amount ?m1 ty + ?k * amount ud' ty \<le> UINT_MAX" for ty
  proof -
    have p: "0 \<le> ?k * demand_of ty wth" using k nn by (rule mult_nonneg_nonneg)
    have e: "?k * ((if t = ty then 1 else 0) + demand_of ty wth) = (if t = ty then ?k else 0) + ?k * demand_of ty wth"
      by (simp add: distrib_left)
    have "amount ?m1 ty = amount m ty + (if ty = t \<and> ?T t then ?k else 0)" using a by simp
    with tot [of ty, unfolded e] p k show ?thesis by (simp add: u(2) split: if_splits)
  qed
  with accum_all_adds [of env "dom_of env" ?m1 ud' ?k] a u(1) k
  obtain m' where m': "fold (\<lambda>(ty, n) acc. fst (accum_unordered env (dom_of env) ty (i64 (?k * n)) acc)) ud' ?m1 = m'"
      "agg_ok ?T m'" "amount m' ty = amount ?m1 ty + ?k * amount ud' ty" for ty by blast
  have "prime_resource env (Resource t cnt un label ident excl wth ud) m = (Resource t cnt un label ident excl wth' ud', m')"
    using w(1) m'(1) by (simp add: ud Let_def)
  moreover have "amount m' ty = amount m ty + (if ?T ty then demand ty (Resource t cnt un label ident excl wth ud) else 0)" for ty
    using a by (auto simp: m'(3) u(2) algebra_simps)
  moreover have "demand_of ty wth' = demand_of ty wth" "map plain wth' = wth" for ty
    using w(2) demand_of_plain [of ty wth'] by (simp_all add: primes_def)
  ultimately show ?case using m'(2) w(2) u(2) by (simp add: primes_def ud)
qed

text \<open>
  C39. Priming a request adds up the demand that its nesting says: for every type that is tracked, the
  aggregate of a resource is the demand of the resources below it, each counted at its minimum, and the
  total is the demand of the request; other types have no aggregate, and nothing else of the request changes.
  (The demands must be counts of 32 bits.)
\<close>

theorem prime_jobspec_adds_up:
  assumes "\<forall>r\<in>set rs. demand_fits r" and "\<forall>ty. demand_of ty rs \<le> UINT_MAX"
  shows "\<exists>rs' m. prime_jobspec env rs [] = (rs', m) \<and>
    (\<forall>ty. amount m ty = (if tracked env (dom_of env) ty then demand_of ty rs else 0)) \<and>
    (\<forall>r\<in>set rs'. aggregated (tracked env (dom_of env)) r) \<and> map plain rs' = rs"
proof -
  have "\<forall>ty. amount [] ty + demand_of ty rs \<le> UINT_MAX" using assms(2) by simp
  from primes_list [of rs env "[]" "[]", OF prime_resource_primes assms(1) agg_ok_Nil(1) this] obtain rs' m
    where "prime_jobspec env rs [] = ([] @ rs', m)" "primes env [] rs rs' m"
    unfolding prime_jobspec_def by blast
  then show ?thesis by (simp add: primes_def)
qed

text \<open>A cluster with two racks of four nodes, each of a socket with two cores, where sockets and cores are tracked.\<close>

definition nested :: "string \<Rightarrow> int \<Rightarrow> resource list \<Rightarrow> resource" where
  "nested ty n wth = Resource ty (sample_count n) [] [] [] Tri_FALSE wth []"

definition sample_nested :: resource where
  "sample_nested = nested ''cluster'' 1 [nested ''rack'' 2 [nested ''node'' 4 [nested ''socket'' 1 [nested ''core'' 2 []]]]]"

definition sample_tracking :: trav_env where
  "sample_tracking = sample_env\<lparr>te_match := high_first insertion_sort (sample_matcher\<lparr>sdau_resource_types :=
     [(''containment'', [''socket'', ''core''])]\<rparr>)\<rparr>"

theorem prime_jobspec_adds_up_witness:
  "\<exists>r m. prime_jobspec sample_tracking [sample_nested] [] = ([r], m) \<and> plain r = sample_nested \<and>
    amount m ''core'' = 16 \<and> amount m ''socket'' = 8 \<and> amount m ''node'' = 0 \<and> amount (r_user_data r) ''core'' = 16"
proof -
  have f: "\<forall>r\<in>set [sample_nested]. demand_fits r" "\<forall>ty. demand_of ty [sample_nested] \<le> UINT_MAX"
    by (simp_all add: sample_nested_def nested_def sample_count_def)
  have t: "tracked sample_tracking (dom_of sample_tracking) = (\<lambda>ty. ty = ''socket'' \<or> ty = ''core'')"
  proof -
    have "dom_of sample_tracking = ''containment''" "map_of (sdau_resource_types (cb_data (te_match sample_tracking))) ''containment'' = Some [''socket'', ''core'']"
      by code_simp+
    then show ?thesis by (simp add: tracked_def fun_eq_iff)
  qed
  from prime_jobspec_adds_up [OF f, of sample_tracking] obtain rs m where r: "prime_jobspec sample_tracking [sample_nested] [] = (rs, m)"
      "\<forall>ty. amount m ty = (if ty = ''socket'' \<or> ty = ''core'' then demand_of ty [sample_nested] else 0)"
      "\<forall>r\<in>set rs. aggregated (\<lambda>ty. ty = ''socket'' \<or> ty = ''core'') r" "map plain rs = [sample_nested]"
    unfolding t by (elim exE conjE) (rule that)
  from r(4) obtain r1 where r1: "rs = [r1]" "plain r1 = sample_nested" by auto
  then have "map plain (r_with r1) = [nested ''rack'' 2 [nested ''node'' 4 [nested ''socket'' 1 [nested ''core'' 2 []]]]]"
    by (cases r1) (simp add: sample_nested_def nested_def [of "''cluster''"])
  from arg_cong [OF this, of "demand_of ''core''"] have "demand_of ''core'' (r_with r1) = 16"
    by (simp add: demand_of_plain nested_def sample_count_def del: map_map)
  moreover have "amount (r_user_data r1) ''core'' = demand_of ''core'' (r_with r1)"
    using r(3) by (cases r1) (simp add: r1(1))
  ultimately show ?thesis using r(1,2) r1 by (auto simp: sample_nested_def nested_def sample_count_def)
qed

end
