(* ===== verification/Command.thy ===== *)
theory Command
  imports Traverser
begin

text \<open>
  The commands of the session (\<open>command.cpp\<close>, \<open>command.hpp\<close>): the table of jobs and the tables of allocations
  and reservations above the traverser.

  Files, the clock and the texts of library errors are the parameters in \<open>cmd_env\<close>: what a file holds, how a
  job specification is loaded and converted by yaml-cpp, how a number of seconds is written. The time a
  scheduling operation took is an argument of the command. The output streams are part of the state.
\<close>

section \<open>State\<close>

datatype job_state = INIT | ALLOCATED | RESERVED | CANCELLED

record job_info =
  ji_jobid :: int
  ji_state :: job_state
  ji_scheduled_at :: int
  ji_jobspec_fn :: string
  ji_overhead :: int

datatype emit_format = GRAPHVIZ_DOT | GRAPH_ML

record test_params =
  grug :: string
  matcher_name :: string
  matcher_policy :: string
  o_fname :: string
  r_fname :: string
  o_fext :: string
  o_format :: emit_format
  elapse_time :: bool

record resource_context =
  params :: test_params
  jobid_counter :: int
  rc_traverser :: dfu_traverser
  jobs :: "(int \<times> job_info) list"
  rc_allocations :: "(int \<times> int) list"
  rc_reservations :: "(int \<times> int) list"
  rc_cout :: string
  rc_cerr :: string
  r_out :: string

record cmd_env =
  ce_sort :: sorter
  ce_fuel :: nat
  ce_rounds :: nat
  ce_file :: "string \<Rightarrow> string option"
  ce_yaml :: yaml_cpp
  ce_yaml_load :: "string \<Rightarrow> yaml option"
  ce_double :: "int \<Rightarrow> string"
  ce_to_string :: "int \<Rightarrow> string"
  ce_io_what :: string
  ce_yaml_what :: string
  ce_strerror :: string

section \<open>Streams\<close>

definition to_cout :: "string \<Rightarrow> resource_context \<Rightarrow> resource_context" where
  "to_cout s ctx = ctx\<lparr>rc_cout := rc_cout ctx @ s\<rparr>"

definition to_cerr :: "string \<Rightarrow> resource_context \<Rightarrow> resource_context" where
  "to_cerr s ctx = ctx\<lparr>rc_cerr := rc_cerr ctx @ s\<rparr>"

text \<open>The stream of the results: the file when one was named, standard output otherwise.\<close>

definition to_out :: "string \<Rightarrow> resource_context \<Rightarrow> resource_context" where
  "to_out s ctx = (if r_fname (params ctx) \<noteq> [] then ctx\<lparr>r_out := r_out ctx @ s\<rparr> else to_cout s ctx)"

section \<open>Jobs\<close>

definition get_jobstate_str :: "job_state \<Rightarrow> string" where
  "get_jobstate_str s =
     (case s of ALLOCATED \<Rightarrow> ''ALLOCATED'' | RESERVED \<Rightarrow> ''RESERVED'' | CANCELLED \<Rightarrow> ''CANCELLED'' | INIT \<Rightarrow> ''INIT'')"

definition do_remove :: "cmd_env \<Rightarrow> int \<Rightarrow> resource_context \<Rightarrow> (resource_context \<times> int) outcome" where
  "do_remove env jobid ctx =
     bind (traverser_remove (ce_fuel env) (rc_traverser ctx) jobid) (\<lambda>((d, rc), _).
     let ctx = ctx\<lparr>rc_traverser := d\<rparr>
     in if rc = 0
        then Ret (case map_of (jobs ctx) (u64 jobid) of
               None \<Rightarrow> ctx
             | Some info \<Rightarrow> ctx\<lparr>jobs := map_put (u64 jobid) (info\<lparr>ji_state := CANCELLED\<rparr>) (jobs ctx)\<rparr>, rc)
        else Ret ((to_cout (tr_err_msg (dt_trav d)) ctx)\<lparr>rc_traverser := d\<lparr>dt_trav := (dt_trav d)\<lparr>tr_err_msg := []\<rparr>\<rparr>\<rparr>, rc))"

definition rule_line :: string where
  "rule_line = line ''INFO: =============================''"

definition elapse_line :: "cmd_env \<Rightarrow> resource_context \<Rightarrow> int \<Rightarrow> string" where
  "elapse_line env ctx elapse = (if elapse_time (params ctx) then line (''INFO: ELAPSE='' @ ce_to_string env elapse) else [])"

definition print_schedule_info :: "cmd_env \<Rightarrow> int \<Rightarrow> string \<Rightarrow> bool \<Rightarrow> int \<Rightarrow> int \<Rightarrow> resource_context \<Rightarrow> resource_context" where
  "print_schedule_info env jobid jobspec_fn matched at elapse ctx =
     (let ctx =
        (if matched then
           let mode = (if at = 0 then ''ALLOCATED'' else ''RESERVED'');
               scheduled_at = (if at = 0 then ''Now'' else show_int at);
               ctx = to_out (rule_line @ line (''INFO: JOBID='' @ show_int jobid) @ line (''INFO: RESOURCES='' @ mode) @
                 line (''INFO: SCHEDULED AT='' @ scheduled_at) @ elapse_line env ctx elapse @ rule_line) ctx;
               st = (if at = 0 then ALLOCATED else RESERVED);
               ctx = ctx\<lparr>jobs := map_put jobid \<lparr>ji_jobid = jobid, ji_state = st, ji_scheduled_at = at,
                 ji_jobspec_fn = jobspec_fn, ji_overhead = elapse\<rparr> (jobs ctx)\<rparr>
           in if at = 0 then ctx\<lparr>rc_allocations := map_put jobid jobid (rc_allocations ctx)\<rparr>
              else ctx\<lparr>rc_reservations := map_put jobid jobid (rc_reservations ctx)\<rparr>
         else
           to_out (rule_line @ line ''INFO: No matching resources found'' @ line (''INFO: JOBID='' @ show_int jobid) @
             elapse_line env ctx elapse @ rule_line) ctx)
      in ctx\<lparr>jobid_counter := u64 (jobid_counter ctx + 1)\<rparr>)"

section \<open>The commands\<close>

type_synonym cmd_func = "cmd_env \<Rightarrow> int \<Rightarrow> string list \<Rightarrow> resource_context \<Rightarrow> (resource_context \<times> int) outcome"

definition what :: "cmd_env \<Rightarrow> parse_error \<Rightarrow> string" where
  "what env e = (case e of parse_error s \<Rightarrow> s | yaml_exception \<Rightarrow> ce_yaml_what env)"

definition match_job :: "cmd_env \<Rightarrow> int \<Rightarrow> match_op \<Rightarrow> string \<Rightarrow> jobspec \<Rightarrow> resource_context \<Rightarrow> (resource_context \<times> int) outcome" where
  "match_job env elapse op jobspec_fn job ctx =
     (let jobid = i64 (jobid_counter ctx) in
      bind (traverser_run (ce_sort env) (ce_fuel env) (ce_rounds env) (rc_traverser ctx) job op jobid 0 [])
        (\<lambda>((d, _, at, r_emitted), rc, _).
      Ret (print_schedule_info env (u64 jobid) jobspec_fn (rc = 0) at elapse (to_out r_emitted (ctx\<lparr>rc_traverser := d\<rparr>)), 0)))"

definition cmd_match :: cmd_func where
  "cmd_match env elapse args ctx =
     (if length args \<noteq> 3 then Ret (to_cerr (line ''ERROR: malformed command'') ctx, 0)
      else
        let subcmd = args ! 1; jobspec_fn = args ! 2 in
        if subcmd \<noteq> ''allocate'' \<and> subcmd \<noteq> ''allocate_orelse_reserve''
        then Ret (to_cerr (line (''ERROR: unknown subcmd '' @ subcmd)) ctx, 0)
        else case ce_file env jobspec_fn of
          None \<Rightarrow> Ret (to_cerr (line (''ERROR: Exception occurs for input file I/O'' @ ce_io_what env)) ctx, 0)
        | Some contents \<Rightarrow>
            (case parse_jobspec_text (ce_yaml env) (ce_yaml_load env) contents of
               Inl e \<Rightarrow> Ret (to_cerr (line (''ERROR: Jobspec error for '' @ show_int (jobid_counter ctx) @ '': '' @ what env e)) ctx, 0)
             | Inr job \<Rightarrow> match_job env elapse
                 (if subcmd = ''allocate'' then MATCH_ALLOCATE else MATCH_ALLOCATE_ORELSE_RESERVE) jobspec_fn job ctx))"

text \<open>\<open>strtoll\<close> stops at the ends of its range.\<close>

definition strtoll :: "string \<Rightarrow> int" where
  "strtoll s = max (-9223372036854775808) (min INT64_MAX (atoll s))"

definition cancel_result :: "cmd_env \<Rightarrow> int \<Rightarrow> int \<Rightarrow> resource_context \<Rightarrow> resource_context" where
  "cancel_result env jobid rc ctx =
     (if rc \<noteq> 0
      then to_cerr (line (''ERROR: error encountered while removing job '' @ show_int jobid) @ line (''ERROR: '' @ ce_strerror env)) ctx
      else ctx)"

definition cmd_cancel :: cmd_func where
  "cmd_cancel env elapse args ctx =
     (if length args \<noteq> 2 then Ret (to_cerr (line ''ERROR: malformed command'') ctx, 0)
      else
        let jobid = u64 (strtoll (args ! 1)) in
        if map_of (rc_allocations ctx) jobid \<noteq> None then
          bind (do_remove env (i64 jobid) ctx) (\<lambda>(ctx, rc).
          Ret (cancel_result env jobid rc (if rc = 0 then ctx\<lparr>rc_allocations := map_erase jobid (rc_allocations ctx)\<rparr> else ctx), 0))
        else if map_of (rc_reservations ctx) jobid \<noteq> None then
          bind (do_remove env (i64 jobid) ctx) (\<lambda>(ctx, rc).
          Ret (cancel_result env jobid rc (if rc = 0 then ctx\<lparr>rc_reservations := map_erase jobid (rc_reservations ctx)\<rparr> else ctx), 0))
        else Ret (to_cerr (line (''ERROR: nonexistent job '' @ show_int jobid)) ctx, 0))"

definition job_line :: "cmd_env \<Rightarrow> job_info \<Rightarrow> string" where
  "job_line env info = line (''INFO: '' @ show_int (ji_jobid info) @ '', '' @ get_jobstate_str (ji_state info) @ '', '' @
     show_int (ji_scheduled_at info) @ '', '' @ ji_jobspec_fn info @ '', '' @ ce_double env (ji_overhead info))"

definition cmd_list :: cmd_func where
  "cmd_list env elapse args ctx = Ret (to_cout (concat (map (\<lambda>(_, info). job_line env info) (jobs ctx))) ctx, 0)"

definition cmd_info :: cmd_func where
  "cmd_info env elapse args ctx =
     (if length args \<noteq> 2 then Ret (to_cerr (line ''ERROR: malformed command'') ctx, 0)
      else case map_of (jobs ctx) (u64 (atoll (args ! 1))) of
        None \<Rightarrow> Ret (to_cout (line (''ERROR: jobid doesn't exist: '' @ args ! 1)) ctx, 0)
      | Some info \<Rightarrow> Ret (to_cout (job_line env info) ctx, 0))"

text \<open>
  \<open>getline\<close> takes the text up to each newline, and what is left at the end if there is something. The argument of
  \<open>cat\<close> is read without a check that there is one.
\<close>

fun getlines :: "string \<Rightarrow> string \<Rightarrow> string list" where
  "getlines acc [] = (if acc = [] then [] else [acc])"
| "getlines acc (c # cs) = (if c = NL then acc # getlines [] cs else getlines (acc @ [c]) cs)"

definition cmd_cat :: cmd_func where
  "cmd_cat env elapse args ctx =
     (if length args < 2 then Undefined
      else
        let lines = (case ce_file env (args ! 1) of None \<Rightarrow> [] | Some contents \<Rightarrow> getlines [] contents)
        in Ret (to_cout (concat (map line lines) @ line (''INFO: Jobspec in '' @ args ! 1)) ctx, 0))"

section \<open>The table of commands\<close>

datatype cmd = Cmd_match | Cmd_cancel | Cmd_list | Cmd_info | Cmd_cat | Cmd_help | Cmd_quit

definition commands :: "(string \<times> string \<times> cmd \<times> string) list" where
  "commands =
     [(''match'', ''m'', Cmd_match, ''Allocate or reserve matching resources (subcmd:allocate | allocate_orelse_reserve): resource-query> match allocate jobspec''),
      (''cancel'', ''c'', Cmd_cancel, ''Cancel an allocation or reservation: resource-query> cancel jobid''),
      (''list'', ''l'', Cmd_list, ''List all jobs: resource-query> list''),
      (''info'', ''i'', Cmd_info, ''Print info on a jobid: resource-query> info jobid''),
      (''cat'', ''a'', Cmd_cat, ''Print jobspec file: resource-query> cat jobspec''),
      (''help'', ''h'', Cmd_help, ''Print help message: resource-query> help''),
      (''quit'', ''q'', Cmd_quit, ''Quit the session: resource-query> quit'')]"

definition help_lines :: "string list \<Rightarrow> string list" where
  "help_lines args =
     map (\<lambda>(name, abbr, _, note). line (''INFO: '' @ name @ '' ('' @ abbr @ '') -- '' @ note))
       (filter (\<lambda>(name, abbr, _, _). length args \<noteq> 2 \<or> args ! 1 = name \<or> args ! 1 = abbr) commands)"

definition cmd_help :: cmd_func where
  "cmd_help env elapse args ctx =
     Ret (to_cout (concat (help_lines args) @
       (if length args = 2 \<and> help_lines args = [] then line (''ERROR: unknown command: '' @ args ! 1) else [])) ctx, 0)"

definition cmd_quit :: cmd_func where
  "cmd_quit env elapse args ctx = Ret (ctx, -1)"

fun find_cmd_loop :: "string \<Rightarrow> (string \<times> string \<times> cmd \<times> string) list \<Rightarrow> cmd option" where
  "find_cmd_loop cmd_str [] = None"
| "find_cmd_loop cmd_str ((name, abbr, c, note) # cmds) =
     (if cmd_str = name then Some c else if cmd_str = abbr then Some c else find_cmd_loop cmd_str cmds)"

definition find_cmd :: "string \<Rightarrow> cmd option" where
  "find_cmd cmd_str = find_cmd_loop cmd_str commands"

fun run_cmd :: "cmd \<Rightarrow> cmd_func" where
  "run_cmd Cmd_match = cmd_match"
| "run_cmd Cmd_cancel = cmd_cancel"
| "run_cmd Cmd_list = cmd_list"
| "run_cmd Cmd_info = cmd_info"
| "run_cmd Cmd_cat = cmd_cat"
| "run_cmd Cmd_help = cmd_help"
| "run_cmd Cmd_quit = cmd_quit"

end
