(* ===== verification/Resource_Query.thy ===== *)
theory Resource_Query
  imports Command Resource_Gen
begin

text \<open>
  The program (\<open>resource-query.cpp\<close>): its options, the choice of a match policy and of the subsystems a
  matcher uses, the set-up of the session, and the loop over the commands.

  \<open>getopt_long\<close> gives the options as a list of characters with their arguments; \<open>readline\<close> gives the lines of
  the session, and nothing but null once they are used up. How boost lays out the graph that is written at the
  end, and whether files can be opened and written, are parameters.
\<close>

section \<open>Options\<close>

definition default_params :: test_params where
  "default_params = \<lparr>grug = ''conf/default'', matcher_name = ''CA'', matcher_policy = ''high'', o_fname = [], r_fname = [],
     o_fext = ''dot'', o_format = GRAPHVIZ_DOT, elapse_time = False\<rparr>"

definition upper :: "char \<Rightarrow> char" where
  "upper c = (if 97 \<le> (of_char c :: nat) \<and> (of_char c :: nat) \<le> 122 then char_of ((of_char c :: nat) - 32) else c)"

definition iequals :: "string \<Rightarrow> string \<Rightarrow> bool" where
  "iequals s t \<longleftrightarrow> map upper s = map upper t"

definition string_to_graph_format :: "string \<Rightarrow> emit_format \<Rightarrow> emit_format \<times> int" where
  "string_to_graph_format st format =
     (if iequals st ''dot'' then (GRAPHVIZ_DOT, 0)
      else if iequals st ''graphml'' then (GRAPH_ML, 0) else (format, -1))"

definition graph_format_to_ext :: "emit_format \<Rightarrow> string" where
  "graph_format_to_ext format = (case format of GRAPHVIZ_DOT \<Rightarrow> ''dot'' | GRAPH_ML \<Rightarrow> ''graphml'')"

text \<open>One option: the parameters after it, or the exit code of \<open>usage\<close>.\<close>

definition set_option :: "char \<Rightarrow> string \<Rightarrow> test_params \<Rightarrow> int + test_params" where
  "set_option ch optarg p =
     (if ch = CHR ''h'' then Inl 0
      else if ch = CHR ''G'' then Inr (p\<lparr>grug := optarg\<rparr>)
      else if ch = CHR ''S'' then Inr (p\<lparr>matcher_name := optarg\<rparr>)
      else if ch = CHR ''P'' then Inr (p\<lparr>matcher_policy := optarg\<rparr>)
      else if ch = CHR ''g'' then
        (case string_to_graph_format optarg (o_format p) of (format, rc) \<Rightarrow>
         if rc \<noteq> 0 then Inl 1 else Inr (p\<lparr>o_format := format, o_fext := graph_format_to_ext format\<rparr>))
      else if ch = CHR ''o'' then Inr (p\<lparr>o_fname := optarg\<rparr>)
      else if ch = CHR ''t'' then Inr (p\<lparr>r_fname := optarg\<rparr>)
      else if ch = CHR ''e'' then Inr (p\<lparr>elapse_time := True\<rparr>)
      else Inl 1)"

fun set_options :: "(char \<times> string) list \<Rightarrow> test_params \<Rightarrow> int + test_params" where
  "set_options [] p = Inr p"
| "set_options ((ch, optarg) # opts) p =
     (case set_option ch optarg p of Inl code \<Rightarrow> Inl code | Inr p \<Rightarrow> set_options opts p)"

section \<open>The matcher\<close>

definition create_match_cb :: "sorter \<Rightarrow> (int list \<Rightarrow> int \<Rightarrow> int \<Rightarrow> bool) \<Rightarrow> string \<Rightarrow> match_cb option" where
  "create_match_cb std_sort icl_greater policy =
     (if policy = ''high'' then Some (high_first std_sort new_matcher_data)
      else if policy = ''low'' then Some (low_first std_sort new_matcher_data)
      else if policy = ''locality'' then Some (greater_interval_first std_sort icl_greater new_matcher_data)
      else None)"

definition subsystem_exist :: "resource_graph_db \<Rightarrow> string \<Rightarrow> int" where
  "subsystem_exist db n = (if map_of (db_roots db) n = None then -1 else 0)"

text \<open>
  \<open>if ((rc = subsystem_exist (ctx, n)) == 0) matcher.add_subsystem (n, rel)\<close>, and the same behind
  \<open>if (!rc \<and> ...)\<close>, which leaves a failure as it is.
\<close>

definition use_subsystem :: "resource_graph_db \<Rightarrow> string \<Rightarrow> string \<Rightarrow> matcher_data \<times> int \<Rightarrow> matcher_data \<times> int" where
  "use_subsystem db n rel st =
     (let rc = subsystem_exist db n in (if rc = 0 then fst (add_subsystem n rel (fst st)) else fst st, rc))"

definition also_use :: "resource_graph_db \<Rightarrow> string \<Rightarrow> string \<Rightarrow> matcher_data \<times> int \<Rightarrow> matcher_data \<times> int" where
  "also_use db n rel st = (if snd st = 0 then use_subsystem db n rel st else st)"

definition set_subsystems_use :: "resource_graph_db \<Rightarrow> string \<Rightarrow> matcher_data \<Rightarrow> matcher_data \<times> int" where
  "set_subsystems_use db n m =
     (let st = (m\<lparr>m_name := n\<rparr>, 0); use = use_subsystem db; also = also_use db in
      if iequals n ''CA'' then use ''containment'' ''*'' st
      else if iequals n ''IBA'' then use ''ibnet'' ''*'' st
      else if iequals n ''IBBA'' then use ''ibnetbw'' ''*'' st
      else if iequals n ''PFS1BA'' then use ''pfs1bw'' ''*'' st
      else if iequals n ''PA'' then use ''power'' ''*'' st
      else if iequals n ''C+PFS1BA'' then also ''pfs1bw'' ''*'' (use ''containment'' ''contains'' st)
      else if iequals n ''C+IBA'' then also ''ibnet'' ''connected_up'' (use ''containment'' ''contains'' st)
      else if iequals n ''C+PA'' then also ''power'' ''draws_from'' (use ''containment'' ''*'' st)
      else if iequals n ''IB+IBBA'' then also ''ibnetbw'' ''*'' (use ''ibnet'' ''connected_down'' st)
      else if iequals n ''C+P+IBA'' then
        also ''ibnet'' ''connected_up'' (use ''power'' ''draws_from'' (use ''containment'' ''contains'' st))
      else if iequals n ''V+PFS1BA'' then also ''pfs1bw'' ''*'' (use ''virtual1'' ''*'' st)
      else if iequals n ''VA'' then use ''virtual1'' ''*'' st
      else if iequals n ''ALL'' then
        use ''power'' ''*'' (also ''pfs1bw'' ''*'' (also ''ibnetbw'' ''*'' (also ''ibnet'' ''*'' (use ''containment'' ''*'' st))))
      else (fst st, -1))"

text \<open>\<open>sdau_resource_types[dom].insert (...)\<close>: the set of types for the subtree plans of a subsystem.\<close>

definition subtree_plan_types :: "string list \<Rightarrow> string list" where
  "subtree_plan_types aut = (if ''core'' \<in> set aut then aut else ''core'' # aut)"

definition track_types :: "string \<Rightarrow> matcher_data \<Rightarrow> matcher_data" where
  "track_types s m = m\<lparr>sdau_resource_types :=
     map_put s (subtree_plan_types (case map_of (sdau_resource_types m) s of None \<Rightarrow> [] | Some aut \<Rightarrow> aut)) (sdau_resource_types m)\<rparr>"

section \<open>Texts of the written graph\<close>

definition flat_map :: "(string \<times> string) list \<Rightarrow> string" where
  "flat_map m = ''{'' @ concat (map (\<lambda>(k, v). k @ '': '' @ [CHR 0x22] @ v @ [CHR 0x22]) m) @ ''}''"

definition view_vertices :: "subsystems_sel \<Rightarrow> resource_graph \<Rightarrow> nat list" where
  "view_vertices sel g = filter (vertex_selected sel g) [0..<length (vertices g)]"

definition view_edges :: "subsystems_sel \<Rightarrow> resource_graph \<Rightarrow> nat list" where
  "view_edges sel g =
     filter (\<lambda>e. edge_selected sel g e \<and> vertex_selected sel g (e_src (edges g ! e)) \<and> vertex_selected sel g (e_tgt (edges g ! e)))
       [0..<length (edges g)]"

definition flatten :: "subsystems_sel \<Rightarrow> resource_graph \<Rightarrow> (nat \<times> string) list \<times> (nat \<times> string) list \<times> (nat \<times> string) list" where
  "flatten sel g =
     (let vs = view_vertices sel g; es = view_edges sel g
      in (map (\<lambda>v. (v, flat_map (paths (vertices g ! v)))) vs,
          map (\<lambda>v. (v, flat_map (p_member_of (p_idata (vertices g ! v))))) vs,
          map (\<lambda>e. (e, flat_map (e_member_of (e_idata (edges g ! e))))) es))"

text \<open>The label of a vertex, and that of an edge: its relation in a subsystem, or the first one it has.\<close>

definition dot_label :: "string \<Rightarrow> string" where
  "dot_label name = ''[label='' @ [CHR 0x22] @ name @ [CHR 0x22] @ '']''"

definition edg_label :: "string \<Rightarrow> resource_relation \<Rightarrow> string outcome" where
  "edg_label s e =
     (case map_of (e_member_of (e_idata e)) s of
        Some rel \<Rightarrow> Ret (dot_label rel)
      | None \<Rightarrow> (case e_member_of (e_idata e) of [] \<Rightarrow> Undefined | (_, rel) # _ \<Rightarrow> Ret (dot_label rel)))"

fun edg_labels :: "string \<Rightarrow> resource_graph \<Rightarrow> nat list \<Rightarrow> (nat \<times> nat \<times> string) list outcome" where
  "edg_labels s g [] = Ret []"
| "edg_labels s g (e # es) =
     bind (edg_label s (edges g ! e)) (\<lambda>lbl. bind (edg_labels s g es) (\<lambda>rest.
     Ret ((e_src (edges g ! e), e_tgt (edges g ! e), lbl) # rest)))"

text \<open>The properties that go into a GraphML file.\<close>

record graph_props =
  gp_vertices :: "nat list"
  gp_edges :: "(nat \<times> nat \<times> nat) list"
  gp_paths :: "(nat \<times> string) list"
  gp_member_of :: "(nat \<times> string) list"
  gp_type :: "nat \<Rightarrow> string"
  gp_basename :: "nat \<Rightarrow> string"
  gp_name :: "nat \<Rightarrow> string"
  gp_id :: "nat \<Rightarrow> int"
  gp_size :: "nat \<Rightarrow> int"
  gp_unit :: "nat \<Rightarrow> string"
  gp_edge_member_of :: "(nat \<times> string) list"

section \<open>The set-up\<close>

definition EXIT_FAILURE :: int where
  "EXIT_FAILURE = 1"

text \<open>
  What is not under \<open>src/\<close>: sorting, the intervals and hash tables, what boost reads, how it walks and what it
  writes for the labels and properties it is given; which files can be opened, and which writes fail.
\<close>

record main_env =
  me_cmd :: cmd_env
  me_icl_greater :: "int list \<Rightarrow> int \<Rightarrow> int \<Rightarrow> bool"
  me_zkeys :: "int list \<Rightarrow> int list"
  me_dfs :: "recipe \<Rightarrow> gen_event list"
  me_graphml :: "string \<Rightarrow> recipe option"
  me_open :: "string \<Rightarrow> bool"
  me_bad :: "string \<Rightarrow> bool"
  me_write_graphviz :: "(nat \<times> string) list \<Rightarrow> (nat \<times> nat \<times> string) list \<Rightarrow> string"
  me_write_graphml :: "graph_props \<Rightarrow> string"

definition new_traverser :: "main_env \<Rightarrow> resource_graph_db \<Rightarrow> match_cb \<Rightarrow> dfu_traverser" where
  "new_traverser env db cb =
     \<lparr>dt_trav = trav_new (db_graph db), dt_has_graph = True, dt_roots = Some (db_roots db), dt_match = Some cb,
      dt_sel = m_subsystems_map (cb_data cb), dt_zkeys = me_zkeys env\<rparr>"

definition new_context :: "test_params \<Rightarrow> dfu_traverser \<Rightarrow> string \<Rightarrow> resource_context" where
  "new_context p d out =
     \<lparr>params = p, jobid_counter = 1, rc_traverser = d, jobs = [], rc_allocations = [], rc_reservations = [],
      rc_cout = out, rc_cerr = [], r_out = []\<rparr>"

text \<open>
  The set-up gives a session, or the exit code with what was written to standard error. A file for the results
  that cannot be opened ends the program with an exception. The result of \<open>initialize\<close> is not looked at.
\<close>

definition setup_session :: "main_env \<Rightarrow> test_params \<Rightarrow> (int \<times> string + resource_context) outcome" where
  "setup_session env p =
     (case create_match_cb (ce_sort (me_cmd env)) (me_icl_greater env) (matcher_policy p) of
        None \<Rightarrow> Ret (Inl (EXIT_FAILURE, line ''ERROR: unknown match policy '' @ line (''ERROR: '' @ matcher_policy p)))
      | Some cb \<Rightarrow>
          bind (read_graphml (me_dfs env) (grug p) (me_graphml env (grug p)) [] resource_graph_db_new) (\<lambda>(db, err, rc).
          if rc \<noteq> 0 then Ret (Inl (EXIT_FAILURE, line ''ERROR: error in generating resources'' @ line (''ERROR: '' @ err)))
          else
            let out = line (''INFO: Loading a matcher: '' @ matcher_name p) in
            case set_subsystems_use db (matcher_name p) (cb_data cb) of (m, rc) \<Rightarrow>
            if rc \<noteq> 0 then Ret (Inl (EXIT_FAILURE, line ''ERROR: Not all subsystems found''))
            else
              bind (defined (dom_subsystem m)) (\<lambda>dm.
              bind (if r_fname p \<noteq> [] \<and> \<not> me_open env (r_fname p) then Uncaught else Ret ()) (\<lambda>_.
              bind (traverser_initialize (ce_fuel (me_cmd env)) (new_traverser env db (cb\<lparr>cb_data := track_types dm m\<rparr>))) (\<lambda>((d, _), _).
              Ret (Inr (new_context p d out)))))))"

section \<open>The loop\<close>

definition is_space :: "char \<Rightarrow> bool" where
  "is_space c \<longleftrightarrow> c \<in> set [CHR '' '', CHR 0x09, CHR 0x0A, CHR 0x0B, CHR 0x0C, CHR 0x0D]"

fun tokens_from :: "string \<Rightarrow> string \<Rightarrow> string list" where
  "tokens_from tok [] = (if tok = [] then [] else [tok])"
| "tokens_from tok (c # cs) =
     (if is_space c then (if tok = [] then tokens_from [] cs else tok # tokens_from [] cs) else tokens_from (tok @ [c]) cs)"

definition tokens :: "string \<Rightarrow> string list" where
  "tokens s = tokens_from [] s"

text \<open>One round of the loop on a line that was read, with the time that its command takes; \<open>True\<close> when it ends the loop.\<close>

definition loop_round :: "cmd_env \<Rightarrow> string \<times> int \<Rightarrow> resource_context \<Rightarrow> (resource_context \<times> bool) outcome" where
  "loop_round env inp ctx =
     (case tokens (fst inp) of
        [] \<Rightarrow> Ret (ctx, False)
      | cmd_str # args \<Rightarrow>
          (case find_cmd cmd_str of
             None \<Rightarrow> Ret (ctx, False)
           | Some c \<Rightarrow> bind (run_cmd c env (snd inp) (cmd_str # args) ctx) (\<lambda>(ctx, rc). Ret (ctx, rc \<noteq> 0))))"

text \<open>At the end of the input \<open>readline\<close> gives null and the loop goes round for ever.\<close>

fun control_loop :: "cmd_env \<Rightarrow> (string \<times> int) list \<Rightarrow> resource_context \<Rightarrow> resource_context outcome" where
  "control_loop env [] ctx = Diverges"
| "control_loop env (inp # inputs) ctx =
     bind (loop_round env inp ctx) (\<lambda>(ctx, stop). if stop then Ret ctx else control_loop env inputs ctx)"

section \<open>The graph at the end\<close>

definition write_to_graphviz :: "main_env \<Rightarrow> subsystems_sel \<Rightarrow> resource_graph \<Rightarrow> string \<Rightarrow> string outcome" where
  "write_to_graphviz env sel g ss =
     bind (edg_labels ss g (view_edges sel g)) (\<lambda>elbls.
     Ret (me_write_graphviz env (map (\<lambda>v. (v, dot_label (p_name (vertices g ! v)))) (view_vertices sel g)) elbls))"

definition write_to_graphml :: "main_env \<Rightarrow> subsystems_sel \<Rightarrow> resource_graph \<Rightarrow> string" where
  "write_to_graphml env sel g =
     (case flatten sel g of (fpaths, subsystems, esubsystems) \<Rightarrow>
      me_write_graphml env
        \<lparr>gp_vertices = view_vertices sel g, gp_edges = map (\<lambda>e. (e, e_src (edges g ! e), e_tgt (edges g ! e))) (view_edges sel g),
         gp_paths = fpaths, gp_member_of = subsystems, gp_type = (\<lambda>v. p_type (vertices g ! v)),
         gp_basename = (\<lambda>v. p_basename (vertices g ! v)), gp_name = (\<lambda>v. p_name (vertices g ! v)),
         gp_id = (\<lambda>v. p_id (vertices g ! v)), gp_size = (\<lambda>v. p_size (vertices g ! v)),
         gp_unit = (\<lambda>v. p_unit (vertices g ! v)), gp_edge_member_of = esubsystems\<rparr>)"

text \<open>
  The file with its text, if it could be opened. Only a write that fails is reported: a stream that was never
  opened ignores what is written to it and is not \<open>bad\<close>.
\<close>

definition write_to_graph :: "main_env \<Rightarrow> resource_context \<Rightarrow> (resource_context \<times> (string \<times> string) option) outcome" where
  "write_to_graph env ctx =
     (let p = params ctx; fn = o_fname p @ ''.'' @ o_fext p; d = rc_traverser ctx; g = tr_graph (dt_trav d);
          ctx = to_cout (line ''INFO: Write the target graph of the matcher...'') ctx
      in bind (case o_format p of
             GRAPHVIZ_DOT \<Rightarrow> bind (defined (Option.bind (dt_match d) (\<lambda>cb. dom_subsystem (cb_data cb)))) (write_to_graphviz env (dt_sel d) g)
           | GRAPH_ML \<Rightarrow> Ret (write_to_graphml env (dt_sel d) g)) (\<lambda>txt.
         if \<not> me_open env fn then Ret (ctx, None)
         else Ret (if me_bad env fn then to_cerr (line ''ERROR: Failure encountered in writing'') ctx else ctx, Some (fn, txt))))"

section \<open>The program\<close>

text \<open>An exit code, or at the end of the session the state and the graph file.\<close>

definition main :: "main_env \<Rightarrow> (char \<times> string) list \<Rightarrow> bool \<Rightarrow> (string \<times> int) list \<Rightarrow>
    (int + resource_context \<times> (string \<times> string) option) outcome" where
  "main env opts more_args inputs =
     (case set_options opts default_params of
        Inl code \<Rightarrow> Ret (Inl code)
      | Inr p \<Rightarrow>
          if more_args then Ret (Inl 1)
          else bind (setup_session env p) (\<lambda>r.
            case r of
              Inl (code, err) \<Rightarrow> Ret (Inl code)
            | Inr ctx \<Rightarrow> bind (control_loop (me_cmd env) inputs ctx) (\<lambda>ctx.
                if o_fname (params ctx) \<noteq> [] then bind (write_to_graph env ctx) (\<lambda>r. Ret (Inr r))
                else Ret (Inr (ctx, None)))))"

end
