(* ===== verification/Traverser_Jobs.thy ===== *)
theory Traverser_Jobs
  imports Traverser_Update_Frame
begin

text \<open>
  Which jobs the public functions of the traverser may touch: \<open>run\<close> and \<open>remove\<close> only the one they are called
  for, \<open>initialize\<close> none, on every graph and for every result. Running with \<open>MATCH_ALLOCATE\<close> books no reservation.
\<close>

section \<open>Pools that keep the entries of the other jobs\<close>

definition pool_keeps :: "int \<Rightarrow> resource_pool \<Rightarrow> resource_pool \<Rightarrow> bool" where
  "pool_keeps j p q \<longleftrightarrow>
     own_entry j (tags (p_schedule p)) (tags (p_schedule q)) \<and> own_entry j (x_spans (p_schedule p)) (x_spans (p_schedule q)) \<and>
     own_entry j (allocations (p_schedule p)) (allocations (p_schedule q)) \<and>
     own_entry j (reservations (p_schedule p)) (reservations (p_schedule q))"

definition jobs_kept :: "int \<Rightarrow> trav \<Rightarrow> trav \<Rightarrow> bool" where
  "jobs_kept j t t' \<longleftrightarrow> list_all2 (pool_keeps j) (vertices (tr_graph t)) (vertices (tr_graph t'))"

definition schedules_kept :: "trav \<Rightarrow> trav \<Rightarrow> bool" where
  "schedules_kept t t' \<longleftrightarrow> list_all2 (\<lambda>p q. p_schedule q = p_schedule p) (vertices (tr_graph t)) (vertices (tr_graph t'))"

lemma own_entry_erase [simp]: "own_entry j m (map_erase j m)"
  by (simp add: own_entry_def)

lemma own_entry_trans: "own_entry j m m' \<Longrightarrow> own_entry j m' m'' \<Longrightarrow> own_entry j m m''"
  by (simp add: own_entry_def)

lemma jobs_kept_refl [simp]: "jobs_kept j t t"
  by (simp add: jobs_kept_def list_all2_refl pool_keeps_def)

lemma jobs_kept_trans: "jobs_kept j t t' \<Longrightarrow> jobs_kept j t' t'' \<Longrightarrow> jobs_kept j t t''"
proof -
  have "pool_keeps j p q \<Longrightarrow> pool_keeps j q r \<Longrightarrow> pool_keeps j p r" for p q r
    by (auto simp: pool_keeps_def intro: own_entry_trans)
  then show "jobs_kept j t t' \<Longrightarrow> jobs_kept j t' t'' \<Longrightarrow> jobs_kept j t t''"
    unfolding jobs_kept_def by (rule list_all2_trans)
qed

lemma schedules_kept_refl [simp]: "schedules_kept t t"
  by (simp add: schedules_kept_def list_all2_refl)

lemma schedules_kept_trans: "schedules_kept t t' \<Longrightarrow> schedules_kept t' t'' \<Longrightarrow> schedules_kept t t''"
  unfolding schedules_kept_def by (rule list_all2_trans) simp_all

lemma schedules_jobs_kept: "schedules_kept t t' \<Longrightarrow> jobs_kept j t t'"
  unfolding schedules_kept_def jobs_kept_def by (erule list_all2_mono) (simp add: pool_keeps_def)

lemma schedules_kept_same_graph: "tr_graph t' = tr_graph t \<Longrightarrow> schedules_kept t t'"
  by (simp add: schedules_kept_def list_all2_refl)

lemma books_jobs_kept: "books meta t t' \<Longrightarrow> jobs_kept (jm_jobid meta) t t'"
  unfolding books_def jobs_kept_def by (auto elim!: list_all2_mono simp: pool_books_def pool_keeps_def Let_def)

lemma quiet_schedules_kept: "quiet dm t t' \<Longrightarrow> schedules_kept t t'"
  unfolding quiet_def schedules_kept_def by (auto elim!: list_all2_mono dest: pool_frameD)

lemma jobs_keptD:
  assumes "jobs_kept j t t'"
  shows "length (vertices (tr_graph t')) = length (vertices (tr_graph t))"
    and "u < length (vertices (tr_graph t)) \<Longrightarrow> jobs_of (pool t' u) - {j} = jobs_of (pool t u) - {j}"
  using assms by (auto simp: jobs_kept_def pool_def pool_keeps_def own_entry_def dom_def
      dest: list_all2_lengthD list_all2_nthD)

lemma schedules_keptD:
  assumes "schedules_kept t t'"
  shows "length (vertices (tr_graph t')) = length (vertices (tr_graph t))"
    and "u < length (vertices (tr_graph t)) \<Longrightarrow> p_schedule (pool t' u) = p_schedule (pool t u)"
  using assms by (auto simp: schedules_kept_def pool_def dest: list_all2_lengthD list_all2_nthD)

lemma jobs_kept_upd_pool:
  assumes "jobs_kept j t0 t" and "\<And>p. pool_keeps j p (f p)"
  shows "jobs_kept j t0 (upd_pool u f t)"
proof -
  have "jobs_kept j t (upd_pool u f t)"
    using assms(2)
    by (cases "u < length (vertices (tr_graph t))")
      (auto simp: jobs_kept_def upd_pool_def upd_vertex_def list_all2_conv_all_nth nth_list_update list_update_beyond pool_keeps_def)
  with assms(1) show ?thesis by (rule jobs_kept_trans)
qed

lemma schedules_kept_upd_pool:
  assumes "schedules_kept t0 t" and "\<And>p. p_schedule (f p) = p_schedule p"
  shows "schedules_kept t0 (upd_pool u f t)"
proof -
  have "schedules_kept t (upd_pool u f t)"
    using assms(2)
    by (cases "u < length (vertices (tr_graph t))")
      (auto simp: schedules_kept_def upd_pool_def upd_vertex_def list_all2_conv_all_nth nth_list_update list_update_beyond)
  with assms(1) show ?thesis by (rule schedules_kept_trans)
qed

lemma same_graph_steps [simp]:
  "tr_graph (err_msg m t) = tr_graph t" "tr_graph (tick_color_base t) = tr_graph t" "tr_graph (tick t) = tr_graph t"
  by (simp_all add: err_msg_def tick_color_base_def tick_def)

lemma schedules_kept_steps [simp]:
  "schedules_kept t0 t \<Longrightarrow> schedules_kept t0 (upd_idata u f t)" "schedules_kept t0 t \<Longrightarrow> schedules_kept t0 (set_color u s c t)"
  "schedules_kept t0 t \<Longrightarrow> schedules_kept t0 (touch_subplan u s t)" "schedules_kept t0 (err_msg m t) = schedules_kept t0 t"
  "schedules_kept t0 (tick_color_base t) = schedules_kept t0 t" "schedules_kept t0 (tick t) = schedules_kept t0 t"
  by (auto simp: upd_idata_def set_color_def touch_subplan_def intro!: schedules_kept_upd_pool) (simp_all add: schedules_kept_def)

lemma jobs_kept_steps [simp]:
  "jobs_kept j t0 t \<Longrightarrow> jobs_kept j t0 (upd_schedule u (\<lambda>sc. sc\<lparr>plans := p\<rparr>) t)"
  "jobs_kept j t0 t \<Longrightarrow> jobs_kept j t0 (upd_schedule u (\<lambda>sc. sc\<lparr>x_checker := p\<rparr>) t)"
  "jobs_kept j t0 t \<Longrightarrow> jobs_kept j t0 (upd_schedule u (\<lambda>sc. sc\<lparr>tags := map_erase j (tags sc)\<rparr>) t)"
  "jobs_kept j t0 t \<Longrightarrow> jobs_kept j t0 (upd_schedule u (\<lambda>sc. sc\<lparr>x_spans := map_erase j (x_spans sc)\<rparr>) t)"
  "jobs_kept j t0 t \<Longrightarrow> jobs_kept j t0 (upd_schedule u (\<lambda>sc. sc\<lparr>allocations := map_erase j (allocations sc)\<rparr>) t)"
  "jobs_kept j t0 t \<Longrightarrow> jobs_kept j t0 (upd_schedule u (\<lambda>sc. sc\<lparr>reservations := map_erase j (reservations sc)\<rparr>) t)"
  "jobs_kept j t0 t \<Longrightarrow> jobs_kept j t0 (upd_idata u g t)" "jobs_kept j t0 t \<Longrightarrow> jobs_kept j t0 (touch_subplan u s t)"
  "jobs_kept j t0 (err_msg m t) = jobs_kept j t0 t" "jobs_kept j t0 (tick_color_base t) = jobs_kept j t0 t"
  by (auto simp: upd_schedule_def upd_idata_def touch_subplan_def pool_keeps_def intro!: jobs_kept_upd_pool)
    (simp_all add: jobs_kept_def)

section \<open>Removing\<close>

lemma wp_rem_span_opt: "wp True True (rem_span_opt env sp p) (\<lambda>_. True)"
  by simp

lemma wp_rem_x_checker:
  assumes "jobs_kept j t0 t"
  shows "wp True True (rem_x_checker env u j t) (\<lambda>r. jobs_kept j t0 (fst r))"
  unfolding rem_x_checker_def
  by (cases "map_of (x_spans (p_schedule (pool t u))) j")
    (auto simp: Let_def assms simp del: wp_bind intro!: wp_bindI [OF wp_rem_span_opt])

lemma wp_rem_plan:
  assumes "jobs_kept j t0 t"
  shows "wp True True (rem_plan env u j t) (\<lambda>r. jobs_kept j t0 (fst r))"
  unfolding rem_plan_def
  by (auto simp: Let_def assms simp del: wp_bind split: option.split intro!: wp_bindI [OF wp_rem_span_opt])

lemma wp_rem_subtree_plan:
  assumes "jobs_kept j t0 t"
  shows "wp True True (rem_subtree_plan env u j s t) (\<lambda>r. jobs_kept j t0 (fst r))"
  unfolding rem_subtree_plan_def
  by (auto simp: Let_def assms simp del: wp_bind split: option.split intro!: wp_bindI [OF wp_rem_span_opt])

lemma wp_rem_vertex:
  assumes "jobs_kept j t0 t"
  shows "wp True True (rem_vertex env u j t) (\<lambda>r. jobs_kept j t0 (fst r))"
  unfolding rem_vertex_def
  by (rule wp_bindI [OF wp_rem_x_checker])
    (auto simp: assms simp del: wp_bind intro!: wp_bindI [OF wp_rem_plan] wp_rem_subtree_plan split: prod.split)

lemma wp_rem_dfv: "jobs_kept j t0 t \<Longrightarrow> wp True True (rem_dfv fuel env j u t) (\<lambda>r. jobs_kept j t0 (fst r))"
proof (induction fuel arbitrary: u t)
  case (Suc fuel)
  let ?P = "\<lambda>r :: trav \<times> int. jobs_kept j t0 (fst r)"
  have edge: "wp True True (rem_edge_visit env s (rem_dfv fuel env j) e st) ?P" if "?P st" for s e st
    using that Suc.IH
    by (auto simp: rem_edge_visit_def case_prod_beta rem_upv_def simp del: wp_bind intro!: wp_bindI [OF Suc.IH])
  show ?case
    unfolding rem_dfv.simps
    by (auto simp: Suc.prems case_prod_beta simp del: wp_bind intro!: wp_bindI [OF wp_rem_vertex] wp_each [where P = ?P] edge)
qed simp

lemma wp_remove: "wp True True (remove fuel env root j t) (\<lambda>r. jobs_kept j t (fst r))"
  unfolding remove_def by (rule wp_rem_dfv) simp


section \<open>Running\<close>

lemma wp_select_schedules:
  assumes "schedules_kept t0 t"
  shows "wp True True (select std_sort fuel env rs root meta excl n0 t) (\<lambda>r. schedules_kept t0 (fst r))"
proof (rule wp_mono [OF quiet_select])
  fix r assume "quiet (dom_of env) (tick t) (fst r)"
  from quiet_schedules_kept [OF this] have "schedules_kept t (fst r)" by (simp add: schedules_kept_def)
  with assms show "schedules_kept t0 (fst r)" by (rule schedules_kept_trans)
qed

lemma avail_steps:
  "schedules_kept t0 t \<Longrightarrow> schedules_kept t0 (fst (avail_first env root dm tm dur dfv t))"
  "schedules_kept t0 t \<Longrightarrow> schedules_kept t0 (fst (avail_next root dm t))"
  by (auto simp: avail_first_def avail_next_def split: option.split prod.split)

lemma wp_reserve_loop:
  assumes "\<And>meta n t. schedules_kept t0 t \<Longrightarrow> wp True True (sel meta n t) (\<lambda>r. schedules_kept t0 (fst r))" and "schedules_kept t0 t"
  shows "wp True True (reserve_loop rounds sel root dm tm meta n rc t)
    (\<lambda>(t', meta', _). schedules_kept t0 t' \<and> jm_jobid meta' = jm_jobid meta \<and> jm_allocate meta' = jm_allocate meta)"
  using assms(2)
proof (induction rounds arbitrary: tm meta n rc t)
  case (Suc rounds)
  have "wp True True (case r of (t, n, rc) \<Rightarrow> case avail_next root dm t of (t, tm) \<Rightarrow>
        reserve_loop rounds sel root dm tm (meta\<lparr>jm_at := tm0\<rparr>) n rc t)
      (\<lambda>(t', meta', _). schedules_kept t0 t' \<and> jm_jobid meta' = jm_jobid meta \<and> jm_allocate meta' = jm_allocate meta)"
    if "schedules_kept t0 (fst r)" for r tm0
    using Suc.IH [of "fst (avail_next root dm (fst r))" _ "meta\<lparr>jm_at := tm0\<rparr>"] avail_steps(2) [OF that, of root dm]
    by (cases r; cases "avail_next root dm (fst r)") simp
  then show ?case
    using Suc.prems by (auto simp: Let_def simp del: wp_bind intro!: wp_bindI [OF assms(1) [OF Suc.prems]])
qed simp

lemma wp_schedule:
  "wp True True (schedule std_sort fuel rounds env rs meta x op root dfv t)
    (\<lambda>(t', meta', _). schedules_kept t t' \<and> jm_jobid meta' = jm_jobid meta \<and> (op = MATCH_ALLOCATE \<longrightarrow> meta' = meta))"
proof -
  let ?dm = "dom_of env"
  let ?sel = "\<lambda>meta n t. select std_sort fuel env rs root meta x n t"
  have loop: "wp True True (case avail_first env root ?dm tm dur dfv t1 of (t1, tm) \<Rightarrow>
        reserve_loop rounds ?sel root ?dm tm (meta\<lparr>jm_allocate := False\<rparr>) n rc t1)
      (\<lambda>(t', meta', _). schedules_kept t t' \<and> jm_jobid meta' = jm_jobid meta \<and> jm_allocate meta' = False)"
    if "schedules_kept t t1" for t1 tm dur n rc
    using wp_reserve_loop [of t ?sel "fst (avail_first env root ?dm tm dur dfv t1)" rounds root ?dm _ "meta\<lparr>jm_allocate := False\<rparr>"]
      avail_steps(1) [OF that, of env root ?dm tm dur dfv] wp_select_schedules [of t]
    by (cases "avail_first env root ?dm tm dur dfv t1") simp
  show ?thesis unfolding schedule_def Let_def
  proof (rule wp_bindI [OF wp_select_schedules [OF schedules_kept_refl]])
    fix r :: "trav \<times> int \<times> int" assume r: "schedules_kept t (fst r)"
    obtain t1 n rc where [simp]: "r = (t1, n, rc)" by (cases r)
    show "wp True True (case r of (t, k, rc) \<Rightarrow>
        if rc \<noteq> 0 \<and> op = MATCH_ALLOCATE_ORELSE_RESERVE then
          if map_of (subplans (p_idata (pool t root))) ?dm = None then Uncaught
          else case avail_first env root ?dm (i64 (jm_at (meta\<lparr>jm_allocate := False\<rparr>) + 1)) (jm_duration (meta\<lparr>jm_allocate := False\<rparr>)) dfv t of
            (t, tm) \<Rightarrow> reserve_loop rounds ?sel root ?dm tm (meta\<lparr>jm_allocate := False\<rparr>) k rc t
        else Ret (t, meta, k, rc))
      (\<lambda>(t', meta', _). schedules_kept t t' \<and> jm_jobid meta' = jm_jobid meta \<and> (op = MATCH_ALLOCATE \<longrightarrow> meta' = meta))"
      using r wp_mono [OF loop [of t1]] by (auto simp: Let_def elim!: wp_mono [OF loop])
  qed
qed

definition allocates_only :: "trav \<Rightarrow> trav \<Rightarrow> bool" where
  "allocates_only t t' \<longleftrightarrow> list_all2 (\<lambda>p q. reservations (p_schedule q) = reservations (p_schedule p)) (vertices (tr_graph t)) (vertices (tr_graph t'))"

lemma schedules_allocates: "schedules_kept t t' \<Longrightarrow> allocates_only t t'"
  unfolding schedules_kept_def allocates_only_def by (erule list_all2_mono) simp

lemma allocates_trans: "allocates_only t t' \<Longrightarrow> allocates_only t' t'' \<Longrightarrow> allocates_only t t''"
  unfolding allocates_only_def by (rule list_all2_trans) simp_all

lemma books_allocates: "books meta t t' \<Longrightarrow> jm_allocate meta \<Longrightarrow> allocates_only t t'"
  unfolding books_def allocates_only_def by (auto elim!: list_all2_mono simp: pool_books_def Let_def)

lemma allocates_onlyD:
  "allocates_only t t' \<Longrightarrow> u < length (vertices (tr_graph t)) \<Longrightarrow> reservations (p_schedule (pool t' u)) = reservations (p_schedule (pool t u))"
  by (simp add: allocates_only_def pool_def list_all2_conv_all_nth)

lemma wp_update_books: "wp True True (update fuel env root meta n x (t, ss)) (\<lambda>r. books meta t (fst (fst r)))"
  by (rule wp_partialI) (use books_update in fastforce)

definition same_but_trav :: "dfu_traverser \<Rightarrow> dfu_traverser \<Rightarrow> bool" where
  "same_but_trav d d' \<longleftrightarrow> dt_has_graph d' = dt_has_graph d \<and> dt_roots d' = dt_roots d \<and> dt_match d' = dt_match d \<and>
     dt_sel d' = dt_sel d \<and> dt_zkeys d' = dt_zkeys d"

lemma same_but_trav_simps [simp]: "same_but_trav d d" "same_but_trav d (d\<lparr>dt_trav := t\<rparr>)"
  by (simp_all add: same_but_trav_def)

lemma wp_run:
  "wp True True (traverser_run std_sort fuel rounds d js op jobid at0 ss) (\<lambda>((d', js', at', ss'), rc, e).
     jobs_kept jobid (dt_trav d) (dt_trav d') \<and> same_but_trav d d' \<and>
     (op = MATCH_ALLOCATE \<longrightarrow> allocates_only (dt_trav d) (dt_trav d') \<and> at' = at0))"
proof -
  have refl: "allocates_only (dt_trav d) (dt_trav d)" by (simp add: schedules_allocates)
  show ?thesis
  proof (cases "\<exists>cb dm roots root. dt_match d = Some cb \<and> dom_subsystem (cb_data cb) = Some dm \<and> dt_has_graph d \<and> dt_roots d = Some roots \<and>
      map_of roots dm = Some root \<and> j_resources js \<noteq> []")
    case False
    then show ?thesis using refl
      by (auto simp: traverser_run_def split: option.split bool.split)
  next
    case True
    then obtain cb dm roots root where c: "dt_match d = Some cb" "dom_subsystem (cb_data cb) = Some dm" "dt_has_graph d" "dt_roots d = Some roots"
      "map_of roots dm = Some root" "j_resources js \<noteq> []" by blast
    let ?env = "env_of d roots cb" and ?x = "exclusivity (dt_trav d) (j_resources js) root"
    obtain rs dfv where pj: "prime_jobspec ?env (j_resources js) [] = (rs, dfv)" by (cases "prime_jobspec ?env (j_resources js) []")
    let ?js = "js\<lparr>j_resources := rs\<rparr>"
    let ?Q = "\<lambda>((d', js', at', ss'), rc, e). jobs_kept jobid (dt_trav d) (dt_trav d') \<and> same_but_trav d d' \<and>
      (op = MATCH_ALLOCATE \<longrightarrow> allocates_only (dt_trav d) (dt_trav d') \<and> at' = at0)"
    have after: "wp True True (case r of (t, meta, k, rc) \<Rightarrow>
          if rc = 0 then bind (update fuel ?env root meta k ?x (t, ss)) (\<lambda>((t, ss), rc).
            Ret ((d\<lparr>dt_trav := t\<rparr>, ?js, jm_at meta, ss), rc, None))
          else Ret ((d\<lparr>dt_trav := t\<rparr>, ?js, at0, ss), rc, None)) ?Q"
      if r: "case r of (t', meta', _) \<Rightarrow> schedules_kept (dt_trav d) t' \<and> jm_jobid meta' = jobid \<and>
          (op = MATCH_ALLOCATE \<longrightarrow> meta' = meta)" and m: "jm_allocate meta" "jm_at meta = at0" for r :: "trav \<times> jobmeta \<times> int \<times> int" and meta :: jobmeta
    proof -
      obtain t1 meta1 n rc where [simp]: "r = (t1, meta1, n, rc)" by (cases r)
      have k: "schedules_kept (dt_trav d) t1" "jm_jobid meta1 = jobid" "op = MATCH_ALLOCATE \<longrightarrow> meta1 = meta" using r by simp_all
      have b: "jobs_kept jobid (dt_trav d) t2 \<and> (op = MATCH_ALLOCATE \<longrightarrow> allocates_only (dt_trav d) t2 \<and> jm_at meta1 = at0)"
        if "books meta1 t1 t2" for t2
        using jobs_kept_trans [OF schedules_jobs_kept [OF k(1)] books_jobs_kept [OF that, unfolded k(2)]]
          allocates_trans [OF schedules_allocates [OF k(1)] books_allocates [OF that]] k(3) m by auto
      have "wp True True (bind (update fuel ?env root meta1 n ?x (t1, ss)) (\<lambda>((t, ss), rc).
            Ret ((d\<lparr>dt_trav := t\<rparr>, ?js, jm_at meta1, ss), rc, None))) ?Q"
        by (rule wp_bindI [OF wp_update_books]) (use b in \<open>auto split: prod.split\<close>)
      then show ?thesis using schedules_jobs_kept [OF k(1)] schedules_allocates [OF k(1)] by auto
    qed
    show ?thesis
      unfolding traverser_run_def c(1) option.case c(2) defined_simps bind_simps eqTrueI [OF c(3)] c(4) prod.case bool.case c(5) if_not_P [OF c(6)] Let_def pj
    proof (rule wp_bindI [where P = "\<lambda>meta. jm_jobid meta = jobid \<and> jm_allocate meta \<and> jm_at meta = at0"])
      show "wp True True (jobmeta_build (j_attributes ?js) True jobid at0) (\<lambda>meta. jm_jobid meta = jobid \<and> jm_allocate meta \<and> jm_at meta = at0)"
        by (simp add: jobmeta_build_def split: option.split)
    next
      fix meta :: jobmeta assume m: "jm_jobid meta = jobid \<and> jm_allocate meta \<and> jm_at meta = at0"
      show "wp True True (bind (schedule std_sort fuel rounds ?env rs meta ?x op root dfv (dt_trav d)) (\<lambda>(t, meta, k, rc).
          if rc = 0 then bind (update fuel ?env root meta k ?x (t, ss)) (\<lambda>((t, ss), rc).
            Ret ((d\<lparr>dt_trav := t\<rparr>, ?js, jm_at meta, ss), rc, None))
          else Ret ((d\<lparr>dt_trav := t\<rparr>, ?js, at0, ss), rc, None))) ?Q"
        by (rule wp_bindI [OF wp_schedule after [of meta]]) (use m in auto)
    qed
  qed
qed

lemma wp_traverser_remove:
  "wp True True (traverser_remove fuel d jobid) (\<lambda>((d', rc), e). jobs_kept jobid (dt_trav d) (dt_trav d') \<and> same_but_trav d d')"
proof -
  have "wp True True (bind (remove fuel env root jobid (dt_trav d)) (\<lambda>(t, rc). Ret ((d\<lparr>dt_trav := t\<rparr>, rc), None :: api_errno option)))
      (\<lambda>((d', rc), e). jobs_kept jobid (dt_trav d) (dt_trav d') \<and> same_but_trav d d')" for env root
    by (rule wp_bindI [OF wp_remove]) auto
  then show ?thesis
    by (auto simp: traverser_remove_def simp del: wp_bind intro!: wp_bindI [OF wp_trivial] split: option.split bool.split)
qed


section \<open>Initializing\<close>

lemma prime_subplan_schedules: "schedules_kept t0 t \<Longrightarrow> schedules_kept t0 (fst (prime_subplan s u dfv t))"
  by (auto simp: prime_subplan_def Let_def split: option.split)

lemma wp_prime_exp_loop:
  assumes "\<And>v st. schedules_kept t0 (fst st) \<Longrightarrow> wp True True (visit v st) (\<lambda>r. schedules_kept t0 (fst (fst r)))"
    and "schedules_kept t0 t"
  shows "wp True True (prime_exp_loop s visit es (t, dfv)) (\<lambda>r. schedules_kept t0 (fst (fst r)))"
  using assms(2)
proof (induction es arbitrary: t dfv)
  case (Cons e es)
  have step: "wp True True (case r of (st, rc) \<Rightarrow> if rc \<noteq> 0 then Ret (st, rc) else prime_exp_loop s visit es st)
      (\<lambda>r. schedules_kept t0 (fst (fst r)))" if "schedules_kept t0 (fst (fst r))" for r
    using Cons.IH [OF that] that by (cases r; cases "fst r") auto
  show ?case
    using Cons by (auto simp del: wp_bind intro!: wp_bindI [OF assms(1)] step)
qed simp

lemma wp_prime:
  "schedules_kept t0 (fst st) \<Longrightarrow> wp True True (prime fuel env s u st) (\<lambda>r. schedules_kept t0 (fst (fst r)))"
proof (induction fuel arbitrary: u st)
  case (Suc fuel)
  obtain t tp where [simp]: "st = (t, tp)" by (cases st)
  let ?t = "set_color u s (gray (tr_color_base t)) t"
  have t: "schedules_kept t0 ?t" using Suc.prems by simp
  show ?case
    unfolding \<open>st = (t, tp)\<close> prime.simps Let_def
  proof (rule wp_bindI [OF wp_prime_exp_loop [OF Suc.IH t]])
    fix r :: "(trav \<times> (string \<times> int) list) \<times> int" assume r: "schedules_kept t0 (fst (fst r))"
    show "wp True True ((\<lambda>((t, dfv), rc). if rc \<noteq> 0 then Ret ((set_color u s (black (tr_color_base t)) t, fst (accum_if env s (p_type (pool ?t u)) (p_size (pool ?t u)) tp)), - 1)
        else case prime_subplan s u dfv t of (t', rc) \<Rightarrow> Ret ((set_color u s (black (tr_color_base t')) t', fold (\<lambda>(ty, n) acc. fst (accum_if env s ty n acc)) dfv
          (fst (accum_if env s (p_type (pool ?t u)) (p_size (pool ?t u)) tp))), rc)) r) (\<lambda>r. schedules_kept t0 (fst (fst r)))"
      using r prime_subplan_schedules [OF r, of s u "snd (fst r)"] by (auto split: prod.split)
  qed
qed simp

lemma wp_initialize_loop:
  "schedules_kept t0 t \<Longrightarrow> wp True True (initialize_loop fuel env ss (t, rc)) (\<lambda>((t', rc), e). schedules_kept t0 t')"
proof (induction ss arbitrary: t rc)
  case (Cons s ss)
  show ?case
    using Cons by (auto simp del: wp_bind split: option.split intro!: wp_bindI [OF wp_prime])
qed simp

lemma wp_traverser_initialize:
  "wp True True (traverser_initialize fuel d) (\<lambda>((d', rc), e). schedules_kept (dt_trav d) (dt_trav d') \<and> same_but_trav d d')"
proof -
  have "wp True True (bind (initialize_loop fuel env ss (dt_trav d, 0)) (\<lambda>((t, rc), e). Ret ((d\<lparr>dt_trav := t\<rparr>, rc), e)))
      (\<lambda>((d', rc), e). schedules_kept (dt_trav d) (dt_trav d') \<and> same_but_trav d d')" for env ss
    by (rule wp_bindI [OF wp_initialize_loop [OF schedules_kept_refl]]) auto
  then show ?thesis
    by (auto simp: traverser_initialize_def simp del: wp_bind split: option.split bool.split)
qed

end
