(* ===== verification/Session.thy ===== *)
theory Session
  imports Resource_Query Traverser_Jobs Resource_Gen_Laws
begin

text \<open>
  A session as a state machine: one step is one round of the loop that does not end it. The tables of the jobs,
  of the allocations and of the reservations agree in every state that a session reaches.
\<close>

section \<open>Steps and reachable states\<close>

text \<open>\<open>session env c0 ls c\<close>: the session that started in \<open>c0\<close> is in \<open>c\<close> after the lines \<open>ls\<close>.\<close>

inductive session :: "cmd_env \<Rightarrow> resource_context \<Rightarrow> (string \<times> int) list \<Rightarrow> resource_context \<Rightarrow> bool" for env c0 where
  session_start: "session env c0 [] c0"
| session_line: "session env c0 ls c \<Longrightarrow> loop_round env inp c = Ret (c', False) \<Longrightarrow> session env c0 (ls @ [inp]) c'"

inductive_cases session_NilE: "session env c0 [] c"
inductive_cases session_snocE: "session env c0 (ls @ [inp]) c"

lemma session_first:
  assumes "session env c1 ls c" and "loop_round env inp c0 = Ret (c1, False)"
  shows "session env c0 (inp # ls) c"
  using assms
proof (induction rule: session.induct)
  case session_start
  then show ?case using session_line [OF session.session_start, of env inp c0 c1] by simp
next
  case (session_line ls c inp' c')
  then show ?case using session.session_line [of env c0 "inp # ls" c inp' c'] by simp
qed

lemma session_step_first:
  "session env c0 (inp # ls) c \<Longrightarrow> \<exists>c1. loop_round env inp c0 = Ret (c1, False) \<and> session env c1 ls c"
proof (induction ls arbitrary: c rule: rev_induct)
  case Nil
  then have "session env c0 ([] @ [inp]) c" by simp
  then show ?case by (elim session_snocE) (auto elim!: session_NilE intro: session_start)
next
  case (snoc inp' ls)
  then have "session env c0 ((inp # ls) @ [inp']) c" by simp
  then obtain c' where c': "session env c0 (inp # ls) c'" "loop_round env inp' c' = Ret (c, False)"
    by (elim session_snocE) auto
  with snoc.IH [OF c'(1)] show ?case by (auto intro: session_line)
qed

section \<open>What the streams keep\<close>

definition same_tables :: "resource_context \<Rightarrow> resource_context \<Rightarrow> bool" where
  "same_tables c c' \<longleftrightarrow> jobid_counter c' = jobid_counter c \<and> jobs c' = jobs c \<and> rc_allocations c' = rc_allocations c \<and>
     rc_reservations c' = rc_reservations c \<and> params c' = params c"

lemma same_tables_refl [simp]: "same_tables c c"
  by (simp add: same_tables_def)

lemma same_tables_streams [simp]:
  "same_tables c (to_cout s c') = same_tables c c'" "same_tables c (to_cerr s c') = same_tables c c'"
  "same_tables c (to_out s c') = same_tables c c'" "same_tables c (c'\<lparr>rc_traverser := d\<rparr>) = same_tables c c'"
  "same_tables c (cancel_result env j rc c') = same_tables c c'"
  by (simp_all add: same_tables_def to_cout_def to_cerr_def to_out_def cancel_result_def)

lemma stream_fields [simp]:
  "jobs (to_out s c) = jobs c" "rc_allocations (to_out s c) = rc_allocations c" "rc_reservations (to_out s c) = rc_reservations c"
  "jobid_counter (to_out s c) = jobid_counter c" "rc_traverser (to_out s c) = rc_traverser c"
  "jobs (to_cout s c) = jobs c" "rc_allocations (to_cout s c) = rc_allocations c" "rc_reservations (to_cout s c) = rc_reservations c"
  "jobid_counter (to_cout s c) = jobid_counter c" "rc_traverser (to_cout s c) = rc_traverser c"
  "jobs (to_cerr s c) = jobs c" "rc_allocations (to_cerr s c) = rc_allocations c" "rc_reservations (to_cerr s c) = rc_reservations c"
  "jobid_counter (to_cerr s c) = jobid_counter c" "rc_traverser (to_cerr s c) = rc_traverser c"
  "jobs (cancel_result env j rc c) = jobs c" "rc_allocations (cancel_result env j rc c) = rc_allocations c"
  "rc_reservations (cancel_result env j rc c) = rc_reservations c" "jobid_counter (cancel_result env j rc c) = jobid_counter c"
  "rc_traverser (cancel_result env j rc c) = rc_traverser c" "params (to_out s c) = params c"
  by (simp_all add: to_cout_def to_cerr_def to_out_def cancel_result_def)

section \<open>The tables\<close>

definition in_state :: "resource_context \<Rightarrow> job_state \<Rightarrow> int set" where
  "in_state c s = {j. \<exists>info. map_of (jobs c) j = Some info \<and> ji_state info = s}"

text \<open>
  The table of jobs holds the jobs below the counter under their ids, none in its initial state; the table of
  allocations holds exactly the allocated ones, that of reservations the reserved ones, and only a job that
  was allocated was scheduled at time 0.
\<close>

definition tables_ok :: "resource_context \<Rightarrow> bool" where
  "tables_ok c \<longleftrightarrow>
     (\<forall>j info. map_of (jobs c) j = Some info \<longrightarrow> 1 \<le> j \<and> j < jobid_counter c \<and> ji_jobid info = j \<and> ji_state info \<noteq> INIT \<and>
        (ji_state info = ALLOCATED \<longrightarrow> ji_scheduled_at info = 0) \<and> (ji_state info = RESERVED \<longrightarrow> ji_scheduled_at info \<noteq> 0)) \<and>
     dom (map_of (rc_allocations c)) = in_state c ALLOCATED \<and> dom (map_of (rc_reservations c)) = in_state c RESERVED \<and>
     1 \<le> jobid_counter c"

lemma tables_ok_same: "tables_ok c \<Longrightarrow> same_tables c c' \<Longrightarrow> tables_ok c'"
  by (simp add: tables_ok_def same_tables_def in_state_def)

lemma tables_ok_new [simp]: "tables_ok (new_context p d out)"
  by (simp add: tables_ok_def new_context_def in_state_def)

lemma tables_ok_schedule_info:
  assumes "tables_ok c" and "jobid_counter c < 9223372036854775807"
  shows "tables_ok (print_schedule_info env (jobid_counter c) fn matched at elapse c)"
    and "jobid_counter (print_schedule_info env (jobid_counter c) fn matched at elapse c) = jobid_counter c + 1"
proof -
  have u: "u64 (jobid_counter c + 1) = jobid_counter c + 1" using assms by (simp add: tables_ok_def)
  then show "jobid_counter (print_schedule_info env (jobid_counter c) fn matched at elapse c) = jobid_counter c + 1"
    by (simp add: print_schedule_info_def Let_def)
  have new: "map_of (jobs c) (jobid_counter c) = None"
  proof (cases "map_of (jobs c) (jobid_counter c)")
    case (Some info)
    with assms(1) show ?thesis by (fastforce simp: tables_ok_def)
  qed simp
  have below: "1 \<le> j \<and> j < jobid_counter c + 1 \<and> ji_jobid info = j \<and> ji_state info \<noteq> INIT \<and>
      (ji_state info = ALLOCATED \<longrightarrow> ji_scheduled_at info = 0) \<and> (ji_state info = RESERVED \<longrightarrow> ji_scheduled_at info \<noteq> 0)"
    if "map_of (jobs c) j = Some info" for j info
    using assms(1) that unfolding tables_ok_def by fastforce
  show "tables_ok (print_schedule_info env (jobid_counter c) fn matched at elapse c)"
  proof (cases matched)
    case False
    then show ?thesis using assms(1) below u by (simp add: print_schedule_info_def Let_def tables_ok_def in_state_def)
  next
    case True
    have d: "dom (map_of (rc_allocations c)) = in_state c ALLOCATED" "dom (map_of (rc_reservations c)) = in_state c RESERVED"
        "1 \<le> jobid_counter c"
      using assms(1) by (simp_all add: tables_ok_def)
    have put: "{j. (j = jobid_counter c \<longrightarrow> s = r) \<and> (j \<noteq> jobid_counter c \<longrightarrow> (\<exists>info. map_of (jobs c) j = Some info \<and> ji_state info = r))} =
        (if s = r then insert (jobid_counter c) (in_state c r) else in_state c r)" for s r :: job_state
      using new by (auto simp: in_state_def)
    show ?thesis using True below u d new
      unfolding tables_ok_def print_schedule_info_def Let_def
      by (auto simp: in_state_def dom_def split: if_splits)
  qed
qed

lemma tables_ok_cancel:
  assumes "tables_ok c" and "map_of (jobs c) j = Some info" and "ji_state info = ALLOCATED \<or> ji_state info = RESERVED"
    and "same_tables c c1"
  defines "c2 \<equiv> c1\<lparr>jobs := map_put j (info\<lparr>ji_state := CANCELLED\<rparr>) (jobs c1)\<rparr>"
  shows "ji_state info = ALLOCATED \<Longrightarrow> tables_ok (c2\<lparr>rc_allocations := map_erase j (rc_allocations c2)\<rparr>)"
    and "ji_state info = RESERVED \<Longrightarrow> tables_ok (c2\<lparr>rc_reservations := map_erase j (rc_reservations c2)\<rparr>)"
proof -
  have t: "jobs c1 = jobs c" "rc_allocations c1 = rc_allocations c" "rc_reservations c1 = rc_reservations c"
      "jobid_counter c1 = jobid_counter c" using assms(4) by (simp_all add: same_tables_def)
  have j: "1 \<le> j" "j < jobid_counter c" "ji_jobid info = j"
    using assms(1,2) by (simp_all add: tables_ok_def)
  have st: "in_state (c2\<lparr>rc_allocations := a\<rparr>) s = (if s = CANCELLED then insert j (in_state c s) else in_state c s - {j})"
      "in_state (c2\<lparr>rc_reservations := a\<rparr>) s = (if s = CANCELLED then insert j (in_state c s) else in_state c s - {j})" for a s
    by (auto simp: in_state_def c2_def t split: if_splits)
  have er: "dom (map_of (map_erase j m)) = dom (map_of m) - {j}" for m :: "(int \<times> int) list" by (auto simp: dom_def)
  have no: "j \<notin> in_state c s" if "s \<noteq> ji_state info" for s using assms(2) that by (simp add: in_state_def)
  show "tables_ok (c2\<lparr>rc_allocations := map_erase j (rc_allocations c2)\<rparr>)" if "ji_state info = ALLOCATED"
    using assms(1) j no [of RESERVED] that unfolding tables_ok_def st
    by (auto simp: c2_def t er split: if_splits)
  show "tables_ok (c2\<lparr>rc_reservations := map_erase j (rc_reservations c2)\<rparr>)" if "ji_state info = RESERVED"
    using assms(1) j no [of ALLOCATED] that unfolding tables_ok_def st
    by (auto simp: c2_def t er split: if_splits)
qed


section \<open>Every command keeps them\<close>

lemma u64_i64_id: "0 \<le> j \<Longrightarrow> j < 18446744073709551616 \<Longrightarrow> u64 (i64 j) = j"
  by (simp add: u64_def)

lemma u64_i64_u64 [simp]: "u64 (i64 (u64 j)) = u64 j"
  by (simp add: u64_def)

lemma do_remove_tables:
  assumes "do_remove env jobid c = Ret (c', rc)" and "map_of (jobs c) (u64 jobid) = Some info"
  shows "if rc = 0 then \<exists>c1. same_tables c c1 \<and> c' = c1\<lparr>jobs := map_put (u64 jobid) (info\<lparr>ji_state := CANCELLED\<rparr>) (jobs c1)\<rparr>
    else same_tables c c'"
proof -
  obtain d e where "traverser_remove (ce_fuel env) (rc_traverser c) jobid = Ret ((d, rc), e)" and
    c': "c' = (if rc = 0 then c\<lparr>rc_traverser := d, jobs := map_put (u64 jobid) (info\<lparr>ji_state := CANCELLED\<rparr>) (jobs c)\<rparr>
       else (to_cout (tr_err_msg (dt_trav d)) (c\<lparr>rc_traverser := d\<rparr>))\<lparr>rc_traverser := d\<lparr>dt_trav := (dt_trav d)\<lparr>tr_err_msg := []\<rparr>\<rparr>\<rparr>)"
    using assms by (auto simp: do_remove_def bind_Ret_iff Let_def split: if_splits)
  show ?thesis
  proof (cases "rc = 0")
    case True
    then show ?thesis using c' by (intro if_P [THEN iffD2] exI [of _ "c\<lparr>rc_traverser := d\<rparr>"]) simp_all
  next
    case False
    then show ?thesis using c' by simp
  qed
qed

lemma cmd_match_tables:
  assumes "tables_ok c" and "jobid_counter c < 9223372036854775807" and "cmd_match env elapse args c = Ret (c', rc)"
  shows "tables_ok c' \<and> jobid_counter c' \<le> jobid_counter c + 1"
proof -
  have i: "in_i64 (jobid_counter c)" "u64 (jobid_counter c) = jobid_counter c" using assms(1,2) by (auto simp: tables_ok_def in_i64_def)
  have "same_tables c c' \<or> (\<exists>c1 fn m at. same_tables c c1 \<and> c' = print_schedule_info env (jobid_counter c1) fn m at elapse c1)"
  proof (cases "same_tables c c'")
    case False
    then obtain op fn job where "match_job env elapse op fn job c = Ret (c', rc)"
      using assms(3) by (auto simp: cmd_match_def Let_def split: if_splits option.splits sum.splits)
    then obtain d at ss m where "c' = print_schedule_info env (jobid_counter c) fn m at elapse (to_out ss (c\<lparr>rc_traverser := d\<rparr>))"
      by (auto simp: match_job_def Let_def bind_Ret_iff i)
    then show ?thesis by (intro disjI2 exI [of _ "to_out ss (c\<lparr>rc_traverser := d\<rparr>)"]) (auto simp: same_tables_def)
  qed simp
  then show ?thesis
  proof
    assume "\<exists>c1 fn m at. same_tables c c1 \<and> c' = print_schedule_info env (jobid_counter c1) fn m at elapse c1"
    then obtain c1 fn m at where c1: "same_tables c c1" "c' = print_schedule_info env (jobid_counter c1) fn m at elapse c1" by blast
    with tables_ok_schedule_info [OF tables_ok_same [OF assms(1) c1(1)], of env fn m at elapse] assms(2)
    show ?thesis by (simp add: same_tables_def)
  qed (use assms(1) in \<open>auto intro: tables_ok_same simp: same_tables_def\<close>)
qed

lemma cmd_cancel_cases:
  assumes "cmd_cancel env elapse args c = Ret (c', rc)"
  defines "j \<equiv> u64 (strtoll (args ! 1))"
  obtains (none) "same_tables c c'" "rc_traverser c' = rc_traverser c"
    | (allocated) c1 r where "j \<in> dom (map_of (rc_allocations c))" "do_remove env (i64 j) c = Ret (c1, r)"
        "c' = cancel_result env j r (if r = 0 then c1\<lparr>rc_allocations := map_erase j (rc_allocations c1)\<rparr> else c1)"
    | (reserved) c1 r where "j \<in> dom (map_of (rc_reservations c))" "do_remove env (i64 j) c = Ret (c1, r)"
        "c' = cancel_result env j r (if r = 0 then c1\<lparr>rc_reservations := map_erase j (rc_reservations c1)\<rparr> else c1)"
proof (cases "length args = 2")
  case False
  then have "same_tables c c'" "rc_traverser c' = rc_traverser c" using assms(1) by (auto simp: cmd_cancel_def)
  then show thesis by (rule none)
next
  case True
  note run = assms(1) [unfolded cmd_cancel_def Let_def, folded j_def]
  show thesis
  proof (cases "map_of (rc_allocations c) j = None")
    case False
    then have "bind (do_remove env (i64 j) c) (\<lambda>(ctx, rc). Ret (cancel_result env j rc
        (if rc = 0 then ctx\<lparr>rc_allocations := map_erase j (rc_allocations ctx)\<rparr> else ctx), 0)) = Ret (c', rc)"
      using run True by simp
    then obtain x where x: "do_remove env (i64 j) c = Ret x" "c' = cancel_result env j (snd x)
        (if snd x = 0 then (fst x)\<lparr>rc_allocations := map_erase j (rc_allocations (fst x))\<rparr> else fst x)"
      by (auto simp: case_prod_beta elim!: bind_RetE)
    show thesis by (rule allocated [of "fst x" "snd x"]) (use False x in auto)
  next
    case na: True
    show thesis
    proof (cases "map_of (rc_reservations c) j = None")
      case False
      then have "bind (do_remove env (i64 j) c) (\<lambda>(ctx, rc). Ret (cancel_result env j rc
          (if rc = 0 then ctx\<lparr>rc_reservations := map_erase j (rc_reservations ctx)\<rparr> else ctx), 0)) = Ret (c', rc)"
        using run True na by simp
      then obtain x where x: "do_remove env (i64 j) c = Ret x" "c' = cancel_result env j (snd x)
          (if snd x = 0 then (fst x)\<lparr>rc_reservations := map_erase j (rc_reservations (fst x))\<rparr> else fst x)"
        by (auto simp: case_prod_beta elim!: bind_RetE)
      show thesis by (rule reserved [of "fst x" "snd x"]) (use False x in auto)
    next
      case nr: True
      then have "same_tables c c'" "rc_traverser c' = rc_traverser c" using run True na by auto
      then show thesis by (rule none)
    qed
  qed
qed

lemma cmd_cancel_tables:
  assumes "tables_ok c" and "cmd_cancel env elapse args c = Ret (c', rc)"
  shows "tables_ok c' \<and> jobid_counter c' = jobid_counter c"
proof -
  let ?j = "u64 (strtoll (args ! 1))"
  have d: "dom (map_of (rc_allocations c)) = in_state c ALLOCATED" "dom (map_of (rc_reservations c)) = in_state c RESERVED"
    using assms(1) by (simp_all add: tables_ok_def)
  consider "same_tables c c'"
    | c1 r where "?j \<in> in_state c ALLOCATED" "do_remove env (i64 ?j) c = Ret (c1, r)"
        "c' = cancel_result env ?j r (if r = 0 then c1\<lparr>rc_allocations := map_erase ?j (rc_allocations c1)\<rparr> else c1)"
    | c1 r where "?j \<in> in_state c RESERVED" "do_remove env (i64 ?j) c = Ret (c1, r)"
        "c' = cancel_result env ?j r (if r = 0 then c1\<lparr>rc_reservations := map_erase ?j (rc_reservations c1)\<rparr> else c1)"
    using assms(2) unfolding d [symmetric] by (rule cmd_cancel_cases)
  then show ?thesis
  proof cases
    case 1
    then show ?thesis using tables_ok_same [OF assms(1)] by (simp add: same_tables_def)
  next
    case 2
    then obtain info where info: "map_of (jobs c) ?j = Some info" "ji_state info = ALLOCATED" by (auto simp: in_state_def)
    show ?thesis
    proof (cases "r = 0")
      case True
      with do_remove_tables [OF 2(2)] info(1) obtain c0 where "same_tables c c0"
          "c1 = c0\<lparr>jobs := map_put ?j (info\<lparr>ji_state := CANCELLED\<rparr>) (jobs c0)\<rparr>" by auto
      with tables_ok_cancel(1) [OF assms(1) info(1) _ this(1) info(2)] info(2) True 2(3) show ?thesis
        by (auto simp: cancel_result_def same_tables_def)
    next
      case False
      with do_remove_tables [OF 2(2)] info(1) 2(3) have "same_tables c c'" by simp
      with tables_ok_same [OF assms(1) this] show ?thesis by (simp add: same_tables_def)
    qed
  next
    case 3
    then obtain info where info: "map_of (jobs c) ?j = Some info" "ji_state info = RESERVED" by (auto simp: in_state_def)
    show ?thesis
    proof (cases "r = 0")
      case True
      with do_remove_tables [OF 3(2)] info(1) obtain c0 where "same_tables c c0"
          "c1 = c0\<lparr>jobs := map_put ?j (info\<lparr>ji_state := CANCELLED\<rparr>) (jobs c0)\<rparr>" by auto
      with tables_ok_cancel(2) [OF assms(1) info(1) _ this(1) info(2)] info(2) True 3(3) show ?thesis
        by (auto simp: cancel_result_def same_tables_def)
    next
      case False
      with do_remove_tables [OF 3(2)] info(1) 3(3) have "same_tables c c'" by simp
      with tables_ok_same [OF assms(1) this] show ?thesis by (simp add: same_tables_def)
    qed
  qed
qed

lemma run_cmd_tables:
  assumes "tables_ok c" and "jobid_counter c < 9223372036854775807" and "run_cmd k env elapse args c = Ret (c', rc)"
  shows "tables_ok c' \<and> jobid_counter c' \<le> jobid_counter c + 1"
proof -
  have "same_tables c c'" if "k \<notin> {Cmd_match, Cmd_cancel}"
    using assms(3) that
    by (cases k) (auto simp: cmd_list_def cmd_info_def cmd_cat_def cmd_help_def cmd_quit_def Let_def split: if_splits option.splits)
  then show ?thesis
    using assms cmd_match_tables [of c env elapse args c' rc] cmd_cancel_tables [of c env elapse args c' rc] tables_ok_same [of c c']
    by (cases k) (auto simp: same_tables_def)
qed

lemma loop_round_tables:
  assumes "tables_ok c" and "jobid_counter c < 9223372036854775807" and "loop_round env inp c = Ret (c', stop)"
  shows "tables_ok c' \<and> jobid_counter c' \<le> jobid_counter c + 1"
  using assms run_cmd_tables [OF assms(1,2)]
  by (auto simp: loop_round_def bind_Ret_iff split: list.splits option.splits)

lemma session_tables:
  assumes "session env c0 ls c" and "tables_ok c0" and "jobid_counter c0 + int (length ls) \<le> 9223372036854775807"
  shows "tables_ok c \<and> jobid_counter c \<le> jobid_counter c0 + int (length ls)"
  using assms
proof (induction rule: session.induct)
  case (session_line ls c inp c')
  then have "tables_ok c" "jobid_counter c \<le> jobid_counter c0 + int (length ls)" by simp_all
  with loop_round_tables [OF this(1) _ session_line.hyps(2)] session_line.prems show ?case by fastforce
qed simp


section \<open>The end of a session\<close>

definition is_quit :: "string \<times> int \<Rightarrow> bool" where
  "is_quit inp \<longleftrightarrow> (case tokens (fst inp) of [] \<Rightarrow> False | s # _ \<Rightarrow> s = ''quit'' \<or> s = ''q'')"

lemma find_cmd_quit: "find_cmd s = Some Cmd_quit \<longleftrightarrow> s = ''quit'' \<or> s = ''q''"
  by (auto simp: find_cmd_def commands_def)

lemma run_cmd_stops:
  assumes "run_cmd k env elapse args c = Ret (c', rc)"
  shows "rc \<noteq> 0 \<longleftrightarrow> k = Cmd_quit"
  using assms
  by (cases k) (auto simp: cmd_match_def match_job_def cmd_cancel_def cmd_list_def cmd_info_def cmd_cat_def cmd_help_def cmd_quit_def
      Let_def bind_Ret_iff split: if_splits option.splits sum.splits)

lemma loop_round_stops:
  assumes "loop_round env inp c = Ret (c', stop)"
  shows "stop \<longleftrightarrow> is_quit inp"
proof (cases "tokens (fst inp)")
  case Nil
  then show ?thesis using assms by (auto simp: loop_round_def is_quit_def)
next
  case (Cons s args)
  show ?thesis
  proof (cases "find_cmd s")
    case None
    then show ?thesis using assms Cons find_cmd_quit [of s] by (auto simp: loop_round_def is_quit_def)
  next
    case (Some k)
    then obtain rc where "run_cmd k env (snd inp) (s # args) c = Ret (c', rc)" "stop = (rc \<noteq> 0)"
      using assms Cons by (auto simp: loop_round_def bind_Ret_iff)
    with run_cmd_stops [OF this(1)] find_cmd_quit [of s] Some Cons show ?thesis by (simp add: is_quit_def)
  qed
qed

lemma loop_round_quit: "is_quit inp \<Longrightarrow> loop_round env inp c = Ret (c, True)"
proof -
  assume "is_quit inp"
  then obtain s args where s: "tokens (fst inp) = s # args" "s = ''quit'' \<or> s = ''q''"
    by (cases "tokens (fst inp)") (auto simp: is_quit_def)
  then have "find_cmd s = Some Cmd_quit" by (simp add: find_cmd_quit)
  with s(1) show ?thesis by (simp add: loop_round_def cmd_quit_def)
qed

lemma control_loop_session:
  "control_loop env inputs c0 = Ret c \<longleftrightarrow> (\<exists>ls inp rest. inputs = ls @ inp # rest \<and> session env c0 ls c \<and> is_quit inp)"
proof (induction inputs arbitrary: c0)
  case Nil
  then show ?case by simp
next
  case (Cons inp inputs)
  show ?case
  proof (cases "is_quit inp")
    case True
    have "c0 = c" if "inp # inputs = ls @ inp' # rest" "session env c0 ls c" for ls inp' rest
    proof (cases ls)
      case Nil
      then show ?thesis using that(2) by (auto elim: session_NilE)
    next
      case (Cons x ys)
      with session_step_first [of env c0 inp ys c] that loop_round_quit [OF True, of env c0] show ?thesis by auto
    qed
    moreover have "control_loop env (inp # inputs) c0 = Ret c \<longleftrightarrow> c0 = c" using loop_round_quit [OF True, of env c0] by simp
    moreover have "\<exists>ls inp' rest. inp # inputs = ls @ inp' # rest \<and> session env c0 ls c0 \<and> is_quit inp'"
      using True session_start [of env c0] by (intro exI [of _ "[]"] exI [of _ inp] exI [of _ inputs]) simp
    ultimately show ?thesis by blast
  next
    case False
    have "control_loop env (inp # inputs) c0 = Ret c \<longleftrightarrow> (\<exists>c1. loop_round env inp c0 = Ret (c1, False) \<and> control_loop env inputs c1 = Ret c)"
      using loop_round_stops [of env inp c0] False by (auto simp: bind_Ret_iff split: if_splits)
    also have "\<dots> \<longleftrightarrow> (\<exists>c1 ls inp' rest. loop_round env inp c0 = Ret (c1, False) \<and> inputs = ls @ inp' # rest \<and> session env c1 ls c \<and> is_quit inp')"
      using Cons.IH by blast
    also have "\<dots> \<longleftrightarrow> (\<exists>ls inp' rest. inp # inputs = ls @ inp' # rest \<and> session env c0 ls c \<and> is_quit inp')"
    proof
      assume "\<exists>c1 ls inp' rest. loop_round env inp c0 = Ret (c1, False) \<and> inputs = ls @ inp' # rest \<and> session env c1 ls c \<and> is_quit inp'"
      then obtain c1 ls inp' rest where "loop_round env inp c0 = Ret (c1, False)" "inputs = ls @ inp' # rest" "session env c1 ls c" "is_quit inp'"
        by blast
      then show "\<exists>ls inp' rest. inp # inputs = ls @ inp' # rest \<and> session env c0 ls c \<and> is_quit inp'"
        by (intro exI [of _ "inp # ls"] exI [of _ inp'] exI [of _ rest]) (simp add: session_first)
    next
      assume "\<exists>ls inp' rest. inp # inputs = ls @ inp' # rest \<and> session env c0 ls c \<and> is_quit inp'"
      then obtain ls inp' rest where l: "inp # inputs = ls @ inp' # rest" "session env c0 ls c" "is_quit inp'" by blast
      with False obtain ys where ys: "ls = inp # ys" by (cases ls) auto
      with session_step_first [of env c0 inp ys c] l
      obtain c1 where "loop_round env inp c0 = Ret (c1, False)" "inputs = ys @ inp' # rest" "session env c1 ys c" by auto
      with l(3) show "\<exists>c1 ls inp' rest. loop_round env inp c0 = Ret (c1, False) \<and> inputs = ls @ inp' # rest \<and> session env c1 ls c \<and> is_quit inp'"
        by blast
    qed
    finally show ?thesis .
  qed
qed

lemma control_loop_end_of_input: "session env c0 ls c \<Longrightarrow> control_loop env ls c0 = Diverges"
proof (induction ls arbitrary: c0)
  case (Cons inp ls)
  with session_step_first [OF Cons.prems] show ?case by auto
qed simp

section \<open>The jobs of the graph\<close>

text \<open>Every job that a pool knows has an id below the counter, so the id of the next match is new to all pools.\<close>

definition ids_below :: "resource_context \<Rightarrow> bool" where
  "ids_below c \<longleftrightarrow> (let t = dt_trav (rc_traverser c) in
     \<forall>u<length (vertices (tr_graph t)). jobs_of (pool t u) \<subseteq> {1..<jobid_counter c})"

lemma ids_below_same: "ids_below c \<Longrightarrow> rc_traverser c' = rc_traverser c \<Longrightarrow> jobid_counter c' = jobid_counter c \<Longrightarrow> ids_below c'"
  by (simp add: ids_below_def)

lemma ids_below_kept:
  assumes "ids_below c" and "jobs_kept j (dt_trav (rc_traverser c)) t'" and "dt_trav (rc_traverser c') = t'"
    and "jobid_counter c \<le> jobid_counter c'" and "1 \<le> j \<and> j < jobid_counter c'"
  shows "ids_below c'"
  unfolding ids_below_def Let_def assms(3)
proof (intro allI impI)
  fix u assume u: "u < length (vertices (tr_graph t'))"
  then have "jobs_of (pool t' u) - {j} = jobs_of (pool (dt_trav (rc_traverser c)) u) - {j}"
    "u < length (vertices (tr_graph (dt_trav (rc_traverser c))))"
    using jobs_keptD [OF assms(2)] by auto
  moreover from this(2) assms(1) have "jobs_of (pool (dt_trav (rc_traverser c)) u) \<subseteq> {1..<jobid_counter c}"
    by (simp add: ids_below_def Let_def)
  ultimately have "jobs_of (pool t' u) - {j} \<subseteq> {1..<jobid_counter c}" by blast
  moreover have "{1..<jobid_counter c} \<subseteq> {1..<jobid_counter c'}" "j \<in> {1..<jobid_counter c'}" using assms(4,5) by auto
  ultimately show "jobs_of (pool t' u) \<subseteq> {1..<jobid_counter c'}" by blast
qed

lemma print_schedule_info_fields [simp]:
  "rc_traverser (print_schedule_info env j fn m at elapse c) = rc_traverser c"
  "jobid_counter (print_schedule_info env j fn m at elapse c) = u64 (jobid_counter c + 1)"
  by (cases m; simp add: print_schedule_info_def Let_def)+

lemma match_job_ids:
  assumes "ids_below c" and "1 \<le> jobid_counter c" and "jobid_counter c < 9223372036854775807"
    and "match_job env elapse op fn job c = Ret (c', rc)"
  shows "ids_below c'"
proof -
  have i: "in_i64 (jobid_counter c)" "u64 (jobid_counter c) = jobid_counter c" "u64 (jobid_counter c + 1) = jobid_counter c + 1"
    using assms(2,3) by (auto simp: in_i64_def)
  obtain d js at ss m e where r: "traverser_run (ce_sort env) (ce_fuel env) (ce_rounds env) (rc_traverser c) job op (jobid_counter c) 0 [] = Ret ((d, js, at, ss), m, e)"
    and c': "c' = print_schedule_info env (jobid_counter c) fn (m = 0) at elapse (to_out ss (c\<lparr>rc_traverser := d\<rparr>))"
    using assms(4) by (auto simp: match_job_def Let_def bind_Ret_iff i)
  have "jobs_kept (jobid_counter c) (dt_trav (rc_traverser c)) (dt_trav d)" using wp_Ret [OF wp_run r] by simp
  moreover have "rc_traverser c' = d" "jobid_counter c' = jobid_counter c + 1"
    unfolding c' by (simp_all add: i(3))
  ultimately show ?thesis by (intro ids_below_kept [OF assms(1)]) (use assms(2) in auto)
qed

lemma do_remove_ids:
  assumes "ids_below c" and "do_remove env j c = Ret (c', rc)" and "1 \<le> j \<and> j < jobid_counter c"
  shows "ids_below c'" and "jobid_counter c' = jobid_counter c"
proof -
  obtain d e where r: "traverser_remove (ce_fuel env) (rc_traverser c) j = Ret ((d, rc), e)"
    and c': "tr_graph (dt_trav (rc_traverser c')) = tr_graph (dt_trav d)" "jobid_counter c' = jobid_counter c"
    using assms(2) by (auto simp: do_remove_def bind_Ret_iff Let_def split: if_splits option.splits)
  have "jobs_kept j (dt_trav (rc_traverser c)) (dt_trav d)" using wp_Ret [OF wp_traverser_remove r] by simp
  then have "jobs_kept j (dt_trav (rc_traverser c)) (dt_trav (rc_traverser c'))" using c'(1) by (simp add: jobs_kept_def)
  from ids_below_kept [OF assms(1) this refl] c'(2) assms(3) show "ids_below c'" by simp
  show "jobid_counter c' = jobid_counter c" by (fact c'(2))
qed

lemma run_cmd_ids:
  assumes "tables_ok c" and "ids_below c" and "jobid_counter c < 9223372036854775807" and "run_cmd k env elapse args c = Ret (c', rc)"
  shows "ids_below c'"
proof (cases k)
  case Cmd_match
  have "1 \<le> jobid_counter c" using assms(1) by (simp add: tables_ok_def)
  then show ?thesis using assms(2-4) match_job_ids [OF assms(2) _ assms(3)] Cmd_match
    by (auto simp: cmd_match_def Let_def split: if_splits option.splits sum.splits intro: ids_below_same)
next
  case Cmd_cancel
  let ?j = "u64 (strtoll (args ! 1))"
  have job: "1 \<le> i64 ?j \<and> i64 ?j < jobid_counter c" if "?j \<in> dom (map_of (rc_allocations c)) \<or> ?j \<in> dom (map_of (rc_reservations c))"
  proof -
    have "?j \<in> in_state c ALLOCATED \<union> in_state c RESERVED" using that assms(1) by (simp add: tables_ok_def)
    then obtain info where "map_of (jobs c) ?j = Some info" by (auto simp: in_state_def)
    then have j: "1 \<le> ?j" "?j < jobid_counter c" using assms(1) by (auto simp: tables_ok_def)
    then have "in_i64 ?j" using assms(3) by (simp add: in_i64_def)
    with j show ?thesis by simp
  qed
  from assms(4) Cmd_cancel have "cmd_cancel env elapse args c = Ret (c', rc)" by simp
  then show ?thesis
  proof (cases rule: cmd_cancel_cases)
    case none
    then show ?thesis using assms(4) Cmd_cancel ids_below_same [OF assms(2)]
      by (auto simp: same_tables_def)
  next
    case (allocated c1 r)
    with do_remove_ids [OF assms(2) allocated(2)] job show ?thesis by (auto intro: ids_below_same)
  next
    case (reserved c1 r)
    with do_remove_ids [OF assms(2) reserved(2)] job show ?thesis by (auto intro: ids_below_same)
  qed
qed (use assms in \<open>auto simp: cmd_list_def cmd_info_def cmd_cat_def cmd_help_def cmd_quit_def Let_def split: if_splits option.splits intro: ids_below_same\<close>)


lemma loop_round_ids:
  assumes "tables_ok c" and "ids_below c" and "jobid_counter c < 9223372036854775807" and "loop_round env inp c = Ret (c', stop)"
  shows "ids_below c'"
  using assms run_cmd_ids [OF assms(1-3)] by (auto simp: loop_round_def bind_Ret_iff split: list.splits option.splits)

lemma setup_session_start:
  assumes "setup_session menv p = Ret (Inr c0)"
  shows "ids_below c0 \<and> tables_ok c0 \<and> jobid_counter c0 = 1"
proof -
  obtain cb where cb: "create_match_cb (ce_sort (me_cmd menv)) (me_icl_greater menv) (matcher_policy p) = Some cb"
    using assms by (auto simp: setup_session_def split: option.splits)
  obtain db err rc where g: "read_graphml (me_dfs menv) (grug p) (me_graphml menv (grug p)) [] resource_graph_db_new = Ret (db, err, rc)"
    using assms by (auto simp: setup_session_def cb bind_Ret_iff)
  obtain m dm d x out where i: "traverser_initialize (ce_fuel (me_cmd menv)) (new_traverser menv db (cb\<lparr>cb_data := track_types dm m\<rparr>)) = Ret ((d, x), out)"
      and c0: "c0 = new_context p d (line (''INFO: Loading a matcher: '' @ matcher_name p))"
    using assms by (auto simp: setup_session_def cb g bind_Ret_iff Let_def split: if_splits prod.splits)
  have "db_ok db"
  proof (cases "me_graphml menv (grug p)")
    case None
    then show ?thesis using g by (simp add: read_graphml_def)
  next
    case (Some rcp)
    then obtain em where "each (gen_step rcp) (me_dfs menv rcp) (emitter_copy (emitter_new resource_graph_db_new)) = Ret em"
      and "db = em_db em"
      using g by (auto simp: read_graphml_def Let_def bind_Ret_iff)
    with wp_Ret [OF wp_gen_steps [OF em_ok_new [OF db_ok_new]] this(1)] show ?thesis
      by (simp add: em_grows_def em_ok_def)
  qed
  then have "jobs_of p = {}" if "p \<in> set (vertices (db_graph db))" for p
    using that by (simp add: db_ok_def graph_ok_def fresh_pool_def)
  then have "jobs_of (pool (dt_trav d) u) = {}" if "u < length (vertices (tr_graph (dt_trav d)))" for u
    using wp_Ret [OF wp_traverser_initialize i] that schedules_keptD [of "trav_new (db_graph db)" "dt_trav d"]
    by (simp add: new_traverser_def trav_new_def pool_def)
  then show ?thesis by (simp add: c0 ids_below_def Let_def new_context_def [of p d] tables_ok_new) (simp flip: new_context_def)
qed

end
