(* ===== verification/Session_Text.thy ===== *)
theory Session_Text
  imports Session Traverser_Sound
begin

text \<open>Reading back the ids that a line of the session holds, and removing a job that the tables know.\<close>

lemma is_digit_digit: "n < 10 \<Longrightarrow> is_digit (digit n) \<and> \<not> is_space (digit n)"
proof -
  have "\<forall>n\<in>set [0..<10]. is_digit (digit n) \<and> \<not> is_space (digit n)" by code_simp
  then show "n < 10 \<Longrightarrow> is_digit (digit n) \<and> \<not> is_space (digit n)" by simp
qed

lemma show_nat_digits: "c \<in> set (show_nat n) \<Longrightarrow> is_digit c \<and> \<not> is_space c"
proof (induction n arbitrary: c rule: show_nat.induct)
  case (1 n)
  then show ?case using is_digit_digit [of n] is_digit_digit [of "n mod 10"]
    by (cases "n < 10") (auto simp: show_nat.simps [of n])
qed

lemma show_int_digits: "0 \<le> n \<Longrightarrow> c \<in> set (show_int n) \<Longrightarrow> is_digit c \<and> \<not> is_space c"
  using show_nat_digits by (simp add: show_int_def)

lemma digit_not_sign: "is_digit c \<Longrightarrow> c \<noteq> CHR ''-'' \<and> c \<noteq> CHR ''+''"
  by (auto simp: is_digit_def)

lemma atoll_show_int [simp]: "0 \<le> n \<Longrightarrow> atoll (show_int n) = n"
proof -
  assume n: "0 \<le> n"
  have s: "show_int n = show_nat (nat n)" using n by (simp add: show_int_def)
  obtain c cs where c: "show_nat (nat n) = c # cs" using show_nat_hd by blast
  then have d: "is_digit c" "\<not> is_space c" "\<forall>x\<in>set cs. is_digit x" using show_nat_digits [of _ "nat n"] by auto
  have "dropWhile (\<lambda>c. c \<in> set [CHR '' '', CHR 0x09, CHR 0x0A, CHR 0x0B, CHR 0x0C, CHR 0x0D]) (c # cs) = c # cs"
    using d(2) unfolding is_space_def by (subst dropWhile.simps) (simp del: list.set)
  moreover have "takeWhile is_digit (c # cs) = c # cs" using d by (simp add: takeWhile_eq_all_conv)
  ultimately have "atoll (c # cs) = int (read_nat (c # cs))"
    using digit_not_sign [OF d(1)] by (simp add: atoll_def Let_def)
  then show ?thesis using n by (simp add: s flip: c)
qed

lemma strtoll_show_int: "0 \<le> n \<Longrightarrow> n \<le> INT64_MAX \<Longrightarrow> strtoll (show_int n) = n"
  by (simp add: strtoll_def)

lemma tokens_from_word: "\<forall>c\<in>set w. \<not> is_space c \<Longrightarrow> tokens_from acc w = (if acc @ w = [] then [] else [acc @ w])"
  by (induction w arbitrary: acc) auto

lemma tokens_two_words:
  assumes "\<forall>c\<in>set v. \<not> is_space c" and "\<forall>c\<in>set w. \<not> is_space c" and "v \<noteq> []" and "w \<noteq> []"
  shows "tokens (v @ '' '' @ w) = [v, w]"
proof -
  have "tokens_from acc (v @ '' '' @ w) = [acc @ v, w]" for acc
    using assms(1,3)
  proof (induction v arbitrary: acc)
    case (Cons c v)
    have "is_space (CHR '' '')" by (simp add: is_space_def)
    with Cons assms(2,4) show ?case by (cases "v = []") (auto simp: tokens_from_word)
  qed simp
  then show ?thesis by (simp add: tokens_def)
qed

lemma tokens_cancel: "0 \<le> n \<Longrightarrow> tokens (''cancel '' @ show_int n) = [''cancel'', show_int n]"
proof -
  assume n: "0 \<le> n"
  have "show_int n \<noteq> []" using n show_nat_hd [of "nat n"] by (auto simp: show_int_def)
  then have "tokens (''cancel'' @ '' '' @ show_int n) = [''cancel'', show_int n]"
    using show_int_digits [OF n] by (intro tokens_two_words) (auto simp: is_space_def)
  then show ?thesis by simp
qed

section \<open>Removing\<close>

lemma do_remove_frees:
  assumes "traverser_sound (ce_fuel env) (rc_traverser c)" and "map_of (jobs c) (u64 j) = Some info"
  obtains t' where "do_remove env j c = Ret (c\<lparr>rc_traverser := (rc_traverser c)\<lparr>dt_trav := t'\<rparr>,
      jobs := map_put (u64 j) (info\<lparr>ji_state := CANCELLED\<rparr>) (jobs c)\<rparr>, 0)"
    and "\<not> root_holds j ((rc_traverser c)\<lparr>dt_trav := t'\<rparr>)"
proof -
  let ?d = "rc_traverser c"
  obtain cb roots dm root where s: "dt_match ?d = Some cb" "dom_subsystem (cb_data cb) = Some dm" "dt_has_graph ?d" "dt_roots ?d = Some roots"
      "map_of roots dm = Some root" "root < length (vertices (tr_graph (dt_trav ?d)))"
      "targets_ok (tr_graph (dt_trav ?d))" "colors_used dm (dt_trav ?d)"
      "\<forall>u<length (vertices (tr_graph (dt_trav ?d))). pool_sound (env_of ?d roots cb) (pool (dt_trav ?d) u)"
      "length (vertices (tr_graph (dt_trav ?d))) < ce_fuel env"
    by (rule traverser_soundE [OF assms(1)])
  obtain t' where t': "traverser_remove (ce_fuel env) ?d j = Ret ((?d\<lparr>dt_trav := t'\<rparr>, 0), None)"
      "rem_post (env_of ?d roots cb) j {} (tick_color_base (dt_trav ?d)) t'" "root \<notin> tagged j t'"
    by (rule traverser_remove_frees [OF s])
  have "length (vertices (tr_graph t')) = length (vertices (tr_graph (dt_trav ?d)))"
    using t'(2) by (auto simp: rem_post_def removes_def same_shape_def tick_color_base_def)
  with t'(3) s(6) have "j \<notin> jobs_of (pool t' root)" by (simp add: tagged_def)
  then have "\<not> root_holds j (?d\<lparr>dt_trav := t'\<rparr>)" using s by (simp add: root_holds_def)
  moreover have "do_remove env j c = Ret (c\<lparr>rc_traverser := ?d\<lparr>dt_trav := t'\<rparr>,
      jobs := map_put (u64 j) (info\<lparr>ji_state := CANCELLED\<rparr>) (jobs c)\<rparr>, 0)"
    using t'(1) assms(2) by (simp add: do_remove_def)
  ultimately show thesis using that by blast
qed

end
