(* ===== verification/Session_Properties.thy ===== *)
theory Session_Properties
  imports Session_Text Traverser_Properties Resource_Gen_Properties Jobspec_Properties
begin

text \<open>The properties of the commands, of the session and of its set-up, with their witnesses.\<close>

section \<open>Samples\<close>

definition sample_cmd_env :: cmd_env where
  "sample_cmd_env = \<lparr>ce_sort = insertion_sort, ce_fuel = 3, ce_rounds = 3, ce_file = (\<lambda>f. None), ce_yaml = plain_yaml_cpp,
     ce_yaml_load = (\<lambda>_. None), ce_double = show_int, ce_to_string = show_int, ce_io_what = '': iostream error'',
     ce_yaml_what = ''bad file'', ce_strerror = ''Invalid argument''\<rparr>"

text \<open>The session in which job 7 holds the node of the sample graph.\<close>

definition sample_session :: resource_context where
  "sample_session = (new_context default_params (sample_traverser\<lparr>dt_trav := sample_booked\<rparr>) [])\<lparr>
     jobid_counter := 8, jobs := [(7, \<lparr>ji_jobid = 7, ji_state = ALLOCATED, ji_scheduled_at = 0, ji_jobspec_fn = ''f'', ji_overhead = 0\<rparr>)],
     rc_allocations := [(7, 7)]\<rparr>"

text \<open>Its traverser is in order, and the node has the job.\<close>

lemma sample_session_sound: "traverser_sound 3 (sample_traverser\<lparr>dt_trav := sample_booked\<rparr>)"
    "root_holds 7 (sample_traverser\<lparr>dt_trav := sample_booked\<rparr>)"
proof -
  let ?d = "sample_traverser\<lparr>dt_trav := sample_booked\<rparr>" and ?cb = "high_first insertion_sort sample_matcher"
    and ?roots = "[(''containment'', 0 :: nat)]"
  have e: "env_of ?d ?roots ?cb = sample_env" by (simp add: env_of_def sample_traverser_def sample_env_def)
  have d: "dom_subsystem (cb_data ?cb) = Some ''containment''" by code_simp
  have tgt: "targets_ok (tr_graph sample_booked)"
    using sample_targets_ok sample_booked_facts(1,2) by (simp add: targets_ok_def)
  have col: "colors_used ''containment'' sample_booked"
    using sample_booked_facts by (simp add: colors_used_def less_Suc_eq numeral_2_eq_2)
  have ok: "\<forall>u<2. pool_sound sample_env (pool sample_booked u)"
    using sample_booked_eq(2,3) by (auto simp: less_Suc_eq numeral_2_eq_2 intro!: pool_sound_ok)
  have m: "dt_match ?d = Some ?cb" "dt_roots ?d = Some ?roots" "dt_has_graph ?d" "dt_has_graph sample_traverser" "dt_trav ?d = sample_booked"
    by (simp_all add: sample_traverser_def)
  show "traverser_sound 3 ?d"
    unfolding traverser_sound_def m option.case prod.case d using tgt col ok e sample_booked_facts(1) m(3,4) by simp
  show "root_holds 7 ?d"
    unfolding root_holds_def m option.case prod.case d using sample_booked_facts(6) by auto
qed

lemma sample_session_ok: "tables_ok sample_session"
  by (auto simp: tables_ok_def sample_session_def new_context_def in_state_def split: if_splits)



text \<open>A job that is not there.\<close>

lemma cancel_missing:
  assumes "rc_allocations c = []" and "rc_reservations c = []"
  shows "loop_round sample_cmd_env (''cancel 3'', 0) c = Ret (to_cerr (line ''ERROR: nonexistent job 3'') c, False)"
proof -
  have "tokens ''cancel 3'' = [''cancel'', ''3'']" "strtoll ''3'' = 3" "show_int 3 = ''3''" by code_simp+
  then show ?thesis by (simp add: loop_round_def find_cmd_def commands_def cmd_cancel_def assms)
qed

lemma list_nothing: "jobs c = [] \<Longrightarrow> loop_round env (''list'', 0) c = Ret (c, False)"
proof -
  have "tokens ''list'' = [''list'']" by code_simp
  then show "jobs c = [] \<Longrightarrow> loop_round env (''list'', 0) c = Ret (c, False)"
    by (simp add: loop_round_def find_cmd_def commands_def cmd_list_def to_cout_def)
qed

text \<open>A file with a request for a node with two of its cores.\<close>

definition sample_job_node :: yaml where
  "sample_job_node = YMap
     [(YScalar ''version'', YScalar ''1''),
      (YScalar ''resources'', YSeq (map yaml_of_resource (sample_request Tri_FALSE [sample_cores 2 Tri_TRUE]))),
      (YScalar ''tasks'', YSeq []),
      (YScalar ''attributes'', YMap [(YScalar ''system'', YMap [(YScalar ''duration'', YScalar ''10'')])])]"

definition sample_file_env :: cmd_env where
  "sample_file_env = sample_cmd_env\<lparr>ce_file := (\<lambda>f. if f = ''f'' then Some ''text'' else None), ce_yaml_load := (\<lambda>_. Some sample_job_node)\<rparr>"

lemma sample_match:
  "case loop_round sample_file_env (''match allocate f'', 1) (new_context default_params sample_traverser []) of
     Ret (c', stop) \<Rightarrow> \<not> stop \<and> rc_allocations c' = [(1, 1)] \<and> rc_reservations c' = [] | _ \<Rightarrow> False"
  by code_simp

section \<open>The tables\<close>

text \<open>
  C34. In every state that a session reaches, the table of jobs holds the jobs below the counter under their own
  ids, the table of allocations exactly the allocated ones, that of reservations exactly the reserved ones, and
  the allocated ones are those scheduled at time 0; cancelled jobs stay in the table of jobs only. (The
  counter must not leave the range of \<open>int64_t\<close>.)
\<close>

theorem session_tables_agree:
  assumes "session env (new_context p d out) ls c" and "int (length ls) < 9223372036854775807"
  shows "tables_ok c \<and> 1 \<le> jobid_counter c \<and> jobid_counter c \<le> 1 + int (length ls)"
proof -
  have "tables_ok c \<and> jobid_counter c \<le> jobid_counter (new_context p d out) + int (length ls)"
    by (rule session_tables [OF assms(1) tables_ok_new]) (use assms(2) in \<open>simp add: new_context_def\<close>)
  then show ?thesis by (simp add: tables_ok_def new_context_def)
qed

theorem session_tables_agree_witness:
  "\<exists>c. session sample_cmd_env (new_context default_params sample_traverser []) [(''list'', 0), (''cancel 3'', 0)] c \<and> tables_ok c \<and>
    rc_cerr c = line ''ERROR: nonexistent job 3''"
proof -
  let ?c0 = "new_context default_params sample_traverser []"
  have c0: "rc_allocations ?c0 = []" "rc_reservations ?c0 = []" "jobs ?c0 = []" by (simp_all add: new_context_def)
  note s = session_line [OF session_line [OF session_start list_nothing [OF c0(3)]] cancel_missing [OF c0(1,2)]]
  then have "session sample_cmd_env ?c0 [(''list'', 0), (''cancel 3'', 0)] (to_cerr (line ''ERROR: nonexistent job 3'') ?c0)" by simp
  with session_tables_agree [OF this] show ?thesis by (auto simp: to_cerr_def new_context_def)
qed



section \<open>The loop\<close>

text \<open>
  C36. The loop is the run of the step relation of the session: it returns a state just when the lines up
  to some quit command lead there; and when no line is a quit command and the session gets through all of
  them, it does not return: it goes on asking for lines after the end of the input.
\<close>

theorem control_loop_runs:
  "(control_loop env inputs c0 = Ret c \<longleftrightarrow> (\<exists>ls inp rest. inputs = ls @ inp # rest \<and> session env c0 ls c \<and> is_quit inp)) \<and>
   (session env c0 inputs c \<longrightarrow> control_loop env inputs c0 = Diverges)"
  using control_loop_session control_loop_end_of_input by blast

theorem control_loop_runs_witness:
  "control_loop sample_cmd_env [(''list'', 0), (''q'', 0)] (new_context default_params sample_traverser []) =
     Ret (new_context default_params sample_traverser []) \<and>
   control_loop sample_cmd_env [(''list'', 0)] (new_context default_params sample_traverser []) = Diverges"
proof -
  let ?c0 = "new_context default_params sample_traverser []"
  have s: "session sample_cmd_env ?c0 [(''list'', 0)] ?c0"
    using session_line [OF session_start list_nothing [of ?c0]] by (simp add: new_context_def)
  moreover have q: "is_quit (''q'', 0)" by code_simp
  ultimately have "\<exists>ls inp rest. [(''list'', 0), (''q'', 0)] = ls @ inp # rest \<and> session sample_cmd_env ?c0 ls ?c0 \<and> is_quit inp"
    by (intro exI [of _ "[(''list'', 0)]"] exI [of _ "(''q'', 0)"] exI [of _ "[]"]) simp
  with control_loop_runs [of sample_cmd_env _ ?c0 ?c0] s show ?thesis by blast
qed

section \<open>Cancelling\<close>

text \<open>
  C37. A cancel of a job that is allocated or reserved completes, on a traverser whose pools are in order and
  for any bound above the number of vertices: the round returns and does not end the loop, nothing is
  reported, the job is cancelled and out of both tables, every other job is as before, the root holds the job
  no more, and the tables agree again.
\<close>

theorem cancel_completes:
  assumes "tables_ok c" and "traverser_sound (ce_fuel env) (rc_traverser c)" and "jobid_counter c < 9223372036854775807"
    and "map_of (rc_allocations c) j \<noteq> None \<or> map_of (rc_reservations c) j \<noteq> None"
  shows "\<exists>c'. loop_round env (''cancel '' @ show_int j, elapse) c = Ret (c', False) \<and> tables_ok c' \<and>
    (\<exists>info. map_of (jobs c') j = Some info \<and> ji_state info = CANCELLED) \<and>
    map_of (rc_allocations c') j = None \<and> map_of (rc_reservations c') j = None \<and>
    (\<forall>i. i \<noteq> j \<longrightarrow> map_of (jobs c') i = map_of (jobs c) i) \<and> rc_cerr c' = rc_cerr c \<and>
    \<not> root_holds j (rc_traverser c')"
proof -
  have d: "dom (map_of (rc_allocations c)) = in_state c ALLOCATED" "dom (map_of (rc_reservations c)) = in_state c RESERVED"
    using assms(1) by (simp_all add: tables_ok_def)
  with assms(4) have "j \<in> in_state c ALLOCATED \<union> in_state c RESERVED" by blast
  then obtain info where info: "map_of (jobs c) j = Some info" "ji_state info = ALLOCATED \<or> ji_state info = RESERVED"
    by (auto simp: in_state_def)
  then have j: "1 \<le> j" "j < jobid_counter c" using assms(1) by (auto simp: tables_ok_def)
  with assms(3) have i: "in_i64 j" "u64 j = j" "strtoll (show_int j) = j" by (auto simp: in_i64_def intro!: strtoll_show_int)
  obtain t' where r: "do_remove env j c = Ret (c\<lparr>rc_traverser := (rc_traverser c)\<lparr>dt_trav := t'\<rparr>,
      jobs := map_put (u64 j) (info\<lparr>ji_state := CANCELLED\<rparr>) (jobs c)\<rparr>, 0)"
      "\<not> root_holds j ((rc_traverser c)\<lparr>dt_trav := t'\<rparr>)"
    by (rule do_remove_frees [OF assms(2), of j info]) (simp add: i info)
  have "j \<in> dom (map_of (rc_allocations c)) \<Longrightarrow> j \<notin> dom (map_of (rc_reservations c))"
    unfolding d by (auto simp: in_state_def)
  then have both: "\<not> (map_of (rc_allocations c) j \<noteq> None \<and> map_of (rc_reservations c) j \<noteq> None)" by auto
  let ?c1 = "c\<lparr>rc_traverser := (rc_traverser c)\<lparr>dt_trav := t'\<rparr>, jobs := map_put j (info\<lparr>ji_state := CANCELLED\<rparr>) (jobs c)\<rparr>"
  let ?c' = "if map_of (rc_allocations c) j \<noteq> None then ?c1\<lparr>rc_allocations := map_erase j (rc_allocations c)\<rparr>
    else ?c1\<lparr>rc_reservations := map_erase j (rc_reservations c)\<rparr>"
  have run: "cmd_cancel env elapse [''cancel'', show_int j] c = Ret (?c', 0)"
    using assms(4) r(1) by (auto simp: cmd_cancel_def i cancel_result_def)
  then have "loop_round env (''cancel '' @ show_int j, elapse) c = Ret (?c', False)"
    using j tokens_cancel [of j] by (simp add: loop_round_def find_cmd_def commands_def)
  moreover have "tables_ok ?c'" using cmd_cancel_tables [OF assms(1) run] by blast
  ultimately show ?thesis using assms(4) both r(2) by (intro exI [of _ ?c']) (auto split: if_splits)
qed

theorem cancel_completes_witness:
  "\<exists>c'. loop_round sample_cmd_env (''cancel 7'', 0) sample_session = Ret (c', False) \<and> rc_allocations sample_session = [(7, 7)] \<and>
    map_of (rc_allocations c') 7 = None \<and> root_holds 7 (rc_traverser sample_session) \<and> \<not> root_holds 7 (rc_traverser c')"
proof -
  have c: "jobid_counter sample_session < 9223372036854775807" "rc_allocations sample_session = [(7, 7)]"
      "rc_traverser sample_session = sample_traverser\<lparr>dt_trav := sample_booked\<rparr>"
    by (simp_all add: sample_session_def new_context_def)
  have f: "ce_fuel sample_cmd_env = 3" by (simp add: sample_cmd_env_def)
  have "show_int 7 = ''7''" by code_simp
  with cancel_completes [OF sample_session_ok _ c(1), of sample_cmd_env 7 0] sample_session_sound c f show ?thesis by auto
qed

section \<open>The choice of the subsystems\<close>

text \<open>The subsystems that each choice of subsystems names, in the order the matcher takes them, and those it cannot do without.\<close>

definition subsystem_choices :: "(string \<times> string list \<times> string list) list" where
  "subsystem_choices =
     (let all = (\<lambda>n ss. (n, ss, ss)) in
      [all ''CA'' [''containment''], all ''IBA'' [''ibnet''], all ''IBBA'' [''ibnetbw''], all ''PFS1BA'' [''pfs1bw''],
       all ''PA'' [''power''], all ''C+PFS1BA'' [''containment'', ''pfs1bw''], all ''C+IBA'' [''containment'', ''ibnet''],
       all ''C+PA'' [''containment'', ''power''], all ''IB+IBBA'' [''ibnet'', ''ibnetbw''],
       (''C+P+IBA'', [''containment'', ''power'', ''ibnet''], [''power'', ''ibnet'']),
       all ''V+PFS1BA'' [''virtual1'', ''pfs1bw''], all ''VA'' [''virtual1''],
       (''ALL'', [''containment'', ''ibnet'', ''ibnetbw'', ''pfs1bw'', ''power''], [''power''])])"

definition subsystem_choice :: "string \<Rightarrow> (string list \<times> string list) option" where
  "subsystem_choice n = map_of subsystem_choices (map upper n)"

definition in_db :: "resource_graph_db \<Rightarrow> string \<Rightarrow> bool" where
  "in_db db s \<longleftrightarrow> map_of (db_roots db) s \<noteq> None"

lemma upper_letters [simp]:
  "upper CHR ''+'' = CHR ''+''"
  "upper CHR ''1'' = CHR ''1''"
  "upper CHR ''A'' = CHR ''A''"
  "upper CHR ''B'' = CHR ''B''"
  "upper CHR ''C'' = CHR ''C''"
  "upper CHR ''F'' = CHR ''F''"
  "upper CHR ''I'' = CHR ''I''"
  "upper CHR ''L'' = CHR ''L''"
  "upper CHR ''P'' = CHR ''P''"
  "upper CHR ''S'' = CHR ''S''"
  "upper CHR ''V'' = CHR ''V''"
  by code_simp+

lemma use_results:
  "use_subsystem db n rel st = (if in_db db n then fst (add_subsystem n rel (fst st)) else fst st, if in_db db n then 0 else -1)"
  "also_use db n rel st = (if snd st = 0 then use_subsystem db n rel st else st)"
  by (simp_all add: use_subsystem_def subsystem_exist_def in_db_def also_use_def Let_def)

abbreviation subsystem_names :: "string list" where
  "subsystem_names \<equiv> [''CA'', ''IBA'', ''IBBA'', ''PFS1BA'', ''PA'', ''C+PFS1BA'', ''C+IBA'', ''C+PA'', ''IB+IBBA'', ''C+P+IBA'', ''V+PFS1BA'', ''VA'', ''ALL'']"

text \<open>
  C40. What \<open>set_subsystems_use\<close> makes of the name of a matcher, in upper or lower case: an unknown name is
  reported; otherwise the matcher uses the subsystems of the name that the graph has. A missing one is
  reported, but for the containment of C+P+IBA and for all but the power of ALL, whose absence is overlooked.
\<close>

theorem subsystems_checked:
  assumes "m_subsystems m = []" and "m_subsystems_map m = []"
  shows "case set_subsystems_use db n m of (m', rc) \<Rightarrow>
    (case subsystem_choice n of
       None \<Rightarrow> rc = -1 \<and> m_subsystems m' = []
     | Some (ss, needed) \<Rightarrow>
         (rc = 0 \<longleftrightarrow> set needed \<subseteq> Collect (in_db db)) \<and> (rc \<noteq> 0 \<longrightarrow> rc = -1) \<and>
         (rc = 0 \<longrightarrow> m_subsystems m' =
           (if map upper n = ''ALL'' then takeWhile (in_db db) (butlast ss) @ [last ss] else filter (in_db db) ss)))"
proof -
  define k where "k = map upper n"
  note defs = set_subsystems_use_def subsystem_choice_def iequals_def Let_def k_def [symmetric]
  have k: "map upper n = k" by (simp add: k_def)
  show ?thesis
  proof (cases "k \<in> set subsystem_names")
    case False
    then show ?thesis unfolding defs by (simp add: subsystem_choices_def assms)
  next
    case True
    then have "k = ''CA'' \<or> k = ''IBA'' \<or> k = ''IBBA'' \<or> k = ''PFS1BA'' \<or> k = ''PA'' \<or> k = ''C+PFS1BA'' \<or> k = ''C+IBA'' \<or> k = ''C+PA'' \<or> k = ''IB+IBBA'' \<or> k = ''C+P+IBA'' \<or> k = ''V+PFS1BA'' \<or> k = ''VA'' \<or> k = ''ALL''" by simp
    then show ?thesis
      by (elim disjE; simp only: defs; simp add: subsystem_choices_def use_results add_subsystem_def assms)
  qed
qed

theorem subsystems_checked_witness:
  "snd (set_subsystems_use (resource_graph_db_new\<lparr>db_roots := [(''ibnet'', 0), (''power'', 0)]\<rparr>) ''c+p+iba'' new_matcher_data) = 0 \<and>
   m_subsystems (fst (set_subsystems_use (resource_graph_db_new\<lparr>db_roots := [(''ibnet'', 0), (''power'', 0)]\<rparr>) ''c+p+iba'' new_matcher_data)) =
     [''power'', ''ibnet'']"
proof -
  let ?db = "resource_graph_db_new\<lparr>db_roots := [(''ibnet'', 0), (''power'', 0)]\<rparr>"
  have "subsystem_choice ''c+p+iba'' = Some ([''containment'', ''power'', ''ibnet''], [''power'', ''ibnet''])" "map upper ''c+p+iba'' \<noteq> ''ALL''"
    by code_simp+
  with subsystems_checked [of new_matcher_data ?db "''c+p+iba''"] show ?thesis
    by (auto simp: new_matcher_data_def in_db_def split: prod.splits)
qed

section \<open>Allocating\<close>

text \<open>
  C38. A \<open>match allocate\<close>, whatever its file and result, reserves nothing: the table of reservations and those of
  every pool are as before, and a job that is new in the table of jobs is allocated now.
\<close>

theorem match_allocate_reserves_nothing:
  assumes "tokens l = [name, ''allocate'', fn]" and "find_cmd name = Some Cmd_match" and "loop_round env (l, elapse) c = Ret (c', stop)"
  shows "rc_reservations c' = rc_reservations c \<and>
    (\<forall>u<length (vertices (tr_graph (dt_trav (rc_traverser c)))).
       reservations (p_schedule (pool (dt_trav (rc_traverser c')) u)) = reservations (p_schedule (pool (dt_trav (rc_traverser c)) u))) \<and>
    (\<forall>j. map_of (jobs c') j = map_of (jobs c) j \<or>
       (\<exists>info. map_of (jobs c') j = Some info \<and> ji_state info = ALLOCATED \<and> ji_scheduled_at info = 0))"
proof -
  have m: "cmd_match env elapse [name, ''allocate'', fn] c = Ret (c', 0)" if "rc_traverser c' \<noteq> rc_traverser c \<or> \<not> same_tables c c'"
    using assms by (auto simp: loop_round_def bind_Ret_iff cmd_match_def match_job_def Let_def split: option.splits sum.splits)
  show ?thesis
  proof (cases "rc_traverser c' = rc_traverser c \<and> same_tables c c'")
    case True
    then show ?thesis by (simp add: same_tables_def)
  next
    case False
    with m obtain job where "match_job env elapse MATCH_ALLOCATE fn job c = Ret (c', 0)"
      by (auto simp: cmd_match_def Let_def split: option.splits sum.splits)
    then obtain d js at ss ok e where r: "traverser_run (ce_sort env) (ce_fuel env) (ce_rounds env) (rc_traverser c) job MATCH_ALLOCATE (i64 (jobid_counter c)) 0 [] = Ret ((d, js, at, ss), ok, e)"
      and c': "c' = print_schedule_info env (u64 (i64 (jobid_counter c))) fn (ok = 0) at elapse (to_out ss (c\<lparr>rc_traverser := d\<rparr>))"
      by (auto simp: match_job_def Let_def bind_Ret_iff)
    have w: "allocates_only (dt_trav (rc_traverser c)) (dt_trav d)" "at = 0" using wp_Ret [OF wp_run r] by simp_all
    have "rc_traverser c' = d" by (simp add: c')
    moreover have "same_tables c (to_out s (c\<lparr>rc_traverser := d\<rparr>))" for s by simp
    then have t: "jobs (to_out s (c\<lparr>rc_traverser := d\<rparr>)) = jobs c" "rc_reservations (to_out s (c\<lparr>rc_traverser := d\<rparr>)) = rc_reservations c" for s
      by (simp_all only: same_tables_def)
    have "rc_reservations c' = rc_reservations c"
      by (simp add: c' print_schedule_info_def Let_def w(2) t to_out_def to_cout_def)
    ultimately show ?thesis using w
      by (auto simp: c' print_schedule_info_def Let_def t to_out_def to_cout_def dest: allocates_onlyD)
  qed
qed

theorem match_allocate_reserves_nothing_witness:
  "\<exists>c'. loop_round sample_file_env (''match allocate f'', 1) (new_context default_params sample_traverser []) = Ret (c', False) \<and>
    rc_allocations c' = [(1, 1)] \<and> rc_reservations c' = [] \<and>
    reservations (p_schedule (pool (dt_trav (rc_traverser c')) 1)) = []"
proof -
  let ?c = "new_context default_params sample_traverser []"
  obtain c' where r: "loop_round sample_file_env (''match allocate f'', 1) ?c = Ret (c', False)" "rc_allocations c' = [(1, 1)]"
    using sample_match by (auto split: outcome.splits)
  have l: "tokens ''match allocate f'' = [''match'', ''allocate'', ''f'']" "find_cmd ''match'' = Some Cmd_match" by code_simp+
  have c: "rc_traverser ?c = sample_traverser" "rc_reservations ?c = []" "dt_trav sample_traverser = sample_trav" "length (vertices (tr_graph sample_trav)) = 2"
    by (simp_all add: new_context_def sample_traverser_def)
  have n: "reservations (p_schedule (pool sample_trav 1)) = []"
    unfolding pool_sample_trav by (simp add: sample_pool_def schedule_new_def)
  from match_allocate_reserves_nothing [OF l r(1)] r n show ?thesis unfolding c by auto
qed

end
