(* ===== verification/RBTree_Walk.thy ===== *)
theory RBTree_Walk
  imports RBTree_Laws
begin

text \<open>
  The rest of \<open>rbtree.c\<close>, which the planner does not call: both ends of the order, the predecessor, the walk that
  gives children before their parent, and the replacement of a node in place.
\<close>

section \<open>Operations\<close>

definition rb_first :: "('k, 'g) rbt \<Rightarrow> 'k option" where
  "rb_first t = rb_key (fst (leftmost t []))"

fun rightmost :: "('k, 'g) rbt \<Rightarrow> 'k option" where
  "rightmost RbNil = None"
| "rightmost (RbNode c l k g r) = (if r = RbNil then Some k else rightmost r)"

definition rb_last :: "('k, 'g) rbt \<Rightarrow> 'k option" where
  "rb_last t = rightmost t"

fun rb_climb_left :: "('k, 'g) crumb list \<Rightarrow> 'k option" where
  "rb_climb_left [] = None"
| "rb_climb_left (InRight c l k g # ps) = Some k"
| "rb_climb_left (InLeft c k g r # ps) = rb_climb_left ps"

definition rb_prev :: "'k \<Rightarrow> ('k, 'g) rbt \<Rightarrow> 'k option" where
  "rb_prev k t =
     (case rb_locate k t [] of
        Some (RbNode c l x g r, ps) \<Rightarrow> if l \<noteq> RbNil then rightmost l else rb_climb_left ps
      | _ \<Rightarrow> None)"

text \<open>The object \<open>new\<close> takes the place and the colour of \<open>victim\<close>; its augmented field is its own.\<close>

definition rb_replace_node :: "'k \<Rightarrow> 'k \<Rightarrow> 'g \<Rightarrow> ('k, 'g) rbt \<Rightarrow> ('k, 'g) rbt" where
  "rb_replace_node victim new g t =
     (case rb_locate victim t [] of
        Some (RbNode c l x h r, ps) \<Rightarrow> zip_up (RbNode c l new g r) ps
      | _ \<Rightarrow> t)"

fun rb_left_deepest_node :: "('k, 'g) rbt \<Rightarrow> 'k option" where
  "rb_left_deepest_node RbNil = None"
| "rb_left_deepest_node (RbNode c l k g r) =
     (if l \<noteq> RbNil then rb_left_deepest_node l else if r \<noteq> RbNil then rb_left_deepest_node r else Some k)"

definition rb_next_postorder :: "'k \<Rightarrow> ('k, 'g) rbt \<Rightarrow> 'k option" where
  "rb_next_postorder k t =
     (case rb_locate k t [] of
        Some (n, InLeft c p g r # ps) \<Rightarrow> if r \<noteq> RbNil then rb_left_deepest_node r else Some p
      | Some (n, InRight c l p g # ps) \<Rightarrow> Some p
      | _ \<Rightarrow> None)"

definition rb_first_postorder :: "('k, 'g) rbt \<Rightarrow> 'k option" where
  "rb_first_postorder t = rb_left_deepest_node t"

section \<open>The order\<close>

lemma rb_first_inorder: "rb_first t = (case inorder t of [] \<Rightarrow> None | k # _ \<Rightarrow> Some k)"
proof (cases "t = RbNil")
  case False
  then obtain lp c k g r where "leftmost t [] = (RbNode c RbNil k g r, lp)" "inorder t = k # inorder r @ right_of lp"
    by (rule leftmost_Nil_cases)
  then show ?thesis by (simp add: rb_first_def)
qed (simp add: rb_first_def)

lemma rightmost_inorder: "rightmost t = (case rev (inorder t) of [] \<Rightarrow> None | k # _ \<Rightarrow> Some k)"
proof (induction t)
  case (RbNode c l k g r)
  show ?case
  proof (cases "r = RbNil")
    case False
    then have "rev (inorder r) \<noteq> []" by (cases r) auto
    then show ?thesis using RbNode.IH(2) False by (cases "rev (inorder r)") simp_all
  qed simp
qed simp

lemma rb_last_inorder: "rb_last t = (case rev (inorder t) of [] \<Rightarrow> None | k # _ \<Rightarrow> Some k)"
  by (simp add: rb_last_def rightmost_inorder)

lemma rb_climb_left_of: "rb_climb_left ps = (case rev (left_of ps) of [] \<Rightarrow> None | k # _ \<Rightarrow> Some k)"
  by (induction ps rule: rb_climb_left.induct) auto

lemma next_in_absent: "k \<notin> set xs \<Longrightarrow> next_in k xs = None"
  by (induction xs) auto

lemma rb_prev_next_in:
  assumes "distinct (inorder t)"
  shows "rb_prev k t = next_in k (rev (inorder t))"
proof (cases "k \<in> set (inorder t)")
  case True
  then obtain c l g r ps where loc: "rb_locate k t [] = Some (RbNode c l k g r, ps)"
    and z: "zip_up (RbNode c l k g r) ps = t"
    by (rule rb_locate_cases)
  have "inorder t = (left_of ps @ inorder l) @ k # (inorder r @ right_of ps)"
    using arg_cong [OF z, of inorder] by simp
  then have i: "rev (inorder t) = rev (inorder r @ right_of ps) @ k # (rev (inorder l) @ rev (left_of ps))" by simp
  have "distinct (rev (inorder t))" using assms by (simp only: distinct_rev)
  then have "k \<notin> set (rev (inorder r @ right_of ps))" unfolding i by auto
  then have n: "next_in k (rev (inorder t)) = (case rev (inorder l) @ rev (left_of ps) of [] \<Rightarrow> None | z # _ \<Rightarrow> Some z)"
    unfolding i by (rule next_in_split)
  show ?thesis
  proof (cases "l = RbNil")
    case True
    with n loc show ?thesis by (simp add: rb_prev_def rb_climb_left_of)
  next
    case False
    then have "rev (inorder l) \<noteq> []" by (cases l) auto
    with False n loc show ?thesis by (cases "rev (inorder l)") (simp_all add: rb_prev_def rightmost_inorder)
  qed
next
  case False
  then show ?thesis by (simp add: rb_prev_def next_in_absent)
qed

lemma rb_replace_node_inorder:
  assumes "distinct (inorder t)"
  shows "inorder (rb_replace_node victim new g t) = map (\<lambda>x. if x = victim then new else x) (inorder t)"
proof (cases "victim \<in> set (inorder t)")
  case True
  then obtain c l h r ps where loc: "rb_locate victim t [] = Some (RbNode c l victim h r, ps)"
    and z: "zip_up (RbNode c l victim h r) ps = t"
    by (rule rb_locate_cases)
  have i: "inorder t = (left_of ps @ inorder l) @ victim # (inorder r @ right_of ps)"
    using arg_cong [OF z, of inorder] by simp
  have same: "map (\<lambda>x. if x = victim then new else x) xs = xs" if "victim \<notin> set xs" for xs
    using that by (induction xs) auto
  have "victim \<notin> set (left_of ps @ inorder l)" "victim \<notin> set (inorder r @ right_of ps)"
    using assms unfolding i by auto
  then show ?thesis unfolding i using loc same by (simp add: rb_replace_node_def)
next
  case False
  then have "map (\<lambda>x. if x = victim then new else x) (inorder t) = inorder t" by (induction t) auto
  with False show ?thesis by (simp add: rb_replace_node_def)
qed

section \<open>The postorder walk\<close>

fun postorder :: "('k, 'g) rbt \<Rightarrow> 'k list" where
  "postorder RbNil = []"
| "postorder (RbNode c l k g r) = postorder l @ postorder r @ [k]"

fun post_before :: "('k, 'g) crumb list \<Rightarrow> 'k list" where
  "post_before [] = []"
| "post_before (InLeft c k g r # ps) = post_before ps"
| "post_before (InRight c l k g # ps) = post_before ps @ postorder l"

fun post_after :: "('k, 'g) crumb list \<Rightarrow> 'k list" where
  "post_after [] = []"
| "post_after (InLeft c k g r # ps) = postorder r @ k # post_after ps"
| "post_after (InRight c l k g # ps) = k # post_after ps"

lemma postorder_zip_up: "postorder (zip_up t ps) = post_before ps @ postorder t @ post_after ps"
proof (induction ps arbitrary: t)
  case (Cons x ps)
  then show ?case by (cases x) auto
qed simp

lemma set_postorder [simp]: "set (postorder t) = set (inorder t)"
  by (induction t) auto

lemma distinct_postorder [simp]: "distinct (postorder t) \<longleftrightarrow> distinct (inorder t)"
  by (induction t) auto

lemma rb_left_deepest_postorder: "rb_left_deepest_node t = (case postorder t of [] \<Rightarrow> None | k # _ \<Rightarrow> Some k)"
proof (induction t)
  case (RbNode c l k g r)
  have "postorder s \<noteq> []" if "s \<noteq> RbNil" for s :: "('a, 'b) rbt" using that by (cases s) auto
  then show ?case using RbNode.IH by (cases "l = RbNil"; cases "r = RbNil") (auto split: list.splits)
qed simp

lemma rb_first_postorder_first: "rb_first_postorder t = (case postorder t of [] \<Rightarrow> None | k # _ \<Rightarrow> Some k)"
  by (simp add: rb_first_postorder_def rb_left_deepest_postorder)

lemma rb_next_postorder_next_in:
  assumes "distinct (inorder t)"
  shows "rb_next_postorder k t = next_in k (postorder t)"
proof (cases "k \<in> set (inorder t)")
  case True
  then obtain c l g r ps where loc: "rb_locate k t [] = Some (RbNode c l k g r, ps)"
    and z: "zip_up (RbNode c l k g r) ps = t"
    by (rule rb_locate_cases)
  have i: "postorder t = (post_before ps @ postorder l @ postorder r) @ k # post_after ps"
    using arg_cong [OF z, of postorder] by (simp add: postorder_zip_up)
  have "distinct (postorder t)" using assms by (simp only: distinct_postorder)
  then have "k \<notin> set (post_before ps @ postorder l @ postorder r)" unfolding i by auto
  then have n: "next_in k (postorder t) = (case post_after ps of [] \<Rightarrow> None | z # _ \<Rightarrow> Some z)"
    unfolding i by (rule next_in_split)
  show ?thesis
  proof (cases ps)
    case (Cons x qs)
    have "postorder s \<noteq> []" if "s \<noteq> RbNil" for s :: "('a, 'b) rbt" using that by (cases s) auto
    then show ?thesis unfolding n using loc Cons
      by (cases x) (auto simp: rb_next_postorder_def rb_left_deepest_postorder split: list.splits)
  qed (use n loc in \<open>simp add: rb_next_postorder_def\<close>)
next
  case False
  then show ?thesis by (simp add: rb_next_postorder_def next_in_absent)
qed

end
