(* ===== verification/Grug2dot.thy ===== *)
theory Grug2dot
  imports Resource_Gen Jobspec
begin

text \<open>
  The converter of recipes to graphviz: \<open>grug2dot.cpp\<close> with the reader and the writer of \<open>resource_gen_spec.cpp\<close>.

  What boost reads and writes is a parameter, an exception of its graph functions an \<open>Inl\<close> with its text. A file
  that cannot be opened for writing is not noticed.
\<close>

record grug_env =
  gg_graphml :: "string \<Rightarrow> string + recipe"
  gg_layout :: "(nat \<times> string) list \<Rightarrow> (nat \<times> nat \<times> string) list \<Rightarrow> string + string"
  gg_open :: "string \<Rightarrow> bool"
  gg_stem :: "string \<Rightarrow> string"

section \<open>Reading and writing a recipe\<close>

definition gg_label :: "string list \<Rightarrow> string" where
  "gg_label ns = ''[label='' @ [CHR 0x22] @ join '':'' ns @ [CHR 0x22] @ '']''"

text \<open>The recipe, what was written to standard error, and the return code.\<close>

definition spec_read_graphml :: "grug_env \<Rightarrow> string \<Rightarrow> recipe option \<times> string \<times> int" where
  "spec_read_graphml env ifn =
     (case gg_graphml env ifn of Inl what \<Rightarrow> (None, line what, -1) | Inr g \<Rightarrow> (Some g, [], 0))"

definition spec_vertex_label :: "bool \<Rightarrow> pool_gen \<Rightarrow> string" where
  "spec_vertex_label simple p =
     (if simple then gg_label [g_basename p] else gg_label [g_subsystem p, g_basename p, show_int (g_size p)])"

definition spec_edge_label :: "bool \<Rightarrow> relation_gen \<Rightarrow> string" where
  "spec_edge_label simple e =
     (if simple then gg_label [relation e] else gg_label [relation e, gen_method e, show_int (multi_scale e)])"

text \<open>The file that is written, what was written to standard error, and the return code.\<close>

definition spec_write_graphviz :: "grug_env \<Rightarrow> recipe \<Rightarrow> string \<Rightarrow> bool \<Rightarrow> (string \<times> string) option \<times> string \<times> int" where
  "spec_write_graphviz env g ofn simple =
     (case gg_layout env (map (\<lambda>v. (v, spec_vertex_label simple (g_pools g ! v))) [0..<length (g_pools g)])
            (map (\<lambda>e. (g_src e, g_tgt e, spec_edge_label simple e)) (g_relations g)) of
        Inl what \<Rightarrow> (None, line what, -1)
      | Inr txt \<Rightarrow> (if gg_open env ofn then Some (ofn, txt) else None, [], 0))"

section \<open>The program\<close>

text \<open>\<open>-f\<close> is among the short options though nothing handles it, and \<open>-m\<close> is not: \<open>--more\<close> alone gives \<open>m\<close>.\<close>

fun grug_options :: "char list \<Rightarrow> bool \<Rightarrow> int + bool" where
  "grug_options [] simple = Inr simple"
| "grug_options (ch # opts) simple =
     (if ch = CHR ''h'' then Inl 0 else if ch = CHR ''m'' then grug_options opts False else Inl 1)"

definition grug2dot_main :: "grug_env \<Rightarrow> char list \<Rightarrow> string list \<Rightarrow> (string \<times> string) option \<times> string \<times> int" where
  "grug2dot_main env opts args =
     (case grug_options opts True of
        Inl code \<Rightarrow> (None, [], code)
      | Inr simple \<Rightarrow>
          (case args of
             [fn] \<Rightarrow>
               let base = gg_stem env fn in
               (case spec_read_graphml env fn of
                  (None, err, rc) \<Rightarrow> (None, err @ line (''Error in reading '' @ fn), -1)
                | (Some g, err, rc) \<Rightarrow>
                    (case spec_write_graphviz env g (base @ ''.dot'') simple of
                       (out, err', rc) \<Rightarrow>
                         if rc \<noteq> 0 then (out, err @ err' @ line (''Error in writing '' @ base @ ''.dot''), -1)
                         else (out, err @ err', rc)))
           | _ \<Rightarrow> (None, [], 1)))"

section \<open>What it reports\<close>

text \<open>The exit code is 0 just for a help option before any unknown one, and for one recipe that is read and laid out.\<close>

lemma grug_options_help: "grug_options opts s = Inl 0 \<longleftrightarrow> (\<exists>ms rest. opts = ms @ CHR ''h'' # rest \<and> set ms \<subseteq> {CHR ''m''})"
proof (induction opts arbitrary: s)
  case (Cons ch opts)
  show ?case
  proof (cases "ch = CHR ''h''")
    case True
    then show ?thesis by (auto intro: exI [of _ "[]"])
  next
    case False
    have "(\<exists>ms rest. ch # opts = ms @ CHR ''h'' # rest \<and> set ms \<subseteq> {CHR ''m''}) \<longleftrightarrow>
        ch = CHR ''m'' \<and> (\<exists>ms rest. opts = ms @ CHR ''h'' # rest \<and> set ms \<subseteq> {CHR ''m''})" (is "?l \<longleftrightarrow> ?r")
    proof
      assume ?l
      then obtain ms rest where ms: "ch # opts = ms @ CHR ''h'' # rest" "set ms \<subseteq> {CHR ''m''}" by blast
      with False show ?r by (cases ms) auto
    next
      assume ?r
      then obtain ms rest where "ch # opts = (CHR ''m'' # ms) @ CHR ''h'' # rest" "set (CHR ''m'' # ms) \<subseteq> {CHR ''m''}" by auto
      then show ?l by blast
    qed
    with Cons.IH False show ?thesis by auto
  qed
qed simp

lemma grug_options_more: "grug_options opts s = Inr b \<longleftrightarrow> set opts \<subseteq> {CHR ''m''} \<and> b = (s \<and> opts = [])"
  by (induction opts arbitrary: s) auto

lemma grug2dot_exit_code:
  "snd (snd (grug2dot_main env opts args)) = 0 \<longleftrightarrow>
     (\<exists>ms rest. opts = ms @ CHR ''h'' # rest \<and> set ms \<subseteq> {CHR ''m''}) \<or>
     set opts \<subseteq> {CHR ''m''} \<and> (\<exists>fn g. args = [fn] \<and> gg_graphml env fn = Inr g \<and>
       (\<exists>txt. gg_layout env (map (\<lambda>v. (v, spec_vertex_label (opts = []) (g_pools g ! v))) [0..<length (g_pools g)])
            (map (\<lambda>e. (g_src e, g_tgt e, spec_edge_label (opts = []) e)) (g_relations g)) = Inr txt))"
proof (cases "grug_options opts True")
  case (Inl code)
  then have "\<not> set opts \<subseteq> {CHR ''m''}" using grug_options_more [of opts True] by auto
  then show ?thesis using Inl grug_options_help [of opts True] by (auto simp: grug2dot_main_def)
next
  case (Inr b)
  then have b: "set opts \<subseteq> {CHR ''m''}" "b = (opts = [])" "\<nexists>ms rest. opts = ms @ CHR ''h'' # rest \<and> set ms \<subseteq> {CHR ''m''}"
    using grug_options_more [of opts True] grug_options_help [of opts True] by auto
  show ?thesis
    unfolding grug2dot_main_def Inr
    using b by (auto simp: spec_read_graphml_def spec_write_graphviz_def Let_def split: list.splits sum.splits prod.splits if_splits)
qed

end
