(* ===== verification/Tap.thy ===== *)
theory Tap
  imports Command "HOL-Library.Signed_Division"
begin

unbundle bit_operations_syntax

text \<open>
  The test library of the planner, \<open>planner/tap.c\<close>: its counters, what it prints, and the calls that end the
  process. A format with its arguments is the text that \<open>vsnprintf\<close> makes of them (\<open>None\<close> is a null format).
  The calls that fork and the shared memory behind them are left out but for the flag they share.
\<close>

section \<open>Decimal texts for evaluation\<close>

text \<open>What \<open>show_int\<close> writes, without unary numbers.\<close>

fun digit_of :: "int \<Rightarrow> char" where
  "digit_of d = (if d = 0 then CHR ''0'' else if d = 1 then CHR ''1'' else if d = 2 then CHR ''2'' else if d = 3 then CHR ''3''
     else if d = 4 then CHR ''4'' else if d = 5 then CHR ''5'' else if d = 6 then CHR ''6'' else if d = 7 then CHR ''7''
     else if d = 8 then CHR ''8'' else CHR ''9'')"

function show_pos :: "int \<Rightarrow> string \<Rightarrow> string" where
  "show_pos n acc = (if n < 10 then digit_of n # acc else show_pos (n div 10) (digit_of (n mod 10) # acc))"
  by pat_completeness auto
termination by (relation "measure (\<lambda>(n, acc). nat n)") auto

declare show_pos.simps [simp del]

lemma digit_nat: "digit n = digit_of (int n)" if "n < 10"
proof -
  from that have "n = 0 \<or> n = 1 \<or> n = 2 \<or> n = 3 \<or> n = 4 \<or> n = 5 \<or> n = 6 \<or> n = 7 \<or> n = 8 \<or> n = 9" by presburger
  then show ?thesis by (elim disjE; simp only:; code_simp)
qed

lemma show_pos: "show_pos (int n) acc = show_nat n @ acc"
proof (induction n arbitrary: acc rule: show_nat.induct)
  case (1 n)
  show ?case
  proof (cases "n < 10")
    case True
    then show ?thesis by (simp add: show_pos.simps [of "int n"] show_nat.simps [of n] digit_nat del: digit_of.simps)
  next
    case False
    have "show_pos (int n) acc = show_pos (int (n div 10)) (digit_of (int (n mod 10)) # acc)"
      using False by (simp add: show_pos.simps [of "int n"] zdiv_int zmod_int del: digit_of.simps)
    also have "\<dots> = show_nat n @ acc"
      using False 1 digit_nat [of "n mod 10"] by (simp add: show_nat.simps [of n] del: digit_of.simps)
    finally show ?thesis .
  qed
qed

lemma show_int_code [code]:
  "show_int n = (if n < 0 then CHR ''-'' # show_pos (- n) [] else show_pos n [])"
  using show_pos [of "nat n" "[]"] show_pos [of "nat (- n)" "[]"] by (auto simp: show_int_def)

section \<open>The state of the library\<close>

abbreviation NO_PLAN :: int where
  "NO_PLAN \<equiv> -1"

abbreviation SKIP_ALL :: int where
  "SKIP_ALL \<equiv> -2"

record tap =
  expected_tests :: int
  failed_tests :: int
  current_test :: int
  todo_mesg :: "string option"
  test_died :: int
  tap_out :: string
  tap_err :: string

definition tap_start :: tap where
  "tap_start = \<lparr>expected_tests = NO_PLAN, failed_tests = 0, current_test = 0, todo_mesg = None, test_died = 0,
     tap_out = [], tap_err = []\<rparr>"

definition out :: "string \<Rightarrow> tap \<Rightarrow> tap" where
  "out s t = t\<lparr>tap_out := tap_out t @ s\<rparr>"

text \<open>A call that may end the process gives the state and the exit status, if it ends it.\<close>

type_synonym may_exit = "tap \<times> int option"

definition vstrdupf :: "string option \<Rightarrow> string" where
  "vstrdupf fmt = (case fmt of None \<Rightarrow> [] | Some s \<Rightarrow> s)"

section \<open>Diagnostics\<close>

text \<open>Every line of the message is printed on its own; a newline at the end starts no line.\<close>

fun diag_lines :: "string \<Rightarrow> string \<Rightarrow> string" where
  "diag_lines acc [] = (if acc = [] then [] else ''# '' @ acc @ [NL])"
| "diag_lines acc (c # cs) = (if c = NL then ''# '' @ acc @ [NL] @ diag_lines [] cs else diag_lines (acc @ [c]) cs)"

definition diag :: "string option \<Rightarrow> tap \<Rightarrow> tap \<times> int" where
  "diag fmt t = (case fmt of None \<Rightarrow> (t, 0) | Some mesg \<Rightarrow> (out (diag_lines [] mesg) t, 0))"

definition diags :: "string list \<Rightarrow> tap \<Rightarrow> tap" where
  "diags ms t = fold (\<lambda>m t. fst (diag (Some m) t)) ms t"

section \<open>The plan\<close>

definition tap_plan :: "int \<Rightarrow> string option \<Rightarrow> tap \<Rightarrow> may_exit" where
  "tap_plan tests fmt t =
     (let t = t\<lparr>expected_tests := tests\<rparr> in
      if tests = SKIP_ALL
      then (diags [''SKIP '' @ vstrdupf fmt @ [NL]] (out ''1..0 '' t), Some 0)
      else (if tests \<noteq> NO_PLAN then out (line (''1..'' @ show_int tests)) t else t, None))"

section \<open>Test points\<close>

definition vok_at_loc :: "string \<Rightarrow> int \<Rightarrow> int \<Rightarrow> string option \<Rightarrow> tap \<Rightarrow> tap \<times> int" where
  "vok_at_loc file ln test fmt t =
     (let name = vstrdupf fmt;
          t = t\<lparr>current_test := i32 (current_test t + 1)\<rparr>;
          t = out ((if test = 0 then ''not '' else []) @ ''ok '' @ show_int (current_test t) @
                (if name \<noteq> [] then '' - '' @ name else []) @
                (case todo_mesg t of None \<Rightarrow> [] | Some m \<Rightarrow> '' # TODO'' @ (if m \<noteq> [] then '' '' @ m else [])) @ [NL]) t
      in (if test = 0
          then (out (''#   Failed '' @ (if todo_mesg t \<noteq> None then ''(TODO) '' else []) @ ''test '' @
                 (if name \<noteq> [] then [CHR 0x27] @ name @ [CHR 0x27, NL] @ ''#   '' else []) @
                 ''at '' @ file @ '' line '' @ show_int ln @ line ''.'') t)
               \<lparr>failed_tests := if todo_mesg t = None then i32 (failed_tests t + 1) else failed_tests t\<rparr>
          else t, test))"

definition ok_at_loc :: "string \<Rightarrow> int \<Rightarrow> int \<Rightarrow> string option \<Rightarrow> tap \<Rightarrow> tap \<times> int" where
  "ok_at_loc = vok_at_loc"

text \<open>Null pointers are equal to each other and to nothing else.\<close>

definition mystrcmp :: "string option \<Rightarrow> string option \<Rightarrow> bool" where
  "mystrcmp a b \<longleftrightarrow> a \<noteq> b"

definition c_str :: "string option \<Rightarrow> string" where
  "c_str s = (case s of None \<Rightarrow> ''(null)'' | Some s \<Rightarrow> s)"

definition quote :: "string \<Rightarrow> string" where
  "quote s = [CHR 0x27] @ s @ [CHR 0x27]"

definition is_at_loc :: "string \<Rightarrow> int \<Rightarrow> string option \<Rightarrow> string option \<Rightarrow> string option \<Rightarrow> tap \<Rightarrow> tap \<times> int" where
  "is_at_loc file ln got wanted fmt t =
     (let test = of_bool (\<not> mystrcmp got wanted);
          t = fst (vok_at_loc file ln test fmt t)
      in (if test = 0 then diags [''         got: '' @ quote (c_str got), ''    expected: '' @ quote (c_str wanted)] t else t, test))"

definition isnt_at_loc :: "string \<Rightarrow> int \<Rightarrow> string option \<Rightarrow> string option \<Rightarrow> string option \<Rightarrow> tap \<Rightarrow> tap \<times> int" where
  "isnt_at_loc file ln got wanted fmt t =
     (let test = of_bool (mystrcmp got wanted);
          t = fst (vok_at_loc file ln test fmt t)
      in (if test = 0 then diags [''         got: '' @ quote (c_str got), ''    expected: anything else''] t else t, test))"

text \<open>
  Shifts by a negative number or by the width, and divisions by zero, are undefined; an operator that is not known
  is reported and the test fails.
\<close>

definition shift_ok :: "int \<Rightarrow> bool" where
  "shift_ok b \<longleftrightarrow> 0 \<le> b \<and> b < 32"

definition cmp_op :: "int \<Rightarrow> string \<Rightarrow> int \<Rightarrow> tap \<Rightarrow> (tap \<times> int) outcome" where
  "cmp_op a op b t =
     (if op = ''||'' then Ret (t, of_bool (a \<noteq> 0 \<or> b \<noteq> 0))
      else if op = ''&&'' then Ret (t, of_bool (a \<noteq> 0 \<and> b \<noteq> 0))
      else if op = ''|'' then Ret (t, a OR b)
      else if op = ''^'' then Ret (t, a XOR b)
      else if op = ''&'' then Ret (t, a AND b)
      else if op = ''=='' then Ret (t, of_bool (a = b))
      else if op = ''!='' then Ret (t, of_bool (a \<noteq> b))
      else if op = ''<'' then Ret (t, of_bool (a < b))
      else if op = ''>'' then Ret (t, of_bool (a > b))
      else if op = ''<='' then Ret (t, of_bool (a \<le> b))
      else if op = ''>='' then Ret (t, of_bool (a \<ge> b))
      else if op = ''<<'' then (if shift_ok b then Ret (t, i32 (a * 2 ^ nat b)) else Undefined)
      else if op = ''>>'' then (if shift_ok b then Ret (t, a div 2 ^ nat b) else Undefined)
      else if op = ''+'' then Ret (t, i32 (a + b))
      else if op = ''-'' then Ret (t, i32 (a - b))
      else if op = ''*'' then Ret (t, i32 (a * b))
      else if op = ''/'' then (if b = 0 then Undefined else Ret (t, i32 (a sdiv b)))
      else if op = ''%'' then (if b = 0 then Undefined else Ret (t, a smod b))
      else Ret (diag (Some (''unrecognized operator '' @ quote op)) t))"

definition cmp_ok_at_loc :: "string \<Rightarrow> int \<Rightarrow> int \<Rightarrow> string \<Rightarrow> int \<Rightarrow> string option \<Rightarrow> tap \<Rightarrow> (tap \<times> int) outcome" where
  "cmp_ok_at_loc file ln a op b fmt t =
     bind (cmp_op a op b t) (\<lambda>(t, test).
     let t = fst (vok_at_loc file ln test fmt t)
     in Ret (if test = 0 then diags [''    '' @ show_int a, ''        '' @ op, ''    '' @ show_int b] t else t, test))"

text \<open>The first offset at which two blocks of memory differ (1), or a null pointer among them (2).\<close>

fun first_diff :: "'a list \<Rightarrow> 'a list \<Rightarrow> nat \<Rightarrow> nat \<Rightarrow> nat option" where
  "first_diff (x # xs) (y # ys) (Suc n) i = (if x \<noteq> y then Some i else first_diff xs ys n (Suc i))"
| "first_diff _ _ _ i = None"

definition find_mem_diff :: "char list option \<Rightarrow> char list option \<Rightarrow> nat \<Rightarrow> int \<times> nat" where
  "find_mem_diff a b n =
     (case (a, b) of
        (Some xs, Some ys) \<Rightarrow> (case first_diff xs ys n 0 of Some i \<Rightarrow> (1, i) | None \<Rightarrow> (0, 0))
      | (None, None) \<Rightarrow> (0, 0)
      | _ \<Rightarrow> (2, 0))"

text \<open>What \<open>%02x\<close> prints for a byte.\<close>

definition hex_digit :: "nat \<Rightarrow> char" where
  "hex_digit n = (if n < 10 then char_of (48 + n) else char_of (87 + n))"

definition hex2 :: "char \<Rightarrow> string" where
  "hex2 c = [hex_digit (of_char c div 16), hex_digit (of_char c mod 16)]"

definition null_text :: "'a option \<Rightarrow> string" where
  "null_text p = (if p = None then ''NULL'' else ''not NULL'')"

definition cmp_mem_at_loc :: "string \<Rightarrow> int \<Rightarrow> char list option \<Rightarrow> char list option \<Rightarrow> nat \<Rightarrow> string option \<Rightarrow> tap \<Rightarrow> tap \<times> int" where
  "cmp_mem_at_loc file ln got wanted n fmt t =
     (case find_mem_diff got wanted n of
        (diff, offset) \<Rightarrow>
          let test = of_bool (diff = 0);
              t = fst (vok_at_loc file ln test fmt t)
          in (if diff = 1 then
                diags [''    Difference starts at offset '' @ show_int (int offset),
                  ''         got: 0x'' @ hex2 (the got ! offset), ''    expected: 0x'' @ hex2 (the wanted ! offset)] t
              else if diff = 2 then
                diags [''         got: '' @ null_text got, ''    expected: '' @ null_text wanted] t
              else t, test))"

section \<open>The end of the tests\<close>

definition plural :: "int \<Rightarrow> string" where
  "plural n = (if n > 1 then ''s'' else [])"

definition exit_status :: "tap \<Rightarrow> tap \<times> int" where
  "exit_status t =
     (let (t, retval) =
        (if expected_tests t = NO_PLAN then (out (line (''1..'' @ show_int (current_test t))) t, 0)
         else if current_test t \<noteq> expected_tests t
         then (diags [''Looks like you planned '' @ show_int (expected_tests t) @ '' test'' @ plural (expected_tests t) @
                 '' but ran '' @ show_int (current_test t) @ ''.''] t, 2)
         else (t, 0))
      in if failed_tests t \<noteq> 0
         then (diags [''Looks like you failed '' @ show_int (failed_tests t) @ '' test'' @ plural (failed_tests t) @
                 '' of '' @ show_int (current_test t) @ '' run.''] t, 1)
         else (t, retval))"

definition bail_out :: "string \<Rightarrow> tap \<Rightarrow> may_exit" where
  "bail_out mesg t = (out (''Bail out!  '' @ mesg @ [NL]) t, Some 255)"

section \<open>Skipping\<close>

fun skip_loop :: "nat \<Rightarrow> string \<Rightarrow> tap \<Rightarrow> tap" where
  "skip_loop 0 why t = t"
| "skip_loop (Suc n) why t =
     (let t = t\<lparr>current_test := i32 (current_test t + 1)\<rparr>
      in skip_loop n why (diags [''skip '' @ why @ [NL]] (out (''ok '' @ show_int (current_test t) @ '' '') t)))"

definition tap_skip :: "int \<Rightarrow> string option \<Rightarrow> tap \<Rightarrow> tap" where
  "tap_skip n fmt t = skip_loop (nat n) (vstrdupf fmt) t"

definition tap_todo :: "string option \<Rightarrow> tap \<Rightarrow> tap" where
  "tap_todo fmt t = t\<lparr>todo_mesg := Some (vstrdupf fmt)\<rparr>"

definition tap_end_todo :: "tap \<Rightarrow> tap" where
  "tap_end_todo t = t\<lparr>todo_mesg := None\<rparr>"

definition tap_test_died :: "int \<Rightarrow> tap \<Rightarrow> tap \<times> int" where
  "tap_test_died status t = (t\<lparr>test_died := status\<rparr>, test_died t)"

text \<open>
  The library of regular expressions is a parameter: \<open>regcomp\<close> gives the error text of a bad pattern or the
  predicate that \<open>regexec\<close> decides.
\<close>

definition like_at_loc :: "(string \<Rightarrow> string + (string \<Rightarrow> bool)) \<Rightarrow> bool \<Rightarrow> string \<Rightarrow> int \<Rightarrow> string \<Rightarrow> string \<Rightarrow>
    string option \<Rightarrow> tap \<Rightarrow> may_exit \<times> int" where
  "like_at_loc regcomp for_match file ln got wanted fmt t =
     (case regcomp wanted of
        Inl err \<Rightarrow> ((t\<lparr>tap_err := tap_err t @ ''Unable to compile regex '' @ quote wanted @ '': '' @ err @ '' at '' @ file @
                      '' line '' @ show_int ln @ [NL]\<rparr>, Some 255), 0)
      | Inr matches \<Rightarrow>
          let test = of_bool (matches got = for_match);
              t = fst (vok_at_loc file ln test fmt t)
          in ((if test \<noteq> 0 then t
               else diags [''                   '' @ quote got,
                 (if for_match then ''    doesn'' @ [CHR 0x27] @ ''t match: '' else ''          matches: '') @ quote wanted] t, None), test))"

end
