(* ===== verification/Planner_Test01.thy ===== *)
theory Planner_Test01
  imports Tap Outcome_Rules
begin

text \<open>
  The test program of the planner, \<open>planner/planner_test01.cpp\<close>, over the model of the planner and of the test
  library. A test takes the state of the library and gives it back; its local variables are the planner (\<open>None\<close>
  is a null pointer), \<open>errno\<close>, the flag \<open>bo\<close>, the array of availabilities and the ids of the spans. \<open>zkeys\<close> is the order of the keys
  of a CZMQ table.
\<close>

section \<open>The state of a test\<close>

record test_state =
  ts_ctx :: "planner option"
  ts_errno :: "errno option"
  ts_bo :: bool
  ts_array :: "int list"
  ts_spans :: "int list"
  ts_tap :: tap

type_synonym test_step = "test_state \<Rightarrow> test_state outcome"

definition set_errno :: "errno option \<Rightarrow> test_state \<Rightarrow> test_state" where
  "set_errno e s = (case e of None \<Rightarrow> s | Some _ \<Rightarrow> s\<lparr>ts_errno := e\<rparr>)"

text \<open>A call on a planner, with the check for the null pointer that most functions of the planner make.\<close>

definition on_ctx :: "(planner \<Rightarrow> (planner \<times> int \<times> errno option) option) \<Rightarrow> planner option \<Rightarrow> errno option \<Rightarrow>
    (planner option \<times> errno option \<times> int) outcome" where
  "on_ctx f c e =
     (case c of
        None \<Rightarrow> Ret (None, Some EINVAL, -1)
      | Some ctx \<Rightarrow> bind (defined (f ctx)) (\<lambda>(ctx, r, e'). Ret (Some ctx, if e' = None then e else e', r)))"

definition call_ctx :: "(planner \<Rightarrow> (planner \<times> int \<times> errno option) option) \<Rightarrow> test_state \<Rightarrow> (test_state \<times> int) outcome" where
  "call_ctx f s = bind (on_ctx f (ts_ctx s) (ts_errno s)) (\<lambda>(c, e, r). Ret (s\<lparr>ts_ctx := c, ts_errno := e\<rparr>, r))"

definition query :: "(planner \<Rightarrow> (int \<times> errno option) option) \<Rightarrow> test_state \<Rightarrow> (test_state \<times> int) outcome" where
  "query f = call_ctx (\<lambda>ctx. map_option (\<lambda>(r, e). (ctx, r, e)) (f ctx))"

text \<open>\<open>planner_add_span\<close> does not check for the null pointer.\<close>

definition add_span :: "(int list \<Rightarrow> int list) \<Rightarrow> int \<Rightarrow> int \<Rightarrow> int list \<Rightarrow> nat \<Rightarrow> test_state \<Rightarrow> (test_state \<times> int) outcome" where
  "add_span zkeys t duration counts len s =
     (if ts_ctx s = None then Undefined else call_ctx (planner_add_span zkeys t duration counts len) s)"

definition time_first :: "(int list \<Rightarrow> int list) \<Rightarrow> int \<Rightarrow> int \<Rightarrow> int list \<Rightarrow> nat \<Rightarrow> test_state \<Rightarrow> (test_state \<times> int) outcome" where
  "time_first zkeys t duration counts len = call_ctx (\<lambda>ctx. Some (planner_avail_time_first zkeys t duration counts len ctx))"

definition time_next :: "test_state \<Rightarrow> (test_state \<times> int) outcome" where
  "time_next = call_ctx (\<lambda>ctx. Some (planner_avail_time_next ctx))"

definition rem_span :: "(int list \<Rightarrow> int list) \<Rightarrow> int \<Rightarrow> test_state \<Rightarrow> (test_state \<times> int) outcome" where
  "rem_span zkeys sid = call_ctx (planner_rem_span zkeys sid)"

definition during :: "int \<Rightarrow> int \<Rightarrow> int list \<Rightarrow> nat \<Rightarrow> test_state \<Rightarrow> (test_state \<times> int) outcome" where
  "during t duration counts len = query (\<lambda>ctx. Some (planner_avail_during ctx t duration counts len))"

definition resources_at :: "int \<Rightarrow> nat \<Rightarrow> test_state \<Rightarrow> (test_state \<times> int) outcome" where
  "resources_at t i = query (\<lambda>ctx. planner_avail_resources_at ctx t i)"

definition resources_at_by_type :: "int \<Rightarrow> string \<Rightarrow> test_state \<Rightarrow> (test_state \<times> int) outcome" where
  "resources_at_by_type t ty = query (\<lambda>ctx. planner_avail_resources_at_by_type ctx t ty)"

definition resources_during :: "int \<Rightarrow> int \<Rightarrow> nat \<Rightarrow> test_state \<Rightarrow> (test_state \<times> int) outcome" where
  "resources_during t duration i = query (\<lambda>ctx. planner_avail_resources_during ctx t duration i)"

definition resources_during_by_type :: "int \<Rightarrow> int \<Rightarrow> string \<Rightarrow> test_state \<Rightarrow> (test_state \<times> int) outcome" where
  "resources_during_by_type t duration ty = query (\<lambda>ctx. planner_avail_resources_during_by_type ctx t duration ty)"

text \<open>The calls that fill the array leave it alone when they fail.\<close>

definition fill_array :: "(planner \<Rightarrow> (errno + resource_array) option) \<Rightarrow> test_step" where
  "fill_array f s =
     (case ts_ctx s of
        None \<Rightarrow> Ret (set_errno (Some EINVAL) s)
      | Some ctx \<Rightarrow> bind (defined (f ctx)) (\<lambda>r. Ret (case r of
            Inl e \<Rightarrow> set_errno (Some e) s | Inr a \<Rightarrow> s\<lparr>ts_array := a @ drop (length a) (ts_array s)\<rparr>)))"

definition array_at :: "int \<Rightarrow> nat \<Rightarrow> test_step" where
  "array_at t len = fill_array (\<lambda>ctx. planner_avail_resources_array_at ctx t len)"

definition array_during :: "int \<Rightarrow> int \<Rightarrow> nat \<Rightarrow> test_step" where
  "array_during t duration len = fill_array (\<lambda>ctx. planner_avail_resources_array_during ctx t duration len)"

text \<open>\<open>bo = (bo || f (...) != k)\<close>, and the same for an entry of the array and for a call whose failure is \<open>-1\<close>.\<close>

definition differs :: "(test_state \<Rightarrow> (test_state \<times> int) outcome) \<Rightarrow> int \<Rightarrow> test_step" where
  "differs f k s = bind (f s) (\<lambda>(s, r). Ret (s\<lparr>ts_bo := ts_bo s \<or> r \<noteq> k\<rparr>))"

definition entry_differs :: "nat \<Rightarrow> int \<Rightarrow> test_step" where
  "entry_differs i k s = Ret (s\<lparr>ts_bo := ts_bo s \<or> ts_array s ! i \<noteq> k\<rparr>)"

definition fails :: "(test_state \<Rightarrow> (test_state \<times> int) outcome) \<Rightarrow> test_step" where
  "fails f s = bind (f s) (\<lambda>(s, r). Ret (s\<lparr>ts_bo := ts_bo s \<or> r = -1\<rparr>))"

definition clear_bo :: test_step where
  "clear_bo s = Ret (s\<lparr>ts_bo := False\<rparr>)"

text \<open>\<open>for (i = 0; i < n; ++i) f (i)\<close>.\<close>

fun rounds :: "nat \<Rightarrow> (nat \<Rightarrow> 's \<Rightarrow> 's outcome) \<Rightarrow> 's \<Rightarrow> 's outcome" where
  "rounds 0 f s = Ret s"
| "rounds (Suc n) f s = bind (rounds n f s) (f n)"

lemma wp_rounds:
  "P 0 s \<Longrightarrow> (\<And>i s. i < n \<Longrightarrow> P i s \<Longrightarrow> wp d u (f i s) (P (Suc i))) \<Longrightarrow> wp d u (rounds n f s) (P n)"
proof (induction n)
  case (Suc n)
  have "wp d u (rounds n f s) (P n)" by (rule Suc.IH) (use Suc.prems in auto)
  then show ?case unfolding rounds.simps by (rule wp_bindI) (use Suc.prems in auto)
qed simp

abbreviation steps :: "test_step list \<Rightarrow> test_step" where
  "steps \<equiv> each (\<lambda>f. f)"

section \<open>What is printed\<close>

definition test01_file :: string where
  "test01_file = ''planner_test01.cpp''"

definition ok :: "int \<Rightarrow> (test_state \<Rightarrow> bool) \<Rightarrow> string \<Rightarrow> test_state \<Rightarrow> test_state" where
  "ok ln test name s = s\<lparr>ts_tap := fst (ok_at_loc test01_file ln (of_bool (test s)) (Some name) (ts_tap s))\<rparr>"

definition no_errno :: "test_state \<Rightarrow> bool" where
  "no_errno s \<longleftrightarrow> ts_errno s = None"

definition good :: "test_state \<Rightarrow> bool" where
  "good s \<longleftrightarrow> \<not> ts_bo s \<and> no_errno s"

definition to_stream :: "int \<Rightarrow> int \<Rightarrow> int list \<Rightarrow> string list \<Rightarrow> nat \<Rightarrow> string" where
  "to_stream base_time duration cnts types len =
     (if base_time \<noteq> -1 then ''B('' @ show_int base_time @ ''):'' else []) @
     ''D('' @ show_int duration @ ''):R(<'' @
     concat (map (\<lambda>i. types ! i @ ''('' @ show_int (cnts ! i) @ '')'') [0..<len]) @ ''>)''"

definition with_text :: "string \<Rightarrow> string \<Rightarrow> string" where
  "with_text txt ss = txt @ '' ('' @ ss @ '')''"

text \<open>\<open>%d\<close> prints an \<open>int\<close>.\<close>

definition at_text :: "string \<Rightarrow> int \<Rightarrow> string" where
  "at_text txt t = txt @ '' is @'' @ show_int (i32 t) @ '' for''"

text \<open>The start of every test: a new planner, and the first check.\<close>

definition new_planner :: "int \<Rightarrow> int \<Rightarrow> int \<Rightarrow> int list \<Rightarrow> string list \<Rightarrow> nat \<Rightarrow> tap \<Rightarrow> test_state" where
  "new_planner ln base_time duration totals types len t =
     (let s = \<lparr>ts_ctx = None, ts_errno = None, ts_bo = False, ts_array = replicate len 0, ts_spans = [], ts_tap = t\<rparr>;
          s = (case planner_new base_time duration totals types len of
                 Inl e \<Rightarrow> s\<lparr>ts_errno := Some e\<rparr> | Inr ctx \<Rightarrow> s\<lparr>ts_ctx := Some ctx\<rparr>)
      in ok ln (\<lambda>s. ts_ctx s \<noteq> None \<and> no_errno s) (with_text ''new with'' (to_stream base_time duration totals types len)) s)"

definition check :: "(test_state \<Rightarrow> (test_state \<times> int) outcome) \<Rightarrow> (int \<Rightarrow> test_state \<Rightarrow> bool) \<Rightarrow> int \<Rightarrow> string \<Rightarrow> test_step" where
  "check f test ln name s = bind (f s) (\<lambda>(s, r). Ret (ok ln (test r) name s))"

definition check_good :: "int \<Rightarrow> string \<Rightarrow> test_step" where
  "check_good ln name s = Ret (ok ln good name s)"

section \<open>The tests\<close>

subsection \<open>Getters\<close>

definition resource_type_differs :: "nat \<Rightarrow> string \<Rightarrow> test_step" where
  "resource_type_differs i ty s =
     (case ts_ctx s of
        None \<Rightarrow> Undefined
      | Some ctx \<Rightarrow> (case planner_resource_type_at ctx i of
            Inl _ \<Rightarrow> Undefined
          | Inr ty' \<Rightarrow> Ret (s\<lparr>ts_bo := ts_bo s \<or> ty' \<noteq> ty\<rparr>)))"

definition equals :: "(planner \<Rightarrow> int) \<Rightarrow> int \<Rightarrow> int \<Rightarrow> string \<Rightarrow> test_step" where
  "equals f k ln name s =
     bind (query (\<lambda>ctx. Some (f ctx, None)) s) (\<lambda>(s, rc). Ret (ok ln (\<lambda>s. rc = k) name s))"

definition test_planner_getters :: "tap \<Rightarrow> tap outcome" where
  "test_planner_getters t =
     (let len = 5; totals = [10, 20, 30, 40, 50]; types = [''1'', ''2'', ''3'', ''4'', ''5''];
          ss = to_stream 0 9999 totals types len
      in bind (steps
           ([equals planner_base_time 0 81 (with_text ''base_time works for'' ss),
             equals planner_duration 9999 84 (with_text ''duration works for'' ss),
             equals (\<lambda>ctx. int (planner_resources_len ctx)) 5 87 (with_text ''resources_len works for'' ss)] @
            concat (map (\<lambda>i.
              [differs (query (\<lambda>ctx. Some (planner_resource_total_at ctx i))) (10 * (int i + 1)),
               differs (query (\<lambda>ctx. Some (planner_resource_total_by_type ctx (types ! i), None))) (10 * (int i + 1)),
               resource_type_differs i (types ! i)]) [0..<len]))
           (new_planner 78 0 9999 totals types len t))
         (\<lambda>s. Ret (ts_tap (ok 99 good ''planner getters work'' s))))"

subsection \<open>Adding and removing\<close>

definition book :: "(int list \<Rightarrow> int list) \<Rightarrow> int \<Rightarrow> int \<Rightarrow> int \<times> string \<Rightarrow> int \<times> string \<Rightarrow> test_step" where
  "book zkeys duration k point span s =
     (let ss = to_stream (-1) duration [1] [''B''] 1 in
      bind (time_first zkeys 0 duration [1] 1 s) (\<lambda>(s, t).
      bind (add_span zkeys t duration [1] 1 (ok (fst point) (\<lambda>s. t = k) (with_text (at_text (snd point) t) ss) s)) (\<lambda>(s, sid).
      Ret (ok (fst span) (\<lambda>s. sid \<noteq> -1) (with_text (snd span) ss) (s\<lparr>ts_spans := ts_spans s @ [sid]\<rparr>)))))"

definition no_point :: "(int list \<Rightarrow> int list) \<Rightarrow> int \<Rightarrow> int \<Rightarrow> test_step" where
  "no_point zkeys duration ln =
     check (time_first zkeys 0 duration [1] 1) (\<lambda>t s. t = -1) ln
       (with_text ''no scheduled point available for'' (to_stream (-1) duration [1] [''B''] 1))"

definition start_time :: "nat \<Rightarrow> int \<Rightarrow> int \<Rightarrow> test_step" where
  "start_time i k ln s =
     bind (query (\<lambda>ctx. Some (planner_span_start_time ctx (ts_spans s ! i))) s) (\<lambda>(s, t).
     Ret (ok ln (\<lambda>s. t = k) (''span_start_time returned '' @ show_int t) s))"

definition remove_nth :: "(int list \<Rightarrow> int list) \<Rightarrow> nat \<Rightarrow> int \<Rightarrow> string \<Rightarrow> test_step" where
  "remove_nth zkeys i ln name s = check (rem_span zkeys (ts_spans s ! i)) (\<lambda>rc s. rc = 0) ln name s"

definition test_basic_add_remove :: "(int list \<Rightarrow> int list) \<Rightarrow> tap \<Rightarrow> tap outcome" where
  "test_basic_add_remove zkeys t =
     bind (steps
       [book zkeys 5 0 (125, ''first scheduled point'') (128, ''span1 added for''),
        book zkeys 2 5 (133, ''second point'') (136, ''span2 added for''),
        book zkeys 2 7 (141, ''third point'') (144, ''span3 added for''),
        no_point zkeys 2 149,
        book zkeys 1 9 (154, ''fourth point'') (157, ''span4 added for''),
        start_time 1 5 161,
        remove_nth zkeys 1 164 ''span2 removed'',
        remove_nth zkeys 2 167 ''span3 removed'',
        no_point zkeys 5 171,
        book zkeys 4 5 (176, ''fifth point'') (179, ''span5 added for'')]
       (new_planner 120 0 10 [1] [''B''] 1 t))
     (\<lambda>s. Ret (ts_tap s))"

subsection \<open>Availability\<close>

definition rc_ok :: "int \<Rightarrow> test_state \<Rightarrow> bool" where
  "rc_ok rc s \<longleftrightarrow> rc = 0 \<and> no_errno s"

definition over_alloc :: "int \<Rightarrow> test_state \<Rightarrow> bool" where
  "over_alloc rc s \<longleftrightarrow> rc = -1 \<and> no_errno s"

definition span_added :: "int \<Rightarrow> test_state \<Rightarrow> bool" where
  "span_added sid s \<longleftrightarrow> sid \<noteq> -1"

definition discard :: "(test_state \<Rightarrow> (test_state \<times> int) outcome) \<Rightarrow> test_step" where
  "discard f s = bind (f s) (\<lambda>(s, r). Ret s)"

definition test_availability_checkers :: "(int list \<Rightarrow> int list) \<Rightarrow> tap \<Rightarrow> tap outcome" where
  "test_availability_checkers zkeys t =
     (let text = (\<lambda>txt duration count. with_text txt (to_stream (-1) duration [count] [''A''] 1)) in
      bind (steps
       [check (during 0 1 [10] 1) rc_ok 213 (text ''avail check works'' 5 10),
        check (during 1 1000 [5] 1) rc_ok 218 (text ''avail check works'' 1000 5),
        check (add_span zkeys 1 1000 [5] 1) span_added 221 (text ''span1 added for'' 1000 5),
        discard (during 2000 1001 [10] 1),
        check (add_span zkeys 2000 1001 [10] 1) span_added 227 (text ''span2 added for'' 1000 10),
        check (during 10 2991 [1] 1) over_alloc 232 (text ''over-alloc fails for'' 2990 1),
        check (during 10 1990 [1] 1) rc_ok 237 (text ''overlapping works'' 1990 1),
        check (add_span zkeys 10 1990 [1] 1) span_added 240 (text ''span3 added for'' 1990 1),

        differs (resources_at 1 0) 5,
        differs (resources_at 10 0) 4,
        array_at 500 1, entry_differs 0 4,
        differs (resources_at_by_type 1000 ''A'') 4,
        differs (resources_at 1500 0) 9,
        differs (resources_at_by_type 1998 ''A'') 9,
        differs (resources_at 2000 0) 0,
        differs (resources_at 2500 0) 0,
        differs (resources_at_by_type 2999 ''A'') 0,
        differs (resources_at 3000 0) 0,
        differs (resources_at 3001 0) 10,
        check_good 265 ''avail_at_resources_* works'',

        clear_bo,
        differs (during 2000 1001 [1] 1) (-1), differs (resources_during 2000 1001 0) 0,
        differs (during 0 1001 [4] 1) 0, differs (resources_during 0 1001 0) 4,
        differs (during 10 1990 [4] 1) 0, differs (resources_during 10 1990 0) 4,
        check_good 280 ''resources_during works'',

        clear_bo,
        differs (during 4 3 [5] 1) 0, differs (resources_during 4 3 0) 5,
        differs (during 20 980 [4] 1) 0, differs (resources_during 20 980 0) 4,
        differs (during 1001 998 [9] 1) 0, differs (resources_during 1001 998 0) 9,
        differs (during 2500 101 [1] 1) (-1), differs (resources_during 2500 101 0) 0,
        check_good 299 ''resources_during works for a subset (no edges)'',

        clear_bo,
        differs (during 0 1000 [4] 1) 0, differs (resources_during_by_type 0 1000 ''A'') 4,
        differs (during 10 990 [4] 1) 0, differs (resources_during_by_type 10 990 ''A'') 4,
        differs (during 20 981 [4] 1) 0, differs (resources_during_by_type 20 981 ''A'') 4,
        differs (during 1001 999 [9] 1) 0, array_during 1001 999 1, entry_differs 0 9,
        check_good 318 ''resources_during works for a subset (1 edge)'',

        clear_bo,
        differs (during 100 1401 [4] 1) 0,
        differs (during 1500 1001 [1] 1) (-1),
        differs (during 1000 1001 [1] 1) (-1),
        check_good 327 ''resources_during works for >1 overlapping spans'',

        clear_bo,
        differs (during 0 3001 [1] 1) (-1),
        differs (during 0 2001 [1] 1) (-1),
        differs (during 3001 2000 [10] 1) 0,
        check_good 336 ''resources_during works for all spans'',

        clear_bo,
        differs (time_first zkeys 0 9 [5] 1) 0,
        differs time_next 1, differs time_next 1001, differs time_next 3001, differs time_next (-1),
        check_good 349 ''avail_time_* works'',

        clear_bo,
        differs (time_first zkeys 0 10 [9] 1) 1001,
        differs time_next 3001, differs time_next (-1),
        check_good 358 ''avail_time_* test 2 works'']
       (new_planner 208 0 INT64_MAX [10] [''A''] 1 t))
      (\<lambda>s. Ret (ts_tap s)))"

subsection \<open>Several resources\<close>

definition test_multi_resources :: "(int list \<Rightarrow> int list) \<Rightarrow> tap \<Rightarrow> tap outcome" where
  "test_multi_resources zkeys t =
     (let totals = [10, 20, 30, 20, 100]; types = [''A'', ''B'', ''C'', ''D'', ''E''];
          counts1 = [1, 2, 3, 2, 10]; counts5 = [5, 10, 15, 10, 50];
          counts_many_E = [1, 1, 1, 1, 50]; counts_only_C = [0, 0, 15, 0, 0];
          text = (\<lambda>txt duration counts. with_text txt (to_stream (-1) duration counts types 5)) in
      bind (steps
       [check (during 0 1 totals 5) rc_ok 390 (text ''checking multi avail works'' 5 totals),
        check (during 1 1000 counts5 5) rc_ok 395 (text ''multi-resource avail works'' 1000 counts5),
        check (add_span zkeys 1 1000 counts5 5) span_added 398 (text ''span1 added for'' 1000 counts5),
        discard (during 2000 1001 totals 5),
        check (add_span zkeys 2000 1001 totals 5) span_added 404 (text ''span2 added for'' 1000 totals),
        check (during 10 2991 counts1 5) over_alloc 409 (text ''over-alloc multi:'' 2990 counts1),
        check (during 10 1990 counts1 5) rc_ok 414 (text ''overlapped multi resources'' 1990 counts1),
        check (add_span zkeys 10 1990 counts1 5) span_added 417 (text ''span3 added for'' 1990 counts1),

        differs (resources_at 1 0) 5,
        differs (resources_at 10 1) 8,
        array_at 500 5, entry_differs 2 12,
        differs (resources_at_by_type 1000 ''E'') 40,
        differs (resources_at 1500 0) 9,
        differs (resources_at_by_type 1998 ''D'') 18,
        differs (resources_at 2000 0) 0,
        differs (resources_at 2500 0) 0,
        differs (resources_at_by_type 2999 ''A'') 0,
        differs (resources_at 3000 4) 0,
        differs (resources_at 3001 2) 30,
        check_good 442 ''avail_at_resources_* works'',

        clear_bo,
        differs (time_first zkeys 0 9 counts_only_C 5) 0,
        differs time_next 1, differs time_next 1001, differs time_next 3001, differs time_next (-1),
        check_good 455 ''avail_time_* works'',

        clear_bo,
        differs (time_first zkeys 0 10 counts_many_E 5) 0,
        differs time_next 1001, differs time_next 3001, differs time_next (-1),
        check_good 466 ''avail_time_* test2 works'']
       (new_planner 385 0 INT64_MAX totals types 5 t))
      (\<lambda>s. Ret (ts_tap s)))"

subsection \<open>The iterator\<close>

definition test_add_and_iterator :: "(int list \<Rightarrow> int list) \<Rightarrow> tap \<Rightarrow> tap outcome" where
  "test_add_and_iterator zkeys t =
     bind (steps
       [differs (time_first zkeys 0 4 [3] 1) 0,
        differs time_next (-1),
        fails (add_span zkeys 0 4 [3] 1),
        differs (time_first zkeys 0 4 [3] 1) 0,
        differs time_next 4,
        differs time_next (-1),
        check_good 502 ''span_add resets the avail-time iterator'']
       (new_planner 487 0 10 [10] [''C''] 1 t))
     (\<lambda>s. Ret (ts_tap s))"

definition test_on_or_after :: "(int list \<Rightarrow> int list) \<Rightarrow> tap \<Rightarrow> tap outcome" where
  "test_on_or_after zkeys t =
     bind (steps
       [differs (time_first zkeys 100000 100 [2] 1) (-1),
        differs (during 100000 100 [2] 1) 0,
        fails (add_span zkeys 100000 100 [2] 1),
        differs (time_first zkeys 100000 200 [2] 1) 100100,
        fails (add_span zkeys 100100 200 [2] 1),
        differs (time_first zkeys 100000 200 [1] 1) 100000,
        differs time_next 100100,
        differs time_next 100300,
        differs (time_first zkeys 0 200 [1] 1) 0,
        differs time_next 100000,
        check_good 549 ''on_or_after support works'']
       (new_planner 526 0 INT64_MAX [3] [''A''] 1 t))
     (\<lambda>s. Ret (ts_tap s))"

subsection \<open>Many spans\<close>

definition overlap_round :: "(int list \<Rightarrow> int list) \<Rightarrow> int \<Rightarrow> test_step" where
  "overlap_round zkeys k s =
     bind (time_first zkeys 0 4 [100] 1 s) (\<lambda>(s, t).
     fails (add_span zkeys t 4 [100] 1) (s\<lparr>ts_bo := ts_bo s \<or> t \<noteq> k\<rparr>))"

definition hardware_threads :: "int \<Rightarrow> tap \<Rightarrow> test_state" where
  "hardware_threads ln t = new_planner ln 0 INT64_MAX [10000000] [''hardware-thread''] 1 t"

definition test_stress_fully_overlap :: "(int list \<Rightarrow> int list) \<Rightarrow> tap \<Rightarrow> tap outcome" where
  "test_stress_fully_overlap zkeys t =
     bind (steps
       [rounds 100000 (\<lambda>i. overlap_round zkeys 0),
        check_good 581 ''add_span 100000 times (fully overlapped spans)'',
        rounds 100000 (\<lambda>i. overlap_round zkeys 4),
        check_good 589 ''add_span 100000 more (fully overlapped spans)'']
       (hardware_threads 572 t))
     (\<lambda>s. Ret (ts_tap s))"

definition staggered_round :: "(int list \<Rightarrow> int list) \<Rightarrow> nat \<Rightarrow> test_step" where
  "staggered_round zkeys i s =
     bind (differs (during (int i) 4 [100] 1) 0 s) (fails (add_span zkeys (int i) 4 [100] 1))"

text \<open>The test that follows does not reset \<open>errno\<close>: the last value is given back with the state of the library.\<close>

definition test_stress_4spans_overlap :: "(int list \<Rightarrow> int list) \<Rightarrow> tap \<Rightarrow> (tap \<times> errno option) outcome" where
  "test_stress_4spans_overlap zkeys t =
     bind (steps
       [rounds 100000 (staggered_round zkeys),
        check_good 620 ''add_span 100000 times (4 spans overlap)'',
        rounds 100000 (\<lambda>i. staggered_round zkeys (100000 + i)),
        check_good 628 ''add_span 100000 more (4 spans overlap)'']
       (hardware_threads 612 t))
     (\<lambda>s. Ret (ts_tap s, ts_errno s))"

subsection \<open>A service with local and global planners\<close>

record flow =
  fl_locals :: "planner option list"
  fl_global :: "planner option"
  fl_errno :: "errno option"
  fl_bo :: bool

definition flow_types :: "string list" where
  "flow_types = [''A'', ''B'', ''C'']"

definition flow_totals :: "int list" where
  "flow_totals = [16, 2, 32]"

definition L1_size :: nat where
  "L1_size = 9"

definition L2_size :: nat where
  "L2_size = 3"

definition ordered_counts :: "planner \<Rightarrow> (string \<times> int) list \<Rightarrow> int list" where
  "ordered_counts plan unordered =
     map (\<lambda>ty. case map_of unordered ty of Some c \<Rightarrow> c | None \<Rightarrow> 0) (take (dimension plan) (resource_types plan))"

text \<open>\<open>None\<close>: the planner is null, and \<open>errno\<close> is set.\<close>

definition make_planner :: "int list \<Rightarrow> string list \<Rightarrow> errno option \<Rightarrow> planner option \<times> errno option" where
  "make_planner totals types e =
     (case planner_new 0 INT64_MAX totals types (length types) of Inl e' \<Rightarrow> (None, Some e') | Inr ctx \<Rightarrow> (Some ctx, e))"

definition add_local :: "nat \<Rightarrow> flow \<Rightarrow> flow" where
  "add_local i s =
     (case make_planner [flow_totals ! (i mod L2_size)] [flow_types ! (i mod L2_size)] (fl_errno s) of
        (c, e) \<Rightarrow> s\<lparr>fl_locals := fl_locals s @ [c], fl_errno := e\<rparr>)"

definition flow_start :: "errno option \<Rightarrow> flow" where
  "flow_start e =
     (let s = fold add_local [0..<L1_size] \<lparr>fl_locals = [], fl_global = None, fl_errno = e, fl_bo = False\<rparr>
      in case make_planner (map (\<lambda>x. int L2_size * x) flow_totals) flow_types (fl_errno s) of
           (c, e) \<Rightarrow> s\<lparr>fl_global := c, fl_errno := e\<rparr>)"

definition global_call :: "(planner \<Rightarrow> (planner \<times> int \<times> errno option) option) \<Rightarrow> flow \<Rightarrow> (flow \<times> int) outcome" where
  "global_call f s =
     bind (on_ctx f (fl_global s) (fl_errno s)) (\<lambda>(c, e, r). Ret (s\<lparr>fl_global := c, fl_errno := e\<rparr>, r))"

definition local_call :: "nat \<Rightarrow> (planner \<Rightarrow> (planner \<times> int \<times> errno option) option) \<Rightarrow> flow \<Rightarrow> (flow \<times> int) outcome" where
  "local_call k f s =
     bind (on_ctx f (fl_locals s ! k) (fl_errno s)) (\<lambda>(c, e, r).
     Ret (s\<lparr>fl_locals := (fl_locals s)[k := c], fl_errno := e\<rparr>, r))"

definition local_add :: "(int list \<Rightarrow> int list) \<Rightarrow> nat \<Rightarrow> int \<Rightarrow> int \<Rightarrow> int list \<Rightarrow> flow \<Rightarrow> (flow \<times> int) outcome" where
  "local_add zkeys k t duration counts s =
     (if fl_locals s ! k = None then Undefined else local_call k (planner_add_span zkeys t duration counts 1) s)"

definition global_add :: "(int list \<Rightarrow> int list) \<Rightarrow> int \<Rightarrow> int \<Rightarrow> int list \<Rightarrow> flow \<Rightarrow> (flow \<times> int) outcome" where
  "global_add zkeys t duration counts s =
     (if fl_global s = None then Undefined else global_call (planner_add_span zkeys t duration counts (length counts)) s)"

text \<open>
  The counts of one resource in the order of the global planner. A null global planner leads to an empty vector whose
  first entry is taken, and then to \<open>planner_add_span\<close> on the null pointer.
\<close>

definition ordered_one :: "nat \<Rightarrow> flow \<Rightarrow> int list outcome" where
  "ordered_one j s =
     (case fl_global s of None \<Rightarrow> Undefined | Some g \<Rightarrow> Ret (ordered_counts g [(flow_types ! j, flow_totals ! j)]))"

definition allocate_round :: "(int list \<Rightarrow> int list) \<Rightarrow> int \<Rightarrow> int \<Rightarrow> nat \<Rightarrow> flow \<Rightarrow> flow outcome" where
  "allocate_round zkeys at duration i s =
     bind (local_add zkeys i at duration [flow_totals ! (i mod L2_size)] s) (\<lambda>(s, _).
     bind (ordered_one (i mod L2_size) s) (\<lambda>ordered.
     bind (global_add zkeys at duration ordered s) (\<lambda>(s, _). Ret s)))"

definition reserve_round :: "(int list \<Rightarrow> int list) \<Rightarrow> int \<Rightarrow> int \<Rightarrow> nat \<Rightarrow> flow \<Rightarrow> flow outcome" where
  "reserve_round zkeys at duration i s =
     (let j = i mod L2_size; k = i mod L1_size in
      bind (ordered_one j s) (\<lambda>ordered.
      bind (global_call (\<lambda>ctx. Some (planner_avail_time_first zkeys at duration ordered (length ordered) ctx)) s) (\<lambda>(s, t).
      let s = s\<lparr>fl_bo := fl_bo s \<or> t \<noteq> at + int (i div L1_size) * duration\<rparr> in
      bind (local_call k (\<lambda>ctx. case planner_avail_during ctx t duration [flow_totals ! j] 1 of (r, e) \<Rightarrow> Some (ctx, r, e)) s) (\<lambda>(s, rc).
      let s = s\<lparr>fl_bo := fl_bo s \<or> rc = -1\<rparr> in
      bind (local_add zkeys k t duration [flow_totals ! j] s) (\<lambda>(s, span).
      let s = s\<lparr>fl_bo := fl_bo s \<or> span = -1\<rparr> in
      bind (global_add zkeys t duration ordered s) (\<lambda>(s, span).
      Ret (s\<lparr>fl_bo := fl_bo s \<or> span = -1\<rparr>)))))))"

definition test_resource_service_flow :: "(int list \<Rightarrow> int list) \<Rightarrow> tap \<times> errno option \<Rightarrow> tap outcome" where
  "test_resource_service_flow zkeys te =
     bind (rounds L1_size (allocate_round zkeys 3600 1000) (flow_start (snd te))) (\<lambda>s.
     bind (rounds 50000 (reserve_round zkeys 4600 1000) s) (\<lambda>s.
     Ret (fst (ok_at_loc test01_file 702 (of_bool (\<not> fl_bo s \<and> fl_errno s = None))
       (Some ''reserve 50000 jobs for global/local planners'') (fst te)))))"

section \<open>The program\<close>

text \<open>\<open>main\<close> returns the status of \<open>done_testing\<close>.\<close>

definition test01_main :: "(int list \<Rightarrow> int list) \<Rightarrow> (tap \<times> int) outcome" where
  "test01_main zkeys =
     bind (each (\<lambda>f. f)
       [test_planner_getters, test_basic_add_remove zkeys, test_availability_checkers zkeys, test_multi_resources zkeys,
        test_add_and_iterator zkeys, test_on_or_after zkeys, test_stress_fully_overlap zkeys]
       (fst (tap_plan 59 None tap_start)))
     (\<lambda>t. bind (test_stress_4spans_overlap zkeys t) (\<lambda>te.
     bind (test_resource_service_flow zkeys te) (\<lambda>t. Ret (exit_status t))))"

end
