(* ===== verification/Planner_Order.thy ===== *)
theory Planner_Order
  imports Planner_Properties
begin

text \<open>
  When the min-time tree stays ordered. The tree compares availabilities component-wise, so it is a search tree
  only while they form a chain; and a call that changes the availability of one point only keeps it ordered.
\<close>

section \<open>Inserting into an ordered tree\<close>

definition below :: "sp_heap \<Rightarrow> nat \<Rightarrow> sp_ptr \<Rightarrow> sp_ptr \<Rightarrow> bool" where
  "below h n p q \<longleftrightarrow> (\<forall>i<n. remaining_of h p ! i \<le> remaining_of h q ! i)"

definition sized :: "sp_heap \<Rightarrow> nat \<Rightarrow> sp_ptr \<Rightarrow> bool" where
  "sized h n p \<longleftrightarrow> request_ok n (remaining_of h p) \<and> counts_fit n (remaining_of h p)"

definition chain :: "sp_heap \<Rightarrow> nat \<Rightarrow> sp_ptr set \<Rightarrow> bool" where
  "chain h n P \<longleftrightarrow> (\<forall>p\<in>P. sized h n p \<and> (\<forall>q\<in>P. below h n p q \<or> below h n q p))"

abbreviation mt_sorted :: "sp_heap \<Rightarrow> nat \<Rightarrow> sp_ptr list \<Rightarrow> bool" where
  "mt_sorted h n \<equiv> sorted_wrt (below h n)"

lemma below_refl [simp]: "below h n p p"
  by (simp add: below_def)

lemma below_trans: "below h n p q \<Longrightarrow> below h n q r \<Longrightarrow> below h n p r"
  unfolding below_def by (meson order_trans)

lemma below_cong: "remaining_of h p = remaining_of h' p \<Longrightarrow> remaining_of h q = remaining_of h' q \<Longrightarrow> below h n p q = below h' n p q"
  by (simp add: below_def)

lemma chain_mono: "chain h n P \<Longrightarrow> Q \<subseteq> P \<Longrightarrow> chain h n Q"
  unfolding chain_def by blast

lemma chain_cong: "(\<And>p. p \<in> P \<Longrightarrow> remaining_of h p = remaining_of h' p) \<Longrightarrow> chain h n P = chain h' n P"
  by (simp add: chain_def below_def sized_def)

text \<open>With counts that fit, \<open>rescmp\<close> is the sum of the differences when it finds no greater component.\<close>

lemma rescmp_loop_sum:
  "list_all2 (\<le>) as bs \<Longrightarrow> \<forall>a\<in>set as. 0 \<le> a \<and> a \<le> INT64_MAX \<Longrightarrow> \<forall>b\<in>set bs. 0 \<le> b \<Longrightarrow> acc \<le> 0 \<Longrightarrow> sum_list bs - acc \<le> 2147483647 \<Longrightarrow>
     rescmp_loop (zip as bs) acc = acc + (sum_list as - sum_list bs)"
proof (induction as bs arbitrary: acc rule: list_all2_induct)
  case (Cons a as b bs)
  have "0 \<le> sum_list bs" using Cons.prems(2) by (intro sum_list_nonneg) auto
  with Cons.prems Cons.hyps have "i64 (a - b) = a - b" "i32 (acc + (a - b)) = acc + (a - b)" "acc + (a - b) \<le> 0"
      "sum_list bs - (acc + (a - b)) \<le> 2147483647"
    by (auto simp: in_i64_def intro!: i64_id i32_id)
  with Cons show ?case by simp
qed simp

lemma rescmp_below:
  assumes "sized h n p" and "sized h n q"
  shows "rescmp (remaining_of h p) (remaining_of h q) n < 0 \<Longrightarrow> below h n p q"
    and "\<not> rescmp (remaining_of h p) (remaining_of h q) n < 0 \<Longrightarrow> below h n p q \<or> below h n q p \<Longrightarrow> below h n q p"
proof -
  let ?a = "take n (remaining_of h p)" and ?b = "take n (remaining_of h q)"
  have le: "rescmp (remaining_of h p) (remaining_of h q) n \<le> 0 \<longleftrightarrow> below h n p q"
    using rescmp_le_0 [of n "remaining_of h p" "remaining_of h q"] assms by (simp add: sized_def below_def)
  show "rescmp (remaining_of h p) (remaining_of h q) n < 0 \<Longrightarrow> below h n p q" using le by simp
  have len: "length ?a = n" "length ?b = n" using assms by (auto simp: sized_def request_ok_def)
  have "below h n q p" if z: "below h n p q" "\<not> rescmp (remaining_of h p) (remaining_of h q) n < 0"
  proof -
    have all: "list_all2 (\<le>) ?a ?b" using z(1) len by (auto simp: list_all2_conv_all_nth below_def)
    have r: "rescmp (remaining_of h p) (remaining_of h q) n = sum_list ?a - sum_list ?b"
      unfolding rescmp_def using all assms by (subst rescmp_loop_sum) (auto simp: sized_def request_ok_def counts_fit_def)
    have mono: "sum_list xs \<le> sum_list ys" if "list_all2 (\<le>) xs ys" for xs ys :: "int list"
      using that by (induction rule: list_all2_induct) auto
    have "sum_list xs = sum_list ys \<Longrightarrow> xs = ys" if "list_all2 (\<le>) xs ys" for xs ys :: "int list"
      using that
    proof (induction rule: list_all2_induct)
      case (Cons x xs y ys)
      with mono [of xs ys] show ?case by auto
    qed simp
    moreover have "sum_list ?a \<le> sum_list ?b" using all by (rule mono)
    ultimately have "?a = ?b" using all r z(2) by simp
    then show ?thesis using len by (metis below_def nth_take order_refl)
  qed
  with le show "\<not> rescmp (remaining_of h p) (remaining_of h q) n < 0 \<Longrightarrow> below h n p q \<or> below h n q p \<Longrightarrow> below h n q p"
    by blast
qed

lemma mintime_resource_link_sorted:
  "mt_sorted h n (left_of ps @ inorder t @ right_of ps) \<Longrightarrow> chain h n (insert p (set (inorder t))) \<Longrightarrow>
   (\<forall>q\<in>set (left_of ps). below h n q p) \<Longrightarrow> (\<forall>q\<in>set (right_of ps). below h n p q) \<Longrightarrow>
     (\<forall>q\<in>set (left_of (mintime_resource_link h n p t ps)). below h n q p) \<and>
     (\<forall>q\<in>set (right_of (mintime_resource_link h n p t ps)). below h n p q)"
proof (induction h n p t ps rule: mintime_resource_link.induct)
  case (2 h n p c l q m r ps)
  have sz: "sized h n p" "sized h n q" "below h n p q \<or> below h n q p" using "2.prems"(2) by (auto simp: chain_def)
  have sub: "chain h n (insert p (set (inorder l)))" "chain h n (insert p (set (inorder r)))"
    by (rule chain_mono [OF "2.prems"(2)]; auto)+
  show ?case
  proof (cases "rescmp (remaining_of h p) (remaining_of h q) n < 0")
    case True
    then have pq: "below h n p q" using rescmp_below(1) [OF sz(1,2)] by blast
    have "\<forall>x\<in>set (inorder r). below h n q x" using "2.prems"(1) by (auto simp: sorted_wrt_append)
    then have "\<forall>x\<in>set (inorder r). below h n p x" using pq below_trans by blast
    with "2.IH"(1) [OF refl True] True pq "2.prems" sub(1) show ?thesis by (simp add: Let_def ball_Un)
  next
    case False
    then have qp: "below h n q p" using rescmp_below(2) [OF sz(1,2)] sz(3) by blast
    have "\<forall>x\<in>set (inorder l). below h n x q" using "2.prems"(1) by (auto simp: sorted_wrt_append)
    then have "\<forall>x\<in>set (inorder l). below h n x p" using qp below_trans by blast
    with "2.IH"(2) [OF refl False] False qp "2.prems" sub(2) show ?thesis by (simp add: Let_def ball_Un)
  qed
qed auto

lemma remaining_upd_flag [simp]:
  "remaining_of (upd_point p (\<lambda>s. s\<lparr>in_mt_resource_tree := b\<rparr>) h) q = remaining_of h q"
  "remaining_of (upd_point p (\<lambda>s. s\<lparr>ref_count := f s\<rparr>) h) q = remaining_of h q"
  "remaining_of (upd_point p (\<lambda>s. s\<lparr>new_point := b\<rparr>) h) q = remaining_of h q"
  by (simp_all add: remaining_of_def deref_upd_point)

lemma below_remaining: "remaining_of h' = remaining_of h \<Longrightarrow> below h' = below h"
  by (simp add: below_def fun_eq_iff)

lemma below_upd_flag [simp]: "below (upd_point p (\<lambda>s. s\<lparr>in_mt_resource_tree := b\<rparr>) h) = below h"
  by (rule below_remaining) (simp add: fun_eq_iff)

lemma mintime_resource_insert_sorted:
  assumes "mintime_resource_insert n p (h, t) = (h', t')"
    and "mt_sorted h n (inorder t)" and "chain h n (insert p (set (inorder t)))"
  shows "mt_sorted h n (inorder t')"
proof -
  let ?qs = "mintime_resource_link h n p t []"
  have "t' = rb_insert_augmented (mintime_resource_subtree_min h) p (at_of h p) ?qs"
    using assms(1) by (auto simp: mintime_resource_insert_def)
  then have t': "inorder t' = left_of ?qs @ p # right_of ?qs" by simp
  have i: "left_of ?qs @ right_of ?qs = inorder t"
    using mintime_resource_link_inorder [of h n p t "[]"] by simp
  have "mt_sorted h n (left_of ?qs @ right_of ?qs)" using assms(2) i by simp
  moreover have "(\<forall>q\<in>set (left_of ?qs). below h n q p) \<and> (\<forall>q\<in>set (right_of ?qs). below h n p q)"
    by (rule mintime_resource_link_sorted) (use assms(2,3) in auto)
  ultimately show ?thesis unfolding t' by (auto simp: sorted_wrt_append)
qed

section \<open>Ordered planners\<close>

definition ordered :: "planner \<Rightarrow> bool" where
  "ordered ctx \<longleftrightarrow> mt_sorted (sp_store ctx) (dimension ctx) (inorder (mt_resource_tree ctx))"

abbreviation ctx_chain :: "planner \<Rightarrow> bool" where
  "ctx_chain ctx \<equiv> chain (sp_store ctx) (dimension ctx) (set (points_of ctx))"

lemma ordered_insert:
  assumes "ordered ctx" and "chain (sp_store ctx) (dimension ctx) (insert p (set (inorder (mt_resource_tree ctx))))"
  shows "ordered (with_mt (mintime_resource_insert (dimension ctx) p) ctx)"
proof -
  obtain h t where ht: "mintime_resource_insert (dimension ctx) p (sp_store ctx, mt_resource_tree ctx) = (h, t)" by fastforce
  have "mt_sorted (sp_store ctx) (dimension ctx) (inorder t)"
    using mintime_resource_insert_sorted [OF ht] assms by (simp add: ordered_def)
  moreover have "h = upd_point p (\<lambda>s. s\<lparr>in_mt_resource_tree := True\<rparr>) (sp_store ctx)"
    using ht by (simp add: mintime_resource_insert_def)
  ultimately show ?thesis by (simp add: ordered_def with_mt_def ht)
qed

lemma ordered_remove:
  assumes "ordered ctx" and "distinct (inorder (mt_resource_tree ctx))"
  shows "ordered (with_mt (mintime_resource_remove p) ctx)"
  using assms by (simp add: ordered_def with_mt_def mintime_resource_remove_def sorted_wrt_filter)

lemma remaining_with_mt [simp]:
  "remaining_of (sp_store (with_mt (mintime_resource_insert n p) ctx)) q = remaining_of (sp_store ctx) q"
  "remaining_of (sp_store (with_mt (mintime_resource_remove p) ctx)) q = remaining_of (sp_store ctx) q"
  by (simp_all add: with_mt_def mintime_resource_insert_def mintime_resource_remove_def split: prod.split)

lemma ordered_same:
  assumes "remaining_of (sp_store ctx') = remaining_of (sp_store ctx)" and "mt_resource_tree ctx' = mt_resource_tree ctx"
    and "dimension ctx' = dimension ctx"
  shows "ordered ctx' = ordered ctx"
  using assms(2,3) below_remaining [OF assms(1)] by (simp add: ordered_def)

lemma ordered_untrack:
  assumes "ordered ctx" and "iter_inv ctx"
  shows "ordered (untrack_start p ctx)"
proof -
  have "distinct (inorder (mt_resource_tree ctx))" using assms(2) by (simp add: iter_inv_def ctx_mt_def mt_state_def)
  from ordered_remove [OF assms(1) this, of p] show ?thesis
    by (subst ordered_same [of _ "with_mt (mintime_resource_remove p) ctx"])
      (simp_all add: untrack_start_def track_points_def Let_def)
qed

lemma same_points_chain:
  assumes "same_points ctx ctx'" and "iter_inv ctx"
  shows "ctx_chain ctx' = ctx_chain ctx"
proof -
  have "dimension ctx' = dimension ctx" using assms(1) frame_fields(3) [of ctx' ctx] by (simp add: same_points_def)
  moreover have "points_of ctx' = points_of ctx" using assms(1) by (simp add: same_points_def)
  moreover have "remaining_of (sp_store ctx') p = remaining_of (sp_store ctx) p" if "p \<in> set (points_of ctx)" for p
    using same_points_deref(2) [OF assms(1)] assms(2) that by (simp add: iter_inv_def)
  ultimately show ?thesis by (simp add: chain_cong [of _ "sp_store ctx'" "sp_store ctx"])
qed

lemma ordered_restore_point:
  assumes "ordered ctx" and "iter_inv ctx" and "ctx_chain ctx"
  shows "ordered (restore_track_point k ctx)"
proof (cases "map_of (avail_time_iter ctx) k")
  case None
  then show ?thesis using assms by (simp add: restore_track_point_def)
next
  case (Some p)
  then have "p \<in> set (points_of ctx)" using assms(2) map_of_SomeD [OF Some] by (auto simp: iter_inv_def iter_ok_def)
  moreover have "set (inorder (mt_resource_tree ctx)) \<subseteq> set (points_of ctx)" using mt_points [OF assms(2)] by blast
  ultimately have "chain (sp_store ctx) (dimension ctx) (insert p (set (inorder (mt_resource_tree ctx))))"
    by (intro chain_mono [OF assms(3)]) auto
  from ordered_insert [OF assms(1) this] Some show ?thesis
    by (simp add: restore_track_point_def) (simp add: ordered_def)
qed

lemma ordered_restore:
  assumes "ordered ctx" and "iter_inv ctx" and "ctx_chain ctx"
  shows "ordered (restore_track_points zkeys ctx)"
proof -
  have "ordered (fold restore_track_point ks ctx)" for ks
    using assms
  proof (induction ks arbitrary: ctx)
    case (Cons k ks)
    note r = restore_track_point_ok [OF Cons.prems(2), of k]
    have "ordered (fold restore_track_point ks (restore_track_point k ctx))"
      by (rule Cons.IH) (use ordered_restore_point [OF Cons.prems] r same_points_chain [OF r(2) Cons.prems(2)] Cons.prems(3) in simp_all)
    then show ?case by simp
  qed simp
  then show ?thesis by (simp add: restore_track_points_def)
qed

lemma ordered_avail_loop:
  "ordered ctx \<Longrightarrow> iter_inv ctx \<Longrightarrow> ordered (fst (avail_at_loop n on_or_aft duration ra len t ctx))"
proof (induction n arbitrary: t ctx)
  case (Suc n)
  show ?case
  proof (cases "mintime_resource_mintime (sp_store ctx) ra len (mt_resource_tree ctx)")
    case (Some p)
    from mintime_resource_mintime_mem [OF Some] have "p \<in> set (inorder (mt_resource_tree ctx))" .
    with mt_points [OF Suc.prems(2)] have "p \<in> set (points_of ctx)" "p \<notin> tracked ctx" by auto
    from untrack_start_ok [OF Suc.prems(2) this] have it: "iter_inv (untrack_start p ctx)" by simp
    note o = ordered_untrack [OF Suc.prems, of p]
    show ?thesis
      using Suc.IH [OF o it] o Suc.prems Some by (auto simp: Let_def span_ok_def)
  qed (use Suc.prems in simp)
qed simp

lemma ordered_time_first:
  assumes "ordered ctx" and "planner_inv ctx" and "zkeys_ok zkeys" and "ctx_chain ctx"
  shows "ordered (fst (planner_avail_time_first zkeys on_or_aft duration counts len ctx))"
proof -
  note it = planner_invD(3) [OF assms(2)]
  define c where "c = (restore_track_points zkeys ctx)\<lparr>avail_time_iter_set := True,
      current_request := copy_req on_or_aft duration counts len\<rparr>"
  have "ordered c" using ordered_restore [OF assms(1) it assms(4)] by (simp add: c_def ordered_def)
  moreover have "iter_inv c" using restore_track_points_ok(1) [OF it assms(3)] by (simp add: c_def)
  ultimately have "ordered (fst (avail_at on_or_aft duration (map i64 counts) len c))"
    unfolding avail_at_def by (rule ordered_avail_loop)
  then show ?thesis
    using assms(1) by (auto simp: planner_avail_time_first_def Let_def c_def [symmetric] split: prod.split)
qed

section \<open>Adding a span over one point\<close>

text \<open>The usages at some times: within the totals, and comparable with each other.\<close>

definition levels :: "resource_array \<Rightarrow> nat \<Rightarrow> span list \<Rightarrow> int set \<Rightarrow> bool" where
  "levels tot n ss T \<longleftrightarrow>
     (\<forall>t\<in>T. (\<forall>i<PLANNER_NUM_TYPES. 0 \<le> usage ss i t \<and> usage ss i t \<le> tot ! i) \<and>
       (\<forall>u\<in>T. (\<forall>i<n. usage ss i t \<le> usage ss i u) \<or> (\<forall>i<n. usage ss i u \<le> usage ss i t)))"

definition totals_fit :: "resource_array \<Rightarrow> bool" where
  "totals_fit tot \<longleftrightarrow> length tot = PLANNER_NUM_TYPES \<and> (\<forall>x\<in>set tot. 0 \<le> x \<and> x \<le> INT64_MAX) \<and> sum_list tot \<le> 2147483647"

lemma levels_mono: "levels tot n ss T \<Longrightarrow> U \<subseteq> T \<Longrightarrow> levels tot n ss U"
  unfolding levels_def by blast

lemma chain_levels:
  assumes sched: "ctx_sched ss rc ctx" and tot: "totals_fit (total_resources ctx)" and n: "n \<le> PLANNER_NUM_TYPES"
    and lv: "levels (total_resources ctx) n ss (at_of (sp_store ctx) ` set (points_of ctx))"
  shows "chain (sp_store ctx) n (set (points_of ctx))"
proof -
  let ?h = "sp_store ctx" and ?tot = "total_resources ctx"
  have nth: "0 \<le> ?tot ! i \<and> ?tot ! i \<le> INT64_MAX" if "i < PLANNER_NUM_TYPES" for i
    using tot that by (auto simp: totals_fit_def)
  have rem: "remaining_of ?h p ! i = ?tot ! i - usage ss i (at_of ?h p)" "length (remaining_of ?h p) = PLANNER_NUM_TYPES"
      "0 \<le> usage ss i (at_of ?h p)" "usage ss i (at_of ?h p) \<le> ?tot ! i"
    if "p \<in> set (points_of ctx)" "i < PLANNER_NUM_TYPES" for p i
  proof -
    show u: "0 \<le> usage ss i (at_of ?h p)" "usage ss i (at_of ?h p) \<le> ?tot ! i" using lv that by (auto simp: levels_def)
    show "length (remaining_of ?h p) = PLANNER_NUM_TYPES" "remaining_of ?h p ! i = ?tot ! i - usage ss i (at_of ?h p)"
      using ctx_schedD(6) [OF sched that(1)] that(2) u nth [OF that(2)]
      by (simp_all add: point_ok_def remaining_of_def at_of_def in_i64_def)
  qed
  have "sized ?h n p" if p: "p \<in> set (points_of ctx)" for p
  proof -
    let ?r = "remaining_of ?h p"
    have len: "length ?r = PLANNER_NUM_TYPES" using rem(2) [OF p, of 0] by simp
    have nn: "0 \<le> ?r ! i \<and> ?r ! i \<le> ?tot ! i" if "i < PLANNER_NUM_TYPES" for i using rem [OF p that] by simp
    have "sum_list (take n ?r) \<le> sum_list (take n ?tot)"
      using nn n len tot by (intro sum_list_mono2) (auto simp: totals_fit_def)
    also have "\<dots> \<le> sum_list (take n ?tot) + sum_list (drop n ?tot)"
      using tot by (auto simp: totals_fit_def intro!: sum_list_nonneg dest: in_set_dropD)
    also have "\<dots> = sum_list ?tot" by (metis append_take_drop_id sum_list_append)
    also have "\<dots> \<le> 2147483647" using tot by (simp add: totals_fit_def)
    finally have sum: "sum_list (take n ?r) \<le> 2147483647" .
    have "0 \<le> x \<and> x \<le> INT64_MAX" if "x \<in> set (take n ?r)" for x
    proof -
      from that obtain i where i: "i < n" "x = ?r ! i" using len n by (auto simp: in_set_conv_nth)
      then have "i < PLANNER_NUM_TYPES" using n by simp
      with nn nth i(2) show ?thesis by (meson order_trans)
    qed
    with sum len n show ?thesis by (simp add: sized_def counts_fit_def request_ok_def)
  qed
  moreover have "below ?h n p q \<or> below ?h n q p" if p: "p \<in> set (points_of ctx)" and q: "q \<in> set (points_of ctx)" for p q
  proof -
    have "(\<forall>i<n. usage ss i (at_of ?h p) \<le> usage ss i (at_of ?h q)) \<or> (\<forall>i<n. usage ss i (at_of ?h q) \<le> usage ss i (at_of ?h p))"
      using lv p q by (simp add: levels_def)
    then show ?thesis using rem(1) [OF p] rem(1) [OF q] n by (auto simp: below_def)
  qed
  ultimately show ?thesis by (simp add: chain_def)
qed

lemma chain_image:
  assumes "chain h' n Q" and "\<And>p. p \<in> P \<Longrightarrow> \<exists>q\<in>Q. remaining_of h p = remaining_of h' q"
  shows "chain h n P"
  unfolding chain_def
proof (intro ballI conjI)
  fix p assume "p \<in> P"
  then obtain p' where p': "p' \<in> Q" "remaining_of h p = remaining_of h' p'" using assms(2) by blast
  then show "sized h n p" using assms(1) by (simp add: chain_def sized_def)
  fix q assume "q \<in> P"
  then obtain q' where "q' \<in> Q" "remaining_of h q = remaining_of h' q'" using assms(2) by blast
  with p' assms(1) show "below h n p q \<or> below h n q p" by (simp add: chain_def below_def)
qed

lemma ordered_get_or_new:
  assumes sched: "ctx_sched ss rc ctx" and it: "iter_inv ctx" "avail_time_iter ctx = []" and t: "time_ok t" "plan_start ctx \<le> t"
    and fresh: "\<forall>p\<ge>length (sp_store ctx). rc p = 0"
    and o: "ordered ctx" "ctx_chain ctx" and g: "get_or_new_point t ctx = Some (ctx', p)"
  shows "ordered ctx'" and "ctx_chain ctx'"
proof -
  let ?h = "sp_store ctx" and ?n = "length (sp_store ctx)"
  have "ordered ctx' \<and> ctx_chain ctx'"
  proof (cases "scheduled_point_search ?h t (sched_point_tree ctx)")
    case (Some q)
    then show ?thesis using g o by (simp add: get_or_new_point_def)
  next
    case None
    note sorted = ctx_schedD(2) [OF sched]
    obtain q where q: "scheduled_point_state ?h t (sched_point_tree ctx) = Some q" "q \<in> set (points_of ctx)"
      using state_at [OF sched t] by metis
    define pt where "pt = \<lparr>sp_at = t, in_mt_resource_tree = False, new_point = True, ref_count = 0,
        scheduled = scheduled (deref ?h q), remaining = remaining (deref ?h q)\<rparr>"
    define spt where "spt = (case scheduled_point_insert (?h @ [pt]) ?n (sched_point_tree ctx) of
        Some spt \<Rightarrow> spt | None \<Rightarrow> sched_point_tree ctx)"
    define c1 where "c1 = ctx\<lparr>sp_store := ?h @ [pt], sched_point_tree := spt\<rparr>"
    have c': "ctx' = with_mt (mintime_resource_insert (dimension c1) ?n) c1"
      using g None q(1) by (auto simp: get_or_new_point_def Let_def c1_def pt_def spt_def)
    have lt: "x < ?n" if "x \<in> set (points_of ctx)" for x using ctx_schedD(5) [OF sched that] .
    have rem: "remaining_of (sp_store c1) x = remaining_of ?h x" if "x < ?n" for x
      using that by (simp add: c1_def remaining_of_def deref_def nth_append)
    have rn: "remaining_of (sp_store c1) ?n = remaining_of ?h q"
      by (simp add: c1_def remaining_of_def deref_def pt_def)
    have mem: "set (inorder (mt_resource_tree ctx)) \<subseteq> set (points_of ctx)" using mt_points [OF it(1)] by blast
    have "mt_sorted (sp_store c1) (dimension ctx) (inorder (mt_resource_tree ctx))"
      using o(1) unfolding ordered_def
      by (rule sorted_wrt_mono_rel [rotated]) (use mem lt rem in \<open>auto simp: below_def subset_iff\<close>)
    then have o1: "ordered c1" by (simp add: ordered_def c1_def)
    have "chain (sp_store c1) (dimension ctx) (insert ?n (set (points_of ctx)))"
      by (rule chain_image [OF o(2)]) (use rn q(2) rem lt in auto)
    then have ch: "chain (sp_store c1) (dimension c1) (insert ?n (set (points_of ctx)))" by (simp add: c1_def)
    have o2: "ordered ctx'" unfolding c'
      by (rule ordered_insert [OF o1 chain_mono [OF ch]]) (use mem in \<open>auto simp: c1_def\<close>)
    have "set (points_of ctx') \<subseteq> insert ?n (set (points_of ctx))"
    proof (rule get_or_new_point_ok [OF sched it t fresh])
      fix c2 p2
      assume g2: "get_or_new_point t ctx = Some (c2, p2)" and s2: "ctx_sched ss rc c2" and p2: "p2 \<in> set (points_of c2)"
        "at_of (sp_store c2) p2 = t"
        and old: "\<And>q. q \<in> set (points_of c2) \<Longrightarrow> at_of (sp_store c2) q \<noteq> t \<Longrightarrow> q \<in> set (points_of ctx)"
      have "c2 = ctx'" "p2 = p" using g g2 by simp_all
      moreover have "p = ?n" using g None q(1) by (auto simp: get_or_new_point_def Let_def)
      ultimately show ?thesis using sp_sorted_inj [OF ctx_schedD(2) [OF s2]] p2 old by blast
    qed
    then have "chain (sp_store c1) (dimension c1) (set (points_of ctx'))" by (rule chain_mono [OF ch])
    moreover have "chain (sp_store ctx') (dimension c1) (set (points_of ctx')) = chain (sp_store c1) (dimension c1) (set (points_of ctx'))"
      by (rule chain_cong) (simp add: c')
    moreover have "dimension ctx' = dimension c1" by (simp add: c')
    ultimately show ?thesis using o2 by simp
  qed
  then show "ordered ctx'" and "ctx_chain ctx'" by auto
qed

lemma update_one_ordered:
  assumes mt: "ctx_mt M ctx" and a: "a < length (sp_store ctx)"
    and rest: "mt_sorted (sp_store ctx) (dimension ctx) (filter (\<lambda>q. q \<noteq> a) (inorder (mt_resource_tree ctx)))"
    and ch: "chain (sp_store ctx) (dimension ctx) (insert a M)"
  shows "ordered (update_mintime_point a ctx)"
proof -
  have m: "distinct (inorder (mt_resource_tree ctx))" "set (inorder (mt_resource_tree ctx)) = M"
    using mt by (auto simp: ctx_mt_def mt_state_def)
  define c1 where "c1 = (if in_mt_resource_tree (deref (sp_store ctx) a) then with_mt (mintime_resource_remove a) ctx else ctx)"
  have t1: "inorder (mt_resource_tree c1) = filter (\<lambda>q. q \<noteq> a) (inorder (mt_resource_tree ctx))"
    using m ctx_mt_flag [OF mt a]
    by (auto simp: c1_def with_mt_def mintime_resource_remove_def filter_neq_absent)
  have d1: "dimension c1 = dimension ctx" "remaining_of (sp_store c1) q = remaining_of (sp_store ctx) q" for q
    by (simp_all add: c1_def)
  have "below (sp_store c1) = below (sp_store ctx)" using d1(2) by (intro below_remaining) (simp add: fun_eq_iff)
  then have o1: "ordered c1" using rest by (simp add: ordered_def t1 d1)
  have "chain (sp_store ctx) (dimension c1) (insert a (set (inorder (mt_resource_tree c1))))"
    using m by (intro chain_mono [OF ch [folded d1(1)]]) (auto simp: t1)
  then have "chain (sp_store c1) (dimension c1) (insert a (set (inorder (mt_resource_tree c1))))"
    by (subst chain_cong [of _ _ "sp_store ctx"]) (simp_all add: d1(2))
  from ordered_insert [OF o1 this] o1 show ?thesis
    by (simp add: update_mintime_point_def Let_def c1_def [symmetric])
qed

lemma ordered_incr [simp]: "ordered (incr_ref d p ctx) = ordered ctx" "chain (sp_store (incr_ref d p ctx)) (dimension (incr_ref d p ctx)) P = chain (sp_store ctx) (dimension ctx) P"
proof -
  have r: "remaining_of (sp_store (incr_ref d p ctx)) = remaining_of (sp_store ctx)" by (simp add: incr_ref_def fun_eq_iff)
  then show "ordered (incr_ref d p ctx) = ordered ctx" by (rule ordered_same) (simp_all add: incr_ref_def)
  show "chain (sp_store (incr_ref d p ctx)) (dimension (incr_ref d p ctx)) P = chain (sp_store ctx) (dimension ctx) P"
    using chain_cong [of P "sp_store (incr_ref d p ctx)" "sp_store ctx"] r by (simp add: incr_ref_def)
qed

lemma filter_only: "distinct xs \<Longrightarrow> x \<in> set xs \<Longrightarrow> (\<And>y. y \<in> set xs \<Longrightarrow> P y \<longleftrightarrow> y = x) \<Longrightarrow> filter P xs = [x]"
proof (induction xs)
  case (Cons y xs)
  show ?case
  proof (cases "y = x")
    case True
    with Cons.prems have "\<forall>z\<in>set xs. \<not> P z" by auto
    with True Cons.prems show ?thesis by (simp add: filter_False)
  next
    case False
    then show ?thesis using Cons by auto
  qed
qed simp

lemma insert_span_one:
  assumes sched: "ctx_sched ss (refs (p0 ctx) ss) ctx" and live: "live ss ctx"
    and it: "iter_inv ctx" and z: "zkeys_ok zkeys"
    and shape: "span_shape s" and start: "plan_start ctx \<le> span_start s" and last: "span_last s = span_start s + duration"
    and gap: "\<forall>p\<in>set (points_of ctx). \<not> (span_start s < at_of (sp_store ctx) p \<and> at_of (sp_store ctx) p < span_last s)"
    and o: "ordered ctx" and tot: "totals_fit (total_resources ctx)" and n: "dimension ctx \<le> PLANNER_NUM_TYPES"
    and lv: "levels (total_resources ctx) (dimension ctx) ss (at_of (sp_store ctx) ` set (points_of ctx))"
    and lv': "levels (total_resources ctx) (dimension ctx) (s # ss)
      (insert (span_start s) (insert (span_last s) (at_of (sp_store ctx) ` set (points_of ctx))))"
    and ins: "insert_span zkeys s duration ctx = Some (ctx', e)"
  shows "ordered ctx'"
proof -
  define c1 where "c1 = restore_track_points zkeys ctx"
  note r1 = restore_track_points_ok [OF it z, folded c1_def]
  have f1: "frame_of c1 = frame_of ctx" "points_of c1 = points_of ctx" using r1(2) by (simp_all add: same_points_def)
  have p1: "plan_start c1 = plan_start ctx" "p0 c1 = p0 ctx" using f1(1) by (blast intro: frame_fields)+
  have s1: "ctx_sched ss (refs (p0 c1) ss) c1" using same_points_sched [OF r1(2) sched] by (simp add: p1)
  have l1: "live ss c1" using live by (simp add: live_def f1 p1)
  have ch: "ctx_chain ctx" using sched tot n lv by (rule chain_levels)
  have o1: "ordered c1" "ctx_chain c1"
    using ordered_restore [OF o it ch, of zkeys] same_points_chain [OF r1(2) it] ch by (simp_all add: c1_def)
  have start1: "plan_start c1 \<le> span_start s" using start p1 by simp
  from shape have tm: "time_ok (span_start s)" "time_ok (span_last s)" "span_start s < span_last s" "0 \<le> duration"
    using last by (auto simp: span_shape_def)
  let ?rc = "refs (p0 c1) ss"
  have fresh1: "\<forall>p\<ge>length (sp_store c1). ?rc p = 0" using refs_fresh [OF s1] by simp
  obtain c2 a where g2: "get_or_new_point (span_start s) c1 = Some (c2, a)" "ctx_sched ss ?rc c2" "iter_inv c2"
      "avail_time_iter c2 = []" "frame_of c2 = frame_of c1" "a \<in> set (points_of c2)" "at_of (sp_store c2) a = span_start s"
      "length (sp_store c1) \<le> length (sp_store c2)"
      "\<And>q. q \<in> set (points_of c1) \<Longrightarrow> q \<in> set (points_of c2) \<and> at_of (sp_store c2) q = at_of (sp_store c1) q"
      "\<And>q. q \<in> set (points_of c2) \<Longrightarrow> at_of (sp_store c2) q \<noteq> span_start s \<Longrightarrow> q \<in> set (points_of c1)"
    by (rule get_or_new_point_ok [OF s1 r1(1,3) tm(1) start1 fresh1]) blast
  note o2 = ordered_get_or_new [OF s1 r1(1,3) tm(1) start1 fresh1 o1 g2(1)]
  let ?c3 = "incr_ref 1 a c2"
  note r3 = incr_ref_ok [OF g2(2,3,6), of 1]
  have p3: "plan_start ?c3 = plan_start c1" using g2(5) by (auto intro: frame_fields)
  have fresh3: "\<forall>p\<ge>length (sp_store ?c3). (?rc(a := ?rc a + 1)) p = 0"
    using fresh1 g2(8) ctx_schedD(5) [OF g2(2,6)] by auto
  have start3: "plan_start ?c3 \<le> span_last s" and it3: "avail_time_iter ?c3 = []"
    using start1 p3 tm(3) g2(4) by simp_all
  obtain c4 b where g4: "get_or_new_point (span_last s) ?c3 = Some (c4, b)" "ctx_sched ss (?rc(a := ?rc a + 1)) c4" "iter_inv c4"
      "at_of (sp_store c4) b = span_last s"
      "\<And>q. q \<in> set (points_of ?c3) \<Longrightarrow> q \<in> set (points_of c4) \<and> at_of (sp_store c4) q = at_of (sp_store ?c3) q"
      "\<And>q. q \<in> set (points_of c4) \<Longrightarrow> at_of (sp_store c4) q \<noteq> span_last s \<Longrightarrow> q \<in> set (points_of ?c3)"
    by (rule get_or_new_point_ok [OF r3 it3 tm(2) start3 fresh3]) blast
  have o3: "ordered ?c3" "ctx_chain ?c3" using o2 by (simp_all add: ordered_incr)
  note o4 = ordered_get_or_new [OF r3 it3 tm(2) start3 fresh3 o3 g4(1)]
  define c5 where "c5 = incr_ref 1 b c4"
  have o5: "ordered c5" using o4 by (simp add: c5_def ordered_incr)
  have g: "ctx_sched ss (refs (p0 c5) (placed_at a b s # ss)) c5"
      "live (placed_at a b s # ss) c5" "iter_inv c5" "avail_time_iter c5 = []" "frame_of c5 = frame_of c1"
      "span_placed (sp_store c5) (points_of c5) (placed_at a b s)"
    by (rule place_ends [OF s1 l1 r1(1,3) shape start1]; use g2(1) g4(1) in \<open>simp add: c5_def\<close>)+
  let ?s' = "placed_at a b s" and ?T = "insert (span_start s) (insert (span_last s) (at_of (sp_store ctx) ` set (points_of ctx)))"
  have at1: "at_of (sp_store c1) q = at_of (sp_store ctx) q" if "q \<in> set (points_of ctx)" for q
    using same_points_deref(1) [OF r1(2)] ctx_schedD(5) [OF sched that] by simp
  have c5: "points_of c5 = points_of c4" "\<And>q. at_of (sp_store c5) q = at_of (sp_store c4) q" by (simp_all add: c5_def)
  have old: "q \<in> set (points_of ctx) \<and> at_of (sp_store c5) q = at_of (sp_store ctx) q"
    if "q \<in> set (points_of c5)" "at_of (sp_store c5) q \<noteq> span_start s" "at_of (sp_store c5) q \<noteq> span_last s" for q
    using that g4(5,6) [of q] g2(9,10) [of q] at1 f1(2) by (auto simp: c5)
  have T: "at_of (sp_store c5) ` set (points_of c5) \<subseteq> ?T" using old by force
  have a5: "a \<in> set (points_of c5)" "at_of (sp_store c5) a = span_start s"
    using g(6) by (auto simp: span_placed_def)
  have one: "active_at (at_of (sp_store c5) q) ?s' \<longleftrightarrow> q = a" if q: "q \<in> set (points_of c5)" for q
  proof (cases "at_of (sp_store c5) q = span_start s")
    case True
    then have "q = a" using sp_sorted_inj [OF ctx_schedD(2) [OF g(1)] q a5(1)] a5(2) by simp
    with True tm(3) show ?thesis by (simp add: active_at_def)
  next
    case False
    have "\<not> active_at (at_of (sp_store c5) q) ?s'"
    proof
      assume "active_at (at_of (sp_store c5) q) ?s'"
      then have b: "span_start s < at_of (sp_store c5) q" "at_of (sp_store c5) q < span_last s"
        using False by (auto simp: active_at_def)
      with old [OF q False] gap show False by auto
    qed
    with False a5(2) show ?thesis by auto
  qed
  have f5: "total_resources c5 = total_resources ctx" "dimension c5 = dimension ctx" "plan_start c5 = plan_start ctx"
    using g(5) f1(1) by (auto intro: frame_fields)
  have ps: "[a] = filter (\<lambda>p. active_at (at_of (sp_store c5) p) ?s') (points_of c5)"
    using filter_only [OF sp_sorted_distinct [OF ctx_schedD(2) [OF g(1)]] a5(1)] one by simp
  have fetch: "fetch_overlap_points (span_start s) duration c5 = [a]"
    using fetch_overlap_points_eq [OF g(1) tm(1) _ tm(4)] tm start f5(3) last
    by (simp add: ps active_at_def)
  define c6 where "c6 = fst (update_points_add_span [a] ?s' c5)"
  note r6 = update_points_add_ok [OF g(1,3,6) ps, folded c6_def]
  define c7 where "c7 = clear_new b (clear_new a c6)"
  note k = clear_new_ok [OF r6(2), of a] clear_new_ok [OF clear_new_ok(2) [OF r6(2), of a], of b]
  have sp7: "same_points c6 c7" and it7: "iter_inv c7" using k by (auto simp: c7_def intro: same_points_trans)
  have s7: "ctx_sched (?s' # ss) (refs (p0 c5) (?s' # ss)) c7" using sp7 r6(1) by (rule same_points_sched)
  have f7: "frame_of c7 = frame_of c5" "points_of c7 = points_of c5" "avail_time_iter c7 = []"
    using sp7 g(4) by (simp_all add: same_points_def c7_def c6_def)
  have d7: "total_resources c7 = total_resources ctx" "dimension c7 = dimension ctx"
    using f7(1) f5 by (metis frame_fields(1), metis frame_fields(3))
  have rem7: "remaining_of (sp_store c7) q = remaining_of (sp_store c5) q" if "q \<noteq> a" for q
    using that by (simp add: c7_def c6_def clear_new_def update_points_add_span_def Let_def)
      (simp add: remaining_of_def deref_upd_point)
  have at7: "at_of (sp_store c7) q = at_of (sp_store c5) q" for q
    by (simp add: c7_def c6_def clear_new_def update_points_add_span_def Let_def at_of_def deref_upd_point add_to_point_def)
  have lv7: "levels (total_resources c7) (dimension c7) (?s' # ss) (at_of (sp_store c7) ` set (points_of c7))"
    using levels_mono [OF lv' T] by (simp add: levels_def d7 f7 at7)
  have ch7: "ctx_chain c7" by (rule chain_levels [OF s7 _ _ lv7]) (use tot n in \<open>simp_all add: d7\<close>)
  have mt7: "ctx_mt (set (points_of c7)) c7" using it7 f7(3) by (simp add: iter_inv_def)
  have a7: "a \<in> set (points_of c7)" "a < length (sp_store c7)" using a5 f7(2) ctx_schedD(5) [OF s7] by simp_all
  have "mt_sorted (sp_store c5) (dimension ctx) (filter (\<lambda>q. q \<noteq> a) (inorder (mt_resource_tree c5)))"
    using o5 by (simp add: ordered_def f5 sorted_wrt_filter)
  then have "mt_sorted (sp_store c7) (dimension ctx) (filter (\<lambda>q. q \<noteq> a) (inorder (mt_resource_tree c5)))"
    by (rule sorted_wrt_mono_rel [rotated]) (use rem7 in \<open>auto simp: below_def\<close>)
  moreover have "mt_resource_tree c7 = mt_resource_tree c5"
    by (simp add: c7_def c6_def clear_new_def update_points_add_span_def Let_def)
  ultimately have o8: "ordered (update_mintime_point a c7)"
    by (intro update_one_ordered [OF mt7 a7(2)]) (use ch7 a7(1) in \<open>simp_all add: d7 insert_absorb\<close>)
  have upd: "update_points_add_span [a] s c5 = (c6, snd (update_points_add_span [a] ?s' c5))"
    by (simp add: c6_def update_points_add_span_def add_to_point_def [abs_def] Let_def point_over_def)
  have "insert_span zkeys s duration ctx =
      Some ((update_mintime_point a c7)\<lparr>span_lookup := zhashx_modify (span_id s) (placed_at a b) (span_lookup (update_mintime_point a c7)),
        avail_time_iter_set := False\<rparr>, snd (update_points_add_span [a] ?s' c5))"
    by (simp add: insert_span_def Let_def c1_def [symmetric] g2(1) g4(1) c5_def [symmetric] fetch upd
        update_mintime_resource_tree_def c7_def [symmetric] placed_at_def [abs_def])
  with ins have r: "ctx' = (update_mintime_point a c7)\<lparr>span_lookup := zhashx_modify (span_id s) (placed_at a b) (span_lookup (update_mintime_point a c7)),
        avail_time_iter_set := False\<rparr>" "e = snd (update_points_add_span [a] ?s' c5)" by simp_all
  show "ordered ctx'" using o8 by (simp add: r(1) ordered_def)
qed

section \<open>The public operations\<close>

text \<open>The times at which something starts or ends.\<close>

definition edges_of :: "int \<Rightarrow> span list \<Rightarrow> int set" where
  "edges_of start ss = insert start (span_start ` set ss \<union> span_last ` set ss)"

lemma point_times:
  assumes "planner_inv ctx"
  shows "at_of (sp_store ctx) ` set (points_of ctx) = edges_of (plan_start ctx) (spans_of ctx)"
proof
  note I = planner_invD [OF assms]
  show "at_of (sp_store ctx) ` set (points_of ctx) \<subseteq> edges_of (plan_start ctx) (spans_of ctx)"
  proof
    fix t assume "t \<in> at_of (sp_store ctx) ` set (points_of ctx)"
    then obtain p where p: "p \<in> set (points_of ctx)" "t = at_of (sp_store ctx) p" by auto
    then have "refs (p0 ctx) (spans_of ctx) p \<noteq> 0" using I(2) by (simp add: live_def)
    then consider "p = p0 ctx" | s where "s \<in> set (spans_of ctx)" "start_p s = Some p \<or> last_p s = Some p"
      by (auto simp: refs_0)
    then show "t \<in> edges_of (plan_start ctx) (spans_of ctx)"
    proof cases
      case 1
      then show ?thesis using p ctx_schedD(4) [OF I(1)] by (simp add: edges_of_def)
    next
      case 2
      from ctx_schedD(8) [OF I(1) 2(1)] 2(2) p have "t = span_start s \<or> t = span_last s" by (auto simp: span_placed_def)
      with 2(1) show ?thesis by (auto simp: edges_of_def simp del: set_map)
    qed
  qed
  show "edges_of (plan_start ctx) (spans_of ctx) \<subseteq> at_of (sp_store ctx) ` set (points_of ctx)"
  proof
    fix t assume "t \<in> edges_of (plan_start ctx) (spans_of ctx)"
    then consider "t = plan_start ctx" | s where "s \<in> set (spans_of ctx)" "t = span_start s \<or> t = span_last s"
      by (auto simp: edges_of_def)
    then show "t \<in> at_of (sp_store ctx) ` set (points_of ctx)"
    proof cases
      case 1
      then show ?thesis using ctx_schedD(3,4) [OF I(1)] by (metis imageI)
    next
      case 2
      from ctx_schedD(8) [OF I(1) 2(1)] 2 show ?thesis by (force simp: span_placed_def)
    qed
  qed
qed

text \<open>An insertion within the totals sets no \<open>errno\<close>.\<close>

lemma insert_span_no_errno:
  assumes sched: "ctx_sched ss (refs (p0 ctx) ss) ctx" and live: "live ss ctx"
    and it: "iter_inv ctx" and z: "zkeys_ok zkeys"
    and shape: "span_shape s" and start: "plan_start ctx \<le> span_start s" and last: "span_last s = span_start s + duration"
    and fit: "\<And>i t. i < PLANNER_NUM_TYPES \<Longrightarrow> 0 \<le> usage (s # ss) i t \<and> usage (s # ss) i t \<le> total_resources ctx ! i"
    and max: "\<And>i. i < PLANNER_NUM_TYPES \<Longrightarrow> total_resources ctx ! i \<le> INT64_MAX"
    and ins: "insert_span zkeys s duration ctx = Some (ctx', e)"
  shows "e = None"
proof -
  define c1 where "c1 = restore_track_points zkeys ctx"
  note r1 = restore_track_points_ok [OF it z, folded c1_def]
  have f1: "frame_of c1 = frame_of ctx" "points_of c1 = points_of ctx" using r1(2) by (simp_all add: same_points_def)
  have p1: "plan_start c1 = plan_start ctx" "p0 c1 = p0 ctx" using f1(1) by (blast intro: frame_fields)+
  have s1: "ctx_sched ss (refs (p0 c1) ss) c1" using same_points_sched [OF r1(2) sched] by (simp add: p1)
  have l1: "live ss c1" using live by (simp add: live_def f1 p1)
  have start1: "plan_start c1 \<le> span_start s" using start p1 by simp
  obtain c2 a c4 b where g: "get_or_new_point (span_start s) c1 = Some (c2, a)"
      "get_or_new_point (span_last s) (incr_ref 1 a c2) = Some (c4, b)"
      "ctx_sched ss (refs (p0 (incr_ref 1 b c4)) (placed_at a b s # ss)) (incr_ref 1 b c4)"
      "iter_inv (incr_ref 1 b c4)" "frame_of (incr_ref 1 b c4) = frame_of c1"
      "span_placed (sp_store (incr_ref 1 b c4)) (points_of (incr_ref 1 b c4)) (placed_at a b s)"
    by (rule place_ends [OF s1 l1 r1(1,3) shape start1])
  define c5 where "c5 = incr_ref 1 b c4"
  let ?s' = "placed_at a b s"
  have f5: "total_resources c5 = total_resources ctx" "plan_start c5 = plan_start ctx"
    using g(5) f1(1) by (auto simp: c5_def intro: frame_fields)
  from shape have tm: "time_ok (span_start s)" "time_ok (span_last s)" "0 \<le> duration"
    using last by (auto simp: span_shape_def)
  define ps where "ps = fetch_overlap_points (span_start s) duration c5"
  have ps: "ps = filter (\<lambda>p. active_at (at_of (sp_store c5) p) ?s') (points_of c5)"
    using fetch_overlap_points_eq [OF g(3) [folded c5_def] tm(1) _ tm(3)] tm last start f5(2)
    by (simp add: ps_def active_at_def)
  define c6 where "c6 = fst (update_points_add_span ps ?s' c5)"
  note r6 = update_points_add_ok [OF g(3,4,6) [folded c5_def] ps, folded c6_def]
  have c6: "total_resources c6 = total_resources ctx" "points_of c6 = points_of c5"
    using f5 by (simp_all add: c6_def update_points_add_span_def Let_def)
  have over: "\<not> point_over c5 ?s' (deref (sp_store c6) p)" if "p \<in> set ps" for p
  proof -
    have ok: "point_ok (total_resources ctx) (?s' # ss) (deref (sp_store c6) p)"
      using ctx_schedD(6) [OF r6(1), of p] that c6 by (simp add: ps)
    have "scheduled (deref (sp_store c6) p) ! i \<le> total_resources ctx ! i \<and> 0 \<le> remaining (deref (sp_store c6) p) ! i"
      if i: "i < PLANNER_NUM_TYPES" for i
    proof -
      let ?u = "usage (s # ss) i (sp_at (deref (sp_store c6) p))"
      have "scheduled (deref (sp_store c6) p) ! i = i64 ?u" "remaining (deref (sp_store c6) p) ! i = i64 (total_resources ctx ! i - ?u)"
        using ok i by (simp_all add: point_ok_def)
      moreover have "in_i64 ?u" "in_i64 (total_resources ctx ! i - ?u)"
        using fit [OF i, of "sp_at (deref (sp_store c6) p)"] max [OF i] by (simp_all add: in_i64_def)
      ultimately show ?thesis using fit [OF i, of "sp_at (deref (sp_store c6) p)"] by simp
    qed
    then have "\<forall>i<span_dimension s. scheduled (deref (sp_store c6) p) ! i \<le> total_resources ctx ! i \<and> 0 \<le> remaining (deref (sp_store c6) p) ! i"
      using shape by (simp add: span_shape_def)
    then show ?thesis by (fastforce simp: point_over_def f5)
  qed
  have "update_points_add_span ps s c5 = (c6, None)"
    using over by (auto simp: c6_def update_points_add_span_def add_to_point_def [abs_def] Let_def point_over_def)
  with ins show "e = None"
    by (simp add: insert_span_def Let_def c1_def [symmetric] g(1,2) c5_def [symmetric] ps_def [symmetric])
qed

section \<open>Adding a span that fits\<close>

definition same_plan :: "planner \<Rightarrow> planner \<Rightarrow> bool" where
  "same_plan ctx ctx' \<longleftrightarrow> total_resources ctx' = total_resources ctx \<and> resource_types ctx' = resource_types ctx \<and>
     dimension ctx' = dimension ctx \<and> plan_start ctx' = plan_start ctx \<and> plan_end ctx' = plan_end ctx"

lemma fields_of_frame:
  assumes "frame_of ctx' = (frame_of ctx)\<lparr>avail_time_iter_set := b, span_counter := n, span_lookup := l\<rparr>"
  shows "span_lookup ctx' = l" and "span_counter ctx' = n" and "same_plan ctx ctx'"
  using assms [THEN arg_cong, of span_lookup] assms [THEN arg_cong, of span_counter]
    assms [THEN arg_cong, of total_resources] assms [THEN arg_cong, of resource_types] assms [THEN arg_cong, of dimension]
    assms [THEN arg_cong, of plan_start] assms [THEN arg_cong, of plan_end]
  by (simp_all add: frame_of_def same_plan_def)

lemma add_span_fits:
  assumes inv: "planner_inv ctx" and b: "bounded ctx" and z: "zkeys_ok zkeys"
    and req: "request_ok len counts" and len: "len \<le> PLANNER_NUM_TYPES"
    and t: "plan_start ctx \<le> t" "1 \<le> duration" "t + duration \<le> plan_end ctx"
    and fits: "fits_window ctx t duration counts len"
    and chk: "span_input_check ctx t duration (map i64 counts) len = None" and n: "span_counter ctx < INT64_MAX"
  defines "s \<equiv> new_span t duration counts len (span_counter ctx + 1)"
  obtains ctx' u v where "planner_add_span zkeys t duration counts len ctx = Some (ctx', span_counter ctx + 1, None)"
    and "planner_inv ctx'" and "bounded ctx'" and "same_plan ctx ctx'" and "span_counter ctx' = span_counter ctx + 1"
    and "span_lookup ctx' = (span_counter ctx + 1, placed_at u v s) # span_lookup ctx"
    and "ordered ctx \<Longrightarrow> \<forall>x\<in>edges_of (plan_start ctx) (spans_of ctx). \<not> (t < x \<and> x < t + duration) \<Longrightarrow>
      levels (total_resources ctx) (dimension ctx) (spans_of ctx) (edges_of (plan_start ctx) (spans_of ctx)) \<Longrightarrow>
      levels (total_resources ctx) (dimension ctx) (s # spans_of ctx) (edges_of (plan_start ctx) (s # spans_of ctx)) \<Longrightarrow> ordered ctx'"
proof -
  note done_ = that
  note I = planner_invD [OF inv] and r = request_ok_i64 [OF req]
  have args: "add_args_ok t duration counts len"
    using t req I(8) by (auto simp: add_args_ok_def request_ok_def time_ok_def)
  have win: "fits_window ctx t duration (map i64 counts) len" using fits r(2) by (simp add: fits_window_def)
  have avail: "fst (avail_during t duration (map i64 counts) len ctx)"
    using avail_during_iff [OF inv b r(1) len t] win by simp
  obtain ctx' e u v where p: "planner_add_span zkeys t duration counts len ctx = Some (ctx', span_counter ctx + 1, e)" "planner_inv ctx'"
      "frame_of ctx' = (frame_of ctx)\<lparr>avail_time_iter_set := False, span_counter := span_counter ctx + 1,
        span_lookup := (span_counter ctx + 1, placed_at u v s) # span_lookup ctx\<rparr>"
    by (rule planner_add_span_ok [OF inv z args n avail chk]) (simp add: s_def)
  note f = fields_of_frame [OF p(3)]
  have planned: "planned s = padded len counts" "span_start s = t" "span_last s = t + duration"
    using r(3) by (simp_all add: s_def new_span_def)
  have nn: "\<forall>x\<in>set (planned s). 0 \<le> x" using req by (auto simp: planned padded_def request_ok_def)
  have b': "bounded ctx'"
  proof (rule bounded_add [OF b])
    show "spans_of ctx' = placed_at u v s # spans_of ctx" by (simp add: f)
    show "total_resources ctx' = total_resources ctx" using f(3) by (simp add: same_plan_def)
    show "planned s ! i \<le> free_at ctx i x" if i: "i < PLANNER_NUM_TYPES" "active_at x s" for x i
    proof (cases "i < len")
      case True
      then show ?thesis using fits i req by (simp add: fits_window_def active_at_def planned nth_padded request_ok_def)
    next
      case False
      then show ?thesis using free_bounds(1) [OF inv b i(1)] i req by (simp add: planned nth_padded request_ok_def)
    qed
  qed (rule nn)
  define c0 where "c0 = ctx\<lparr>span_counter := span_counter ctx + 1, span_lookup := (span_counter ctx + 1, s) # span_lookup ctx\<rparr>"
  note new = span_new_ok [OF inv args n chk, folded s_def, folded c0_def]
  have ins: "insert_span zkeys s duration c0 = Some (ctx', e)"
    using p(1) avail new(1) by (auto simp: planner_add_span_def split: option.splits)
  have c0: "ctx_sched (spans_of ctx) (refs (p0 c0) (spans_of ctx)) c0" "live (spans_of ctx) c0" "iter_inv c0"
    using I(1-3) by (simp_all add: c0_def ctx_sched_def live_def iter_inv_def ctx_mt_def)
  have st: "plan_start c0 \<le> span_start s" "span_last s = span_start s + duration" using t by (simp_all add: c0_def planned)
  have us: "0 \<le> usage (s # spans_of ctx) i x \<and> usage (s # spans_of ctx) i x \<le> total_resources c0 ! i"
    if "i < PLANNER_NUM_TYPES" for i x
    using free_bounds(1,2) [OF p(2) b' that, of x] f by (simp add: free_at_def same_plan_def c0_def)
  have "e = None"
    by (rule insert_span_no_errno [OF c0 z new(2) st us _ ins]) (use I(5,9) in \<open>auto simp: c0_def\<close>)
  moreover have "ordered ctx'"
    if "ordered ctx" "\<forall>x\<in>edges_of (plan_start ctx) (spans_of ctx). \<not> (t < x \<and> x < t + duration)"
      "levels (total_resources ctx) (dimension ctx) (spans_of ctx) (edges_of (plan_start ctx) (spans_of ctx))"
      "levels (total_resources ctx) (dimension ctx) (s # spans_of ctx) (edges_of (plan_start ctx) (s # spans_of ctx))"
  proof (rule insert_span_one [OF c0 z new(2) st _ _ _ _ _ _ ins])
    have T: "at_of (sp_store c0) ` set (points_of c0) = edges_of (plan_start ctx) (spans_of ctx)"
      using point_times [OF inv] by (simp add: c0_def)
    show "\<forall>p\<in>set (points_of c0). \<not> (span_start s < at_of (sp_store c0) p \<and> at_of (sp_store c0) p < span_last s)"
      using that(2) T by (auto simp: planned)
    show "levels (total_resources c0) (dimension c0) (spans_of ctx) (at_of (sp_store c0) ` set (points_of c0))"
      using that(3) T by (simp add: c0_def)
    have "insert (span_start s) (insert (span_last s) (at_of (sp_store c0) ` set (points_of c0))) = edges_of (plan_start ctx) (s # spans_of ctx)"
      unfolding T by (auto simp: edges_of_def)
    then show "levels (total_resources c0) (dimension c0) (s # spans_of ctx)
        (insert (span_start s) (insert (span_last s) (at_of (sp_store c0) ` set (points_of c0))))"
      using that(4) by (simp add: c0_def)
  qed (use that(1) I(5,6,9) b in \<open>simp_all add: c0_def ordered_def totals_fit_def bounded_def\<close>)
  ultimately show thesis using done_ p(1,2) b' f by blast
qed

end
