(* ===== verification/Planner_Load.thy ===== *)
theory Planner_Load
  imports Planner_Order
begin

text \<open>
  A planner seen through its bookings: what it answers and how it stays in order, in terms of a list of
  bookings (start, end, planned resources) only.
\<close>

section \<open>Bookings\<close>

type_synonym booking = "int \<times> int \<times> int list"

definition load :: "booking list \<Rightarrow> nat \<Rightarrow> int \<Rightarrow> int" where
  "load bs i t = (\<Sum>(a, b, r)\<leftarrow>bs. if a \<le> t \<and> t < b then r ! i else 0)"

definition edge_times :: "booking list \<Rightarrow> int set" where
  "edge_times bs = insert 0 (fst ` set bs \<union> (\<lambda>b. fst (snd b)) ` set bs)"

lemma load_simps [simp]:
  "load [] i t = 0" "load ((a, b, r) # bs) i t = (if a \<le> t \<and> t < b then r ! i else 0) + load bs i t"
  by (simp_all add: load_def)

lemma edge_times_simps [simp]: "edge_times [] = {0}" "edge_times ((a, b, r) # bs) = insert a (insert b (edge_times bs))"
  by (auto simp: edge_times_def)

lemma load_usage: "load (map span_view ss) i t = usage ss i t"
  by (induction ss) (simp_all add: span_view_def active_at_def)

lemma edges_of_bookings: "edges_of 0 ss = edge_times (map span_view ss)"
  by (auto simp: edges_of_def edge_times_def span_view_def image_iff)

text \<open>A request that fits over the bookings at every time of a window.\<close>

definition fits :: "int list \<Rightarrow> booking list \<Rightarrow> int \<Rightarrow> int \<Rightarrow> int list \<Rightarrow> bool" where
  "fits tot bs t d counts \<longleftrightarrow> (\<forall>u i. t \<le> u \<and> u < t + d \<and> i < length counts \<longrightarrow> counts ! i + load bs i u \<le> tot ! i)"

text \<open>The loads at the edges are within the totals, and comparable with each other.\<close>

definition stacked :: "int list \<Rightarrow> nat \<Rightarrow> booking list \<Rightarrow> bool" where
  "stacked tot n bs \<longleftrightarrow>
     (\<forall>t\<in>edge_times bs. (\<forall>i<PLANNER_NUM_TYPES. 0 \<le> load bs i t \<and> load bs i t \<le> tot ! i) \<and>
       (\<forall>u\<in>edge_times bs. (\<forall>i<n. load bs i t \<le> load bs i u) \<or> (\<forall>i<n. load bs i u \<le> load bs i t)))"

section \<open>The planner of a list of bookings\<close>

definition keeps :: "int list \<Rightarrow> string list \<Rightarrow> nat \<Rightarrow> booking list \<Rightarrow> planner \<Rightarrow> bool" where
  "keeps tot types n bs ctx \<longleftrightarrow> planner_inv ctx \<and> bounded ctx \<and> map span_view (spans_of ctx) = bs \<and>
     total_resources ctx = tot \<and> resource_types ctx = types \<and> dimension ctx = n \<and> plan_start ctx = 0 \<and>
     plan_end ctx = INT64_MAX \<and> span_counter ctx = int (length bs)"

lemma keepsD:
  assumes "keeps tot types n bs ctx"
  shows "planner_inv ctx" and "bounded ctx" and "map span_view (spans_of ctx) = bs" and "total_resources ctx = tot"
    and "resource_types ctx = types" and "dimension ctx = n" and "plan_start ctx = 0" and "plan_end ctx = INT64_MAX"
    and "span_counter ctx = int (length bs)"
  using assms by (simp_all add: keeps_def)

lemma keeps_load: "keeps tot types n bs ctx \<Longrightarrow> usage (spans_of ctx) i t = load bs i t"
  using load_usage [of "spans_of ctx"] by (auto dest: keepsD(3))

lemma keeps_fits:
  assumes "keeps tot types n bs ctx"
  shows "fits_window ctx t d counts (length counts) = fits tot bs t d counts"
  using keeps_load [OF assms] keepsD(4) [OF assms]
  by (auto simp: fits_window_def fits_def free_at_def algebra_simps)

lemma keeps_levels:
  assumes "keeps tot types n bs ctx"
  shows "levels tot n (spans_of ctx) (edges_of 0 (spans_of ctx)) = stacked tot n bs"
  using keeps_load [OF assms] edges_of_bookings [of "spans_of ctx"] keepsD(3) [OF assms]
  by (simp add: levels_def stacked_def)

lemma keeps_new:
  assumes "length totals = n" and "n \<le> PLANNER_NUM_TYPES" and "length types = n" and "\<forall>x\<in>set totals. 0 \<le> x" and "sum_list totals \<le> 2147483647"
  obtains ctx where "planner_new 0 INT64_MAX totals types n = Inr ctx" and "keeps (padded n totals) types n [] ctx" and "ordered ctx"
proof
  let ?b = "blank_planner (padded n totals) types n"
  let ?c = "initialize 0 INT64_MAX ?b"
  have le: "x \<le> 2147483647" if "x \<in> set totals" for x using member_le_sum_list [OF that] assms(4,5) by fastforce
  then have max: "\<forall>x\<in>set totals. 0 \<le> x \<and> x \<le> INT64_MAX" using assms(4) by fastforce
  show "planner_new 0 INT64_MAX totals types n = Inr ?c"
    using max assms(1-3) by (auto simp: planner_new_def)
  have "totals_ok (dimension ?b) (total_resources ?b)"
    using totals_ok_padded [OF assms(2,1) max] by (simp add: blank_planner_def)
  from initialize_inv [OF this, of INT64_MAX 0] have inv: "planner_inv ?c" by simp
  have f: "total_resources ?c = padded n totals" "resource_types ?c = types" "dimension ?c = n" "span_lookup ?c = []"
      "span_counter ?c = 0" "plan_start ?c = 0" "plan_end ?c = INT64_MAX"
    by (simp_all add: initialize_def Let_def blank_planner_def with_mt_def in_i64_def split: prod.split)
  have "sum_list (padded n totals) \<le> 2147483647" using assms(1,5) by (simp add: padded_def sum_list_replicate)
  moreover have "0 \<le> padded n totals ! i" if "i < PLANNER_NUM_TYPES" for i
    using assms(1,2,4) that by (auto simp: nth_padded)
  ultimately have "bounded ?c" by (simp add: bounded_def f)
  with inv f show "keeps (padded n totals) types n [] ?c" by (simp add: keeps_def)
  show "ordered ?c"
    by (simp add: ordered_def initialize_def Let_def with_mt_def mintime_resource_insert_def split: prod.split)
qed

lemma keeps_during:
  assumes k: "keeps tot types n bs ctx" and req: "request_ok (length counts) counts" and len: "length counts \<le> n"
    and t: "0 \<le> t" "1 \<le> d" "t + d \<le> INT64_MAX" and f: "fits tot bs t d counts"
  shows "planner_avail_during ctx t d counts (length counts) = (0, None)"
proof -
  note K = keepsD [OF k] and r = request_ok_i64 [OF req]
  have len': "length counts \<le> PLANNER_NUM_TYPES" using planner_invD(6) [OF K(1)] len K(6) by simp
  have win: "fits_window ctx t d counts (length counts)" using keeps_fits [OF k] f by simp
  then have "counts ! i \<le> total_resources ctx ! i" if "i < length counts" for i
    using free_bounds(2) [OF K(1,2), of i t] that t len' unfolding fits_window_def by (smt (verit) order_less_le_trans)
  from within_totals [OF K(1,2) req len'] this avail_during_iff [OF K(1,2) r(1) len' _ t(2)] t K len win r(2)
  show ?thesis by (auto simp: planner_avail_during_def fits_window_def)
qed

lemma check_counts_pos:
  "list_all2 (\<le>) cs ts \<Longrightarrow> \<forall>c\<in>set cs. 0 \<le> c \<Longrightarrow> 0 \<le> acc \<Longrightarrow> acc + sum_list ts \<le> INT64_MAX \<Longrightarrow> 0 < acc + sum_list cs \<Longrightarrow>
     check_counts (zip cs ts) acc"
proof (induction cs ts arbitrary: acc rule: list_all2_induct)
  case (Cons c cs t ts)
  have "0 \<le> sum_list ts"
  proof (rule sum_list_nonneg)
    fix x assume "x \<in> set ts"
    then obtain i where i: "i < length ts" "x = ts ! i" by (auto simp: in_set_conv_nth)
    then have "i < length cs" "cs ! i \<le> ts ! i" using Cons.hyps(2) by (auto simp: list_all2_conv_all_nth)
    then show "0 \<le> x" using i(2) Cons.prems(1) nth_mem [of i cs] by (metis list.set_intros(2) order_trans)
  qed
  then have "i64 (acc + c) = acc + c" using Cons.hyps(1) Cons.prems by (intro i64_id) (auto simp: in_i64_def)
  with Cons show ?case by auto
qed simp

lemma keeps_add:
  assumes k: "keeps tot types n bs ctx" and z: "zkeys_ok zkeys" and req: "request_ok (length counts) counts"
    and len: "length counts \<le> n" and pos: "0 < sum_list counts"
    and t: "0 \<le> t" "1 \<le> d" "t + d \<le> INT64_MAX" and f: "fits tot bs t d counts" and few: "int (length bs) < INT64_MAX"
  obtains ctx' where "planner_add_span zkeys t d counts (length counts) ctx = Some (ctx', int (length bs) + 1, None)"
    and "keeps tot types n ((t, t + d, padded (length counts) counts) # bs) ctx'"
    and "ordered ctx \<Longrightarrow> \<forall>x\<in>edge_times bs. \<not> (t < x \<and> x < t + d) \<Longrightarrow> stacked tot n bs \<Longrightarrow>
      stacked tot n ((t, t + d, padded (length counts) counts) # bs) \<Longrightarrow> ordered ctx'"
proof -
  note done_ = that
  note K = keepsD [OF k] and r = request_ok_i64 [OF req]
  have len': "length counts \<le> PLANNER_NUM_TYPES" using planner_invD(6) [OF K(1)] len K(6) by simp
  have win: "fits_window ctx t d counts (length counts)" using keeps_fits [OF k] f by simp
  have le: "counts ! i \<le> tot ! i" if "i < length counts" for i
    using free_bounds(2) [OF K(1,2), of i t] that t len' win K(4) unfolding fits_window_def by (smt (verit) order_less_le_trans)
  have tot: "length tot = PLANNER_NUM_TYPES" "\<forall>x\<in>set tot. 0 \<le> x \<and> x \<le> INT64_MAX"
    using planner_invD(5,9) [OF K(1)] K(4) by auto
  have "sum_list (take (length counts) tot) + sum_list (drop (length counts) tot) \<le> 2147483647"
    using K(2,4) by (metis append_take_drop_id bounded_def sum_list_append)
  moreover have "0 \<le> sum_list (drop (length counts) tot)" using tot(2) by (auto intro!: sum_list_nonneg dest: in_set_dropD)
  ultimately have sum: "0 + sum_list (take (length counts) tot) \<le> INT64_MAX" by simp
  have i64c: "map i64 counts = counts" using req by (auto simp: request_ok_def in_i64_def intro!: map_idI)
  have "check_counts (zip counts (take (length counts) tot)) 0"
    by (rule check_counts_pos) (use le len' tot(1) req pos sum in \<open>auto simp: list_all2_conv_all_nth request_ok_def\<close>)
  then have chk: "span_input_check ctx t d (map i64 counts) (length counts) = None"
    using t K len' by (simp add: span_input_check_def not_feasable_def i64c u64_def)
  let ?s = "new_span t d counts (length counts) (span_counter ctx + 1)"
  have view: "span_view ?s = (t, t + d, padded (length counts) counts)"
    using r(3) by (simp add: span_view_def new_span_def)
  have few': "span_counter ctx < INT64_MAX" using few K(9) by simp
  obtain ctx' u v where a: "planner_add_span zkeys t d counts (length counts) ctx = Some (ctx', span_counter ctx + 1, None)"
      "planner_inv ctx'" "bounded ctx'" "same_plan ctx ctx'" "span_counter ctx' = span_counter ctx + 1"
      "span_lookup ctx' = (span_counter ctx + 1, placed_at u v ?s) # span_lookup ctx"
      "ordered ctx \<Longrightarrow> \<forall>x\<in>edges_of (plan_start ctx) (spans_of ctx). \<not> (t < x \<and> x < t + d) \<Longrightarrow>
        levels (total_resources ctx) (dimension ctx) (spans_of ctx) (edges_of (plan_start ctx) (spans_of ctx)) \<Longrightarrow>
        levels (total_resources ctx) (dimension ctx) (?s # spans_of ctx) (edges_of (plan_start ctx) (?s # spans_of ctx)) \<Longrightarrow> ordered ctx'"
    using add_span_fits [OF K(1,2) z req len' _ t(2) _ win chk few'] t K by (metis (no_types, lifting))
  have k': "keeps tot types n ((t, t + d, padded (length counts) counts) # bs) ctx'"
    using a K view by (simp add: keeps_def same_plan_def)
  have lv: "levels tot n (?s # spans_of ctx) (edges_of 0 (?s # spans_of ctx)) = stacked tot n ((t, t + d, padded (length counts) counts) # bs)"
    using load_usage [of "?s # spans_of ctx"] edges_of_bookings [of "?s # spans_of ctx"] view K(3)
    by (simp add: levels_def stacked_def)
  show thesis
    using done_ [of ctx'] a(1,7) k' lv keeps_levels [OF k] edges_of_bookings [of "spans_of ctx"] K by simp
qed


section \<open>Searching for a time\<close>

lemma time_first_fields:
  fixes "from" d :: int and counts :: resource_array and len :: nat
  assumes "planner_inv ctx" and "zkeys_ok zkeys" and "bounded ctx"
  defines "c \<equiv> fst (planner_avail_time_first zkeys from d counts len ctx)"
  shows "span_lookup c = span_lookup ctx" and "span_counter c = span_counter ctx" and "same_plan ctx c" and "bounded c"
proof -
  note I = planner_invD [OF assms(1)]
  note r = restore_track_points_ok [OF I(3) assms(2)]
  define c1 where "c1 = (restore_track_points zkeys ctx)\<lparr>avail_time_iter_set := True, current_request := copy_req from d counts len\<rparr>"
  define c2 where "c2 = fst (avail_at from d (map i64 counts) len c1)"
  have it: "iter_inv c1" using r(1) by (simp add: c1_def)
  have "frame_of (restore_track_points zkeys ctx) = frame_of ctx" using r(2) by (simp add: same_points_def)
  note f1 = frame_fields [OF this]
  have "frame_of c2 = frame_of c1" using avail_at_ok(2) [OF it] by (simp add: c2_def same_points_def)
  note f2 = frame_fields [OF this]
  have "c = ctx \<or> c = c2"
    by (auto simp: c_def planner_avail_time_first_def Let_def c1_def [symmetric] c2_def split: prod.split)
  then show "span_lookup c = span_lookup ctx" "span_counter c = span_counter ctx" "same_plan ctx c"
    using f1 f2 by (auto simp: same_plan_def c1_def)
  then show "bounded c" using assms(3) by (simp add: bounded_def same_plan_def)
qed

lemma ordered_mt:
  assumes inv: "planner_inv ctx" and b: "bounded ctx" and o: "ordered ctx" and len: "len \<le> dimension ctx" and req: "request_ok len ra"
  shows "mt_ordered (sp_store ctx) ra len (inorder (mt_resource_tree ctx))"
  using o unfolding ordered_def
proof (rule sorted_wrt_mono_rel [rotated], intro impI)
  fix p q
  assume pq: "p \<in> set (inorder (mt_resource_tree ctx))" "q \<in> set (inorder (mt_resource_tree ctx))"
    "below (sp_store ctx) (dimension ctx) p q" "holds (sp_store ctx) ra len p"
  have l: "len \<le> PLANNER_NUM_TYPES" using planner_invD(6) [OF inv] len by simp
  from pq(1,2) mt_points [OF planner_invD(3) [OF inv]] have m: "p \<in> set (points_of ctx)" "q \<in> set (points_of ctx)" by auto
  then show "holds (sp_store ctx) ra len q"
  proof -
    have "ra ! i \<le> free_at ctx i (at_of (sp_store ctx) q)" if i: "i < len" for i
    proof -
      have "ra ! i \<le> free_at ctx i (at_of (sp_store ctx) p)" using pq(4) holds_iff [OF inv b m(1) l req] i by blast
      moreover have "remaining_of (sp_store ctx) p ! i \<le> remaining_of (sp_store ctx) q ! i" using pq(3) i len by (simp add: below_def)
      ultimately show ?thesis using remaining_at_point [OF inv b m(1), of i] remaining_at_point [OF inv b m(2), of i] i l by simp
    qed
    then show ?thesis using holds_iff [OF inv b m(2) l req] by blast
  qed
qed

lemma keeps_first:
  assumes k: "keeps tot types n bs ctx" and z: "zkeys_ok zkeys" and o: "ordered ctx" and st: "stacked tot n bs"
    and req: "request_ok (length counts) counts" and len: "length counts \<le> n" and le: "\<And>i. i < length counts \<Longrightarrow> counts ! i \<le> tot ! i"
    and t: "0 \<le> from" "from < INT64_MAX" "1 \<le> d" and max: "\<forall>u\<in>edge_times bs. u + d \<le> INT64_MAX"
    and first: "t \<in> edge_times bs" "from \<le> t" "fits tot bs t d counts"
      "\<And>u. u \<in> edge_times bs \<Longrightarrow> from \<le> u \<Longrightarrow> u < t \<Longrightarrow> \<not> fits tot bs u d counts"
  obtains ctx' where "planner_avail_time_first zkeys from d counts (length counts) ctx = (ctx', t, None)"
    and "keeps tot types n bs ctx'" and "ordered ctx'"
proof -
  note K = keepsD [OF k] and I = planner_invD [OF keepsD(1) [OF k]]
  have e: "at_of (sp_store ctx) ` set (points_of ctx) = edge_times bs"
    using point_times [OF K(1)] edges_of_bookings [of "spans_of ctx"] K by simp
  have ch: "ctx_chain ctx"
    by (rule chain_levels [OF I(1)])
      (use I(5,6,9) K(2,4,6) keeps_levels [OF k] st e edges_of_bookings [of "spans_of ctx"] K(3) in \<open>simp_all add: totals_fit_def bounded_def\<close>)
  let ?r = "restore_track_points zkeys ctx"
  note r = restore_track_points_ok [OF I(3) z]
  have f: "frame_of ?r = frame_of ctx" using r(2) by (simp add: same_points_def)
  have mt: "mt_ordered (sp_store ?r) (map i64 counts) (length counts) (inorder (mt_resource_tree ?r))"
    by (rule ordered_mt [OF planner_inv_same_points [OF K(1) r(2,1)] same_points_bounded [OF r(2) K(2)] ordered_restore [OF o I(3) ch]])
      (use request_ok_i64 [OF req] frame_fields(3) [OF f] len K(6) in simp_all)
  let ?starts = "{at_of (sp_store ctx) p | p. p \<in> set (points_of ctx) \<and> from \<le> at_of (sp_store ctx) p \<and>
      fits_window ctx (at_of (sp_store ctx) p) d counts (length counts)}"
  have starts: "?starts = {u \<in> edge_times bs. from \<le> u \<and> fits tot bs u d counts}"
    unfolding e [symmetric] keeps_fits [OF k] by auto
  have le': "\<forall>i<length counts. counts ! i \<le> total_resources ctx ! i" using le K(4) by simp
  have max': "\<forall>p\<in>set (points_of ctx). at_of (sp_store ctx) p + d \<le> INT64_MAX" using max e by blast
  have "\<exists>ctx' x. planner_avail_time_first zkeys from d counts (length counts) ctx = (ctx', x, None) \<and>
    ((x \<in> ?starts \<and> x + d \<le> plan_end ctx \<and> (\<forall>u\<in>?starts. x \<le> u)) \<or> (x = -1 \<and> (\<forall>u\<in>?starts. plan_end ctx < u + d)))"
    by (rule avail_time_first_spec [OF K(1,2) z req _ le' _ _ t(3) max' mt]) (use len t K in simp_all)
  then obtain ctx' x where x: "planner_avail_time_first zkeys from d counts (length counts) ctx = (ctx', x, None)"
      "(x \<in> ?starts \<and> x + d \<le> plan_end ctx \<and> (\<forall>u\<in>?starts. x \<le> u)) \<or> (x = -1 \<and> (\<forall>u\<in>?starts. plan_end ctx < u + d))"
    by blast
  have ts: "t \<in> ?starts" unfolding starts using first by simp
  moreover have "t + d \<le> plan_end ctx" using max first(1) K(8) by simp
  ultimately have "x \<in> ?starts" "x \<le> t" using x(2) by auto
  then have "x = t" using first(4) unfolding starts by (metis (no_types, lifting) mem_Collect_eq order_le_less)
  have c: "ctx' = fst (planner_avail_time_first zkeys from d counts (length counts) ctx)" by (simp add: x(1))
  note tf = time_first_fields [OF K(1) z K(2), of "from" d counts "length counts", folded c]
  have inv': "planner_inv ctx'" using planner_avail_time_first_inv(1) [OF K(1) z] by (simp add: c)
  have "keeps tot types n bs ctx'"
    using tf inv' K by (simp add: keeps_def same_plan_def)
  moreover have "ordered ctx'" unfolding c by (rule ordered_time_first [OF o K(1) z ch])
  ultimately show thesis using that x(1) \<open>x = t\<close> by blast
qed

end
