(* ===== verification/Planner_Test01_Pass.thy ===== *)
theory Planner_Test01_Pass
  imports Planner_Test01 Planner_Load
begin

text \<open>
  The test program of the planner passes: the unit tests by evaluation, the stress tests by induction over their
  rounds, through the bookings the planners hold.
\<close>

section \<open>Passing\<close>

text \<open>The state of the test library after \<open>n\<close> checks that passed.\<close>

definition tap_at :: "int \<Rightarrow> string \<Rightarrow> tap" where
  "tap_at n s = \<lparr>expected_tests = 59, failed_tests = 0, current_test = n, todo_mesg = None, test_died = 0,
     tap_out = s, tap_err = []\<rparr>"

definition passed :: "int \<Rightarrow> tap \<Rightarrow> bool" where
  "passed n t \<longleftrightarrow> (\<exists>s. t = tap_at n s)"

lemma passed_ok: "passed n t \<Longrightarrow> 0 \<le> n \<Longrightarrow> n < 1000 \<Longrightarrow> passed (n + 1) (fst (ok_at_loc file ln 1 name t))"
  by (auto simp: passed_def tap_at_def ok_at_loc_def vok_at_loc_def Let_def out_def)

section \<open>Calls of a test\<close>

text \<open>A test in which nothing has failed, on a planner with some bookings.\<close>

definition on_track :: "int \<Rightarrow> bool \<Rightarrow> int list \<Rightarrow> string list \<Rightarrow> nat \<Rightarrow> booking list \<Rightarrow> test_state \<Rightarrow> bool" where
  "on_track m o' tot types n bs s \<longleftrightarrow> passed m (ts_tap s) \<and> \<not> ts_bo s \<and> ts_errno s = None \<and>
     (\<exists>ctx. ts_ctx s = Some ctx \<and> keeps tot types n bs ctx \<and> (o' \<longrightarrow> ordered ctx))"

lemma on_track_weaken: "on_track m True tot types n bs s \<Longrightarrow> on_track m False tot types n bs s"
  by (auto simp: on_track_def)

lemma check_good_ok:
  assumes "on_track m b tot types n bs s" and "0 \<le> m" and "m < 1000"
  shows "wp False False (check_good ln name s) (on_track (m + 1) b tot types n bs)"
  using assms passed_ok [of m "ts_tap s"] by (auto simp: check_good_def ok_def good_def no_errno_def on_track_def)

lemma during_ok:
  assumes "on_track m b tot types n bs s" and "request_ok (length counts) counts" and "length counts \<le> n"
    and "0 \<le> t" "1 \<le> d" "t + d \<le> INT64_MAX" and "fits tot bs t d counts"
  shows "wp False False (differs (during t d counts (length counts)) 0 s) (on_track m b tot types n bs)"
proof -
  obtain ctx where c: "ts_ctx s = Some ctx" "keeps tot types n bs ctx" using assms(1) by (auto simp: on_track_def)
  from keeps_during [OF c(2) assms(2-7)] c assms(1) show ?thesis
    by (auto simp: differs_def during_def query_def call_ctx_def on_ctx_def on_track_def)
qed

lemma add_ok:
  assumes "on_track m b tot types n bs s" and "zkeys_ok zkeys" and "request_ok (length counts) counts" and "length counts \<le> n"
    and "0 < sum_list counts" and "0 \<le> t" "1 \<le> d" "t + d \<le> INT64_MAX" and "fits tot bs t d counts" and "int (length bs) < INT64_MAX"
    and "b \<Longrightarrow> (\<forall>x\<in>edge_times bs. \<not> (t < x \<and> x < t + d)) \<and> stacked tot n bs \<and> stacked tot n ((t, t + d, padded (length counts) counts) # bs)"
  shows "wp False False (fails (add_span zkeys t d counts (length counts)) s)
    (on_track m b tot types n ((t, t + d, padded (length counts) counts) # bs))"
proof -
  obtain ctx where c: "ts_ctx s = Some ctx" "keeps tot types n bs ctx" "b \<longrightarrow> ordered ctx" using assms(1) by (auto simp: on_track_def)
  obtain ctx' where a: "planner_add_span zkeys t d counts (length counts) ctx = Some (ctx', int (length bs) + 1, None)"
      "keeps tot types n ((t, t + d, padded (length counts) counts) # bs) ctx'"
      "ordered ctx \<Longrightarrow> \<forall>x\<in>edge_times bs. \<not> (t < x \<and> x < t + d) \<Longrightarrow> stacked tot n bs \<Longrightarrow>
        stacked tot n ((t, t + d, padded (length counts) counts) # bs) \<Longrightarrow> ordered ctx'"
    by (rule keeps_add [OF c(2) assms(2-10)]) blast
  show ?thesis
    using a c assms(1,11) by (auto simp: fails_def add_span_def call_ctx_def on_ctx_def on_track_def)
qed

lemma first_ok:
  assumes "on_track m True tot types n bs s" and "zkeys_ok zkeys" and "stacked tot n bs" and "request_ok (length counts) counts"
    and "length counts \<le> n" and "\<And>i. i < length counts \<Longrightarrow> counts ! i \<le> tot ! i" and "0 \<le> from" "from < INT64_MAX" "1 \<le> d"
    and "\<forall>u\<in>edge_times bs. u + d \<le> INT64_MAX" and "t \<in> edge_times bs" "from \<le> t" "fits tot bs t d counts"
      "\<And>u. u \<in> edge_times bs \<Longrightarrow> from \<le> u \<Longrightarrow> u < t \<Longrightarrow> \<not> fits tot bs u d counts"
  shows "wp False False (time_first zkeys from d counts (length counts) s) (\<lambda>(s, x). x = t \<and> on_track m True tot types n bs s)"
proof -
  obtain ctx where c: "ts_ctx s = Some ctx" "keeps tot types n bs ctx" "ordered ctx" using assms(1) by (auto simp: on_track_def)
  obtain ctx' where "planner_avail_time_first zkeys from d counts (length counts) ctx = (ctx', t, None)"
      "keeps tot types n bs ctx'" "ordered ctx'"
    by (rule keeps_first [OF c(2) assms(2) c(3) assms(3-14)]) auto
  then show ?thesis
    using c assms(1) by (auto simp: time_first_def call_ctx_def on_ctx_def on_track_def)
qed

section \<open>Many spans\<close>

abbreviation threads_totals :: "int list" where
  "threads_totals \<equiv> [10000000, 0, 0, 0, 0]"

lemma padded_one [simp]: "padded (Suc 0) [x] = [x, 0, 0, 0, 0]"
  by (simp add: padded_def numeral_eq_Suc)

lemma hardware_threads_ok:
  assumes "passed m t" and "0 \<le> m" and "m < 1000"
  shows "on_track (m + 1) True threads_totals [''hardware-thread''] 1 [] (hardware_threads ln t)"
proof -
  obtain ctx where "planner_new 0 INT64_MAX [10000000] [''hardware-thread''] 1 = Inr ctx"
      "keeps threads_totals [''hardware-thread''] 1 [] ctx" "ordered ctx"
    by (rule keeps_new [of "[10000000]" 1 "[''hardware-thread'']"]) simp_all
  then show ?thesis
    using passed_ok [OF assms] by (simp add: hardware_threads_def new_planner_def on_track_def ok_def no_errno_def)
qed

subsection \<open>Four spans overlap\<close>

fun staggered :: "nat \<Rightarrow> booking list" where
  "staggered 0 = []"
| "staggered (Suc i) = (int i, int i + 4, [100, 0, 0, 0, 0]) # staggered i"

lemma length_staggered [simp]: "length (staggered i) = i"
  by (induction i) simp_all

lemma load_staggered: "load (staggered i) 0 u = 100 * max 0 (min (int i) (u + 1) - max 0 (u - 3))"
  by (induction i) (auto )

lemma staggered_round_ok:
  assumes "zkeys_ok zkeys" and "on_track m False threads_totals ty 1 (staggered i) s" and "i < 200000"
  shows "wp False False (staggered_round zkeys i s) (on_track m False threads_totals ty 1 (staggered (Suc i)))"
proof -
  have f: "fits threads_totals (staggered i) (int i) 4 [100]" by (auto simp: fits_def load_staggered max_def)
  have d: "wp False False (differs (during (int i) 4 [100] 1) 0 s) (on_track m False threads_totals ty 1 (staggered i))"
    using during_ok [OF assms(2), of "[100]" "int i" 4] f assms(3) by (simp add: request_ok_def)
  have a: "wp False False (fails (add_span zkeys (int i) 4 [100] 1) s) (on_track m False threads_totals ty 1 (staggered (Suc i)))"
    if "on_track m False threads_totals ty 1 (staggered i) s" for s
    using add_ok [OF that assms(1), of "[100]" "int i" 4] f assms(3) by (simp add: request_ok_def)
  show ?thesis unfolding staggered_round_def by (rule wp_bindI [OF d a])
qed

lemma stress_4spans_ok:
  assumes "zkeys_ok zkeys" and "passed m t" and "0 \<le> m" and "m < 900"
  shows "wp False False (test_stress_4spans_overlap zkeys t) (\<lambda>(t, e). passed (m + 3) t \<and> e = None)"
proof -
  note start = hardware_threads_ok [OF assms(2,3), of 612]
  have one: "wp False False (rounds 100000 (staggered_round zkeys) s) (on_track k False threads_totals ty 1 (staggered 100000))"
    if "on_track k False threads_totals ty 1 [] s" for k ty s
    by (rule wp_rounds [where P = "\<lambda>i. on_track k False threads_totals ty 1 (staggered i)"])
      (use that assms(1) in \<open>auto simp del: staggered.simps(2) One_nat_def intro: staggered_round_ok\<close>)
  have two: "wp False False (rounds 100000 (\<lambda>i. staggered_round zkeys (100000 + i)) s) (on_track k False threads_totals ty 1 (staggered (100000 + 100000)))"
    if "on_track k False threads_totals ty 1 (staggered 100000) s" for k ty s
    by (rule wp_rounds [where P = "\<lambda>i. on_track k False threads_totals ty 1 (staggered (100000 + i))"])
      (use that in simp, unfold add_Suc_right, rule staggered_round_ok [OF assms(1)], simp_all)
  have "wp False False (each (\<lambda>f. f) [rounds 100000 (staggered_round zkeys), check_good 620 ''add_span 100000 times (4 spans overlap)'',
      rounds 100000 (\<lambda>i. staggered_round zkeys (100000 + i)), check_good 628 ''add_span 100000 more (4 spans overlap)''] (hardware_threads 612 t))
    (on_track (m + 1 + 1 + 1) False threads_totals [''hardware-thread''] 1 (staggered (100000 + 100000)))"
    unfolding each.simps
  proof (rule wp_bindI [OF one], rule on_track_weaken [OF start], use assms in simp,
      rule wp_bindI [OF check_good_ok], assumption, use assms in simp, use assms in simp,
      rule wp_bindI [OF two], assumption, rule wp_bindI [OF check_good_ok], assumption)
  qed (use assms in simp_all)
  then show ?thesis
    unfolding test_stress_4spans_overlap_def by (rule wp_bindI) (simp add: on_track_def add.commute)
qed


subsection \<open>All spans overlap\<close>

definition overlapped :: "nat \<Rightarrow> nat \<Rightarrow> booking list" where
  "overlapped i j = replicate j (4, 8, [100, 0, 0, 0, 0]) @ replicate i (0, 4, [100, 0, 0, 0, 0])"

lemma load_append: "load (xs @ ys) k u = load xs k u + load ys k u"
  by (simp add: load_def)

lemma load_replicate: "load (replicate i (a, b, r)) k u = (if a \<le> u \<and> u < b then int i * r ! k else 0)"
  by (induction i) (simp_all add: algebra_simps)

lemma load_overlapped:
  "load (overlapped i j) k u = (if 4 \<le> u \<and> u < 8 then int j else if 0 \<le> u \<and> u < 4 then int i else 0) * [100, 0, 0, 0, 0] ! k"
  by (simp add: overlapped_def load_append load_replicate)

lemma edge_times_overlapped: "edge_times (overlapped i j) = {0} \<union> (if i = 0 then {} else {4}) \<union> (if j = 0 then {} else {4, 8})"
  by (auto simp: edge_times_def overlapped_def)

lemma nth_zeros [simp]: "0 < i \<Longrightarrow> i < PLANNER_NUM_TYPES \<Longrightarrow> [0, 0, 0, 0] ! (i - Suc 0) = (0 :: int)"
  by (auto simp: less_Suc_eq numeral_eq_Suc)

lemma stacked_one:
  assumes "\<And>t. t \<in> edge_times bs \<Longrightarrow> 0 \<le> load bs 0 t \<and> load bs 0 t \<le> c"
    and "\<And>t i. 0 < i \<Longrightarrow> i < PLANNER_NUM_TYPES \<Longrightarrow> load bs i t = 0"
  shows "stacked [c, 0, 0, 0, 0] 1 bs"
proof -
  have "0 \<le> load bs i t \<and> load bs i t \<le> [c, 0, 0, 0, 0] ! i" if "t \<in> edge_times bs" "i < PLANNER_NUM_TYPES" for t i
    using assms(1) [OF that(1)] assms(2) [of i t] that(2) by (cases "i = 0") simp_all
  then show ?thesis by (auto simp: stacked_def)
qed

lemma stacked_overlapped: "i \<le> 100000 \<Longrightarrow> j \<le> 100000 \<Longrightarrow> stacked threads_totals 1 (overlapped i j)"
  by (rule stacked_one) (auto simp: load_overlapped)

lemma overlapped_round_ok:
  assumes z: "zkeys_ok zkeys" and s: "on_track m True threads_totals ty 1 (overlapped i j) s"
    and ij: "t = 0 \<and> i < 100000 \<and> j = 0 \<or> t = 4 \<and> i = 100000 \<and> j < 100000"
  shows "wp False False (overlap_round zkeys t s) (on_track m True threads_totals ty 1 ((t, t + 4, [100, 0, 0, 0, 0]) # overlapped i j))"
proof -
  have le: "i \<le> 100000" "j \<le> 100000" using ij by auto
  note st = stacked_overlapped [OF le]
  have f: "fits threads_totals (overlapped i j) t 4 [100]" using ij by (auto simp: fits_def load_overlapped)
  have e: "t \<in> edge_times (overlapped i j)" "0 \<le> t" "t \<le> 4" "\<forall>u\<in>edge_times (overlapped i j). u + 4 \<le> INT64_MAX"
      "\<forall>x\<in>edge_times (overlapped i j). \<not> (t < x \<and> x < t + 4)"
    using ij by (auto simp: edge_times_overlapped)
  have no: "\<not> fits threads_totals (overlapped i j) u 4 [100]" if "u \<in> edge_times (overlapped i j)" "0 \<le> u" "u < t" for u
  proof -
    have "u = 0" "i = 100000" using that ij by (auto simp: edge_times_overlapped split: if_splits)
    then show ?thesis by (auto simp: fits_def load_overlapped intro!: exI [of _ 0])
  qed
  have len: "int (length (overlapped i j)) < INT64_MAX" using le by (simp add: overlapped_def)
  have "(t, t + 4, [100, 0, 0, 0, 0]) # overlapped i j \<in> {overlapped (Suc i) j, overlapped i (Suc j)}"
    using ij by (auto simp: overlapped_def)
  then have st': "stacked threads_totals 1 ((t, t + 4, [100, 0, 0, 0, 0]) # overlapped i j)"
    using stacked_overlapped [of "Suc i" j] stacked_overlapped [of i "Suc j"] ij by (auto simp: overlapped_def)
  have first: "wp False False (time_first zkeys 0 4 [100] 1 s)
      (\<lambda>(s, x). x = t \<and> on_track m True threads_totals ty 1 (overlapped i j) s)"
    using first_ok [OF s z st, of "[100]" 0 4 t] e(1,2,4) f no by (simp add: request_ok_def)
  have add: "wp False False (fails (add_span zkeys t 4 [100] 1) s)
      (on_track m True threads_totals ty 1 ((t, t + 4, [100, 0, 0, 0, 0]) # overlapped i j))"
    if "on_track m True threads_totals ty 1 (overlapped i j) s" for s
    using add_ok [OF that z, of "[100]" t 4] e f st st' len by (simp add: request_ok_def)
  have same: "s\<lparr>ts_bo := ts_bo s\<rparr> = s" for s :: test_state by (cases s) simp
  show ?thesis unfolding overlap_round_def
    by (rule wp_bindI [OF first]) (auto simp: same simp del: One_nat_def intro: add)
qed

lemma stress_fully_ok:
  assumes "zkeys_ok zkeys" and "passed m t" and "0 \<le> m" and "m < 900"
  shows "wp False False (test_stress_fully_overlap zkeys t) (passed (m + 3))"
proof -
  note start = hardware_threads_ok [OF assms(2,3), of 572]
  have one: "wp False False (rounds 100000 (\<lambda>i. overlap_round zkeys 0) s) (on_track k True threads_totals ty 1 (overlapped 100000 0))"
    if "on_track k True threads_totals ty 1 [] s" for k ty s
    by (rule wp_rounds [where P = "\<lambda>i. on_track k True threads_totals ty 1 (overlapped i 0)"])
      (use that overlapped_round_ok [OF assms(1), of k ty _ 0 _ 0] in \<open>auto simp: overlapped_def\<close>)
  have two: "wp False False (rounds 100000 (\<lambda>i. overlap_round zkeys 4) s) (on_track k True threads_totals ty 1 (overlapped 100000 100000))"
    if "on_track k True threads_totals ty 1 (overlapped 100000 0) s" for k ty s
    by (rule wp_rounds [where P = "\<lambda>i. on_track k True threads_totals ty 1 (overlapped 100000 i)"])
      (use that overlapped_round_ok [OF assms(1), of k ty 100000 _ _ 4] in \<open>auto simp: overlapped_def\<close>)
  have "wp False False (each (\<lambda>f. f) [rounds 100000 (\<lambda>i. overlap_round zkeys 0), check_good 581 ''add_span 100000 times (fully overlapped spans)'',
      rounds 100000 (\<lambda>i. overlap_round zkeys 4), check_good 589 ''add_span 100000 more (fully overlapped spans)''] (hardware_threads 572 t))
    (on_track (m + 1 + 1 + 1) True threads_totals [''hardware-thread''] 1 (overlapped 100000 100000))"
    unfolding each.simps
  proof (rule wp_bindI [OF one], rule start, use assms in simp,
      rule wp_bindI [OF check_good_ok], assumption, use assms in simp, use assms in simp,
      rule wp_bindI [OF two], assumption, rule wp_bindI [OF check_good_ok], assumption)
  qed (use assms in simp_all)
  then show ?thesis
    unfolding test_stress_fully_overlap_def by (rule wp_bindI) (simp add: on_track_def add.commute)
qed

end
