(* ===== verification/Planner_Test01_Flow.thy ===== *)
theory Planner_Test01_Flow
  imports Planner_Test01_Pass
begin

text \<open>
  The service of the planner's test program: nine local planners and a global one, through 50009 jobs. Job \<open>N\<close>, the
  nine allocated ones included, takes all of local planner \<open>N mod 9\<close> in slot \<open>N div 9\<close>.
\<close>

section \<open>The bookings\<close>

abbreviation slot_time :: "nat \<Rightarrow> int" where
  "slot_time p \<equiv> 3600 + 1000 * int p"

definition one_type :: "nat \<Rightarrow> int list" where
  "one_type j = map (\<lambda>k. if k = j then flow_totals ! k else 0) [0..<3]"

fun global_jobs :: "nat \<Rightarrow> booking list" where
  "global_jobs 0 = []"
| "global_jobs (Suc N) = (slot_time (N div 9), slot_time (N div 9) + 1000, padded 3 (one_type (N mod 3))) # global_jobs N"

fun local_jobs :: "int \<Rightarrow> nat \<Rightarrow> booking list" where
  "local_jobs c 0 = []"
| "local_jobs c (Suc p) = (slot_time p, slot_time p + 1000, [c, 0, 0, 0, 0]) # local_jobs c p"

definition slot :: "int \<Rightarrow> nat" where
  "slot u = nat ((u - 3600) div 1000)"

definition jobs_at :: "nat \<Rightarrow> int \<Rightarrow> nat" where
  "jobs_at N u = (if u < 3600 then 0 else min 9 (N - 9 * slot u))"

lemma flow_totals_nth: "flow_totals ! 0 = 16" "flow_totals ! Suc 0 = 2" "flow_totals ! 2 = 32"
  by (simp_all add: flow_totals_def)

lemma three: "i < (3 :: nat) \<longleftrightarrow> i = 0 \<or> i = Suc 0 \<or> i = 2"
  by auto

lemma one_type_nth: "i < 3 \<Longrightarrow> one_type j ! i = (if i = j then flow_totals ! i else 0)"
  by (simp add: one_type_def)

lemma one_type_length [simp]: "length (one_type j) = 3"
  by (simp add: one_type_def)

lemma padded_three: "i < PLANNER_NUM_TYPES \<Longrightarrow> padded 3 (one_type j) ! i = (if i < 3 \<and> i = j then flow_totals ! i else 0)"
  by (simp add: nth_padded one_type_nth)

lemma in_slot: "slot_time p \<le> u \<and> u < slot_time p + 1000 \<longleftrightarrow> 3600 \<le> u \<and> slot u = p"
proof -
  have "slot u = p \<longleftrightarrow> (u - 3600) div 1000 = int p" if "3600 \<le> u"
    using that by (auto simp: slot_def)
  moreover have "(u - 3600) div 1000 = int p \<longleftrightarrow> slot_time p \<le> u \<and> u < slot_time p + 1000" by linarith
  ultimately show ?thesis by auto
qed

lemma slot_slot_time [simp]: "slot (slot_time p) = p"
  by (simp add: slot_def)

lemma jobs_at_Suc: "jobs_at (Suc N) u = (if slot_time (N div 9) \<le> u \<and> u < slot_time (N div 9) + 1000 then N mod 9 + 1 else jobs_at N u)"
  unfolding in_slot by (auto simp: jobs_at_def) presburger+

lemma jobs_at_slot: "slot_time (N div 9) \<le> u \<and> u < slot_time (N div 9) + 1000 \<Longrightarrow> jobs_at N u = N mod 9"
  unfolding in_slot by (auto simp: jobs_at_def) presburger

lemma thirds:
  fixes N i :: nat
  assumes "i < 3"
  shows "(N mod 9 + 1 + 2 - i) div 3 = (N mod 9 + 2 - i) div 3 + (if N mod 3 = i then 1 else 0)"
    and "(N mod 9 + 2 - i) div 3 \<le> (if i = N mod 3 then 2 else 3)"
proof -
  have m: "N mod 3 = N mod 9 mod 3" by (simp add: mod_mod_cancel)
  have "N mod 9 < 9" by simp
  then have "N mod 9 = 0 \<or> N mod 9 = 1 \<or> N mod 9 = 2 \<or> N mod 9 = 3 \<or> N mod 9 = 4 \<or> N mod 9 = 5 \<or> N mod 9 = 6 \<or> N mod 9 = 7 \<or> N mod 9 = 8"
    by presburger
  with assms show "(N mod 9 + 1 + 2 - i) div 3 = (N mod 9 + 2 - i) div 3 + (if N mod 3 = i then 1 else 0)"
    "(N mod 9 + 2 - i) div 3 \<le> (if i = N mod 3 then 2 else 3)"
    unfolding m three by (elim disjE; simp)+
qed

lemma load_global:
  "i < PLANNER_NUM_TYPES \<Longrightarrow> load (global_jobs N) i u = (if i < 3 then flow_totals ! i * int ((jobs_at N u + 2 - i) div 3) else 0)"
proof (induction N)
  case 0
  then show ?case by (auto simp: jobs_at_def three)
next
  case (Suc N)
  have "load (global_jobs (Suc N)) i u =
      (if slot_time (N div 9) \<le> u \<and> u < slot_time (N div 9) + 1000 then padded 3 (one_type (N mod 3)) ! i else 0) + load (global_jobs N) i u"
    by simp
  then show ?case
    using Suc jobs_at_slot [of N u] thirds(1) [of i N] by (simp add: jobs_at_Suc padded_three algebra_simps)
qed

lemma edge_times_global: "edge_times (global_jobs N) = (if N = 0 then {0} else insert 0 (slot_time ` {..(N + 8) div 9}))"
proof (induction N)
  case (Suc N)
  have "{..(Suc N + 8) div 9} = insert (N div 9) (insert (Suc (N div 9)) (if N = 0 then {} else {..(N + 8) div 9}))"
    by (auto simp: set_eq_iff)
  moreover have "slot_time (Suc p) = slot_time p + 1000" for p by simp
  ultimately show ?case using Suc by (auto simp del: of_nat_Suc simp: image_insert insert_commute)
qed simp

lemma three_totals: "i < 3 \<Longrightarrow> [48, 6, 96, 0, 0] ! i = 3 * flow_totals ! i" "3 \<le> i \<Longrightarrow> i < PLANNER_NUM_TYPES \<Longrightarrow> [48, 6, 96, 0, 0] ! i = (0 :: int)"
proof -
  show "i < 3 \<Longrightarrow> [48, 6, 96, 0, 0] ! i = 3 * flow_totals ! i" by (auto simp: three flow_totals_nth)
  show "3 \<le> i \<Longrightarrow> i < PLANNER_NUM_TYPES \<Longrightarrow> [48, 6, 96, 0, 0] ! i = (0 :: int)"
    by (auto simp: less_Suc_eq numeral_eq_Suc)
qed

lemma flow_totals_pos: "i < 3 \<Longrightarrow> 0 < flow_totals ! i"
  by (auto simp: three flow_totals_nth)

lemma jobs_at_max: "jobs_at N u \<le> 9"
  by (simp add: jobs_at_def)

lemma stacked_global: "stacked [48, 6, 96, 0, 0] 3 (global_jobs N)"
proof -
  have "0 \<le> load (global_jobs N) i t \<and> load (global_jobs N) i t \<le> [48, 6, 96, 0, 0] ! i" if i: "i < PLANNER_NUM_TYPES" for i t
  proof (cases "i < 3")
    case True
    have "(jobs_at N t + 2 - i) div 3 \<le> 3" using jobs_at_max [of N t] by linarith
    then have "flow_totals ! i * int ((jobs_at N t + 2 - i) div 3) \<le> flow_totals ! i * 3"
      using flow_totals_pos [OF True] by (intro mult_left_mono) auto
    then show ?thesis using True i flow_totals_pos [OF True] by (simp add: load_global three_totals)
  qed (use i three_totals(2) [of i] in \<open>simp add: load_global del: nth_Cons_numeral nth_Cons_pos\<close>)
  moreover have "(\<forall>i<3. load (global_jobs N) i t \<le> load (global_jobs N) i u) \<or>
      (\<forall>i<3. load (global_jobs N) i u \<le> load (global_jobs N) i t)" for t u
  proof -
    have "\<forall>i<3. load (global_jobs N) i t \<le> load (global_jobs N) i u" if le: "jobs_at N t \<le> jobs_at N u" for t u
    proof (intro allI impI)
      fix i :: nat assume i: "i < 3"
      have "(jobs_at N t + 2 - i) div 3 \<le> (jobs_at N u + 2 - i) div 3" using le by (intro div_le_mono) simp
      then show "load (global_jobs N) i t \<le> load (global_jobs N) i u"
        using i flow_totals_pos [OF i] by (simp add: load_global)
    qed
    then show ?thesis by (meson nle_le)
  qed
  ultimately show ?thesis by (auto simp: stacked_def)
qed

lemma fits_global:
  fixes N :: nat
  defines "t \<equiv> slot_time (N div 9)"
  shows "fits [48, 6, 96, 0, 0] (global_jobs N) t 1000 (one_type (N mod 3))"
  unfolding fits_def one_type_length
proof (intro allI impI)
  fix u :: int and i :: nat assume a: "t \<le> u \<and> u < t + 1000 \<and> i < 3"
  have j: "jobs_at N u = N mod 9" using a jobs_at_slot [of N u] by (simp add: t_def)
  have "int ((N mod 9 + 2 - i) div 3) \<le> (if i = N mod 3 then 2 else 3)"
    using a thirds(2) [of i N] by (auto split: if_splits)
  then have "flow_totals ! i * int ((N mod 9 + 2 - i) div 3) \<le> flow_totals ! i * (if i = N mod 3 then 2 else 3)"
    using flow_totals_pos [of i] a by (intro mult_left_mono) auto
  then show "one_type (N mod 3) ! i + load (global_jobs N) i u \<le> [48, 6, 96, 0, 0] ! i"
    using a j by (simp add: load_global one_type_nth three_totals split: if_splits)
qed

lemma full_global:
  assumes "p < N div 9" and "j < 3"
  shows "\<not> fits [48, 6, 96, 0, 0] (global_jobs N) (slot_time p) 1000 (one_type j)"
proof
  assume "fits [48, 6, 96, 0, 0] (global_jobs N) (slot_time p) 1000 (one_type j)"
  then have le: "one_type j ! j + load (global_jobs N) j (slot_time p) \<le> [48, 6, 96, 0, 0] ! j"
    using assms(2) by (simp add: fits_def)
  have "jobs_at N (slot_time p) = 9" using assms(1) by (auto simp: jobs_at_def)
  then have "load (global_jobs N) j (slot_time p) = flow_totals ! j * int ((11 - j) div 3)"
    using assms(2) by (simp add: load_global)
  moreover have "(11 - j) div 3 = 3" using assms(2) unfolding three by auto
  ultimately show False using le assms(2) flow_totals_pos [OF assms(2)] by (simp add: one_type_nth three_totals)
qed

lemma load_local: "slot_time p \<le> u \<Longrightarrow> load (local_jobs c p) i u = 0"
  by (induction p) auto

lemma length_jobs [simp]: "length (global_jobs N) = N" "length (local_jobs c p) = p"
  by (induction N; simp) (induction p; simp)


section \<open>The state of the service\<close>

definition local_of :: "nat \<Rightarrow> nat \<Rightarrow> planner option \<Rightarrow> bool" where
  "local_of k p c \<longleftrightarrow> (\<exists>ctx. c = Some ctx \<and>
     keeps [flow_totals ! (k mod 3), 0, 0, 0, 0] [flow_types ! (k mod 3)] 1 (local_jobs (flow_totals ! (k mod 3)) p) ctx)"

definition global_of :: "nat \<Rightarrow> planner option \<Rightarrow> bool" where
  "global_of N c \<longleftrightarrow> (\<exists>ctx. c = Some ctx \<and> keeps [48, 6, 96, 0, 0] flow_types 3 (global_jobs N) ctx \<and> ordered ctx)"

text \<open>After job \<open>N\<close> is booked with local planner \<open>N mod 9\<close>, and before it is with the global one.\<close>

definition flow_ok :: "nat \<Rightarrow> nat \<Rightarrow> flow \<Rightarrow> bool" where
  "flow_ok M N s \<longleftrightarrow> \<not> fl_bo s \<and> fl_errno s = None \<and> length (fl_locals s) = 9 \<and>
     (\<forall>k<9. local_of k ((M + 8 - k) div 9) (fl_locals s ! k)) \<and> global_of N (fl_global s)"

lemma new_ok:
  assumes "length totals = n" and "n \<le> PLANNER_NUM_TYPES" and "length types = n" and "\<forall>x\<in>set totals. 0 \<le> x" and "sum_list totals \<le> 2147483647"
  obtains ctx where "make_planner totals types e = (Some ctx, e)" and "keeps (padded n totals) types n [] ctx" and "ordered ctx"
proof -
  obtain ctx where "planner_new 0 INT64_MAX totals types n = Inr ctx" "keeps (padded n totals) types n [] ctx" "ordered ctx"
    using keeps_new [OF assms] by blast
  then show thesis using that assms(3) by (simp add: make_planner_def)
qed

definition new_local :: "nat \<Rightarrow> planner option" where
  "new_local k = fst (make_planner [flow_totals ! (k mod 3)] [flow_types ! (k mod 3)] None)"

lemma new_local_ok:
  "make_planner [flow_totals ! (k mod 3)] [flow_types ! (k mod 3)] None = (new_local k, None)" "local_of k 0 (new_local k)"
proof -
  have "flow_totals ! (k mod 3) \<in> {16, 2, 32}" using three [of "k mod 3"] flow_totals_nth by fastforce
  then have t: "\<forall>x\<in>set [flow_totals ! (k mod 3)]. 0 \<le> x" "sum_list [flow_totals ! (k mod 3)] \<le> 2147483647" by auto
  obtain ctx where c: "make_planner [flow_totals ! (k mod 3)] [flow_types ! (k mod 3)] None = (Some ctx, None)"
      "keeps (padded 1 [flow_totals ! (k mod 3)]) [flow_types ! (k mod 3)] 1 [] ctx"
    by (rule new_ok [OF _ _ _ t, of 1 "[flow_types ! (k mod 3)]" None]) auto
  then show "make_planner [flow_totals ! (k mod 3)] [flow_types ! (k mod 3)] None = (new_local k, None)" "local_of k 0 (new_local k)"
    by (simp_all add: new_local_def local_of_def)
qed

lemma add_locals: "fl_errno s = None \<Longrightarrow> fold add_local [0..<n] s = s\<lparr>fl_locals := fl_locals s @ map new_local [0..<n]\<rparr>"
proof (induction n)
  case (Suc n)
  then show ?case by (cases s) (simp add: add_local_def L2_size_def new_local_ok(1))
qed simp

lemma flow_start_ok: "flow_ok 0 0 (flow_start None)"
proof -
  have f: "map (\<lambda>x. int L2_size * x) flow_totals = [48, 6, 96]" "length flow_types = 3"
    by (simp_all add: L2_size_def flow_totals_def flow_types_def)
  obtain ctx where g: "make_planner [48, 6, 96] flow_types None = (Some ctx, None)"
      "keeps (padded 3 [48, 6, 96]) flow_types 3 [] ctx" "ordered ctx"
    by (rule new_ok [of "[48, 6, 96]" 3 flow_types None]) (use f in simp_all)
  have "padded 3 [48, 6, 96 :: int] = [48, 6, 96, 0, 0]" by (simp add: padded_def numeral_eq_Suc)
  then have "global_of 0 (Some ctx)" using g by (simp add: global_of_def)
  moreover have "flow_start None = \<lparr>fl_locals = map new_local [0..<9], fl_global = Some ctx, fl_errno = None, fl_bo = False\<rparr>"
    by (simp add: flow_start_def add_locals f g(1) L1_size_def Let_def)
  ultimately show ?thesis using new_local_ok(2) by (simp add: flow_ok_def)
qed

section \<open>The calls\<close>

lemma other_slots:
  fixes N k :: nat
  assumes "k < 9" and "k \<noteq> N mod 9"
  shows "(N + 8 - k) div 9 = (Suc N + 8 - k) div 9"
proof -
  define q m where "q = N div 9" and "m = N mod 9"
  have N: "N = 9 * q + m" "m < 9" "k \<noteq> m" using assms by (simp_all add: q_def m_def)
  have "(9 * q + (m + 8 - k)) div 9 = q + (m + 8 - k) div 9" "(9 * q + (m + 9 - k)) div 9 = q + (m + 9 - k) div 9" by simp_all
  moreover have "(m + 8 - k) div 9 = (m + 9 - k) div 9"
  proof (cases "k < m")
    case True
    have "a div 9 = 1" if "9 \<le> a" "a < 18" for a :: nat using that by linarith
    from this [of "m + 8 - k"] this [of "m + 9 - k"] show ?thesis using True N by simp
  next
    case False
    then have "m + 9 - k < 9" using N assms(1) by linarith
    then show ?thesis by simp
  qed
  moreover have "N + 8 - k = 9 * q + (m + 8 - k)" "Suc N + 8 - k = 9 * q + (m + 9 - k)" using N assms(1) by linarith+
  ultimately show ?thesis by simp
qed

lemma local_add_ok:
  assumes s: "flow_ok N N s" and z: "zkeys_ok zkeys" and N: "N < 1000000"
  shows "wp False False (local_add zkeys (N mod 9) (slot_time (N div 9)) 1000 [flow_totals ! (N mod 3)] s)
    (\<lambda>(s', x). x \<noteq> -1 \<and> flow_ok (Suc N) N s')"
proof -
  let ?k = "N mod 9" and ?c = "flow_totals ! (N mod 3)"
  have k: "?k < 9" "?k mod 3 = N mod 3" by (simp_all add: mod_mod_cancel)
  have p: "(N + 8 - ?k) div 9 = N div 9" "(Suc N + 8 - ?k) div 9 = Suc (N div 9)" by presburger+
  have "local_of ?k ((N + 8 - ?k) div 9) (fl_locals s ! ?k)" using s k(1) unfolding flow_ok_def by blast
  then obtain ctx where c: "fl_locals s ! ?k = Some ctx" "keeps [?c, 0, 0, 0, 0] [flow_types ! (N mod 3)] 1 (local_jobs ?c (N div 9)) ctx"
    unfolding local_of_def k(2) p(1) by blast
  have pos: "0 < ?c" "?c \<le> 32" using flow_totals_pos [of "N mod 3"] three [of "N mod 3"] flow_totals_nth by fastforce+
  have f: "fits [?c, 0, 0, 0, 0] (local_jobs ?c (N div 9)) (slot_time (N div 9)) 1000 [?c]"
    by (auto simp: fits_def load_local)
  have "N div 9 \<le> N" by simp
  then have small: "int (N div 9) < 1000000" using N by linarith
  obtain ctx' where a: "planner_add_span zkeys (slot_time (N div 9)) 1000 [?c] 1 ctx = Some (ctx', int (N div 9) + 1, None)"
      "keeps [?c, 0, 0, 0, 0] [flow_types ! (N mod 3)] 1 (local_jobs ?c (Suc (N div 9))) ctx'"
    using keeps_add [OF c(2) z, of "[?c]" "slot_time (N div 9)" 1000] f pos small by (auto simp: request_ok_def)
  show ?thesis
  proof -
    have "local_of k ((Suc N + 8 - k) div 9) ((fl_locals s)[?k := Some ctx'] ! k)" if kk: "k < 9" for k
    proof (cases "k = ?k")
      case True
      have "length (fl_locals s) = 9" using s by (simp add: flow_ok_def)
      then show ?thesis using a(2) unfolding True p(2) local_of_def k(2) using k(1) by simp
    next
      case False
      then have "(fl_locals s)[?k := Some ctx'] ! k = fl_locals s ! k" by simp
      moreover have "local_of k ((N + 8 - k) div 9) (fl_locals s ! k)" using s kk unfolding flow_ok_def by blast
      ultimately show ?thesis unfolding other_slots [OF kk False] by (simp only:)
    qed
    then have "flow_ok (Suc N) N (s\<lparr>fl_locals := (fl_locals s)[?k := Some ctx'], fl_errno := None\<rparr>)"
      using s by (simp add: flow_ok_def)
    moreover have "fl_errno s = None" using s by (simp add: flow_ok_def)
    ultimately show ?thesis using c(1) a(1) by (simp add: local_add_def local_call_def on_ctx_def)
  qed
qed


lemma local_during_ok:
  assumes s: "flow_ok N N s" and N: "N < 1000000"
  shows "wp False False (local_call (N mod 9) (\<lambda>ctx. case planner_avail_during ctx (slot_time (N div 9)) 1000 [flow_totals ! (N mod 3)] 1 of
      (r, e) \<Rightarrow> Some (ctx, r, e)) s) (\<lambda>(s', x). x \<noteq> -1 \<and> flow_ok N N s')"
proof -
  let ?k = "N mod 9" and ?c = "flow_totals ! (N mod 3)"
  have k: "?k < 9" "?k mod 3 = N mod 3" by (simp_all add: mod_mod_cancel)
  have p: "(N + 8 - ?k) div 9 = N div 9" by presburger
  have l: "local_of ?k ((N + 8 - ?k) div 9) (fl_locals s ! ?k)" using s k(1) unfolding flow_ok_def by blast
  then obtain ctx where c: "fl_locals s ! ?k = Some ctx" "keeps [?c, 0, 0, 0, 0] [flow_types ! (N mod 3)] 1 (local_jobs ?c (N div 9)) ctx"
    unfolding local_of_def k(2) p by blast
  have pos: "0 < ?c" "?c \<le> 32" using flow_totals_pos [of "N mod 3"] three [of "N mod 3"] flow_totals_nth by fastforce+
  have f: "fits [?c, 0, 0, 0, 0] (local_jobs ?c (N div 9)) (slot_time (N div 9)) 1000 [?c]"
    by (auto simp: fits_def load_local)
  have "N div 9 \<le> N" by simp
  then have small: "int (N div 9) < 1000000" using N by linarith
  have "planner_avail_during ctx (slot_time (N div 9)) 1000 [?c] 1 = (0, None)"
    using keeps_during [OF c(2), of "[?c]" "slot_time (N div 9)" 1000] f pos small by (simp add: request_ok_def)
  moreover have "(fl_locals s)[?k := Some ctx] = fl_locals s" using c(1) by (metis list_update_id)
  moreover have "fl_errno s = None" using s by (simp add: flow_ok_def)
  ultimately show ?thesis using s c(1) by (simp add: local_call_def on_ctx_def flow_ok_def)
qed

lemma ordered_one_ok:
  assumes "flow_ok M N s" and "j < 3"
  shows "ordered_one j s = Ret (one_type j)"
proof -
  obtain g where g: "fl_global s = Some g" "resource_types g = flow_types" "dimension g = 3"
    using assms(1) by (auto simp: flow_ok_def global_of_def keeps_def)
  have "ordered_counts g [(flow_types ! j, flow_totals ! j)] = one_type j"
    using assms(2) g(2,3) unfolding three by (auto simp: ordered_counts_def one_type_def flow_types_def numeral_eq_Suc)
  then show ?thesis by (simp add: ordered_one_def g(1))
qed

lemma one_type_ok: "j < 3 \<Longrightarrow> request_ok 3 (one_type j)" "j < 3 \<Longrightarrow> 0 < sum_list (one_type j)"
  unfolding three by (auto simp: request_ok_def one_type_def flow_totals_def numeral_eq_Suc)

lemma global_add_ok:
  assumes s: "flow_ok M N s" and z: "zkeys_ok zkeys" and N: "N < 1000000"
  shows "wp False False (global_add zkeys (slot_time (N div 9)) 1000 (one_type (N mod 3)) s)
    (\<lambda>(s', x). x \<noteq> -1 \<and> flow_ok M (Suc N) s')"
proof -
  obtain g where g: "fl_global s = Some g" "keeps [48, 6, 96, 0, 0] flow_types 3 (global_jobs N) g" "ordered g"
    using s by (auto simp: flow_ok_def global_of_def)
  have "N div 9 \<le> N" by simp
  then have small: "int (N div 9) < 1000000" using N by linarith
  have e: "\<forall>x\<in>edge_times (global_jobs N). \<not> (slot_time (N div 9) < x \<and> x < slot_time (N div 9) + 1000)"
    by (auto simp: edge_times_global)
  obtain ctx' where "planner_add_span zkeys (slot_time (N div 9)) 1000 (one_type (N mod 3)) 3 g = Some (ctx', int N + 1, None)"
      "keeps [48, 6, 96, 0, 0] flow_types 3 (global_jobs (Suc N)) ctx'" "ordered ctx'"
    using keeps_add [OF g(2) z, of "one_type (N mod 3)" "slot_time (N div 9)" 1000] one_type_ok [of "N mod 3"] fits_global [of N]
      small N e stacked_global [of N] stacked_global [of "Suc N"] g(3) by (simp add: algebra_simps) blast
  then show ?thesis
    using s g(1) by (simp add: global_add_def global_call_def on_ctx_def flow_ok_def global_of_def)
qed

lemma global_first_ok:
  assumes s: "flow_ok M N s" and z: "zkeys_ok zkeys" and N: "9 \<le> N" "N < 1000000"
  shows "wp False False (global_call (\<lambda>ctx. Some (planner_avail_time_first zkeys 4600 1000 (one_type (N mod 3)) 3 ctx)) s)
    (\<lambda>(s', x). x = slot_time (N div 9) \<and> flow_ok M N s')"
proof -
  obtain g where g: "fl_global s = Some g" "keeps [48, 6, 96, 0, 0] flow_types 3 (global_jobs N) g" "ordered g"
    using s by (auto simp: flow_ok_def global_of_def)
  have le: "one_type (N mod 3) ! i \<le> [48, 6, 96, 0, 0] ! i" if "i < 3" for i
    using that flow_totals_pos [OF that] by (cases "i = N mod 3") (simp_all add: one_type_nth three_totals)
  have m: "\<forall>u\<in>edge_times (global_jobs N). u + 1000 \<le> INT64_MAX"
  proof
    fix u assume "u \<in> edge_times (global_jobs N)"
    then consider "u = 0" | p where "u = slot_time p" "p \<le> (N + 8) div 9" using N by (auto simp: edge_times_global)
    then show "u + 1000 \<le> INT64_MAX"
    proof cases
      case 2
      then have "p \<le> 1000000" using N(2) by linarith
      then show ?thesis using 2(1) by simp
    qed simp
  qed
  have "N div 9 \<le> (N + 8) div 9" by (rule div_le_mono) simp
  then have mem: "slot_time (N div 9) \<in> edge_times (global_jobs N)" using N(1) by (auto simp: edge_times_global)
  have "1 \<le> N div 9" using N(1) by presburger
  then have ge: "4600 \<le> slot_time (N div 9)" by linarith
  have no: "\<not> fits [48, 6, 96, 0, 0] (global_jobs N) u 1000 (one_type (N mod 3))"
    if u: "u \<in> edge_times (global_jobs N)" "4600 \<le> u" "u < slot_time (N div 9)" for u
  proof -
    obtain p where "u = slot_time p" using u N by (auto simp: edge_times_global)
    with u(3) full_global [of p N "N mod 3"] show ?thesis by simp
  qed
  obtain ctx' where "planner_avail_time_first zkeys 4600 1000 (one_type (N mod 3)) 3 g = (ctx', slot_time (N div 9), None)"
      "keeps [48, 6, 96, 0, 0] flow_types 3 (global_jobs N) ctx'" "ordered ctx'"
    by (rule keeps_first [OF g(2) z g(3) stacked_global, of "one_type (N mod 3)" 4600 1000 "slot_time (N div 9)"])
      (use one_type_ok [of "N mod 3"] fits_global [of N] le m mem ge no in simp_all)
  then show ?thesis
    using s g(1) by (simp add: global_call_def on_ctx_def flow_ok_def global_of_def)
qed

section \<open>The rounds\<close>

lemma allocate_ok:
  assumes s: "flow_ok N N s" and z: "zkeys_ok zkeys" and N: "N < 9"
  shows "wp False False (allocate_round zkeys 3600 1000 N s) (flow_ok (Suc N) (Suc N))"
proof -
  have eq: "N mod 9 = N" "slot_time (N div 9) = 3600" "N mod L2_size = N mod 3" using N by (simp_all add: L2_size_def)
  have l: "wp False False (local_add zkeys N 3600 1000 [flow_totals ! (N mod 3)] s) (\<lambda>(s', x). x \<noteq> -1 \<and> flow_ok (Suc N) N s')"
    using local_add_ok [OF s z] N unfolding eq by simp
  have g: "wp False False (global_add zkeys 3600 1000 (one_type (N mod 3)) s) (\<lambda>(s', x). x \<noteq> -1 \<and> flow_ok (Suc N) (Suc N) s')"
    if "flow_ok (Suc N) N s" for s
    using global_add_ok [OF that z] N unfolding eq by simp
  have r: "wp False False (bind (global_add zkeys 3600 1000 (one_type (N mod 3)) s) (\<lambda>(s, _). Ret s)) (flow_ok (Suc N) (Suc N))"
    if "flow_ok (Suc N) N s" for s
    by (rule wp_bindI [OF g [OF that]]) auto
  show ?thesis
    unfolding allocate_round_def eq
    by (rule wp_bindI [OF l]) (auto simp: ordered_one_ok simp del: wp_bind intro: r)
qed

text \<open>A call that succeeds leaves the flag of the failures as it is.\<close>

lemma fl_same: "s\<lparr>fl_bo := fl_bo s\<rparr> = s"
  by (cases s) simp

lemma wp_pairI:
  "wp d u m (\<lambda>(s, x). R x \<and> P s) \<Longrightarrow> (\<And>s x. R x \<Longrightarrow> P s \<Longrightarrow> wp d u (f s x) Q) \<Longrightarrow> wp d u (bind m (\<lambda>(s, x). f s x)) Q"
  by (cases m) auto

lemma reserve_ok:
  assumes s: "flow_ok N N s" and z: "zkeys_ok zkeys" and N: "N = i + 9" "N < 1000000"
  shows "wp False False (reserve_round zkeys 4600 1000 i s) (flow_ok (Suc N) (Suc N))"
proof -
  have d: "(i + 9) mod 9 = i mod 9" "(i + 9) div 9 = Suc (i div 9)" "(i + 9) mod 3 = i mod 3"
    using mod_mult_self1 [of i 3 3] by simp_all
  have eq: "i mod L2_size = N mod 3" "i mod L1_size = N mod 9" "4600 + int (i div L1_size) * 1000 = slot_time (N div 9)"
      "length (one_type (N mod 3)) = 3"
    using d by (simp_all add: N(1) L1_size_def L2_size_def algebra_simps)
  have N9: "9 \<le> N" using N(1) by simp
  have bo: "flow_ok (Suc N) M s \<Longrightarrow> \<not> fl_bo s" "flow_ok N N s \<Longrightarrow> \<not> fl_bo s" for M s by (simp_all add: flow_ok_def)
  show ?thesis
    unfolding reserve_round_def Let_def eq ordered_one_ok [OF s, of "N mod 3", simplified] bind_simps
    by (rule wp_pairI [where R = "\<lambda>x. x = slot_time (N div 9)" and P = "flow_ok N N", OF global_first_ok [OF s z N9 N(2)]],
        simp only: fl_same simp_thms,
        rule wp_pairI [where R = "\<lambda>x. x \<noteq> -1" and P = "flow_ok N N", OF local_during_ok [OF _ N(2)]], assumption,
        simp only: fl_same simp_thms,
        rule wp_pairI [where R = "\<lambda>x. x \<noteq> -1" and P = "flow_ok (Suc N) N", OF local_add_ok [OF _ z N(2)]], assumption,
        simp only: fl_same simp_thms,
        rule wp_pairI [where R = "\<lambda>x. x \<noteq> -1" and P = "flow_ok (Suc N) (Suc N)", OF global_add_ok [OF _ z N(2)]], assumption,
        simp only: fl_same simp_thms wp_simps)
qed


lemma service_flow_ok:
  assumes "zkeys_ok zkeys" and "passed m t" and "0 \<le> m" and "m < 1000"
  shows "wp False False (test_resource_service_flow zkeys (t, None)) (passed (m + 1))"
proof -
  have a: "wp False False (rounds L1_size (allocate_round zkeys 3600 1000) (flow_start None)) (flow_ok 9 9)"
    unfolding L1_size_def
    by (rule wp_rounds [where P = "\<lambda>i. flow_ok i i"]) (use flow_start_ok allocate_ok assms(1) in auto)
  have r: "wp False False (rounds 50000 (reserve_round zkeys 4600 1000) s) (flow_ok 50009 50009)" if "flow_ok 9 9 s" for s
    using wp_rounds [where P = "\<lambda>i. flow_ok (i + 9) (i + 9)" and n = 50000 and f = "reserve_round zkeys 4600 1000" and s = s and d = False and u = False]
      that reserve_ok [OF _ assms(1)] by simp
  show ?thesis
    unfolding test_resource_service_flow_def snd_conv fst_conv
    by (rule wp_bindI [OF a], rule wp_bindI [OF r], assumption) (use assms passed_ok in \<open>simp add: flow_ok_def\<close>)
qed

end
