(* ===== verification/Planner_Test02.thy ===== *)
theory Planner_Test02
  imports Planner_Test01 Outcome_Rules
begin

text \<open>
  The performance tests of the planner, \<open>planner/planner_test02.cpp\<close>: what they call and print. Parameters stand
  for the clock (in microseconds, by the number of the reading), the text of the difference that \<open>elapse_time\<close> takes in \<open>double\<close>, the random times of the
  queries and \<open>strerror\<close>. Their bounds are those of the source.
\<close>

section \<open>The data of an experiment\<close>

definition million :: nat where
  "million = 1048576"

record perf =
  pf_planner :: planner
  pf_span_count :: int
  pf_label :: string
  pf_interval :: string
  pf_elapse :: "int \<times> int"

record perf_env =
  pv_zkeys :: "int list \<Rightarrow> int list"
  pv_clock :: "nat \<Rightarrow> int"
  pv_double :: "int \<times> int \<Rightarrow> string"
  pv_query :: "int \<Rightarrow> nat \<Rightarrow> int \<Rightarrow> int"
  pv_strerror :: "errno option \<Rightarrow> string"

record perf_state =
  exp_data :: "(string \<times> perf list) list"
  clock_reads :: nat
  ps_tap :: tap

text \<open>The variables of a test.\<close>

record perf_run =
  pr_ctx :: "planner option"
  pr_errno :: "errno option"
  pr_bo :: bool
  pr_spans :: "int list"
  pr_at :: int

section \<open>Reporting\<close>

text \<open>\<open>ss.str () = ""\<close> assigns to a copy: the interval keeps the text of the label in front.\<close>

definition create_perf :: "planner \<Rightarrow> int \<Rightarrow> nat \<Rightarrow> int \<times> int \<Rightarrow> int \<Rightarrow> perf" where
  "create_perf ctx cnt overlap elapse end_time =
     (let label = ''Overlaps('' @ show_int (int overlap) @ '')''
      in \<lparr>pf_planner = ctx, pf_span_count = cnt, pf_label = label,
          pf_interval = label @ ''[0, '' @ show_int end_time @ '')'', pf_elapse = elapse\<rparr>)"

definition overlap_label :: "nat \<Rightarrow> string" where
  "overlap_label overlap = ''Overlap('' @ show_int (int overlap) @ '')''"

text \<open>\<open>for (i = start; i < limit; i = i << 1)\<close>, with \<open>start\<close> positive.\<close>

function doublings :: "nat \<Rightarrow> nat \<Rightarrow> nat list" where
  "doublings start limit = (if start = 0 \<or> limit \<le> start then [] else start # doublings (2 * start) limit)"
  by pat_completeness auto
termination by (relation "measure (\<lambda>(start, limit). limit - start)") auto

declare doublings.simps [simp del]

text \<open>
  The report reads the size of the first entry of \<open>exp_data\<close> without a check that there is one. With more than 21
  data points \<open>start\<close> is 0 and the loop over the header does not end; with more than 32 the shift is undefined.
\<close>

definition report_row :: "perf_env \<Rightarrow> string \<times> perf list \<Rightarrow> string" where
  "report_row env row = fst row @ concat (map (\<lambda>p. '', '' @ pv_double env (pf_elapse p)) (snd row)) @ [NL]"

definition report :: "perf_env \<Rightarrow> string \<Rightarrow> perf_state \<Rightarrow> (perf_state \<times> int) outcome" where
  "report env experiment s =
     (case exp_data s of
        [] \<Rightarrow> Undefined
      | (label, perfs) # rest \<Rightarrow>
          let sz = length perfs; start = million div 2 ^ (sz - 1) in
          if sz = 0 \<or> sz > 32 then Undefined
          else if start = 0 then Diverges
          else Ret (s\<lparr>exp_data := [],
            ps_tap := out (line (''Experiment: '' @ experiment) @ ''Overlap-Factor'' @
              concat (map (\<lambda>i. '', '' @ show_int (int i)) (doublings start (million + 1))) @ [NL] @
              concat (map (report_row env) (exp_data s))) (ps_tap s)\<rparr>, 0))"

section \<open>The steps of a test\<close>

definition call_on :: "(planner \<Rightarrow> (planner \<times> int \<times> errno option) option) \<Rightarrow> perf_run \<Rightarrow> (perf_run \<times> int) outcome" where
  "call_on f r = bind (on_ctx f (pr_ctx r) (pr_errno r)) (\<lambda>(c, e, x). Ret (r\<lparr>pr_ctx := c, pr_errno := e\<rparr>, x))"

definition fresh_planner :: "int list \<Rightarrow> string list \<Rightarrow> perf_run \<Rightarrow> perf_run" where
  "fresh_planner totals types r =
     (case make_planner totals types (pr_errno r) of (c, e) \<Rightarrow> r\<lparr>pr_ctx := c, pr_errno := e, pr_spans := []\<rparr>)"

definition add_round :: "perf_env \<Rightarrow> nat \<Rightarrow> int list \<Rightarrow> nat \<Rightarrow> perf_run \<Rightarrow> perf_run outcome" where
  "add_round env overlap_factor counts i r =
     (let at = int (i div overlap_factor) * 1000 in
      if pr_ctx r = None then Undefined
      else bind (call_on (planner_add_span (pv_zkeys env) at 1000 counts (length counts)) r) (\<lambda>(r, span).
        Ret (r\<lparr>pr_at := at, pr_spans := pr_spans r @ [span], pr_bo := pr_bo r \<or> span = -1\<rparr>)))"

text \<open>\<open>for (i = 0; i < limit; i += stride)\<close>: the spans with those numbers are removed.\<close>

definition rem_round :: "perf_env \<Rightarrow> nat \<Rightarrow> nat \<Rightarrow> perf_run \<Rightarrow> perf_run outcome" where
  "rem_round env stride n r =
     bind (call_on (planner_rem_span (pv_zkeys env) (pr_spans r ! (n * stride))) r) (\<lambda>(r, rc).
     Ret (r\<lparr>pr_bo := pr_bo r \<or> rc = -1\<rparr>))"

definition rem_rounds :: "perf_env \<Rightarrow> nat \<Rightarrow> nat \<Rightarrow> perf_run \<Rightarrow> perf_run outcome" where
  "rem_rounds env limit stride = rounds ((limit + stride - 1) div stride) (rem_round env stride)"

text \<open>A stretch of code between two readings of the clock, and the data point made of it.\<close>

definition data_point :: "perf_env \<Rightarrow> nat \<Rightarrow> (perf_run \<Rightarrow> perf_run outcome) \<Rightarrow> (planner \<Rightarrow> int) \<Rightarrow>
    perf_state \<times> perf_run \<Rightarrow> (perf_state \<times> perf_run) outcome" where
  "data_point env overlap_factor measured cnt st =
     (case st of (s, r) \<Rightarrow>
        let elapse = (pv_clock env (clock_reads s), pv_clock env (Suc (clock_reads s))) in
        bind (measured r) (\<lambda>r.
        case pr_ctx r of
          None \<Rightarrow> Undefined
        | Some ctx \<Rightarrow>
            let p = create_perf ctx (cnt ctx) overlap_factor elapse (pr_at r + 1000);
                label = overlap_label overlap_factor;
                perfs = (case map_of (exp_data s) label of None \<Rightarrow> [] | Some ps \<Rightarrow> ps)
            in Ret (s\<lparr>exp_data := map_put label (perfs @ [p]) (exp_data s), clock_reads := clock_reads s + 2\<rparr>, r)))"

text \<open>The loops over the counts and over the number of spans, around what a test does with one planner.\<close>

definition sweep :: "int list \<Rightarrow> string list \<Rightarrow> nat list \<Rightarrow>
    (nat \<Rightarrow> nat \<Rightarrow> int list \<Rightarrow> perf_state \<times> perf_run \<Rightarrow> (perf_state \<times> perf_run) outcome) \<Rightarrow> int list list \<Rightarrow>
    perf_state \<times> perf_run \<Rightarrow> (perf_state \<times> perf_run) outcome" where
  "sweep totals types stops body countss st =
     each (\<lambda>counts.
       each (\<lambda>stop (s, r). body stop (nat (hd totals div hd counts)) counts (s, fresh_planner totals types r)) stops)
       countss st"

definition test02_file :: string where
  "test02_file = ''planner_test02.cpp''"

definition ok2 :: "int \<Rightarrow> bool \<Rightarrow> string \<Rightarrow> perf_state \<Rightarrow> perf_state" where
  "ok2 ln test name s = s\<lparr>ps_tap := fst (ok_at_loc test02_file ln (of_bool test) (Some name) (ps_tap s))\<rparr>"

definition blank_run :: perf_run where
  "blank_run = \<lparr>pr_ctx = None, pr_errno = None, pr_bo = False, pr_spans = [], pr_at = 0\<rparr>"

text \<open>What every test starts and ends with; the last line is printed by two of them only.\<close>

definition perf_test :: "perf_env \<Rightarrow> int \<Rightarrow> int list \<Rightarrow> string list \<Rightarrow>
    (perf_state \<times> perf_run \<Rightarrow> (perf_state \<times> perf_run) outcome) \<Rightarrow> int \<Rightarrow> string \<Rightarrow> bool \<Rightarrow> perf_state \<Rightarrow> perf_state outcome" where
  "perf_test env ln totals types body ln' name prints s =
     (let r = fresh_planner totals types blank_run;
          s = ok2 ln (pr_ctx r \<noteq> None \<and> pr_errno r = None)
                (with_text ''new with'' (to_stream 0 INT64_MAX totals types (length types))) s
      in bind (body (s, r)) (\<lambda>(s, r).
         let s = ok2 ln' (\<not> pr_bo r \<and> pr_errno r = None) name s
         in Ret (if prints then s\<lparr>ps_tap := out (line (pv_strerror env (pr_errno r))) (ps_tap s)\<rparr> else s)))"

abbreviation core_totals :: "int list" where
  "core_totals \<equiv> [10]"

abbreviation core_types :: "string list" where
  "core_types \<equiv> [''core'']"

abbreviation core_counts :: "int list list" where
  "core_counts \<equiv> [[10], [5], [2], [1]]"

section \<open>The tests\<close>

subsection \<open>Queries at a time\<close>

definition query_round :: "int \<Rightarrow> perf_run \<Rightarrow> perf_run outcome" where
  "query_round t r =
     bind (call_on (\<lambda>ctx. map_option (\<lambda>(x, e). (ctx, x, e)) (planner_avail_resources_at ctx t 0)) r) (\<lambda>(r, avail).
     Ret (r\<lparr>pr_bo := pr_bo r \<or> avail = -1\<rparr>))"

definition query_body :: "perf_env \<Rightarrow> nat \<Rightarrow> nat \<Rightarrow> int list \<Rightarrow> perf_state \<times> perf_run \<Rightarrow> (perf_state \<times> perf_run) outcome" where
  "query_body env stop overlap_factor counts st =
     (case st of (s, r) \<Rightarrow>
        bind (rounds stop (add_round env overlap_factor counts) r) (\<lambda>r.
        bind (rem_rounds env stop 2 r) (\<lambda>r.
        let seed = 2 * int ((stop + 1) div 2) in
        data_point env overlap_factor
          (\<lambda>r. rounds 1024 (\<lambda>j. query_round (pv_query env seed j (pr_at r + 1000))) r)
          (\<lambda>ctx. int (planner_span_size ctx)) (s, r))))"

definition test_query_perf_1d :: "perf_env \<Rightarrow> perf_state \<Rightarrow> perf_state outcome" where
  "test_query_perf_1d env =
     perf_test env 138 core_totals core_types
       (sweep core_totals core_types (doublings 2048 (2 * million + 1)) (query_body env) core_counts)
       182 ''time-based query performance: 1 resource type'' True"

subsection \<open>Queries for a time\<close>

fun next_rounds :: "nat \<Rightarrow> int \<Rightarrow> perf_run \<Rightarrow> perf_run outcome" where
  "next_rounds 0 t r = Ret r"
| "next_rounds (Suc n) t r =
     (if t = -1 then Ret r
      else bind (call_on (\<lambda>ctx. Some (planner_avail_time_next ctx)) r) (\<lambda>(r, t).
        next_rounds n t (r\<lparr>pr_bo := pr_bo r \<or> t = -1\<rparr>)))"

definition avail_time_body :: "perf_env \<Rightarrow> nat \<Rightarrow> nat \<Rightarrow> int list \<Rightarrow> perf_state \<times> perf_run \<Rightarrow> (perf_state \<times> perf_run) outcome" where
  "avail_time_body env stop overlap_factor counts st =
     (case st of (s, r) \<Rightarrow>
        bind (rounds stop (add_round env overlap_factor counts) r) (\<lambda>r.
        bind (rem_rounds env stop 2 r) (\<lambda>r.
        let s = s\<lparr>ps_tap := out (line ''starting now...'') (ps_tap s)\<rparr> in
        bind (call_on (\<lambda>ctx. Some (planner_avail_time_first (pv_zkeys env) 1 1 counts 1 ctx)) r) (\<lambda>(r, t).
        data_point env overlap_factor (next_rounds (million div 11) t) (\<lambda>ctx. int (planner_span_size ctx))
          (s, r\<lparr>pr_bo := pr_bo r \<or> t = -1\<rparr>)))))"

definition test_avail_time_perf :: "perf_env \<Rightarrow> perf_state \<Rightarrow> perf_state outcome" where
  "test_avail_time_perf env =
     perf_test env 211 core_totals core_types
       (sweep core_totals core_types (doublings (2 * million) (2 * million + 1)) (avail_time_body env) core_counts)
       254 ''resource-based query performance: 1 resource type'' True"

subsection \<open>Removing\<close>

definition rem_body :: "perf_env \<Rightarrow> nat \<Rightarrow> nat \<Rightarrow> int list \<Rightarrow> perf_state \<times> perf_run \<Rightarrow> (perf_state \<times> perf_run) outcome" where
  "rem_body env stop overlap_factor counts st =
     (case st of (s, r) \<Rightarrow>
        bind (rounds stop (add_round env overlap_factor counts) r) (\<lambda>r.
        data_point env overlap_factor (rem_rounds env stop (stop div 1024)) (\<lambda>ctx. int stop) (s, r)))"

definition test_rem_perf_1d :: "perf_env \<Rightarrow> perf_state \<Rightarrow> perf_state outcome" where
  "test_rem_perf_1d env =
     perf_test env 283 core_totals core_types
       (sweep core_totals core_types (doublings 1024 (million + 1)) (rem_body env) core_counts)
       315 ''remove performance: 1 resource type'' False"

subsection \<open>Adding\<close>

definition add_body :: "perf_env \<Rightarrow> nat \<Rightarrow> nat \<Rightarrow> int list \<Rightarrow> perf_state \<times> perf_run \<Rightarrow> (perf_state \<times> perf_run) outcome" where
  "add_body env stop overlap_factor counts =
     data_point env overlap_factor (rounds stop (add_round env overlap_factor counts)) (\<lambda>ctx. int (planner_span_size ctx))"

definition test_add_perf_1d :: "perf_env \<Rightarrow> perf_state \<Rightarrow> perf_state outcome" where
  "test_add_perf_1d env =
     perf_test env 341 core_totals core_types
       (sweep core_totals core_types (doublings 1024 (million + 1)) (add_body env) core_counts)
       364 ''add performance: 1 resource type'' False"

definition levels_totals :: "int list" where
  "levels_totals = [10, 100, 1000, 10000, 100000]"

definition test_add_perf_5d :: "perf_env \<Rightarrow> perf_state \<Rightarrow> perf_state outcome" where
  "test_add_perf_5d env =
     perf_test env 396 levels_totals [''cluster'', ''rack'', ''node'', ''socket'', ''core'']
       (sweep levels_totals [''cluster'', ''rack'', ''node'', ''socket'', ''core''] (doublings 1024 (million + 1)) (add_body env)
          (map (\<lambda>k. map (\<lambda>x. x div k) levels_totals) [1, 2, 5, 10]))
       421 ''add performance: 5 resource types'' False"

section \<open>The program\<close>

definition test_performance :: "perf_env \<Rightarrow> (perf_state \<Rightarrow> perf_state outcome) \<Rightarrow> string \<Rightarrow> perf_state \<Rightarrow> perf_state outcome" where
  "test_performance env test experiment s = bind (test s) (\<lambda>s. bind (report env experiment s) (\<lambda>(s, rc). Ret s))"

definition test_avail_time_performance :: "perf_env \<Rightarrow> perf_state \<Rightarrow> perf_state outcome" where
  "test_avail_time_performance env = test_performance env (test_avail_time_perf env) ''Planner Resource_Based Query Performance''"

definition test_add_performance :: "perf_env \<Rightarrow> perf_state \<Rightarrow> perf_state outcome" where
  "test_add_performance env = test_performance env (test_add_perf_1d env) ''Planner Add Performance: 1D''"

definition test_add_performance2 :: "perf_env \<Rightarrow> perf_state \<Rightarrow> perf_state outcome" where
  "test_add_performance2 env = test_performance env (test_add_perf_5d env) ''Planner Add Performance: 5D''"

definition test_query_performance :: "perf_env \<Rightarrow> perf_state \<Rightarrow> perf_state outcome" where
  "test_query_performance env = test_performance env (test_query_perf_1d env) ''Planner Time-Based Query Performance''"

definition test_rem_performance :: "perf_env \<Rightarrow> perf_state \<Rightarrow> perf_state outcome" where
  "test_rem_performance env = test_performance env (test_rem_perf_1d env) ''Planner Remove Performance''"

text \<open>Four of the five are commented out in \<open>main\<close>.\<close>

definition test02_main :: "perf_env \<Rightarrow> (tap \<times> int) outcome" where
  "test02_main env =
     bind (test_avail_time_performance env
       \<lparr>exp_data = [], clock_reads = 0, ps_tap = fst (tap_plan 10 None tap_start)\<rparr>)
     (\<lambda>s. Ret (exit_status (ps_tap s)))"

end
