(* ===== verification/Planner_Test02_Exit.thy ===== *)
theory Planner_Test02_Exit
  imports Planner_Test02 Planner_Properties Outcome_Rules
begin

text \<open>
  The performance program of the planner runs to its end, on planners in order, and never exits with success: it
  announces ten checks and makes two.
\<close>

section \<open>Calls on a planner in order\<close>

text \<open>Whatever its arguments, a call of these keeps the invariant; an addition takes at most one id.\<close>

lemma add_span_total:
  assumes "planner_inv ctx" and "zkeys_ok zkeys" and "add_args_ok t duration counts len" and "span_counter ctx < INT64_MAX"
  obtains ctx' r e where "planner_add_span zkeys t duration counts len ctx = Some (ctx', r, e)" and "planner_inv ctx'"
    and "span_counter ctx' \<le> span_counter ctx + 1"
proof (cases "fst (avail_during t duration (map i64 counts) len ctx) \<and>
    span_input_check ctx t duration (map i64 counts) len = None")
  case True
  then obtain ctx' e a b where r: "planner_add_span zkeys t duration counts len ctx = Some (ctx', span_counter ctx + 1, e)" "planner_inv ctx'"
      "frame_of ctx' = (frame_of ctx)\<lparr>avail_time_iter_set := False, span_counter := span_counter ctx + 1,
       span_lookup := (span_counter ctx + 1,
          placed_at a b (new_span t duration counts len (span_counter ctx + 1))) # span_lookup ctx\<rparr>"
    using planner_add_span_ok [OF assms] by blast
  have "span_counter ctx' = span_counter ctx + 1" using r(3) [THEN arg_cong, of span_counter] by (simp add: frame_of_def)
  with that r show thesis by simp
next
  case False
  from planner_add_span_rejected [OF False, of zkeys] that assms(1) show thesis by auto
qed

lemma rem_span_total:
  assumes "planner_inv ctx" and "zkeys_ok zkeys"
  obtains ctx' r e where "planner_rem_span zkeys sid ctx = Some (ctx', r, e)" and "planner_inv ctx'"
proof (cases "map_of (span_lookup ctx) (span_key sid)")
  case None
  with that [of ctx] assms(1) show thesis by (simp add: planner_rem_span_def)
next
  case (Some s)
  with that show thesis by (blast elim: planner_rem_span_ok [OF assms])
qed

section \<open>The runs\<close>

definition run_inv :: "perf_run \<Rightarrow> bool" where
  "run_inv r \<longleftrightarrow> (\<exists>ctx. pr_ctx r = Some ctx \<and> planner_inv ctx)"

definition run_counter :: "nat \<Rightarrow> perf_run \<Rightarrow> bool" where
  "run_counter n r \<longleftrightarrow> (\<exists>ctx. pr_ctx r = Some ctx \<and> planner_inv ctx \<and> span_counter ctx \<le> int n)"

lemma run_counter_inv: "run_counter n r \<Longrightarrow> run_inv r"
  by (auto simp: run_counter_def run_inv_def)

lemma run_upd [simp]:
  "run_inv (r\<lparr>pr_bo := b\<rparr>) = run_inv r" "run_inv (r\<lparr>pr_errno := e\<rparr>) = run_inv r"
  "run_inv (r\<lparr>pr_ctx := Some c\<rparr>) = planner_inv c"
  by (simp_all add: run_inv_def)

lemma add_round_ok:
  assumes "run_counter n r" and "zkeys_ok (pv_zkeys env)" and "n \<le> 4294967296" and "i \<le> 4294967296"
  shows "wp False False (add_round env k counts i r) (run_counter (Suc n))"
proof -
  obtain ctx where c: "pr_ctx r = Some ctx" "planner_inv ctx" "span_counter ctx \<le> int n"
    using assms(1) by (auto simp: run_counter_def)
  have "i div k \<le> 4294967296" using assms(4) div_le_dividend [of i k] by linarith
  then have "int (i div k) \<le> 4294967296" by linarith
  then have "add_args_ok (int (i div k) * 1000) 1000 counts (length counts)" by (simp add: add_args_ok_def)
  from add_span_total [OF c(2) assms(2) this] c(3) assms(3) obtain ctx' x e where
      "planner_add_span (pv_zkeys env) (int (i div k) * 1000) 1000 counts (length counts) ctx = Some (ctx', x, e)"
      "planner_inv ctx'" "span_counter ctx' \<le> span_counter ctx + 1" by auto
  then show ?thesis using c(1,3) by (simp add: add_round_def Let_def call_on_def on_ctx_def run_counter_def)
qed

lemma add_rounds_ok:
  assumes "run_counter 0 r" and "zkeys_ok (pv_zkeys env)" and "stop \<le> 4294967296"
  shows "wp False False (rounds stop (add_round env k counts) r) run_inv"
proof -
  have "wp False False (rounds stop (add_round env k counts) r) (run_counter stop)"
    by (rule wp_rounds [where P = run_counter, OF assms(1)]) (use assms(2,3) in \<open>auto intro!: add_round_ok\<close>)
  then show ?thesis by (rule wp_mono) (rule run_counter_inv)
qed

lemma rem_rounds_ok:
  assumes "run_inv r" and "zkeys_ok (pv_zkeys env)"
  shows "wp False False (rem_rounds env stop stride r) run_inv"
  unfolding rem_rounds_def
proof (rule wp_rounds [where P = "\<lambda>_. run_inv", OF assms(1)])
  fix i r assume "run_inv r"
  then obtain ctx where c: "pr_ctx r = Some ctx" "planner_inv ctx" by (auto simp: run_inv_def)
  obtain ctx' x e where "planner_rem_span (pv_zkeys env) (pr_spans r ! (i * stride)) ctx = Some (ctx', x, e)" "planner_inv ctx'"
    by (rule rem_span_total [OF c(2) assms(2)])
  then show "wp False False (rem_round env stride i r) run_inv"
    using c(1) by (simp add: rem_round_def call_on_def on_ctx_def run_inv_def)
qed

lemma next_rounds_ok: "run_inv r \<Longrightarrow> wp False False (next_rounds n t r) run_inv"
proof (induction n arbitrary: t r)
  case (Suc n)
  obtain ctx where c: "pr_ctx r = Some ctx" "planner_inv ctx" using Suc.prems by (auto simp: run_inv_def)
  obtain ctx' x e where "planner_avail_time_next ctx = (ctx', x, e)" "planner_inv ctx'"
    using planner_avail_time_next_inv(1) [OF c(2)] by (metis fst_conv prod_cases3)
  then show ?case using c(1) Suc by (simp add: call_on_def on_ctx_def run_inv_def)
qed simp

section \<open>The data points and the report\<close>

definition checks_made :: "int \<Rightarrow> tap \<Rightarrow> bool" where
  "checks_made n t \<longleftrightarrow> expected_tests t = 10 \<and> current_test t = n"

definition data_ok :: "nat \<Rightarrow> int \<Rightarrow> perf_state \<Rightarrow> bool" where
  "data_ok n k s \<longleftrightarrow> checks_made k (ps_tap s) \<and> (n > 0 \<longrightarrow> exp_data s \<noteq> []) \<and>
     (\<forall>(l, ps)\<in>set (exp_data s). ps \<noteq> [] \<and> length ps \<le> n)"

lemma checks_made_out [simp]: "checks_made n (out s t) = checks_made n t"
  by (simp add: checks_made_def out_def)

lemma checks_made_ok: "checks_made n t \<Longrightarrow> 0 \<le> n \<Longrightarrow> n < 1000 \<Longrightarrow> checks_made (n + 1) (fst (ok_at_loc file ln c name t))"
  by (simp add: checks_made_def ok_at_loc_def vok_at_loc_def Let_def out_def i32_def)

lemma exit_of_two_checks: "checks_made 2 t \<Longrightarrow> snd (exit_status t) \<noteq> 0"
  by (simp add: checks_made_def exit_status_def Let_def split: prod.split)

lemma map_put_mem: "(l, v) \<in> set (map_put k w m) \<Longrightarrow> (l, v) = (k, w) \<or> (l, v) \<in> set m"
  by (induction k w m rule: map_put.induct) (auto split: if_splits)

lemma map_put_not_Nil [simp]: "map_put k w m \<noteq> []"
  by (induction k w m rule: map_put.induct) auto

lemma data_point_ok:
  assumes "data_ok n k s" and "wp False False (measured r) run_inv"
  shows "wp False False (data_point env j measured cnt (s, r)) (\<lambda>(s, r). data_ok (Suc n) k s \<and> run_inv r)"
  unfolding data_point_def prod.case Let_def
proof (rule wp_bindI [OF assms(2)])
  fix r assume "run_inv r"
  then obtain ctx where "pr_ctx r = Some ctx" "planner_inv ctx" by (auto simp: run_inv_def)
  moreover have "length ps \<le> n" if "map_of (exp_data s) l = Some ps" for l ps
    using map_of_SomeD [OF that] assms(1) by (auto simp: data_ok_def)
  ultimately show "wp False False
      (case pr_ctx r of None \<Rightarrow> Undefined
       | Some ctx \<Rightarrow> Ret (s\<lparr>exp_data := map_put (overlap_label j) ((case map_of (exp_data s) (overlap_label j) of
            None \<Rightarrow> [] | Some ps \<Rightarrow> ps) @ [create_perf ctx (cnt ctx) j (pv_clock env (clock_reads s), pv_clock env (Suc (clock_reads s))) (pr_at r + 1000)]) (exp_data s),
            clock_reads := clock_reads s + 2\<rparr>, r))
      (\<lambda>(s, r). data_ok (Suc n) k s \<and> run_inv r)"
    using assms(1) by (fastforce simp: data_ok_def run_inv_def dest!: map_put_mem split: option.splits)
qed

lemma report_ok:
  assumes "data_ok n k s" and "0 < n" and "n \<le> 20"
  shows "wp False False (report env ex s) (\<lambda>(s, rc). checks_made k (ps_tap s))"
proof (cases "exp_data s")
  case (Cons row rest)
  obtain l ps where row: "row = (l, ps)" by fastforce
  have len: "ps \<noteq> []" "length ps \<le> 20" using assms Cons row by (auto simp: data_ok_def)
  have "(2::nat) ^ (length ps - 1) \<le> 2 ^ 20" by (rule power_increasing) (use len in auto)
  then have "million div 2 ^ (length ps - 1) \<noteq> 0" by (simp add: million_def div_eq_0_iff)
  then show ?thesis using assms(1) len Cons row by (simp add: report_def Let_def data_ok_def)
qed (use assms in \<open>simp add: data_ok_def\<close>)


lemma fresh_planner_ok: "run_counter 0 (fresh_planner core_totals core_types r)"
proof -
  have "totals_ok 1 [10, 0, 0, 0, 0]" by (auto simp: totals_ok_def less_Suc_eq numeral_eq_Suc)
  then have "planner_inv (initialize 0 INT64_MAX (blank_planner [10, 0, 0, 0, 0] [''core''] 1))"
    by (intro initialize_inv) (simp_all add: blank_planner_def)
  moreover have "planner_new 0 INT64_MAX core_totals core_types (length core_types) =
      Inr (initialize 0 INT64_MAX (blank_planner [10, 0, 0, 0, 0] [''core''] 1))"
    by (simp add: planner_new_def padded_def numeral_eq_Suc)
  moreover have "span_counter (initialize 0 INT64_MAX c) = 0" for c by (simp add: initialize_def Let_def)
  ultimately show ?thesis
    by (simp add: fresh_planner_def make_planner_def run_counter_def)
qed

lemma call_on_inv:
  assumes "pr_ctx r = Some ctx" and "f ctx = Some (ctx', x, e)" and "planner_inv ctx'"
  shows "wp False False (call_on f r) (\<lambda>(r, x). run_inv r)"
  using assms by (simp add: call_on_def on_ctx_def run_inv_def)

lemma avail_time_body_ok:
  assumes "data_ok n k s" and "run_counter 0 r" and "zkeys_ok (pv_zkeys env)" and "stop \<le> 4294967296"
  shows "wp False False (avail_time_body env stop j counts (s, r)) (\<lambda>(s, r). data_ok (Suc n) k s \<and> run_inv r)"
  unfolding avail_time_body_def prod.case Let_def
proof (rule wp_bindI [OF add_rounds_ok [OF assms(2-4)]], rule wp_bindI [OF rem_rounds_ok [OF _ assms(3)]], assumption)
  fix r assume "run_inv r"
  then obtain ctx where c: "pr_ctx r = Some ctx" "planner_inv ctx" by (auto simp: run_inv_def)
  obtain ctx' x e where f: "planner_avail_time_first (pv_zkeys env) 1 1 counts 1 ctx = (ctx', x, e)" "planner_inv ctx'"
    using planner_avail_time_first_inv(1) [OF c(2) assms(3)] by (metis fst_conv prod_cases3)
  have s: "data_ok n k (s\<lparr>ps_tap := out (line ''starting now...'') (ps_tap s)\<rparr>)" using assms(1) by (simp add: data_ok_def)
  show "wp False False (bind (call_on (\<lambda>ctx. Some (planner_avail_time_first (pv_zkeys env) 1 1 counts 1 ctx)) r) (\<lambda>(r, t).
        data_point env j (next_rounds (million div 11) t) (\<lambda>ctx. int (planner_span_size ctx))
          (s\<lparr>ps_tap := out (line ''starting now...'') (ps_tap s)\<rparr>, r\<lparr>pr_bo := pr_bo r \<or> t = -1\<rparr>)))
     (\<lambda>(s, r). data_ok (Suc n) k s \<and> run_inv r)"
    by (rule wp_bindI [OF call_on_inv [where x = x and e = e, OF c(1) _ f(2)]]) (use f(1) in \<open>auto intro!: data_point_ok [OF s] next_rounds_ok\<close>)
qed

lemma sweep_ok:
  assumes "data_ok 0 k s" and "zkeys_ok (pv_zkeys env)"
  shows "wp False False (sweep core_totals core_types (doublings (2 * million) (2 * million + 1)) (avail_time_body env) core_counts (s, r))
    (\<lambda>(s, r). data_ok 4 k s)"
proof -
  have d: "doublings (2 * million) (2 * million + 1) = [2 * million]" "doublings (2 * million) (Suc (2 * million)) = [2 * million]"
    by (simp_all add: doublings.simps million_def)
  have b: "wp False False (avail_time_body env (2 * million) j counts (s, fresh_planner core_totals core_types r)) (\<lambda>(s, r). data_ok (Suc n) k s)"
    if "data_ok n k s" for n j counts s r
    by (rule wp_mono [OF avail_time_body_ok [OF that fresh_planner_ok assms(2)]]) (auto simp: million_def)
  have step: "wp False False (each (\<lambda>stop (s, r). avail_time_body env stop (nat (hd core_totals div hd counts)) counts
        (s, fresh_planner core_totals core_types r)) (doublings (2 * million) (2 * million + 1)) st) (\<lambda>(s, r). data_ok (Suc n) k s)"
    if "case st of (s, r) \<Rightarrow> data_ok n k s" for n counts st
    using that by (cases st) (auto simp: d intro: b)
  have all: "wp False False (each (\<lambda>counts. each (\<lambda>stop (s, r). avail_time_body env stop (nat (hd core_totals div hd counts)) counts
        (s, fresh_planner core_totals core_types r)) (doublings (2 * million) (2 * million + 1))) cs st) (\<lambda>(s, r). data_ok (n + length cs) k s)"
    if "case st of (s, r) \<Rightarrow> data_ok n k s" for n cs st
    using that
  proof (induction cs arbitrary: n st)
    case (Cons c cs)
    show ?case unfolding each.simps
      by (rule wp_bindI [OF step [OF Cons.prems]]) (use Cons.IH [of "Suc n"] in simp)
  qed simp
  show ?thesis unfolding sweep_def using all [of 0 "(s, r)" core_counts] assms(1)
    by (simp del: each.simps wp_bind add: numeral_eq_Suc)
qed


lemma ok2_ok:
  "data_ok n k s \<Longrightarrow> 0 \<le> k \<Longrightarrow> k < 1000 \<Longrightarrow> data_ok n (k + 1) (ok2 ln c name s)"
  by (simp add: data_ok_def ok2_def checks_made_ok)

lemma test_ok:
  assumes "data_ok 0 0 s" and "zkeys_ok (pv_zkeys env)"
  shows "wp False False (test_avail_time_performance env s) (\<lambda>s. checks_made 2 (ps_tap s))"
proof -
  have "wp False False (test_avail_time_perf env s) (data_ok 4 2)"
    unfolding test_avail_time_perf_def perf_test_def Let_def
  proof (rule wp_bindI [OF sweep_ok [OF ok2_ok [OF assms(1)] assms(2)]], simp, simp)
    fix x :: "perf_state \<times> perf_run"
    obtain s r where x: "x = (s, r)" by fastforce
    assume "case x of (s, r) \<Rightarrow> data_ok 4 (0 + 1) s"
    then have "data_ok 4 1 s" by (simp add: x)
    from ok2_ok [OF this] have "data_ok 4 2 (ok2 ln c name s)" for ln c name by simp
    then show "wp False False (case x of (s, r) \<Rightarrow> Ret
        (if True then ok2 254 (\<not> pr_bo r \<and> pr_errno r = None) ''resource-based query performance: 1 resource type'' s
          \<lparr>ps_tap := out (line (pv_strerror env (pr_errno r)))
            (ps_tap (ok2 254 (\<not> pr_bo r \<and> pr_errno r = None) ''resource-based query performance: 1 resource type'' s))\<rparr>
         else ok2 254 (\<not> pr_bo r \<and> pr_errno r = None) ''resource-based query performance: 1 resource type'' s)) (data_ok 4 2)"
      by (simp add: x data_ok_def)
  qed
  then show ?thesis
    unfolding test_avail_time_performance_def test_performance_def
    by (rule wp_bindI) (rule wp_bindI [OF report_ok [of 4]], auto)
qed

section \<open>The exit status\<close>

text \<open>
  C15. \<open>planner_test02\<close> ends, without undefined behaviour, and exits with an error: it announces ten checks and
  makes two, whatever the clock and the random times are.
\<close>

theorem test02_never_passes:
  assumes "zkeys_ok (pv_zkeys env)"
  shows "\<exists>t status. test02_main env = Ret (t, status) \<and> status \<noteq> 0"
proof -
  have "data_ok 0 0 \<lparr>exp_data = [], clock_reads = 0, ps_tap = fst (tap_plan 10 None tap_start)\<rparr>"
    by (simp add: data_ok_def checks_made_def tap_plan_def tap_start_def Let_def out_def)
  from test_ok [OF this assms] have "wp False False (test02_main env) (\<lambda>(t, status). status \<noteq> 0)"
    unfolding test02_main_def by (rule wp_bindI) (simp add: split_def exit_of_two_checks)
  then show ?thesis using wp_safe by fastforce
qed

definition sample_perf_env :: perf_env where
  "sample_perf_env = \<lparr>pv_zkeys = id, pv_clock = int, pv_double = (\<lambda>(st, et). show_int (et - st)), pv_query = (\<lambda>seed j n. int j mod n),
     pv_strerror = (\<lambda>e. if e = None then ''Success'' else ''Error'')\<rparr>"

theorem test02_never_passes_witness: "\<exists>t status. test02_main sample_perf_env = Ret (t, status) \<and> status \<noteq> 0"
  by (rule test02_never_passes) (simp add: sample_perf_env_def)

end
